(* ===== verification/Prelude.thy ===== *)
theory Prelude
  imports "HOL-Library.Word" "HOL-Library.Monad_Syntax"
begin

text \<open>
  Shared vocabulary of the development: the C integer types, the errno values the
  sources return, the weakest-precondition predicate \<open>wp\<close> for code in the option monad,
  and generic lemmas on lists and words.

  Every stateful C function is modelled as a HOL function that ends in a state argument and
  returns an optional pair: \<open>Some (r, s)\<close> is a call that returns \<open>r\<close> and leaves the
  state \<open>s\<close>; \<open>None\<close> is a call with no defined outcome (an access outside an object,
  a dereference of a null or error pointer, or a loop that never ends).
\<close>

unbundle bit_operations_syntax

named_theorems wp_intro \<open>weakest-precondition rules of the operations\<close>

section \<open>Types and error numbers\<close>

type_synonym u8 = "8 word"
type_synonym u16 = "16 word"
type_synonym u32 = "32 word"
type_synonym u64 = "64 word"
type_synonym bytes = "8 word list"

abbreviation EACCES :: int where "EACCES \<equiv> 13"
abbreviation EINVAL :: int where "EINVAL \<equiv> 22"
abbreviation ENOMEM :: int where "ENOMEM \<equiv> 12"
abbreviation ENODEV :: int where "ENODEV \<equiv> 19"
abbreviation E2BIG :: int where "E2BIG \<equiv> 7"
abbreviation ENOTSUPP :: int where "ENOTSUPP \<equiv> 524"

section \<open>Total correctness of computations in the option monad\<close>

definition wp :: "('a \<times> 's) option \<Rightarrow> ('a \<Rightarrow> 's \<Rightarrow> bool) \<Rightarrow> bool" where
  "wp m Q = (case m of None \<Rightarrow> False | Some (r, s) \<Rightarrow> Q r s)"

lemma wp_Some [simp]: "wp (Some (r, s)) Q = Q r s"
  by (simp add: wp_def)

lemma wp_None [simp]: "\<not> wp None Q"
  by (simp add: wp_def)

lemma wp_bind [simp]: "wp (Option.bind m f) Q = wp m (\<lambda>r s. wp (f (r, s)) Q)"
  by (cases m) (auto simp: wp_def)

lemma wp_bind_val: "v = Some x \<Longrightarrow> wp (Option.bind v f) Q = wp (f x) Q"
  by simp

lemma wp_weaken: "wp m P \<Longrightarrow> (\<And>r s. P r s \<Longrightarrow> Q r s) \<Longrightarrow> wp m Q"
  by (auto simp: wp_def split: option.splits)

lemma wp_conj: "wp m P \<Longrightarrow> wp m Q \<Longrightarrow> wp m (\<lambda>r s. P r s \<and> Q r s)"
  by (auto simp: wp_def split: option.splits)

lemma wp_if [simp]: "wp (if b then m else n) Q = (if b then wp m Q else wp n Q)"
  by simp

lemma wpE:
  assumes "wp m Q"
  obtains r s where "m = Some (r, s)" and "Q r s"
  using assms by (auto simp: wp_def split: option.splits)

lemma wp_iff: "wp m Q \<longleftrightarrow> (\<exists>r s. m = Some (r, s) \<and> Q r s)"
  by (auto simp: wp_def split: option.splits)

section \<open>Lists\<close>

lemma take_drop_split: "take (m + n) xs = take m xs @ take n (drop m xs)"
  by (simp add: take_add)

lemma list_update_splice:
  "i + length ys \<le> length xs \<Longrightarrow> length (take i xs @ ys @ drop (i + length ys) xs) = length xs"
  by simp

text \<open>
  \<open>chunks n xs\<close> cuts a list into pieces of \<open>n\<close> elements, the last one shorter: the
  reference for every transfer loop of the driver.
\<close>

function chunks :: "nat \<Rightarrow> 'a list \<Rightarrow> 'a list list" where
  "chunks n xs = (if xs = [] \<or> n = 0 then [] else take n xs # chunks n (drop n xs))"
  by pat_completeness auto
termination
  by (relation "measure (\<lambda>(n, xs). length xs)") auto

declare chunks.simps [simp del]

lemma chunks_Nil [simp]: "chunks n [] = []"
  by (simp add: chunks.simps)

lemma chunks_step: "xs \<noteq> [] \<Longrightarrow> 0 < n \<Longrightarrow> chunks n xs = take n xs # chunks n (drop n xs)"
  by (subst chunks.simps) simp

lemma concat_chunks: "0 < n \<Longrightarrow> concat (chunks n xs) = xs"
proof (induction n xs rule: chunks.induct)
  case (1 n xs)
  then show ?case
    by (cases "xs = []") (simp_all add: chunks_step)
qed

lemma chunks_length: "c \<in> set (chunks n xs) \<Longrightarrow> 0 < length c \<and> length c \<le> n"
proof (induction n xs rule: chunks.induct)
  case (1 n xs)
  show ?case
  proof (cases "xs = [] \<or> n = 0")
    case True
    then have "chunks n xs = []" by (subst chunks.simps) simp
    with "1.prems" show ?thesis by simp
  next
    case False
    then have "chunks n xs = take n xs # chunks n (drop n xs)" by (simp add: chunks_step)
    with "1.prems" False "1.IH" show ?thesis by auto
  qed
qed

lemma chunks_short: "xs \<noteq> [] \<Longrightarrow> length xs \<le> n \<Longrightarrow> chunks n xs = [xs]"
proof -
  assume *: "xs \<noteq> []" "length xs \<le> n"
  then have "0 < n" by (cases n) auto
  with * show ?thesis by (simp add: chunks_step)
qed

end
