(* ===== verification/Kernel_Shim.thy ===== *)
theory Kernel_Shim
  imports Prelude
begin

text \<open>
  The arithmetic of \<open>include/linux/kernel.h\<close>: minimum, maximum and clamp macros, byte
  swapping, unaligned little-endian loads, powers of two, \<open>fls\<close> and the encoding of error
  numbers in pointers. Target: 32-bit \<open>unsigned long\<close>, little endian (Raspberry Pi).
\<close>

section \<open>Macros\<close>

definition BIT :: "nat \<Rightarrow> u32" where
  "BIT nr = push_bit nr 1"

definition kmin :: "'a::linorder \<Rightarrow> 'a \<Rightarrow> 'a" where
  "kmin x y = (if x < y then x else y)"

definition kmax :: "'a::linorder \<Rightarrow> 'a \<Rightarrow> 'a" where
  "kmax x y = (if x > y then x else y)"

definition clamp_val :: "'a::linorder \<Rightarrow> 'a \<Rightarrow> 'a \<Rightarrow> 'a" where
  "clamp_val val lo hi = kmin (kmax val lo) hi"

definition swab16 :: "u16 \<Rightarrow> u16" where
  "swab16 x = push_bit 8 (x AND 0x00ff) OR drop_bit 8 (x AND 0xff00)"

definition cpu_to_be64 :: "u64 \<Rightarrow> u64" where
  "cpu_to_be64 x =
     push_bit 56 (x AND 0x00000000000000ff) OR
     push_bit 40 (x AND 0x000000000000ff00) OR
     push_bit 24 (x AND 0x0000000000ff0000) OR
     push_bit 8 (x AND 0x00000000ff000000) OR
     drop_bit 8 (x AND 0x000000ff00000000) OR
     drop_bit 24 (x AND 0x0000ff0000000000) OR
     drop_bit 40 (x AND 0x00ff000000000000) OR
     drop_bit 56 (x AND 0xff00000000000000)"

definition DIV_ROUND_UP :: "u32 \<Rightarrow> u32 \<Rightarrow> u32" where
  "DIV_ROUND_UP n d = (n + d - 1) div d"

definition IS_ALIGNED :: "u32 \<Rightarrow> u32 \<Rightarrow> bool" where
  "IS_ALIGNED x a \<longleftrightarrow> x AND (a - 1) = 0"

definition is_power_of_2 :: "u32 \<Rightarrow> bool" where
  "is_power_of_2 n \<longleftrightarrow> n \<noteq> 0 \<and> n AND (n - 1) = 0"

definition DMA_BIT_MASK :: "nat \<Rightarrow> u64" where
  "DMA_BIT_MASK n = (if n = 64 then NOT 0 else push_bit n 1 - 1)"

section \<open>Unaligned little-endian loads\<close>

text \<open>The pointer is a list of at least 2, 4 or 8 bytes.\<close>

definition get_unaligned_le16 :: "bytes \<Rightarrow> u16" where
  "get_unaligned_le16 p = ucast (p ! 0) OR push_bit 8 (ucast (p ! 1))"

definition get_unaligned_le32 :: "bytes \<Rightarrow> u32" where
  "get_unaligned_le32 p =
     ucast (p ! 0) OR push_bit 8 (ucast (p ! 1)) OR push_bit 16 (ucast (p ! 2)) OR
     push_bit 24 (ucast (p ! 3))"

definition get_unaligned_le64 :: "bytes \<Rightarrow> u64" where
  "get_unaligned_le64 p =
     push_bit 32 (ucast (get_unaligned_le32 (drop 4 p))) OR ucast (get_unaligned_le32 p)"

text \<open>How a little-endian machine lays a word out in memory.\<close>

definition le16 :: "u16 \<Rightarrow> bytes" where
  "le16 x = [ucast x, ucast (drop_bit 8 x)]"

definition le32 :: "u32 \<Rightarrow> bytes" where
  "le32 x = map (\<lambda>i. ucast (drop_bit (8 * i) x)) [0, 1, 2, 3]"

definition le64 :: "u64 \<Rightarrow> bytes" where
  "le64 x = map (\<lambda>i. ucast (drop_bit (8 * i) x)) [0, 1, 2, 3, 4, 5, 6, 7]"

section \<open>Find last set bit\<close>

definition fls_step :: "u32 \<Rightarrow> nat \<Rightarrow> u32 \<times> nat \<Rightarrow> u32 \<times> nat" where
  "fls_step m k = (\<lambda>(x, r). if x AND m = 0 then (push_bit k x, r - k) else (x, r))"

definition fls :: "u32 \<Rightarrow> nat" where
  "fls x =
     (if x = 0 then 0
      else snd (fls_step 0x80000000 1 (fls_step 0xc0000000 2 (fls_step 0xf0000000 4
             (fls_step 0xff000000 8 (fls_step 0xffff0000 16 (x, 32)))))))"

definition ilog2 :: "u32 \<Rightarrow> int" where
  "ilog2 n = int (fls n) - 1"

section \<open>Error numbers in pointers\<close>

definition MAX_ERRNO :: int where
  "MAX_ERRNO = 4095"

definition ERR_PTR :: "int \<Rightarrow> u32" where
  "ERR_PTR e = word_of_int e"

definition PTR_ERR :: "u32 \<Rightarrow> int" where
  "PTR_ERR p = sint p"

definition IS_ERR :: "u32 \<Rightarrow> bool" where
  "IS_ERR p \<longleftrightarrow> word_of_int (- MAX_ERRNO) \<le> p"

section \<open>Lemmas\<close>

lemma kmin_eq_min [simp]: "kmin x y = min x y"
  by (auto simp: kmin_def min_def)

lemma kmax_eq_max [simp]: "kmax x y = max x y"
  by (auto simp: kmax_def max_def)

lemma u8_bit_out [simp]: "8 \<le> n \<Longrightarrow> \<not> bit (w::u8) n"
  using bit_imp_le_length [of w n] by auto

lemma u16_bit_out [simp]: "16 \<le> n \<Longrightarrow> \<not> bit (w::u16) n"
  using bit_imp_le_length [of w n] by auto

lemma u16_masks:
  "(0xff::u16) = mask 8" "(0xff00::u16) = push_bit 8 (mask 8)"
  by (simp_all add: mask_numeral)

lemma le16_swab16: "le16 (swab16 x) = rev (le16 x)"
  unfolding le16_def swab16_def u16_masks
  by (auto simp: bit_simps intro!: bit_word_eqI)

lemma swab16_swab16 [simp]: "swab16 (swab16 x) = x"
  unfolding swab16_def u16_masks
  by (rule bit_word_eqI) (auto simp: bit_simps)

lemma length_le16 [simp]: "length (le16 x) = 2"
  by (simp add: le16_def)

lemma length_le32 [simp]: "length (le32 x) = 4"
  by (simp add: le32_def)

lemma length_le64 [simp]: "length (le64 x) = 8"
  by (simp add: le64_def)

lemma get_unaligned_le16_le16 [simp]: "get_unaligned_le16 (le16 x) = x"
  by (rule bit_word_eqI) (auto simp: get_unaligned_le16_def le16_def bit_simps)

lemma le16_get_unaligned_le16 [simp]: "le16 (get_unaligned_le16 [a, b]) = [a, b]"
  by (auto simp: le16_def get_unaligned_le16_def bit_simps intro!: bit_word_eqI)

lemma u32_bit_out [simp]: "32 \<le> n \<Longrightarrow> \<not> bit (w::u32) n"
  using bit_imp_le_length [of w n] by auto

lemma u64_bit_out [simp]: "64 \<le> n \<Longrightarrow> \<not> bit (w::u64) n"
  using bit_imp_le_length [of w n] by auto

lemma get_unaligned_le32_le32 [simp]: "get_unaligned_le32 (le32 x) = x"
proof (rule bit_word_eqI)
  fix n :: nat
  assume "n < LENGTH(32)"
  then consider "n < 8" | "8 \<le> n" "n < 16" | "16 \<le> n" "n < 24" | "24 \<le> n" "n < 32"
    by (simp; linarith)
  then show "bit (get_unaligned_le32 (le32 x)) n = bit x n"
    by cases (auto simp: get_unaligned_le32_def le32_def bit_simps)
qed

lemma le32_get_unaligned_le32 [simp]: "le32 (get_unaligned_le32 [a, b, c, d]) = [a, b, c, d]"
  by (auto simp: le32_def get_unaligned_le32_def bit_simps intro!: bit_word_eqI)

lemma le64_split: "le64 x = le32 (ucast x) @ le32 (ucast (drop_bit 32 x))"
  by (auto simp: le64_def le32_def bit_simps intro!: bit_word_eqI)

lemma get_unaligned_le64_le64 [simp]: "get_unaligned_le64 (le64 x) = x"
proof -
  have "get_unaligned_le32 (le32 (ucast x) @ ys) = ucast x" for ys
    by (subst get_unaligned_le32_le32 [symmetric])
      (simp add: get_unaligned_le32_def nth_append)
  then show ?thesis
    by (simp add: le64_split get_unaligned_le64_def) (rule bit_word_eqI, auto simp: bit_simps)
qed

lemma u64_masks:
  "(0x00000000000000ff::u64) = mask 8"
  "(0x000000000000ff00::u64) = push_bit 8 (mask 8)"
  "(0x0000000000ff0000::u64) = push_bit 16 (mask 8)"
  "(0x00000000ff000000::u64) = push_bit 24 (mask 8)"
  "(0x000000ff00000000::u64) = push_bit 32 (mask 8)"
  "(0x0000ff0000000000::u64) = push_bit 40 (mask 8)"
  "(0x00ff000000000000::u64) = push_bit 48 (mask 8)"
  "(0xff00000000000000::u64) = push_bit 56 (mask 8)"
  by (simp_all add: mask_numeral)

lemma bit_cpu_to_be64:
  assumes "n < 8"
  shows "bit (cpu_to_be64 x) n = bit x (56 + n)"
    and "bit (cpu_to_be64 x) (8 + n) = bit x (48 + n)"
    and "bit (cpu_to_be64 x) (16 + n) = bit x (40 + n)"
    and "bit (cpu_to_be64 x) (24 + n) = bit x (32 + n)"
    and "bit (cpu_to_be64 x) (32 + n) = bit x (24 + n)"
    and "bit (cpu_to_be64 x) (40 + n) = bit x (16 + n)"
    and "bit (cpu_to_be64 x) (48 + n) = bit x (8 + n)"
    and "bit (cpu_to_be64 x) (56 + n) = bit x n"
  using assms unfolding cpu_to_be64_def u64_masks
  by (simp_all add: bit_simps)

lemma le64_cpu_to_be64: "le64 (cpu_to_be64 x) = rev (le64 x)"
  by (auto simp: le64_def bit_simps bit_cpu_to_be64 intro!: bit_word_eqI)

lemma unat_2p_u32: "k < 32 \<Longrightarrow> unat (2 ^ k :: u32) = 2 ^ k"
  using unat_of_nat [of "2 ^ k", where 'a = 32] power_strict_increasing [of k 32 "2::nat"]
  by simp

lemma word_and_high_mask_0_iff:
  fixes x :: "'a::len word"
  assumes "k \<le> LENGTH('a)"
  shows "x AND push_bit k (mask (LENGTH('a) - k)) = 0 \<longleftrightarrow> unat x < 2 ^ k"
proof -
  have "x AND push_bit k (mask (LENGTH('a) - k)) = 0 \<longleftrightarrow> take_bit k x = x"
  proof
    assume *: "x AND push_bit k (mask (LENGTH('a) - k)) = 0"
    show "take_bit k x = x"
    proof (rule bit_word_eqI)
      fix n assume "n < LENGTH('a)"
      moreover from * have "\<not> bit (x AND push_bit k (mask (LENGTH('a) - k))) n" by simp
      ultimately show "bit (take_bit k x) n = bit x n" by (auto simp: bit_simps)
    qed
  next
    assume *: "take_bit k x = x"
    show "x AND push_bit k (mask (LENGTH('a) - k)) = 0"
    proof (rule bit_word_eqI)
      fix n assume "n < LENGTH('a)"
      have "bit x n = (n < k \<and> bit x n)" using * by (metis bit_take_bit_iff)
      then show "bit (x AND push_bit k (mask (LENGTH('a) - k))) n = bit 0 n" by (auto simp: bit_simps)
    qed
  qed
  also have "\<dots> \<longleftrightarrow> unat x < 2 ^ k"
    by (metis take_bit_nat_eq_self_iff unsigned_take_bit_eq word_unat_eq_iff)
  finally show ?thesis .
qed

section \<open>Correctness of \<open>fls\<close> and of the power-of-two test\<close>

text \<open>One step of \<open>fls\<close> keeps \<open>x\<close> scaled so that its top bit is bit \<open>r - 1\<close> of the input.\<close>

definition fls_inv :: "nat \<Rightarrow> nat \<Rightarrow> u32 \<times> nat \<Rightarrow> bool" where
  "fls_inv n0 k = (\<lambda>(x, r). k \<le> r \<and> r \<le> 32 \<and> unat x = n0 * 2 ^ (32 - r) \<and> 2 ^ (32 - k) \<le> unat x)"

lemma fls_step_inv:
  assumes "fls_inv n0 (2 * k) s" and "0 < k" and "2 * k \<le> 32"
    and m: "m = push_bit (32 - k) (mask k)"
  shows "fls_inv n0 k (fls_step m k s)"
proof -
  obtain x r where s: "s = (x, r)" by (cases s)
  with assms have x: "2 * k \<le> r" "r \<le> 32" "unat x = n0 * 2 ^ (32 - r)" "2 ^ (32 - 2 * k) \<le> unat x"
    by (auto simp: fls_inv_def)
  have t: "x AND m = 0 \<longleftrightarrow> unat x < 2 ^ (32 - k)"
    using word_and_high_mask_0_iff [of "32 - k" x] assms(3) m by simp
  show ?thesis
  proof (cases "unat x < 2 ^ (32 - k)")
    case False
    with t x s show ?thesis by (auto simp: fls_inv_def fls_step_def)
  next
    case True
    have "unat x * 2 ^ k < 2 ^ (32 - k) * 2 ^ k"
      using True by simp
    also have "\<dots> = 2 ^ 32" using assms(3) by (simp flip: power_add)
    finally have "unat x * 2 ^ k < 2 ^ 32" .
    moreover have "unat (2 ^ k :: u32) = 2 ^ k"
      using assms(2,3) by (intro unat_2p_u32) simp
    ultimately have "unat (push_bit k x) = unat x * 2 ^ k"
      by (simp add: push_bit_eq_mult unat_word_ariths)
    moreover have "2 ^ (32 - k) = 2 ^ (32 - 2 * k) * (2::nat) ^ k"
      using assms(3) by (simp flip: power_add)
    moreover have "(2::nat) ^ (32 - (r - k)) = 2 ^ (32 - r) * 2 ^ k"
      using x by (simp flip: power_add)
    moreover have "k \<le> r - k" "r - k \<le> 32" using x by auto
    ultimately show ?thesis using True t x s
      by (auto simp: fls_inv_def fls_step_def)
  qed
qed

lemma fls_bounds:
  assumes "x \<noteq> 0"
  shows "0 < fls x \<and> fls x \<le> 32 \<and> 2 ^ (fls x - 1) \<le> unat x \<and> unat x < 2 ^ fls x"
proof -
  let ?s = "fls_step 0x80000000 1 (fls_step 0xc0000000 2 (fls_step 0xf0000000 4
             (fls_step 0xff000000 8 (fls_step 0xffff0000 16 (x, 32)))))"
  have "fls_inv (unat x) 32 (x, 32)"
    using assms by (simp add: fls_inv_def unat_gt_0 Suc_leI)
  then have "fls_inv (unat x) 16 (fls_step 0xffff0000 16 (x, 32))" (is "fls_inv _ _ ?s16")
    by (intro fls_step_inv) (simp_all add: mask_numeral)
  then have "fls_inv (unat x) 8 (fls_step 0xff000000 8 ?s16)" (is "fls_inv _ _ ?s8")
    by (intro fls_step_inv) (simp_all add: mask_numeral)
  then have "fls_inv (unat x) 4 (fls_step 0xf0000000 4 ?s8)" (is "fls_inv _ _ ?s4")
    by (intro fls_step_inv) (simp_all add: mask_numeral)
  then have "fls_inv (unat x) 2 (fls_step 0xc0000000 2 ?s4)" (is "fls_inv _ _ ?s2")
    by (intro fls_step_inv) (simp_all add: mask_numeral)
  then have "fls_inv (unat x) 1 ?s"
    by (intro fls_step_inv) (simp_all add: mask_numeral)
  then obtain y where y: "1 \<le> fls x" "fls x \<le> 32" "unat (y::u32) = unat x * 2 ^ (32 - fls x)"
      "2 ^ 31 \<le> unat y"
    using assms by (cases ?s) (auto simp: fls_inv_def fls_def)
  have "unat y < 2 ^ 32" using unsigned_less [of y] by simp
  then have "unat x * 2 ^ (32 - fls x) < 2 ^ fls x * 2 ^ (32 - fls x)"
    using y(2,3) by (simp flip: power_add)
  moreover have "2 ^ (fls x - 1) * 2 ^ (32 - fls x) \<le> unat x * (2::nat) ^ (32 - fls x)"
    using y by (simp flip: power_add)
  ultimately show ?thesis using y(1,2) by simp
qed

lemma ilog2_eq:
  "x \<noteq> 0 \<Longrightarrow> 0 \<le> ilog2 x \<and> 2 ^ nat (ilog2 x) \<le> unat x \<and> unat x < 2 ^ Suc (nat (ilog2 x))"
  using fls_bounds [of x] by (cases "fls x") (auto simp: ilog2_def)

lemma is_power_of_2_iff: "is_power_of_2 n \<longleftrightarrow> (\<exists>k < 32. n = 2 ^ k)"
proof
  assume n: "is_power_of_2 n"
  let ?k = "fls n - 1"
  have b: "0 < fls n" "fls n \<le> 32" "2 ^ ?k \<le> unat n" "unat n < 2 ^ fls n"
    using fls_bounds [of n] n by (auto simp: is_power_of_2_def)
  have "unat n < 2 ^ Suc ?k" using b by simp
  have "n = 2 ^ ?k"
  proof (rule ccontr)
    assume "n \<noteq> 2 ^ ?k"
    then have "unat n \<noteq> 2 ^ ?k"
      using b by (metis One_nat_def Suc_pred le_imp_less_Suc less_Suc_eq_le unat_2p_u32 word_unat_eq_iff Suc_le_lessD)
    with b have g: "2 ^ ?k < unat n" by simp
    have bitk: "bit m ?k" if "2 ^ ?k \<le> unat m" "unat m < 2 ^ Suc ?k" for m :: u32
    proof -
      have "unat m div 2 ^ ?k = 1"
        using that by (intro div_nat_eqI) auto
      then have "bit (unat m) ?k" by (simp add: bit_iff_odd)
      then show ?thesis using b by (simp add: bit_unsigned_iff)
    qed
    have "unat (n - 1) = unat n - 1"
      using g by (intro unat_minus_one) auto
    then have "bit (n - 1) ?k" "bit n ?k"
      using g \<open>unat n < 2 ^ Suc ?k\<close> bitk [of "n - 1"] bitk [of n] by linarith+
    then have "bit (n AND (n - 1)) ?k" by (simp add: bit_and_iff)
    with n show False by (simp add: is_power_of_2_def)
  qed
  moreover have "?k < 32" using b by simp
  ultimately show "\<exists>k < 32. n = 2 ^ k" by blast
next
  assume "\<exists>k < 32. n = 2 ^ k"
  then obtain k where k: "k < 32" "n = 2 ^ k" by blast
  have "n - 1 = mask k" using k by (simp add: mask_eq_exp_minus_1)
  moreover have "n \<noteq> 0" using k unat_2p_u32 [of k] by auto
  moreover have "(2::u32) ^ k AND mask k = 0"
    by (rule bit_word_eqI) (auto simp: bit_simps)
  ultimately show "is_power_of_2 n" using k by (simp add: is_power_of_2_def)
qed

section \<open>Error pointers\<close>

lemma mod_2_32_neg: "- 4295 \<le> e \<Longrightarrow> e < 0 \<Longrightarrow> e mod 4294967296 = e + (4294967296::int)"
  using mod_pos_pos_trivial [of "e + 4294967296" "4294967296"] by simp

lemma IS_ERR_ERR_PTR: "- MAX_ERRNO \<le> e \<Longrightarrow> e < 0 \<Longrightarrow> IS_ERR (ERR_PTR e)"
  by (simp add: IS_ERR_def ERR_PTR_def MAX_ERRNO_def word_le_def uint_word_of_int mod_2_32_neg)

lemma PTR_ERR_ERR_PTR: "- MAX_ERRNO \<le> e \<Longrightarrow> e < 0 \<Longrightarrow> PTR_ERR (ERR_PTR e) = e"
  by (simp add: PTR_ERR_def ERR_PTR_def MAX_ERRNO_def sint_sbintrunc' signed_take_bit_int_eq_self)

end
