(* ===== verification/Machine.thy ===== *)
theory Machine
  imports Kernel_Shim
begin

text \<open>
  The machine the program runs on: memory made of separate blocks, the structures the
  driver keeps, and the operating system.

  Memory. A pointer is a block and an offset, as in C's object model; every \<open>malloc\<close>,
  \<open>mmap\<close> or local array gives a fresh block. A load or store outside a live block is
  \<open>None\<close>.

  Operating system. The kernel, the C allocator and the devices behind them are not part of the
  program, so they are a parameter \<open>os\<close>: each call of the program is logged in the trace of
  the state, and a field of \<open>os\<close> gives the outcome as a function of the trace up to and
  including that call. Nothing is assumed of these functions unless a theorem says so;
  \<open>os_good\<close> collects the documented results of calls that succeed.
\<close>

section \<open>Data of the program\<close>

datatype ptr = Null | Ptr nat nat

fun padd :: "ptr \<Rightarrow> nat \<Rightarrow> ptr" where
  "padd Null n = Null"
| "padd (Ptr b i) n = Ptr b (i + n)"

text \<open>The result of a function that returns a pointer, NULL or \<open>ERR_PTR\<close>.\<close>

datatype 'a errptr = PNull | PErr int | PObj 'a

text \<open>
  The fourcc codes the sources name. They are constants of the kernel's \<open>drm_fourcc.h\<close>,
  which is not part of the repository, so they are symbols here.
\<close>

datatype pixel_format =
  DRM_FORMAT_C8 | DRM_FORMAT_XRGB1555 | DRM_FORMAT_RGB565 | DRM_FORMAT_RGB888 |
  DRM_FORMAT_XRGB8888 | DRM_FORMAT_XRGB2101010 | DRM_FORMAT_ARGB8888 | Other_format u32

text \<open>\<open>struct drm_clip_rect\<close>: four \<open>unsigned short\<close>.\<close>

record clip_rect =
  x1 :: u16
  y1 :: u16
  x2 :: u16
  y2 :: u16

record drm_display_mode =
  mode_name :: string
  mode_type :: u32
  clock :: int
  hdisplay :: int
  hsync_start :: int
  hsync_end :: int
  htotal :: int
  hskew :: int
  vdisplay :: int
  vsync_start :: int
  vsync_end :: int
  vtotal :: int
  vscan :: int
  mode_flags :: u32
  width_mm :: int
  height_mm :: int
  vrefresh :: int

text \<open>
  \<open>struct drm_mode_modeinfo\<close>, the copy handed to the kernel; it has no size in millimetres.
\<close>

record umode =
  um_clock :: int
  um_hdisplay :: int
  um_hsync_start :: int
  um_hsync_end :: int
  um_htotal :: int
  um_hskew :: int
  um_vdisplay :: int
  um_vsync_start :: int
  um_vsync_end :: int
  um_vtotal :: int
  um_vscan :: int
  um_vrefresh :: int
  um_flags :: u32
  um_type :: u32
  um_name :: string

text \<open>\<open>struct drm_mode_fb_cmd\<close>, as \<open>DRM_IOCTL_MODE_GETFB\<close> fills it in.\<close>

record fb_cmd =
  info_width :: u32
  info_height :: u32
  info_pitch :: u32
  info_bpp :: u32
  info_depth :: u32
  info_handle :: u32

text \<open>\<open>struct spi_ioc_transfer\<close> of the patched \<open>spidev\<close>.\<close>

record ioc_xfer =
  ioc_tx_buf :: ptr
  ioc_rx_buf :: ptr
  ioc_tx_dma_fd :: int
  ioc_dma_offset :: u32
  ioc_len :: nat
  ioc_speed_hz :: u32
  ioc_bits_per_word :: u8

text \<open>
  The events read from \<open>/dev/udrm\<close>. A dirty event carries the framebuffer, whether the
  \<open>DRM_MODE_FB_DIRTY_ANNOTATE_COPY\<close> flag is set, the colour, \<open>num_clips\<close> and the clips
  that are in the event buffer.
\<close>

datatype udrm_event =
    UDRM_EVENT_PIPE_ENABLE
  | UDRM_EVENT_PIPE_DISABLE
  | UDRM_EVENT_FB_CREATE u32
  | UDRM_EVENT_FB_DESTROY u32
  | UDRM_EVENT_FB_DIRTY u32 bool u32 nat "clip_rect list"
  | Unknown_event u32

section \<open>Calls to the operating system\<close>

text \<open>
  How the kernel hands pixels over, asked for when the device is created. The number is defined in
  \<open>udrm.h\<close>, which is not in the repository.
\<close>

datatype udrm_buf_mode = UDRM_BUF_MODE_SWAP_BYTES | Other_buf_mode u32

text \<open>
  One constructor per call. \<open>Ev_spi\<close> carries the transfers and the bytes the kernel
  copies from the user buffer of each; \<open>Ev_create_dumb\<close> to \<open>Ev_munmap\<close> are the
  calls of the DRM and udrm drivers, with the flags of the export (2 is \<open>O_RDWR\<close>) and the
  protection of the mapping (1 is \<open>PROT_READ\<close>, 2 \<open>PROT_WRITE\<close>); \<open>Ev_reply\<close> is the answer written to \<open>/dev/udrm\<close>.
\<close>

datatype sysev =
    Ev_alloc nat
  | Ev_free nat
  | Ev_open string
  | Ev_close int
  | Ev_write int string
  | Ev_access string
  | Ev_usleep nat
  | Ev_spi int "ioc_xfer list" "bytes list"
  | Ev_create_dumb int u32 u32 u32
  | Ev_prime_to_fd int u32 nat
  | Ev_getfb int u32
  | Ev_dev_create int umode "pixel_format list" udrm_buf_mode string
  | Ev_mmap int nat nat
  | Ev_munmap ptr int
  | Ev_read int
  | Ev_reply int int
  | Ev_poll int

record os =
  os_alloc :: "sysev list \<Rightarrow> bool"
  os_junk :: "sysev list \<Rightarrow> nat \<Rightarrow> u8"
  os_ret :: "sysev list \<Rightarrow> int"
  os_errno :: "sysev list \<Rightarrow> int"
  os_rx :: "sysev list \<Rightarrow> nat \<Rightarrow> u8"
  os_dumb :: "sysev list \<Rightarrow> u32 \<times> u32 \<times> nat"
  os_prime_fd :: "sysev list \<Rightarrow> int"
  os_fb :: "sysev list \<Rightarrow> fb_cmd"
  os_dev :: "sysev list \<Rightarrow> int \<times> int"
  os_map :: "sysev list \<Rightarrow> nat \<Rightarrow> u8"
  os_event :: "sysev list \<Rightarrow> udrm_event"
  os_hangup :: "sysev list \<Rightarrow> bool"

section \<open>State of the program\<close>

text \<open>\<open>struct udmabuf\<close>, the DMA buffer of \<open>utinydrm_get_tx_buf\<close>.\<close>

record udmabuf =
  dm_fd :: int
  dm_map :: ptr
  dm_map_size :: nat

text \<open>\<open>struct utinydrm_fb\<close> with the \<open>drm_framebuffer\<close> inside it.\<close>

record utinydrm_fb =
  fb_id :: u32
  fb_handle :: u32
  fb_buf_fd :: int
  fb_map_size :: int
  fb_map :: ptr
  fb_pitch :: u32
  fb_width :: u32
  fb_height :: u32
  fb_format :: pixel_format
  fb_dirty_set :: bool

text \<open>
  \<open>struct spi_device\<close> and its master; \<open>drvdata\<close> and \<open>utinydrm\<close> say whether
  \<open>dev.driver_data\<close> and \<open>dev.utinydrm\<close> have been set to the one device.
\<close>

record spi_device =
  max_speed_hz :: u32
  max_dma_len :: u32
  bits_per_word_mask :: u32
  drvdata :: bool
  utinydrm :: bool

record gpio_desc =
  gpio_fd :: int
  gpio_nr :: nat
  gpio_name :: string

record mipi_dbi_spi =
  ram_reg :: u32
  ms_dc :: "gpio_desc option"
  write_only :: bool
  ms_tx_buf :: ptr
  chunk_size :: u32

record mipi_dbi =
  reset_gpio :: "gpio_desc option"
  rotation :: u32
  backlight :: "gpio_desc option"
  enable_delay_ms :: nat
  regulator :: bool

text \<open>
  Everything the program changes: memory, the trace of system calls, \<open>errno\<close>, the global
  \<open>tx_buf\<close>, the SPI device, the bus state, the controller, \<open>struct utinydrm\<close> with
  its list of framebuffers, and the fields of \<open>struct tinydrm_device\<close>.
\<close>

record state =
  mem :: "nat \<Rightarrow> bytes option"
  nblk :: nat
  trace :: "sysev list"
  errno :: int
  tx_buf :: "udmabuf errptr"
  spi :: spi_device
  mspi :: mipi_dbi_spi
  mipi :: mipi_dbi
  udev_fd :: int
  udev_control_fd :: int
  udev_buf_fd :: int
  udev_mode :: umode
  udev_fb_funcs :: bool
  fbs :: "utinydrm_fb list"
  pipe_funcs :: bool
  plane_fb :: "u32 option"
  prepared :: bool
  enabled :: bool
  min_width :: int
  min_height :: int

section \<open>Memory operations\<close>

fun load :: "state \<Rightarrow> ptr \<Rightarrow> nat \<Rightarrow> bytes option" where
  "load w Null n = (if n = 0 then Some [] else None)"
| "load w (Ptr b i) n =
     (case mem w b of
        None \<Rightarrow> None
      | Some bs \<Rightarrow> if i + n \<le> length bs then Some (take n (drop i bs)) else None)"

fun store :: "ptr \<Rightarrow> bytes \<Rightarrow> state \<Rightarrow> (unit \<times> state) option" where
  "store Null bs w = (if bs = [] then Some ((), w) else None)"
| "store (Ptr b i) bs w =
     (case mem w b of
        None \<Rightarrow> None
      | Some old \<Rightarrow>
          if i + length bs \<le> length old
          then Some ((), w\<lparr>mem := (mem w)(b \<mapsto> take i old @ bs @ drop (i + length bs) old)\<rparr>)
          else None)"

definition memcpy :: "ptr \<Rightarrow> ptr \<Rightarrow> nat \<Rightarrow> state \<Rightarrow> (unit \<times> state) option" where
  "memcpy dst src n w = do { bs \<leftarrow> load w src n; store dst bs w }"

definition new_block :: "bytes \<Rightarrow> state \<Rightarrow> (ptr \<times> state) option" where
  "new_block bs w =
     Some (Ptr (nblk w) 0, w\<lparr>mem := (mem w)(nblk w \<mapsto> bs), nblk := Suc (nblk w)\<rparr>)"

text \<open>A local array leaves memory when its function returns.\<close>

fun drop_block :: "ptr \<Rightarrow> state \<Rightarrow> (unit \<times> state) option" where
  "drop_block Null w = Some ((), w)"
| "drop_block (Ptr b i) w = Some ((), w\<lparr>mem := (mem w)(b := None)\<rparr>)"

definition log_evs :: "sysev list \<Rightarrow> state \<Rightarrow> state" where
  "log_evs es w = w\<lparr>trace := trace w @ es\<rparr>"

abbreviation log_ev :: "sysev \<Rightarrow> state \<Rightarrow> state" where
  "log_ev e \<equiv> log_evs [e]"

definition alloc :: "os \<Rightarrow> nat \<Rightarrow> (sysev list \<Rightarrow> bytes) \<Rightarrow> state \<Rightarrow> (ptr \<times> state) option" where
  "alloc os n content w =
     (let w = log_ev (Ev_alloc n) w
      in if os_alloc os (trace w) then new_block (content (trace w)) w
         else Some (Null, w\<lparr>errno := ENOMEM\<rparr>))"

definition kmalloc :: "os \<Rightarrow> nat \<Rightarrow> state \<Rightarrow> (ptr \<times> state) option" where
  "kmalloc os n = alloc os n (\<lambda>h. map (os_junk os h) [0..<n])"

definition kzalloc :: "os \<Rightarrow> nat \<Rightarrow> state \<Rightarrow> (ptr \<times> state) option" where
  "kzalloc os n = alloc os n (\<lambda>h. replicate n 0)"

fun kfree :: "ptr \<Rightarrow> state \<Rightarrow> (unit \<times> state) option" where
  "kfree Null w = Some ((), w)"
| "kfree (Ptr b i) w =
     (if i = 0 \<and> mem w b \<noteq> None
      then Some ((), log_ev (Ev_free b) (w\<lparr>mem := (mem w)(b := None)\<rparr>))
      else None)"

definition syscall :: "os \<Rightarrow> sysev \<Rightarrow> state \<Rightarrow> (int \<times> state) option" where
  "syscall os e w =
     (let w = log_ev e w; r = os_ret os (trace w)
      in Some (r, w\<lparr>errno := (if r < 0 then os_errno os (trace w) else errno w)\<rparr>))"

definition usleep :: "nat \<Rightarrow> state \<Rightarrow> (unit \<times> state) option" where
  "usleep us w = Some ((), log_ev (Ev_usleep us) w)"

definition msleep :: "nat \<Rightarrow> state \<Rightarrow> (unit \<times> state) option" where
  "msleep ms = usleep (ms * 1000)"

section \<open>An operating system whose calls succeed\<close>

text \<open>
  The documented success values: an ioctl on \<open>spidev\<close> returns the number of bytes
  transferred, \<open>DRM_IOCTL_MODE_CREATE_DUMB\<close> returns 0, the others return no negative value.
\<close>

definition ret_ok :: "sysev \<Rightarrow> int \<Rightarrow> bool" where
  "ret_ok e r =
     (case e of Ev_spi _ _ _ \<Rightarrow> 1 \<le> r | Ev_create_dumb _ _ _ _ \<Rightarrow> r = 0 | _ \<Rightarrow> 0 \<le> r)"

definition os_good :: "os \<Rightarrow> bool" where
  "os_good os \<longleftrightarrow> (\<forall>h. os_alloc os h) \<and> (\<forall>h e. ret_ok e (os_ret os (h @ [e])))"

text \<open>A concrete instance, used by the witnesses.\<close>

definition os0 :: os where
  "os0 = \<lparr>
     os_alloc = \<lambda>_. True,
     os_junk = \<lambda>_ _. 0xAA,
     os_ret = \<lambda>h. (case last h of Ev_create_dumb _ _ _ _ \<Rightarrow> 0 | _ \<Rightarrow> 1),
     os_errno = \<lambda>_. 5,
     os_rx = \<lambda>_ _. 0,
     os_dumb = \<lambda>_. (7, 640, 153600),
     os_prime_fd = \<lambda>_. 9,
     os_fb = \<lambda>_. \<lparr>info_width = 320, info_height = 240, info_pitch = 640, info_bpp = 16,
                   info_depth = 16, info_handle = 3\<rparr>,
     os_dev = \<lambda>_. (0, 11),
     os_map = \<lambda>_ _. 0,
     os_event = \<lambda>_. UDRM_EVENT_PIPE_ENABLE,
     os_hangup = \<lambda>_. True\<rparr>"

section \<open>Lemmas\<close>

lemma log_evs_simps [simp]:
  "trace (log_evs es w) = trace w @ es" "mem (log_evs es w) = mem w"
  "nblk (log_evs es w) = nblk w" "errno (log_evs es w) = errno w"
  "tx_buf (log_evs es w) = tx_buf w" "spi (log_evs es w) = spi w" "mspi (log_evs es w) = mspi w"
  "mipi (log_evs es w) = mipi w" "fbs (log_evs es w) = fbs w"
  "prepared (log_evs es w) = prepared w" "enabled (log_evs es w) = enabled w"
  "udev_buf_fd (log_evs es w) = udev_buf_fd w" "udev_fd (log_evs es w) = udev_fd w"
  "udev_control_fd (log_evs es w) = udev_control_fd w" "pipe_funcs (log_evs es w) = pipe_funcs w"
  "plane_fb (log_evs es w) = plane_fb w" "udev_fb_funcs (log_evs es w) = udev_fb_funcs w"
  "udev_mode (log_evs es w) = udev_mode w"
  "min_width (log_evs es w) = min_width w" "min_height (log_evs es w) = min_height w"
  by (simp_all add: log_evs_def)

lemma log_evs_log_evs [simp]: "log_evs es (log_evs fs w) = log_evs (fs @ es) w"
  by (simp add: log_evs_def)

lemma log_evs_Nil [simp]: "log_evs [] w = w"
  by (simp add: log_evs_def)

lemma padd_0 [simp]: "padd p 0 = p"
  by (cases p) auto

lemma padd_padd [simp]: "padd (padd p m) n = padd p (m + n)"
  by (cases p) auto

lemma os_good_os0: "os_good os0"
  by (auto simp: os_good_def os0_def ret_ok_def split: sysev.split)

lemma os_goodD:
  assumes "os_good os"
  shows "os_alloc os h" and "ret_ok e (os_ret os (h @ [e]))"
  using assms by (auto simp: os_good_def)

text \<open>What a successful call does: it is logged and nothing else changes.\<close>

lemma syscall_ok:
  assumes "os_good os" and "\<And>r. ret_ok e r \<Longrightarrow> 0 \<le> r"
  shows "syscall os e w = Some (os_ret os (trace w @ [e]), log_ev e w)"
  using assms(2) [OF os_goodD(2) [OF assms(1), of e "trace w"]]
  by (simp add: syscall_def Let_def log_evs_def)

lemma load_log_evs [simp]: "load (log_evs es w) p n = load w p n"
  by (cases p) simp_all

lemma load_0_len: "load w p n = Some bs \<Longrightarrow> length bs = n"
  by (cases p) (auto split: if_splits option.splits)

lemma load_cong: "mem w = mem w' \<Longrightarrow> load w p n = load w' p n"
  by (cases p) simp_all

text \<open>A load from the part just stored gives the bytes stored.\<close>

lemma load_store_same:
  assumes "store p bs w = Some ((), w')"
  shows "load w' p (length bs) = Some bs"
proof (cases p)
  case Null
  with assms show ?thesis by (simp split: if_splits)
next
  case (Ptr b i)
  with assms show ?thesis by (auto split: option.splits if_splits)
qed

text \<open>A store does not touch other blocks.\<close>

lemma load_store_other:
  assumes "store (Ptr b i) bs w = Some ((), w')" and "b \<noteq> c"
  shows "load w' (Ptr c j) n = load w (Ptr c j) n"
  using assms by (auto split: option.splits if_splits)

lemma load_Some_append:
  assumes "load w p (m + n) = Some bs"
  shows "load w p m = Some (take m bs) \<and> load w (padd p m) n = Some (drop m bs)"
proof (cases p)
  case Null
  with assms show ?thesis by (auto split: if_splits)
next
  case (Ptr b i)
  with assms obtain xs where "mem w b = Some xs" "i + (m + n) \<le> length xs"
    "bs = take (m + n) (drop i xs)"
    by (auto split: option.splits if_splits)
  with Ptr show ?thesis by (simp add: drop_take add.commute)
qed

end
