(* ===== verification/Spi.thy ===== *)
theory Spi
  imports Machine
begin

text \<open>
  \<open>spi.c\<close> and the parts of \<open>include/linux/spi/spi.h\<close> it uses: how one SPI message becomes
  ioctls on \<open>/dev/spidev0.0\<close>. The message's list of transfers is a HOL list (theory
  \<open>Linux_List\<close> shows that the linked list of \<open>list.h\<close> implements it).
\<close>

section \<open>Transfers\<close>

record spi_transfer =
  tr_tx_buf :: ptr
  tr_rx_buf :: ptr
  tr_len :: nat
  tr_bits_per_word :: u8
  tr_speed_hz :: u32

abbreviation zero_transfer :: spi_transfer where
  "zero_transfer \<equiv> \<lparr>tr_tx_buf = Null, tr_rx_buf = Null, tr_len = 0, tr_bits_per_word = 0,
                     tr_speed_hz = 0\<rparr>"

abbreviation zero_ioc :: ioc_xfer where
  "zero_ioc \<equiv> \<lparr>ioc_tx_buf = Null, ioc_rx_buf = Null, ioc_tx_dma_fd = 0, ioc_dma_offset = 0,
                ioc_len = 0, ioc_speed_hz = 0, ioc_bits_per_word = 0\<rparr>"

definition SPI_BPW_MASK :: "nat \<Rightarrow> u32" where
  "SPI_BPW_MASK bits = BIT (bits - 1)"

text \<open>\<open>spi_max_transfer_size\<close>: \<open>SIZE_MAX\<close> of a 32-bit machine.\<close>

definition spi_max_transfer_size :: "spi_device \<Rightarrow> u32" where
  "spi_max_transfer_size s = 0xffffffff"

definition spi_message_init_with_transfers :: "spi_transfer list \<Rightarrow> spi_transfer list" where
  "spi_message_init_with_transfers xfers = foldl (\<lambda>m t. m @ [t]) [] xfers"

section \<open>The ioctl\<close>

text \<open>
  The kernel copies the bytes of every transfer that has a user buffer before it sends
  anything, and fills the receive buffers when the message succeeded.
\<close>

fun payloads :: "state \<Rightarrow> ioc_xfer list \<Rightarrow> bytes list option" where
  "payloads w [] = Some []"
| "payloads w (x # xs) = do {
     bs \<leftarrow> (if ioc_tx_buf x = Null then Some [] else load w (ioc_tx_buf x) (ioc_len x));
     bss \<leftarrow> payloads w xs;
     Some (bs # bss) }"

fun store_rx :: "(nat \<Rightarrow> u8) \<Rightarrow> ioc_xfer list \<Rightarrow> state \<Rightarrow> (unit \<times> state) option" where
  "store_rx f [] w = Some ((), w)"
| "store_rx f (x # xs) w =
     (if ioc_rx_buf x = Null then store_rx f xs w
      else do {
        (_, w) \<leftarrow> store (ioc_rx_buf x) (map f [0..<ioc_len x]) w;
        store_rx (\<lambda>i. f (ioc_len x + i)) xs w })"

definition spi_ioctl :: "os \<Rightarrow> int \<Rightarrow> ioc_xfer list \<Rightarrow> state \<Rightarrow> (int \<times> state) option" where
  "spi_ioctl os fd utr w = do {
     bss \<leftarrow> payloads w utr;
     (ret, w) \<leftarrow> syscall os (Ev_spi fd utr bss) w;
     (_, w) \<leftarrow> (if 1 \<le> ret then store_rx (os_rx os (trace w)) utr w else Some ((), w));
     Some (ret, w) }"

definition spi_ioc_message :: "os \<Rightarrow> ioc_xfer list \<Rightarrow> state \<Rightarrow> (int \<times> state) option" where
  "spi_ioc_message os utr w = do {
     (fd, w) \<leftarrow> syscall os (Ev_open ''/dev/spidev0.0'') w;
     if fd < 0 then Some (- errno w, w)
     else do {
       (ret, w) \<leftarrow> spi_ioctl os fd utr w;
       let ret = (if ret < 1 then - errno w else ret);
       (_, w) \<leftarrow> syscall os (Ev_close fd) w;
       Some (if ret < 0 then ret else 0, w) } }"

section \<open>Sending a framebuffer from its DMA buffer\<close>

abbreviation spi_buf_max_chunk :: nat where
  "spi_buf_max_chunk \<equiv> 30720"

definition buf_xfer :: "int \<Rightarrow> u32 \<Rightarrow> u32 \<Rightarrow> nat \<Rightarrow> ioc_xfer" where
  "buf_xfer buf_fd speed off n =
     zero_ioc\<lparr>ioc_tx_dma_fd := buf_fd, ioc_speed_hz := speed, ioc_bits_per_word := 8,
              ioc_dma_offset := off, ioc_len := n\<rparr>"

function spi_buf_loop ::
  "os \<Rightarrow> int \<Rightarrow> u32 \<Rightarrow> u32 \<Rightarrow> nat \<Rightarrow> state \<Rightarrow> (int \<times> state) option" where
  "spi_buf_loop os buf_fd speed offset len w =
     (if len = 0 then Some (0, w)
      else do {
        let chunk = kmin len spi_buf_max_chunk;
        (ret, w) \<leftarrow> spi_ioc_message os [buf_xfer buf_fd speed offset chunk] w;
        if ret \<noteq> 0 then Some (ret, w)
        else spi_buf_loop os buf_fd speed (offset + of_nat chunk) (len - chunk) w })"
  by pat_completeness auto
termination
  by (relation "measure (\<lambda>(os, buf_fd, speed, offset, len, w). len)") auto

declare spi_buf_loop.simps [simp del]

definition spi_buf_transfer :: "os \<Rightarrow> spi_transfer \<Rightarrow> int \<Rightarrow> state \<Rightarrow> (int \<times> state) option" where
  "spi_buf_transfer os tr buf_fd w = spi_buf_loop os buf_fd (tr_speed_hz tr) 0 (tr_len tr) w"

section \<open>\<open>spi_sync\<close>\<close>

text \<open>\<open>p >= base && p < base + size\<close> for a mapping at \<open>base\<close>.\<close>

fun ptr_in :: "ptr \<Rightarrow> ptr \<Rightarrow> int \<Rightarrow> bool" where
  "ptr_in (Ptr b i) (Ptr c j) n = (b = c \<and> j \<le> i \<and> int i < int j + n)"
| "ptr_in _ _ _ = False"

fun ptr_diff :: "ptr \<Rightarrow> ptr \<Rightarrow> u32" where
  "ptr_diff (Ptr b i) (Ptr c j) = of_nat i - of_nat j"
| "ptr_diff _ _ = 0"

definition spi_ioc_first :: "spi_transfer \<Rightarrow> ioc_xfer" where
  "spi_ioc_first tr =
     zero_ioc\<lparr>ioc_tx_buf := tr_tx_buf tr, ioc_len := tr_len tr, ioc_speed_hz := tr_speed_hz tr,
              ioc_bits_per_word := 8\<rparr>"

definition spi_ioc_second :: "spi_transfer \<Rightarrow> ioc_xfer" where
  "spi_ioc_second tr2 =
     zero_ioc\<lparr>ioc_rx_buf := tr_rx_buf tr2, ioc_len := tr_len tr2, ioc_speed_hz := tr_speed_hz tr2,
              ioc_bits_per_word := 8\<rparr>"

text \<open>The tail of \<open>spi_sync\<close>, from the speed default to the ioctl.\<close>

definition spi_sync_send ::
  "os \<Rightarrow> ioc_xfer \<Rightarrow> spi_transfer list \<Rightarrow> state \<Rightarrow> (int \<times> state) option" where
  "spi_sync_send os utr0 rest w = do {
     let utr0 = (if ioc_speed_hz utr0 = 0 then utr0\<lparr>ioc_speed_hz := max_speed_hz (spi w)\<rparr> else utr0);
     let utr = (case rest of [] \<Rightarrow> [utr0] | tr2 # _ \<Rightarrow> [utr0, spi_ioc_second tr2]);
     (fd, w) \<leftarrow> syscall os (Ev_open ''/dev/spidev0.0'') w;
     if fd < 0 then Some (- errno w, w)
     else do {
       (ret, w) \<leftarrow> spi_ioctl os fd utr w;
       if ret < 1
       then do { let r = - errno w; (_, w) \<leftarrow> syscall os (Ev_close fd) w; Some (r, w) }
       else do { (_, w) \<leftarrow> syscall os (Ev_close fd) w; Some (0, w) } } }"

text \<open>
  \<open>spi_sync\<close> returns its result and the message, because it stores the default speed in the
  caller's transfer on the framebuffer path. Without driver data the list of framebuffers is
  read through a null pointer, and an error pointer in \<open>tx_buf\<close> is dereferenced.
\<close>

definition spi_sync ::
  "os \<Rightarrow> spi_transfer list \<Rightarrow> state \<Rightarrow> ((int \<times> spi_transfer list) \<times> state) option" where
  "spi_sync os m w =
     (case m of
        [] \<Rightarrow> None
      | tr # rest \<Rightarrow>
          if \<not> drvdata (spi w) then None
          else (case find (\<lambda>u. ptr_in (tr_tx_buf tr) (fb_map u) (fb_map_size u)) (fbs w) of
            Some ufb \<Rightarrow>
              if 0 \<le> udev_buf_fd w
              then do {
                let tr = (if tr_speed_hz tr = 0 then tr\<lparr>tr_speed_hz := max_speed_hz (spi w)\<rparr> else tr);
                (ret, w) \<leftarrow> spi_buf_transfer os tr (udev_buf_fd w) w;
                Some ((ret, tr # rest), w) }
              else do {
                (ret, w) \<leftarrow> spi_sync_send os ((spi_ioc_first tr)\<lparr>ioc_tx_buf := Null,
                    ioc_tx_dma_fd := fb_buf_fd ufb,
                    ioc_dma_offset := ptr_diff (tr_tx_buf tr) (fb_map ufb)\<rparr>) rest w;
                Some ((ret, m), w) }
          | None \<Rightarrow>
              (case tx_buf w of
                 PErr _ \<Rightarrow> None
               | PNull \<Rightarrow> do {
                   (ret, w) \<leftarrow> spi_sync_send os (spi_ioc_first tr) rest w;
                   Some ((ret, m), w) }
               | PObj d \<Rightarrow> do {
                   let utr0 = (if ptr_in (tr_tx_buf tr) (dm_map d) (int (dm_map_size d))
                               then (spi_ioc_first tr)\<lparr>ioc_tx_buf := Null,
                                      ioc_tx_dma_fd := dm_fd d,
                                      ioc_dma_offset := ptr_diff (tr_tx_buf tr) (dm_map d)\<rparr>
                               else spi_ioc_first tr);
                   (ret, w) \<leftarrow> spi_sync_send os utr0 rest w;
                   Some ((ret, m), w) })))"

section \<open>The ioctl that succeeds\<close>

abbreviation spidev :: string where
  "spidev \<equiv> ''/dev/spidev0.0''"

text \<open>The calls of one message: open, ioctl and close of the same descriptor.\<close>

definition spi_log :: "os \<Rightarrow> sysev list \<Rightarrow> ioc_xfer list \<Rightarrow> bytes list \<Rightarrow> sysev list" where
  "spi_log os h utr bss =
     (let fd = os_ret os (h @ [Ev_open spidev])
      in [Ev_open spidev, Ev_spi fd utr bss, Ev_close fd])"

lemma payloads_log_evs [simp]: "payloads (log_evs es w) utr = payloads w utr"
  by (induction utr) simp_all

lemma store_rx_none: "\<forall>x \<in> set utr. ioc_rx_buf x = Null \<Longrightarrow> store_rx f utr w = Some ((), w)"
  by (induction utr arbitrary: f) auto

lemma os_good_spi: "os_good os \<Longrightarrow> 1 \<le> os_ret os (h @ [Ev_spi fd utr bss])"
  using os_goodD(2) [of os "Ev_spi fd utr bss" h] by (simp add: ret_ok_def)

lemma os_good_spi':
  assumes "os_good os"
  shows "\<not> os_ret os (h @ [Ev_open f, Ev_spi fd utr bss]) < 1"
    and "\<not> os_ret os (h @ [Ev_open f, Ev_spi fd utr bss]) < 0"
  using os_good_spi [OF assms, of "h @ [Ev_open f]" fd utr bss] by simp_all

lemma os_good_open: "os_good os \<Longrightarrow> \<not> os_ret os (h @ [Ev_open f]) < 0"
  using os_goodD(2) [of os "Ev_open f" h] by (simp add: ret_ok_def)

lemma syscall_ok_simps [simp]:
  assumes "os_good os"
  shows "syscall os (Ev_open f) w = Some (os_ret os (trace w @ [Ev_open f]), log_ev (Ev_open f) w)"
    and "syscall os (Ev_close fd) w = Some (os_ret os (trace w @ [Ev_close fd]), log_ev (Ev_close fd) w)"
    and "syscall os (Ev_spi fd x p) w = Some (os_ret os (trace w @ [Ev_spi fd x p]), log_ev (Ev_spi fd x p) w)"
    and "syscall os (Ev_write fd s) w = Some (os_ret os (trace w @ [Ev_write fd s]), log_ev (Ev_write fd s) w)"
    and "syscall os (Ev_reply fd n) w = Some (os_ret os (trace w @ [Ev_reply fd n]), log_ev (Ev_reply fd n) w)"
  using assms by (auto intro!: syscall_ok simp: ret_ok_def)

lemma spi_ioctl_ok:
  assumes "os_good os" and "payloads w utr = Some bss" and "\<forall>x \<in> set utr. ioc_rx_buf x = Null"
  shows "spi_ioctl os fd utr w =
           Some (os_ret os (trace w @ [Ev_spi fd utr bss]), log_ev (Ev_spi fd utr bss) w)"
  using assms os_good_spi [of os] by (simp add: spi_ioctl_def store_rx_none)

lemma spi_ioc_message_ok:
  assumes "os_good os" and "payloads w utr = Some bss" and "\<forall>x \<in> set utr. ioc_rx_buf x = Null"
  shows "spi_ioc_message os utr w = Some (0, log_evs (spi_log os (trace w) utr bss) w)"
  using assms
  by (simp add: spi_ioc_message_def os_good_open os_good_spi' spi_ioctl_ok Let_def spi_log_def)

lemma spi_sync_send_ok:
  assumes "os_good os" and "payloads w [utr0] = Some bss" and "ioc_rx_buf utr0 = Null"
  shows "\<exists>sp. spi_sync_send os utr0 [] w =
           Some (0, log_evs (spi_log os (trace w) [utr0\<lparr>ioc_speed_hz := sp\<rparr>] bss) w)"
proof -
  define sp where "sp = (if ioc_speed_hz utr0 = 0 then max_speed_hz (spi w) else ioc_speed_hz utr0)"
  let ?u = "utr0\<lparr>ioc_speed_hz := sp\<rparr>"
  have u: "(if ioc_speed_hz utr0 = 0 then utr0\<lparr>ioc_speed_hz := max_speed_hz (spi w)\<rparr> else utr0) = ?u"
    by (simp add: sp_def)
  have "payloads (log_ev (Ev_open spidev) w) [?u] = Some bss"
    using assms(2) by (auto split: if_splits)
  then have "spi_ioctl os fd [?u] (log_ev (Ev_open spidev) w) =
      Some (os_ret os (trace w @ [Ev_open spidev, Ev_spi fd [?u] bss]),
            log_evs [Ev_open spidev, Ev_spi fd [?u] bss] w)" for fd
    using assms(1,3) by (simp add: spi_ioctl_ok del: payloads.simps)
  then have "spi_sync_send os utr0 [] w = Some (0, log_evs (spi_log os (trace w) [?u] bss) w)"
    using assms(1) by (simp add: spi_sync_send_def u os_good_open os_good_spi' spi_log_def Let_def)
  then show ?thesis ..
qed

text \<open>
  A message whose buffer is private, that is in no framebuffer and not in the DMA buffer, is
  sent as one ioctl that carries the bytes of the buffer.
\<close>

definition private_ptr :: "ptr \<Rightarrow> state \<Rightarrow> bool" where
  "private_ptr p w \<longleftrightarrow>
     (\<forall>u \<in> set (fbs w). \<not> ptr_in p (fb_map u) (fb_map_size u)) \<and>
     (case tx_buf w of PErr _ \<Rightarrow> False | PNull \<Rightarrow> True
      | PObj d \<Rightarrow> \<not> ptr_in p (dm_map d) (int (dm_map_size d)))"

lemma private_ptr_log_evs [simp]: "private_ptr p (log_evs es w) = private_ptr p w"
  by (simp add: private_ptr_def)

lemma spi_sync_private:
  assumes "os_good os" and "drvdata (spi w)" and "private_ptr (tr_tx_buf tr) w"
    and "tr_tx_buf tr \<noteq> Null" and "load w (tr_tx_buf tr) (tr_len tr) = Some bs"
  shows "\<exists>sp. spi_sync os [tr] w =
     Some ((0, [tr]), log_evs (spi_log os (trace w) [(spi_ioc_first tr)\<lparr>ioc_speed_hz := sp\<rparr>] [bs]) w)"
proof -
  have none: "find (\<lambda>u. ptr_in (tr_tx_buf tr) (fb_map u) (fb_map_size u)) (fbs w) = None"
    using assms(3) by (auto simp: private_ptr_def find_None_iff)
  have "payloads w [spi_ioc_first tr] = Some [bs]"
    using assms(4,5) by (simp add: spi_ioc_first_def)
  then obtain sp where "spi_sync_send os (spi_ioc_first tr) [] w =
      Some (0, log_evs (spi_log os (trace w) [(spi_ioc_first tr)\<lparr>ioc_speed_hz := sp\<rparr>] [bs]) w)"
    using spi_sync_send_ok [OF assms(1), of w "spi_ioc_first tr" "[bs]"]
    by (auto simp: spi_ioc_first_def)
  then show ?thesis
    using none assms(2,3) by (auto simp: spi_sync_def private_ptr_def split: errptr.splits)
qed

section \<open>Covering a framebuffer with transfers\<close>

fun spi_xfers :: "sysev list \<Rightarrow> ioc_xfer list" where
  "spi_xfers [] = []"
| "spi_xfers (Ev_spi fd utr bss # es) = utr @ spi_xfers es"
| "spi_xfers (e # es) = spi_xfers es"

lemma spi_xfers_append [simp]: "spi_xfers (es @ fs) = spi_xfers es @ spi_xfers fs"
  by (induction es rule: spi_xfers.induct) simp_all

lemma spi_xfers_spi_log [simp]: "spi_xfers (spi_log os h utr bss) = utr"
  by (simp add: spi_log_def Let_def)

text \<open>Events of transfers that the kernel makes from a DMA buffer.\<close>

fun dma_ev :: "sysev \<Rightarrow> bool" where
  "dma_ev (Ev_open f) = True"
| "dma_ev (Ev_close fd) = True"
| "dma_ev (Ev_spi fd [x] [[]]) = (ioc_tx_buf x = Null \<and> ioc_rx_buf x = Null)"
| "dma_ev e = False"

text \<open>The pieces \<open>(offset, length)\<close> of the interval from \<open>o\<close> of length \<open>n\<close>.\<close>

function pieces :: "nat \<Rightarrow> nat \<Rightarrow> (nat \<times> nat) list" where
  "pieces off n =
     (if n = 0 then []
      else (off, min n spi_buf_max_chunk) #
           pieces (off + min n spi_buf_max_chunk) (n - min n spi_buf_max_chunk))"
  by pat_completeness auto
termination
  by (relation "measure snd") auto

declare pieces.simps [simp del]

lemma pieces_0 [simp]: "pieces off 0 = []"
  by (simp add: pieces.simps)

lemma pieces_cover: "concat (map (\<lambda>(o1, n). [o1..<o1 + n]) (pieces off n)) = [off..<off + n]"
proof (induction off n rule: pieces.induct)
  case (1 off n)
  show ?case
  proof (cases "n = 0")
    case False
    let ?c = "min n spi_buf_max_chunk"
    have "[off..<off + n] = [off..<off + ?c] @ [off + ?c..<(off + ?c) + (n - ?c)]"
      using upt_add_eq_append [of off "off + ?c" "n - ?c"] by simp
    with "1.IH" False show ?thesis by (subst pieces.simps) simp
  qed simp
qed

lemma pieces_bound: "(o1, k) \<in> set (pieces off n) \<Longrightarrow> 0 < k \<and> k \<le> spi_buf_max_chunk"
proof (induction off n rule: pieces.induct)
  case (1 off n)
  then show ?case
    by (cases "n = 0") (auto simp: pieces.simps [of off n])
qed

lemma spi_buf_loop_ok:
  assumes "os_good os"
  shows "\<exists>es. spi_buf_loop os buf_fd speed (of_nat off) len w = Some (0, log_evs es w) \<and>
     list_all dma_ev es \<and>
     spi_xfers es = map (\<lambda>(o1, n). buf_xfer buf_fd speed (of_nat o1) n) (pieces off len)"
proof (induction off len arbitrary: w rule: pieces.induct)
  case (1 off len)
  show ?case
  proof (cases "len = 0")
    case True
    then show ?thesis by (intro exI [of _ "[]"]) (simp add: spi_buf_loop.simps)
  next
    case False
    let ?c = "min len spi_buf_max_chunk"
    let ?x = "buf_xfer buf_fd speed (of_nat off) ?c"
    let ?l = "spi_log os (trace w) [?x] [[]]"
    have msg: "spi_ioc_message os [?x] w = Some (0, log_evs ?l w)"
      using assms by (intro spi_ioc_message_ok) (simp_all add: buf_xfer_def)
    obtain es where es: "spi_buf_loop os buf_fd speed (of_nat (off + ?c)) (len - ?c) (log_evs ?l w) =
        Some (0, log_evs es (log_evs ?l w))" "list_all dma_ev es"
      "spi_xfers es = map (\<lambda>(o1, n). buf_xfer buf_fd speed (of_nat o1) n) (pieces (off + ?c) (len - ?c))"
      using "1.IH" [OF False, of "log_evs ?l w"] by blast
    have "spi_buf_loop os buf_fd speed (of_nat off) len w = Some (0, log_evs (?l @ es) w)"
      using False msg es(1) by (subst spi_buf_loop.simps) simp
    moreover have "spi_xfers (?l @ es) =
        map (\<lambda>(o1, n). buf_xfer buf_fd speed (of_nat o1) n) (pieces off len)"
      using False es(3) by (subst pieces.simps) simp
    moreover have "list_all dma_ev (?l @ es)"
      using es(2) by (simp add: spi_log_def Let_def buf_xfer_def)
    ultimately show ?thesis by blast
  qed
qed

end
