(* ===== verification/Spi_Transfer.thy ===== *)
theory Spi_Transfer
  imports Spi
begin

text \<open>
  The SPI helpers of \<open>tinydrm-regmap.c\<close>: the transfer size limit, the test for a supported
  word size, and \<open>tinydrm_spi_transfer\<close>, which cuts a buffer into chunks and swaps bytes when
  the controller has no 16-bit words.
\<close>

section \<open>Operations\<close>

datatype regmap_endian =
  REGMAP_ENDIAN_DEFAULT | REGMAP_ENDIAN_BIG | REGMAP_ENDIAN_LITTLE | REGMAP_ENDIAN_NATIVE

text \<open>The target is little endian.\<close>

definition tinydrm_get_machine_endian :: regmap_endian where
  "tinydrm_get_machine_endian = REGMAP_ENDIAN_LITTLE"

text \<open>\<open>spi_max\<close> is the module parameter, an argument here; zero means no limit.\<close>

definition tinydrm_spi_max_transfer_size :: "u32 \<Rightarrow> spi_device \<Rightarrow> u32 \<Rightarrow> u32" where
  "tinydrm_spi_max_transfer_size spi_max s max_len =
     (let ret = kmin (spi_max_transfer_size s) (max_dma_len s);
          ret = (if max_len \<noteq> 0 then kmin ret max_len else ret);
          ret = (if spi_max \<noteq> 0 then kmin ret spi_max else ret);
          ret = ret AND NOT 0x3
      in if ret < 4 then 4 else ret)"

definition tinydrm_spi_bpw_supported :: "spi_device \<Rightarrow> u8 \<Rightarrow> bool" where
  "tinydrm_spi_bpw_supported s bpw =
     (let bpw_mask = bits_per_word_mask s
      in if bpw = 8 then True
         else if bpw_mask = 0 then False
         else if bpw_mask AND SPI_BPW_MASK (unat bpw) \<noteq> 0 then True
         else False)"

text \<open>\<open>for (i = 0; i < k; i++) swap_buf[i] = swab16(buf16[i]);\<close>\<close>

fun swab_loop :: "ptr \<Rightarrow> ptr \<Rightarrow> nat \<Rightarrow> state \<Rightarrow> (unit \<times> state) option" where
  "swab_loop dst src 0 w = Some ((), w)"
| "swab_loop dst src (Suc k) w = do {
     bs \<leftarrow> load w src 2;
     (_, w) \<leftarrow> store dst (le16 (swab16 (get_unaligned_le16 bs))) w;
     swab_loop (padd dst 2) (padd src 2) k w }"

text \<open>
  The loop over the chunks. \<open>header\<close> is the optional first transfer; the loop does not end
  when \<open>max_chunk\<close> is zero, so it is a partial function.
\<close>

partial_function (option) spi_transfer_loop ::
  "os \<Rightarrow> bool \<Rightarrow> ptr \<Rightarrow> nat \<Rightarrow> spi_transfer option \<Rightarrow> spi_transfer \<Rightarrow> ptr \<Rightarrow> nat \<Rightarrow> state \<Rightarrow>
     (int \<times> state) option" where
  "spi_transfer_loop os swap swap_buf max_chunk header tr buf len w =
     (if len = 0 then Some (0, w)
      else do {
        let chunk = kmin len max_chunk;
        let tr = tr\<lparr>tr_tx_buf := buf, tr_len := chunk\<rparr>;
        (_, w) \<leftarrow> (if swap then swab_loop swap_buf buf (chunk div 2) w else Some ((), w));
        let tr = (if swap then tr\<lparr>tr_tx_buf := swap_buf\<rparr> else tr);
        ((ret, m), w) \<leftarrow> spi_sync os (case header of None \<Rightarrow> [tr] | Some h \<Rightarrow> [h, tr]) w;
        if ret \<noteq> 0 then Some (ret, w)
        else spi_transfer_loop os swap swap_buf max_chunk
               (case header of None \<Rightarrow> None | Some h \<Rightarrow> Some (hd m)) (last m)
               (padd buf chunk) (len - chunk) w })"

definition tinydrm_spi_transfer ::
  "os \<Rightarrow> u32 \<Rightarrow> spi_transfer option \<Rightarrow> u8 \<Rightarrow> ptr \<Rightarrow> nat \<Rightarrow> ptr \<Rightarrow> nat \<Rightarrow> state \<Rightarrow>
     (int \<times> state) option" where
  "tinydrm_spi_transfer os speed_hz header bpw buf len swap_buf max_chunk w =
     (let tr = zero_transfer\<lparr>tr_bits_per_word := bpw, tr_speed_hz := speed_hz\<rparr>
      in if bpw \<noteq> 8 \<and> bpw \<noteq> 16 then Some (- EINVAL, w)
         else if tinydrm_get_machine_endian = REGMAP_ENDIAN_LITTLE \<and> bpw = 16 \<and>
                 \<not> tinydrm_spi_bpw_supported (spi w) 16
         then (if swap_buf = Null then Some (- EINVAL, w)
               else spi_transfer_loop os True swap_buf max_chunk header
                      (tr\<lparr>tr_bits_per_word := 8\<rparr>) buf len w)
         else spi_transfer_loop os False swap_buf max_chunk header tr buf len w)"

end
