(* ===== verification/Mipi_Pack.thy ===== *)
theory Mipi_Pack
  imports Kernel_Shim
begin

text \<open>
  The bit packing of \<open>mipi_dbi_spi1e_transfer\<close>: eight 9-bit words (data/command bit and
  byte) in a block of nine bytes.
\<close>

section \<open>Packing\<close>

definition SHIFT_U9_INTO_U64 :: "u64 \<Rightarrow> u8 \<Rightarrow> nat \<Rightarrow> u64" where
  "SHIFT_U9_INTO_U64 dst src pos =
     dst OR push_bit (63 - pos * 9) 1 OR push_bit (63 - 8 - pos * 9) (ucast src)"

text \<open>\<open>*(u64 *)dst = cpu_to_be64(tmp)\<close> on a little-endian machine.\<close>

definition be64_bytes :: "u64 \<Rightarrow> bytes" where
  "be64_bytes tmp = le64 (cpu_to_be64 tmp)"

text \<open>A full block of 8 source bytes, for 8-bit and for 16-bit words.\<close>

definition pack_block8 :: "bytes \<Rightarrow> bytes" where
  "pack_block8 s =
     (let tmp = 0;
          tmp = SHIFT_U9_INTO_U64 tmp (s ! 0) 0;
          tmp = SHIFT_U9_INTO_U64 tmp (s ! 1) 1;
          tmp = SHIFT_U9_INTO_U64 tmp (s ! 2) 2;
          tmp = SHIFT_U9_INTO_U64 tmp (s ! 3) 3;
          tmp = SHIFT_U9_INTO_U64 tmp (s ! 4) 4;
          tmp = SHIFT_U9_INTO_U64 tmp (s ! 5) 5;
          tmp = SHIFT_U9_INTO_U64 tmp (s ! 6) 6;
          tmp = tmp OR 0x1
      in be64_bytes tmp @ [s ! 7])"

definition pack_block16 :: "bytes \<Rightarrow> bytes" where
  "pack_block16 s =
     (let tmp = 0;
          tmp = SHIFT_U9_INTO_U64 tmp (s ! 0) 1;
          tmp = SHIFT_U9_INTO_U64 tmp (s ! 1) 0;
          tmp = SHIFT_U9_INTO_U64 tmp (s ! 2) 3;
          tmp = SHIFT_U9_INTO_U64 tmp (s ! 3) 2;
          tmp = SHIFT_U9_INTO_U64 tmp (s ! 4) 5;
          tmp = SHIFT_U9_INTO_U64 tmp (s ! 5) 4;
          src7 = s ! 6;
          tmp = SHIFT_U9_INTO_U64 tmp (s ! 7) 6;
          tmp = tmp OR 0x1
      in be64_bytes tmp @ [src7])"

text \<open>\<open>for (j = 0; j < chunk; j++)\<close>\<close>

fun tail_loop8 :: "u64 \<Rightarrow> bytes \<Rightarrow> nat \<Rightarrow> u64" where
  "tail_loop8 tmp [] j = tmp"
| "tail_loop8 tmp (b # bs) j = tail_loop8 (SHIFT_U9_INTO_U64 tmp b j) bs (Suc j)"

text \<open>\<open>for (j = 0; j < (chunk / 2); j += 2)\<close>; the bytes are those of the remaining chunk.\<close>

fun tail_loop16 :: "nat \<Rightarrow> u64 \<Rightarrow> bytes \<Rightarrow> nat \<Rightarrow> u64" where
  "tail_loop16 half tmp (a # b # bs) j =
     (if j < half
      then tail_loop16 half (SHIFT_U9_INTO_U64 (SHIFT_U9_INTO_U64 tmp a (j + 1)) b j) bs (j + 2)
      else tmp)"
| "tail_loop16 half tmp bs j = tmp"

text \<open>The padded last block of fewer than 8 source bytes.\<close>

definition pack_tail :: "nat \<Rightarrow> bytes \<Rightarrow> bytes" where
  "pack_tail bits_per_word s =
     be64_bytes (if bits_per_word = 8 then tail_loop8 0 s 0 else tail_loop16 (length s div 2) 0 s 0)
       @ [0]"

definition pack_block :: "nat \<Rightarrow> bytes \<Rightarrow> bytes" where
  "pack_block bits_per_word s = (if bits_per_word = 8 then pack_block8 s else pack_block16 s)"

section \<open>What the display reads back\<close>

text \<open>
  A display in 9-bit mode reads the stream most significant bit first, nine bits at a time:
  the data/command bit, then the byte.
\<close>

definition byte_bits :: "u8 \<Rightarrow> bool list" where
  "byte_bits b = map (bit b) [7, 6, 5, 4, 3, 2, 1, 0]"

definition stream_bits :: "bytes \<Rightarrow> bool list" where
  "stream_bits bs = concat (map byte_bits bs)"

definition word9 :: "bool \<times> u8 \<Rightarrow> bool list" where
  "word9 = (\<lambda>(dc, b). dc # byte_bits b)"

definition words9 :: "(bool \<times> u8) list \<Rightarrow> bool list" where
  "words9 ws = concat (map word9 ws)"

lemma length_byte_bits [simp]: "length (byte_bits b) = 8"
  by (simp add: byte_bits_def)

lemma length_be64_bytes [simp]: "length (be64_bytes x) = 8"
  by (simp add: be64_bytes_def)

lemma length_pack_block [simp]: "length (pack_block n s) = 9"
  by (simp add: pack_block_def pack_block8_def pack_block16_def Let_def)

lemma length_pack_tail [simp]: "length (pack_tail n s) = 9"
  by (simp add: pack_tail_def)

lemma byte_bits_inject: "byte_bits a = byte_bits b \<longleftrightarrow> a = b"
proof
  assume *: "byte_bits a = byte_bits b"
  show "a = b"
  proof (rule bit_word_eqI)
    fix n assume "n < LENGTH(8)"
    then have "n = 0 \<or> n = 1 \<or> n = 2 \<or> n = 3 \<or> n = 4 \<or> n = 5 \<or> n = 6 \<or> n = 7"
      by (simp; linarith)
    then show "bit a n = bit b n" using * by (auto simp: byte_bits_def)
  qed
qed simp

lemma words9_inject: "words9 ws = words9 vs \<Longrightarrow> ws = vs"
proof (induction ws arbitrary: vs)
  case Nil
  then show ?case by (cases vs) (auto simp: words9_def word9_def split: prod.splits)
next
  case (Cons w ws)
  then show ?case
    by (cases vs) (auto simp: words9_def word9_def byte_bits_inject split: prod.splits)
qed

text \<open>Most significant bit first, a 64-bit word is its big-endian bytes.\<close>

lemma stream_bits_be64:
  "stream_bits (be64_bytes x) = map (bit x)
     [63, 62, 61, 60, 59, 58, 57, 56, 55, 54, 53, 52, 51, 50, 49, 48, 47, 46, 45, 44, 43, 42,
      41, 40, 39, 38, 37, 36, 35, 34, 33, 32, 31, 30, 29, 28, 27, 26, 25, 24, 23, 22, 21, 20,
      19, 18, 17, 16, 15, 14, 13, 12, 11, 10, 9, 8, 7, 6, 5, 4, 3, 2, 1, 0]"
  by (simp add: stream_bits_def be64_bytes_def le64_cpu_to_be64)
    (simp add: le64_def byte_bits_def bit_simps)

lemma stream_bits_append [simp]: "stream_bits (xs @ ys) = stream_bits xs @ stream_bits ys"
  by (simp add: stream_bits_def)

lemma words9_append [simp]: "words9 (xs @ ys) = words9 xs @ words9 ys"
  by (simp add: words9_def)

lemma bit_SHIFT_U9:
  "bit (SHIFT_U9_INTO_U64 dst src pos) n \<longleftrightarrow>
     bit dst n \<or> n = 63 - pos * 9 \<or>
     (55 - pos * 9 \<le> n \<and> n < 64 \<and> bit src (n - (55 - pos * 9)))"
  by (auto simp: SHIFT_U9_INTO_U64_def bit_simps)

lemma list_8:
  assumes "length s = 8"
  obtains a b c d e f g h where "s = [a, b, c, d, e, f, g, h]"
  using assms by (auto simp: eval_nat_numeral length_Suc_conv)

lemma pack_block8_words:
  assumes "length s = 8"
  shows "stream_bits (pack_block8 s) = words9 (map (Pair True) s)"
proof -
  obtain a b c d e f g h where s: "s = [a, b, c, d, e, f, g, h]"
    using assms by (rule list_8)
  show ?thesis
    unfolding s pack_block8_def Let_def
    by (simp add: stream_bits_be64 words9_def word9_def byte_bits_def bit_SHIFT_U9 bit_or_iff
        bit_1_iff) (simp add: stream_bits_def byte_bits_def)
qed

text \<open>In 16-bit mode the two bytes of every pixel are exchanged.\<close>

fun swap_pairs :: "'a list \<Rightarrow> 'a list" where
  "swap_pairs (a # b # xs) = b # a # swap_pairs xs"
| "swap_pairs xs = xs"

lemma pack_block16_words:
  assumes "length s = 8"
  shows "stream_bits (pack_block16 s) = words9 (map (Pair True) (swap_pairs s))"
proof -
  obtain a b c d e f g h where s: "s = [a, b, c, d, e, f, g, h]"
    using assms by (rule list_8)
  show ?thesis
    unfolding s pack_block16_def Let_def
    by (simp add: stream_bits_be64 words9_def word9_def byte_bits_def bit_SHIFT_U9 bit_or_iff
        bit_1_iff) (simp add: stream_bits_def byte_bits_def)
qed

text \<open>The last block, padded with zero bits, for 8-bit words.\<close>

lemma list_lt_8:
  assumes "length s < 8"
  obtains "s = []" | a where "s = [a]" | a b where "s = [a, b]" | a b c where "s = [a, b, c]"
  | a b c d where "s = [a, b, c, d]" | a b c d e where "s = [a, b, c, d, e]"
  | a b c d e f where "s = [a, b, c, d, e, f]" | a b c d e f g where "s = [a, b, c, d, e, f, g]"
proof -
  have "length s = 0 \<or> length s = 1 \<or> length s = 2 \<or> length s = 3 \<or> length s = 4 \<or>
        length s = 5 \<or> length s = 6 \<or> length s = 7"
    using assms by linarith
  then show ?thesis
    using that by (auto simp: eval_nat_numeral length_Suc_conv)
qed

lemma replicate_numeral: "replicate (numeral k) x = x # replicate (pred_numeral k) x"
  by (simp add: numeral_eq_Suc)

lemmas pack_eval = replicate_numeral pack_tail_def stream_bits_be64 words9_def word9_def byte_bits_def
  bit_SHIFT_U9 bit_or_iff

lemma pack_tail8_words:
  assumes "length s < 8"
  shows "stream_bits (pack_tail 8 s) =
    words9 (map (Pair True) s) @ replicate (72 - 9 * length s) False"
  using assms
  by (rule list_lt_8) (simp_all add: pack_eval stream_bits_def [of "[_]"])

text \<open>
  For 16-bit words the loop stops at half of the byte count, so of a last chunk of 2, 4 or 6
  bytes only the first 2, 2 or 4 are sent.
\<close>

lemma pack_tail16_words:
  assumes "length s < 8" and "even (length s)"
  shows "stream_bits (pack_tail 16 s) =
    words9 (map (Pair True) (swap_pairs (take (2 * ((length s div 2 + 1) div 2)) s))) @
    replicate (72 - 18 * ((length s div 2 + 1) div 2)) False"
  using assms
  by - (erule list_lt_8; simp add: pack_eval stream_bits_def [of "[_]"])

end
