(* ===== verification/Dmabuf.thy ===== *)
theory Dmabuf
  imports Machine
begin

text \<open>
  The DMA buffer of \<open>utinydrm.c\<close>: a dumb buffer of the udrm device, exported as a file
  descriptor and mapped. It is the global \<open>tx_buf\<close>, made on the first register write.
\<close>

section \<open>Operations\<close>

record bo =
  bo_fd :: int
  bo_size :: nat
  bo_pitch :: u32
  bo_handle :: u32

definition bo_create_dumb ::
  "os \<Rightarrow> int \<Rightarrow> u32 \<Rightarrow> u32 \<Rightarrow> u32 \<Rightarrow> state \<Rightarrow> (bo option \<times> state) option" where
  "bo_create_dumb os fd width height bpp w = do {
     (p, w) \<leftarrow> kzalloc os 24 w;
     if p = Null then Some (None, w)
     else do {
       (ret, w) \<leftarrow> syscall os (Ev_create_dumb fd width height bpp) w;
       if ret \<noteq> 0 then do { (_, w) \<leftarrow> kfree p w; Some (None, w) }
       else (case os_dumb os (trace w) of (handle, pitch, n) \<Rightarrow>
         Some (Some \<lparr>bo_fd = fd, bo_size = n, bo_pitch = pitch, bo_handle = handle\<rparr>, w)) } }"

text \<open>\<open>mmap\<close>: a new block whose bytes the kernel provides.\<close>

definition sys_mmap :: "os \<Rightarrow> int \<Rightarrow> nat \<Rightarrow> nat \<Rightarrow> state \<Rightarrow> (ptr \<times> state) option" where
  "sys_mmap os fd n prot w = do {
     (ret, w) \<leftarrow> syscall os (Ev_mmap fd n prot) w;
     if ret = - 1 then Some (Null, w)
     else new_block (map (os_map os (trace w)) [0..<n]) w }"

definition utinydrm_create_dmabuf ::
  "os \<Rightarrow> int \<Rightarrow> u32 \<Rightarrow> u32 \<Rightarrow> u32 \<Rightarrow> state \<Rightarrow> (udmabuf errptr \<times> state) option" where
  "utinydrm_create_dmabuf os control_fd width height bpp w = do {
     (udma, w) \<leftarrow> kzalloc os 16 w;
     if udma = Null then Some (PErr (- ENOMEM), w)
     else do {
       (bo, w) \<leftarrow> bo_create_dumb os control_fd width height bpp w;
       case bo of
         None \<Rightarrow> do { (_, w) \<leftarrow> kfree udma w; Some (PErr (- ENOMEM), w) }
       | Some bo \<Rightarrow> do {
           (ret, w) \<leftarrow> syscall os (Ev_prime_to_fd control_fd (bo_handle bo) 2) w;
           if ret = - 1
           then do { let r = - errno w; (_, w) \<leftarrow> kfree udma w; Some (PErr r, w) }
           else do {
             let fd = os_prime_fd os (trace w);
             (p, w) \<leftarrow> sys_mmap os fd (bo_size bo) 3 w;
             if p = Null
             then do { let r = - errno w; (_, w) \<leftarrow> kfree udma w; Some (PErr r, w) }
             else Some (PObj \<lparr>dm_fd = fd, dm_map = p, dm_map_size = bo_size bo\<rparr>, w) } } } }"

text \<open>The global keeps the error pointer when the buffer could not be made.\<close>

definition utinydrm_get_tx_buf :: "os \<Rightarrow> u32 \<Rightarrow> state \<Rightarrow> (ptr \<times> state) option" where
  "utinydrm_get_tx_buf os len w =
     (if \<not> utinydrm (spi w) then Some (Null, w)
      else if 320 * 240 * 16 div 8 < len then Some (Null, w)
      else do {
        (r, w) \<leftarrow> utinydrm_create_dmabuf os (udev_control_fd w) 320 240 16 w;
        let w = w\<lparr>tx_buf := r\<rparr>;
        case r of
          PErr _ \<Rightarrow> Some (Null, w)
        | PNull \<Rightarrow> None
        | PObj d \<Rightarrow> Some (dm_map d, w) })"

end
