(* ===== verification/Text.thy ===== *)
theory Text
  imports Prelude
begin

text \<open>
  The conversions of \<open>printf\<close> the program relies on: decimal numbers and hexadecimal numbers
  of a fixed width, and the bounded copy of \<open>snprintf\<close>.
\<close>

definition digit_char :: "nat \<Rightarrow> char" where
  "digit_char d = char_of (if d < 10 then 48 + d else 87 + d)"

fun dec_string :: "nat \<Rightarrow> string" where
  "dec_string n = (if n < 10 then [digit_char n] else dec_string (n div 10) @ [digit_char (n mod 10)])"

declare dec_string.simps [simp del]

text \<open>\<open>%d\<close> of an \<open>int\<close>.\<close>

definition int_string :: "int \<Rightarrow> string" where
  "int_string i = (if i < 0 then CHR ''-'' # dec_string (nat (- i)) else dec_string (nat i))"

text \<open>\<open>%w.wx\<close>: the low \<open>w\<close> hexadecimal digits, lower case, of a number below \<open>16 ^ w\<close>.\<close>

fun hex_string :: "nat \<Rightarrow> nat \<Rightarrow> string" where
  "hex_string 0 n = []"
| "hex_string (Suc k) n = hex_string k (n div 16) @ [digit_char (n mod 16)]"

lemma length_hex_string [simp]: "length (hex_string k n) = k"
  by (induction k arbitrary: n) simp_all

lemma dec_string_nonempty [simp]: "dec_string n \<noteq> []"
  by (subst dec_string.simps) simp

end
