(* ===== verification/Gpio.thy ===== *)
theory Gpio
  imports Machine Text
begin

text \<open>
  \<open>include/linux/gpio/consumer.h\<close>: GPIO lines through sysfs.
\<close>

section \<open>Operations\<close>

datatype gpiod_flags = GPIOD_ASIS | GPIOD_IN | GPIOD_OUT_LOW | GPIOD_OUT_HIGH

fun gpiod_flags_value :: "gpiod_flags \<Rightarrow> nat" where
  "gpiod_flags_value GPIOD_ASIS = 0"
| "gpiod_flags_value GPIOD_IN = 2 ^ 0"
| "gpiod_flags_value GPIOD_OUT_LOW = 2 ^ 0 + 2 ^ 1"
| "gpiod_flags_value GPIOD_OUT_HIGH = 2 ^ 0 + 2 ^ 1 + 2 ^ 2"

text \<open>A failed write is only reported on standard output.\<close>

definition gpiod_set_value_cansleep ::
  "os \<Rightarrow> gpio_desc \<Rightarrow> int \<Rightarrow> state \<Rightarrow> (unit \<times> state) option" where
  "gpiod_set_value_cansleep os desc value w = do {
     let buf = dec_string (if value \<noteq> 0 then 1 else 0);
     (_, w) \<leftarrow> syscall os (Ev_write (gpio_fd desc) buf) w;
     Some ((), w) }"

definition file_write_string :: "os \<Rightarrow> string \<Rightarrow> string \<Rightarrow> state \<Rightarrow> (int \<times> state) option" where
  "file_write_string os pathname buf w = do {
     (fd, w) \<leftarrow> syscall os (Ev_open pathname) w;
     if fd = - 1 then Some (- errno w, w)
     else do {
       (ret, w) \<leftarrow> syscall os (Ev_write fd buf) w;
       if ret = - 1
       then do { (_, w) \<leftarrow> syscall os (Ev_close fd) w; Some (- errno w, w) }
       else do { (_, w) \<leftarrow> syscall os (Ev_close fd) w; Some (0, w) } } }"

definition gpio_number :: "string \<Rightarrow> nat option" where
  "gpio_number con_id =
     (if con_id = ''dc'' then Some 24
      else if con_id = ''reset'' then Some 23
      else if con_id = ''led'' then Some 18
      else None)"

abbreviation gpio_dir :: "nat \<Rightarrow> string" where
  "gpio_dir n \<equiv> ''/sys/class/gpio/gpio'' @ dec_string n"

text \<open>Exporting a line that sysfs does not show yet and making it an output.\<close>

definition gpio_export :: "os \<Rightarrow> nat \<Rightarrow> state \<Rightarrow> (int \<times> state) option" where
  "gpio_export os n w = do {
     (ret, w) \<leftarrow> syscall os (Ev_access (gpio_dir n @ ''/value'')) w;
     if ret = - 1
     then do {
       (ret, w) \<leftarrow> file_write_string os ''/sys/class/gpio/export'' (dec_string n) w;
       if ret \<noteq> 0 then Some (ret, w)
       else file_write_string os (gpio_dir n @ ''/direction'') ''out'' w }
     else Some (0, w) }"

definition devm_gpiod_get_optional ::
  "os \<Rightarrow> string \<Rightarrow> gpiod_flags \<Rightarrow> state \<Rightarrow> (gpio_desc errptr \<times> state) option" where
  "devm_gpiod_get_optional os con_id flags w =
     (case gpio_number con_id of
        None \<Rightarrow> Some (PErr (- EINVAL), w)
      | Some n \<Rightarrow> do {
          (p, w) \<leftarrow> kzalloc os 12 w;
          if p = Null then Some (PErr (- ENOMEM), w)
          else do {
            (ret, w) \<leftarrow> gpio_export os n w;
            if ret \<noteq> 0 then Some (PErr ret, w)
            else do {
              (fd, w) \<leftarrow> syscall os (Ev_open (gpio_dir n @ ''/value'')) w;
              if fd = - 1 then Some (if errno w = 0 then PNull else PErr (- errno w), w)
              else do {
                let desc = \<lparr>gpio_fd = fd, gpio_nr = n, gpio_name = con_id\<rparr>;
                (_, w) \<leftarrow> (if flags = GPIOD_OUT_HIGH then gpiod_set_value_cansleep os desc 1 w
                           else if flags = GPIOD_OUT_LOW then gpiod_set_value_cansleep os desc 0 w
                           else Some ((), w));
                Some (PObj desc, w) } } } })"

end
