(* ===== verification/Dcs.thy ===== *)
theory Dcs
  imports Kernel_Shim
begin

text \<open>
  The command numbers: the MIPI Display Command Set of \<open>include/video/mipi_display.h\<close> and
  the ILI9341 registers of \<open>include/drm/tinydrm/ili9341.h\<close> that the driver uses.
\<close>

section \<open>MIPI DCS commands\<close>

abbreviation MIPI_DCS_NOP :: u32 where "MIPI_DCS_NOP \<equiv> 0x00"
abbreviation MIPI_DCS_SOFT_RESET :: u32 where "MIPI_DCS_SOFT_RESET \<equiv> 0x01"
abbreviation MIPI_DCS_GET_DISPLAY_ID :: u32 where "MIPI_DCS_GET_DISPLAY_ID \<equiv> 0x04"
abbreviation MIPI_DCS_GET_DISPLAY_STATUS :: u32 where "MIPI_DCS_GET_DISPLAY_STATUS \<equiv> 0x09"
abbreviation MIPI_DCS_GET_POWER_MODE :: u32 where "MIPI_DCS_GET_POWER_MODE \<equiv> 0x0A"
abbreviation MIPI_DCS_GET_ADDRESS_MODE :: u32 where "MIPI_DCS_GET_ADDRESS_MODE \<equiv> 0x0B"
abbreviation MIPI_DCS_GET_PIXEL_FORMAT :: u32 where "MIPI_DCS_GET_PIXEL_FORMAT \<equiv> 0x0C"
abbreviation MIPI_DCS_GET_DISPLAY_MODE :: u32 where "MIPI_DCS_GET_DISPLAY_MODE \<equiv> 0x0D"
abbreviation MIPI_DCS_GET_SIGNAL_MODE :: u32 where "MIPI_DCS_GET_SIGNAL_MODE \<equiv> 0x0E"
abbreviation MIPI_DCS_GET_DIAGNOSTIC_RESULT :: u32 where "MIPI_DCS_GET_DIAGNOSTIC_RESULT \<equiv> 0x0F"
abbreviation MIPI_DCS_ENTER_SLEEP_MODE :: u32 where "MIPI_DCS_ENTER_SLEEP_MODE \<equiv> 0x10"
abbreviation MIPI_DCS_EXIT_SLEEP_MODE :: u32 where "MIPI_DCS_EXIT_SLEEP_MODE \<equiv> 0x11"
abbreviation MIPI_DCS_SET_GAMMA_CURVE :: u32 where "MIPI_DCS_SET_GAMMA_CURVE \<equiv> 0x26"
abbreviation MIPI_DCS_SET_DISPLAY_OFF :: u32 where "MIPI_DCS_SET_DISPLAY_OFF \<equiv> 0x28"
abbreviation MIPI_DCS_SET_DISPLAY_ON :: u32 where "MIPI_DCS_SET_DISPLAY_ON \<equiv> 0x29"
abbreviation MIPI_DCS_SET_COLUMN_ADDRESS :: u32 where "MIPI_DCS_SET_COLUMN_ADDRESS \<equiv> 0x2A"
abbreviation MIPI_DCS_SET_PAGE_ADDRESS :: u32 where "MIPI_DCS_SET_PAGE_ADDRESS \<equiv> 0x2B"
abbreviation MIPI_DCS_WRITE_MEMORY_START :: u32 where "MIPI_DCS_WRITE_MEMORY_START \<equiv> 0x2C"
abbreviation MIPI_DCS_SET_ADDRESS_MODE :: u32 where "MIPI_DCS_SET_ADDRESS_MODE \<equiv> 0x36"
abbreviation MIPI_DCS_SET_PIXEL_FORMAT :: u32 where "MIPI_DCS_SET_PIXEL_FORMAT \<equiv> 0x3A"

section \<open>ILI9341 registers\<close>

abbreviation ILI9341_FRMCTR1 :: u32 where "ILI9341_FRMCTR1 \<equiv> 0xb1"
abbreviation ILI9341_DISCTRL :: u32 where "ILI9341_DISCTRL \<equiv> 0xb6"
abbreviation ILI9341_ETMOD :: u32 where "ILI9341_ETMOD \<equiv> 0xb7"
abbreviation ILI9341_PWCTRL1 :: u32 where "ILI9341_PWCTRL1 \<equiv> 0xc0"
abbreviation ILI9341_PWCTRL2 :: u32 where "ILI9341_PWCTRL2 \<equiv> 0xc1"
abbreviation ILI9341_VMCTRL1 :: u32 where "ILI9341_VMCTRL1 \<equiv> 0xc5"
abbreviation ILI9341_VMCTRL2 :: u32 where "ILI9341_VMCTRL2 \<equiv> 0xc7"
abbreviation ILI9341_PWCTRLA :: u32 where "ILI9341_PWCTRLA \<equiv> 0xcb"
abbreviation ILI9341_PWCTRLB :: u32 where "ILI9341_PWCTRLB \<equiv> 0xcf"
abbreviation ILI9341_PGAMCTRL :: u32 where "ILI9341_PGAMCTRL \<equiv> 0xe0"
abbreviation ILI9341_NGAMCTRL :: u32 where "ILI9341_NGAMCTRL \<equiv> 0xe1"
abbreviation ILI9341_DTCTRLA :: u32 where "ILI9341_DTCTRLA \<equiv> 0xe8"
abbreviation ILI9341_DTCTRLB :: u32 where "ILI9341_DTCTRLB \<equiv> 0xea"
abbreviation ILI9341_PWRSEQ :: u32 where "ILI9341_PWRSEQ \<equiv> 0xed"
abbreviation ILI9341_EN3GAM :: u32 where "ILI9341_EN3GAM \<equiv> 0xf2"
abbreviation ILI9341_PUMPCTRL :: u32 where "ILI9341_PUMPCTRL \<equiv> 0xf7"

definition ILI9341_MADCTL_BGR :: u8 where "ILI9341_MADCTL_BGR = ucast (BIT 3)"
definition ILI9341_MADCTL_MV :: u8 where "ILI9341_MADCTL_MV = ucast (BIT 5)"
definition ILI9341_MADCTL_MX :: u8 where "ILI9341_MADCTL_MX = ucast (BIT 6)"
definition ILI9341_MADCTL_MY :: u8 where "ILI9341_MADCTL_MY = ucast (BIT 7)"

end
