(* ===== verification/Mipi_Bus.thy ===== *)
theory Mipi_Bus
  imports Spi_Transfer Mipi_Pack Dmabuf Gpio Dcs
begin

text \<open>
  The bus functions of \<open>mipi-dbi.c\<close>: how a command byte or a data buffer goes out on a MIPI
  DBI type C interface. Option 1 sends 9-bit words (\<open>spi1\<close>, or \<open>spi1e\<close> packed into bytes
  when the controller has no 9-bit words); option 3 sends bytes and drives the D/C line.
\<close>

section \<open>Chunk size\<close>

definition mipi_dbi_spi_clamp_size :: "spi_device \<Rightarrow> u32 \<Rightarrow> u32" where
  "mipi_dbi_spi_clamp_size s sz =
     (let max_spi = kmin (spi_max_transfer_size s) (max_dma_len s);
          sz = (if sz = 0 then max_spi else sz);
          clamped = clamp_val sz 4 max_spi
      in clamped AND NOT 0x3)"

section \<open>Option 1 packed into bytes\<close>

text \<open>
  \<open>for (i = 0; i < chunk; i += 8)\<close>: reads 8 source bytes and writes 9. The result is the
  source pointer after the loop and the number of blocks.
\<close>

function spi1e_blocks ::
  "nat \<Rightarrow> nat \<Rightarrow> nat \<Rightarrow> ptr \<Rightarrow> ptr \<Rightarrow> nat \<Rightarrow> state \<Rightarrow> ((ptr \<times> nat) \<times> state) option" where
  "spi1e_blocks bits_per_word chunk i src dst added w =
     (if i < chunk
      then do {
        s \<leftarrow> load w src 8;
        (_, w) \<leftarrow> store dst (pack_block bits_per_word s) w;
        spi1e_blocks bits_per_word chunk (i + 8) (padd src 8) (padd dst 9) (Suc added) w }
      else Some ((src, added), w))"
  by pat_completeness auto
termination
  by (relation "measure (\<lambda>(bits_per_word, chunk, i, src, dst, added, w). chunk - i)") auto

declare spi1e_blocks.simps [simp del]

text \<open>One chunk: the source pointer, the length of the chunk and the padding added.\<close>

definition spi1e_chunk ::
  "nat \<Rightarrow> nat \<Rightarrow> ptr \<Rightarrow> ptr \<Rightarrow> state \<Rightarrow> ((ptr \<times> nat \<times> nat) \<times> state) option" where
  "spi1e_chunk bits_per_word chunk src buf_dc w =
     (if chunk < 8
      then do {
        let n = (if bits_per_word = 8 then chunk else 2 * ((chunk div 2 + 1) div 2));
        s \<leftarrow> load w src n;
        (_, w) \<leftarrow> store buf_dc (pack_tail bits_per_word (if bits_per_word = 8 then s else
                     s @ replicate (chunk - n) 0)) w;
        Some ((padd src n, 8, 1), w) }
      else do {
        ((src, added), w) \<leftarrow> spi1e_blocks bits_per_word chunk 0 src buf_dc 0 w;
        Some ((src, chunk, added), w) })"

partial_function (option) spi1e_loop ::
  "os \<Rightarrow> nat \<Rightarrow> nat \<Rightarrow> ptr \<Rightarrow> spi_transfer \<Rightarrow> ptr \<Rightarrow> nat \<Rightarrow> state \<Rightarrow> (int \<times> state) option" where
  "spi1e_loop os bits_per_word max_src_chunk buf_dc tr src len w =
     (if len = 0 then Some (0, w)
      else do {
        let chunk = kmin len max_src_chunk;
        let len = len - chunk;
        ((src, chunk, added), w) \<leftarrow> spi1e_chunk bits_per_word chunk src buf_dc w;
        ((ret, m), w) \<leftarrow> spi_sync os [tr\<lparr>tr_len := chunk + added\<rparr>] w;
        if ret \<noteq> 0 then Some (ret, w)
        else spi1e_loop os bits_per_word max_src_chunk buf_dc (hd m) src len w })"

text \<open>The largest multiple of 8 source bytes that fits \<open>max_chunk\<close>, not below 8.\<close>

definition spi1e_max_src_chunk :: "nat \<Rightarrow> nat \<Rightarrow> nat" where
  "spi1e_max_src_chunk max_chunk len = kmax 8 (8 * (kmin (max_chunk div 9 * 8) len div 8))"

definition mipi_dbi_spi1e_transfer ::
  "os \<Rightarrow> nat \<Rightarrow> bool \<Rightarrow> ptr \<Rightarrow> nat \<Rightarrow> u32 \<Rightarrow> state \<Rightarrow> (int \<times> state) option" where
  "mipi_dbi_spi1e_transfer os bits_per_word dc buf len max_chunk w =
     (let tr = zero_transfer\<lparr>tr_bits_per_word := 8\<rparr>;
          max_chunk = unat (mipi_dbi_spi_clamp_size (spi w) max_chunk)
      in if max_chunk < 9 then Some (- EINVAL, w)
         else if \<not> dc
         then (if len \<noteq> 1 \<or> bits_per_word \<noteq> 8 then Some (- EINVAL, w)
               else do {
                 (dst, w) \<leftarrow> kzalloc os 9 w;
                 if dst = Null then Some (- ENOMEM, w)
                 else do {
                   s \<leftarrow> load w buf 1;
                   (_, w) \<leftarrow> store (padd dst 8) s w;
                   ((ret, m), w) \<leftarrow> spi_sync os [tr\<lparr>tr_tx_buf := dst, tr_len := 9\<rparr>] w;
                   (_, w) \<leftarrow> kfree dst w;
                   Some (ret, w) } })
         else do {
           let max_src_chunk = spi1e_max_src_chunk max_chunk len;
           let max_chunk = max_src_chunk + max_src_chunk div 8;
           (buf_dc, w) \<leftarrow> kmalloc os max_chunk w;
           if buf_dc = Null then Some (- ENOMEM, w)
           else do {
             (ret, w) \<leftarrow> spi1e_loop os bits_per_word max_src_chunk buf_dc
                          (tr\<lparr>tr_tx_buf := buf_dc\<rparr>) buf len w;
             (_, w) \<leftarrow> kfree buf_dc w;
             Some (ret, w) } })"

section \<open>Option 1 with 9-bit words\<close>

definition dc_word :: "bool \<Rightarrow> u16 \<Rightarrow> u16" where
  "dc_word dc v = (if dc then v OR 0x0100 else v)"

text \<open>\<open>for (i = 0; i < chunk; i++)\<close>, 8-bit words.\<close>

fun spi1_fill8 :: "bool \<Rightarrow> ptr \<Rightarrow> ptr \<Rightarrow> nat \<Rightarrow> state \<Rightarrow> (unit \<times> state) option" where
  "spi1_fill8 dc src8 dst16 0 w = Some ((), w)"
| "spi1_fill8 dc src8 dst16 (Suc k) w = do {
     s \<leftarrow> load w src8 1;
     (_, w) \<leftarrow> store dst16 (le16 (dc_word dc (ucast (hd s)))) w;
     spi1_fill8 dc (padd src8 1) (padd dst16 2) k w }"

text \<open>\<open>for (i = 0; i < (chunk * 2); i += 2)\<close>, 16-bit words: \<open>chunk\<close> rounds.\<close>

fun spi1_fill16 :: "bool \<Rightarrow> ptr \<Rightarrow> ptr \<Rightarrow> nat \<Rightarrow> state \<Rightarrow> (unit \<times> state) option" where
  "spi1_fill16 dc src16 dst16 0 w = Some ((), w)"
| "spi1_fill16 dc src16 dst16 (Suc k) w = do {
     s \<leftarrow> load w src16 2;
     let v = get_unaligned_le16 s;
     (_, w) \<leftarrow> store dst16 (le16 (dc_word dc (drop_bit 8 v))) w;
     (_, w) \<leftarrow> store (padd dst16 2) (le16 (dc_word dc (v AND 0xFF))) w;
     spi1_fill16 dc (padd src16 2) (padd dst16 4) k w }"

partial_function (option) spi1_loop ::
  "os \<Rightarrow> nat \<Rightarrow> bool \<Rightarrow> nat \<Rightarrow> ptr \<Rightarrow> spi_transfer \<Rightarrow> ptr \<Rightarrow> nat \<Rightarrow> state \<Rightarrow> (int \<times> state) option" where
  "spi1_loop os bits_per_word dc max_src_chunk dst16 tr src len w =
     (if len = 0 then Some (0, w)
      else do {
        let chunk = kmin len max_src_chunk;
        (_, w) \<leftarrow> (if bits_per_word = 8 then spi1_fill8 dc src dst16 chunk w
                   else spi1_fill16 dc src dst16 chunk w);
        ((ret, m), w) \<leftarrow> spi_sync os [tr\<lparr>tr_len := chunk\<rparr>] w;
        if ret \<noteq> 0 then Some (ret, w)
        else spi1_loop os bits_per_word dc max_src_chunk dst16 (hd m)
               (padd src (if bits_per_word = 8 then chunk else 2 * chunk)) (len - chunk) w })"

definition mipi_dbi_spi1_transfer ::
  "os \<Rightarrow> nat \<Rightarrow> bool \<Rightarrow> ptr \<Rightarrow> nat \<Rightarrow> u32 \<Rightarrow> state \<Rightarrow> (int \<times> state) option" where
  "mipi_dbi_spi1_transfer os bits_per_word dc buf len max_chunk w =
     (if \<not> tinydrm_spi_bpw_supported (spi w) 9
      then mipi_dbi_spi1e_transfer os bits_per_word dc buf len max_chunk w
      else if bits_per_word = 16 \<and> len mod 2 \<noteq> 0 then Some (- EINVAL, w)
      else do {
        let max_chunk = unat (mipi_dbi_spi_clamp_size (spi w) max_chunk);
        let max_src_chunk = kmin (max_chunk div 2) len;
        (dst16, w) \<leftarrow> kmalloc os (max_src_chunk * 2) w;
        if dst16 = Null then Some (- ENOMEM, w)
        else do {
          (ret, w) \<leftarrow> spi1_loop os bits_per_word dc max_src_chunk dst16
                       (zero_transfer\<lparr>tr_bits_per_word := 9, tr_tx_buf := dst16\<rparr>) buf len w;
          (_, w) \<leftarrow> kfree dst16 w;
          Some (ret, w) } })"

text \<open>\<open>(*(u8 *)reg == mspi->ram_reg) ? 16 : 8\<close>\<close>

definition reg_val_width :: "u8 \<Rightarrow> u32 \<Rightarrow> nat" where
  "reg_val_width r ram = (if ucast r = ram then 16 else 8)"

definition mipi_dbi_spi1_gather_write ::
  "os \<Rightarrow> ptr \<Rightarrow> nat \<Rightarrow> ptr \<Rightarrow> nat \<Rightarrow> state \<Rightarrow> (int \<times> state) option" where
  "mipi_dbi_spi1_gather_write os reg reg_len val val_len w =
     (if reg_len \<noteq> 1 then Some (- EINVAL, w)
      else do {
        r \<leftarrow> load w reg 1;
        let val_width = reg_val_width (hd r) (ram_reg (mspi w));
        (ret, w) \<leftarrow> mipi_dbi_spi1_transfer os 8 False reg reg_len 4096 w;
        if ret \<noteq> 0 then Some (ret, w)
        else if val \<noteq> Null \<and> val_len \<noteq> 0
        then mipi_dbi_spi1_transfer os val_width True val val_len 4096 w
        else Some (ret, w) })"

text \<open>\<open>count - 1\<close> wraps around for an empty buffer.\<close>

definition size_pred :: "nat \<Rightarrow> nat" where
  "size_pred n = (if n = 0 then 2 ^ 32 - 1 else n - 1)"

definition mipi_dbi_spi1_write :: "os \<Rightarrow> ptr \<Rightarrow> nat \<Rightarrow> state \<Rightarrow> (int \<times> state) option" where
  "mipi_dbi_spi1_write os data count w =
     mipi_dbi_spi1_gather_write os data 1 (padd data 1) (size_pred count) w"

definition mipi_dbi_spi1_read ::
  "os \<Rightarrow> ptr \<Rightarrow> nat \<Rightarrow> ptr \<Rightarrow> nat \<Rightarrow> state \<Rightarrow> (int \<times> state) option" where
  "mipi_dbi_spi1_read os reg reg_size val val_size w = Some (- ENOTSUPP, w)"

section \<open>Option 3\<close>

text \<open>A missing D/C line is a null pointer that \<open>gpiod_set_value_cansleep\<close> dereferences.\<close>

definition set_dc :: "os \<Rightarrow> int \<Rightarrow> state \<Rightarrow> (unit \<times> state) option" where
  "set_dc os v w =
     (case ms_dc (mspi w) of None \<Rightarrow> None | Some d \<Rightarrow> gpiod_set_value_cansleep os d v w)"

definition mipi_dbi_spi3_gather_write ::
  "os \<Rightarrow> ptr \<Rightarrow> nat \<Rightarrow> ptr \<Rightarrow> nat \<Rightarrow> state \<Rightarrow> (int \<times> state) option" where
  "mipi_dbi_spi3_gather_write os reg reg_len val val_len w =
     (if reg_len \<noteq> 1 then Some (- EINVAL, w)
      else do {
        (_, w) \<leftarrow> (if ms_tx_buf (mspi w) = Null
                   then do {
                     (p, w) \<leftarrow> utinydrm_get_tx_buf os (chunk_size (mspi w)) w;
                     Some ((), w\<lparr>mspi := (mspi w)\<lparr>ms_tx_buf := p\<rparr>\<rparr>) }
                   else Some ((), w));
        if ms_tx_buf (mspi w) = Null then Some (- ENOMEM, w)
        else do {
          r \<leftarrow> load w reg 1;
          let val_width = reg_val_width (hd r) (ram_reg (mspi w));
          (_, w) \<leftarrow> set_dc os 0 w;
          (ret, w) \<leftarrow> tinydrm_spi_transfer os 0 None 8 reg 1 (ms_tx_buf (mspi w))
                       (unat (chunk_size (mspi w))) w;
          if ret \<noteq> 0 then Some (ret, w)
          else if val \<noteq> Null \<and> val_len \<noteq> 0
          then do {
            (_, w) \<leftarrow> set_dc os 1 w;
            tinydrm_spi_transfer os 0 None (of_nat val_width) val val_len (ms_tx_buf (mspi w))
              (unat (chunk_size (mspi w))) w }
          else Some (ret, w) } })"

definition mipi_dbi_spi3_write :: "os \<Rightarrow> ptr \<Rightarrow> nat \<Rightarrow> state \<Rightarrow> (int \<times> state) option" where
  "mipi_dbi_spi3_write os data count w =
     mipi_dbi_spi3_gather_write os data 1 (padd data 1) (size_pred count) w"

text \<open>\<open>data[i] = (buf[i] << 1) | !!(buf[i + 1] & BIT(7))\<close>\<close>

fun shift_reply :: "bytes \<Rightarrow> bytes" where
  "shift_reply (a # b # bs) =
     (push_bit 1 a OR (if b AND 0x80 \<noteq> 0 then 1 else 0)) # shift_reply (b # bs)"
| "shift_reply bs = []"

definition mipi_dbi_spi3_read ::
  "os \<Rightarrow> ptr \<Rightarrow> nat \<Rightarrow> ptr \<Rightarrow> nat \<Rightarrow> state \<Rightarrow> (int \<times> state) option" where
  "mipi_dbi_spi3_read os reg reg_len val val_len w = do {
     let speed_hz = kmin 2000000 (max_speed_hz (spi w) div 2);
     c \<leftarrow> load w reg 1;
     let cmd = (ucast (hd c) :: u32);
     let dummy = (cmd = MIPI_DCS_GET_DISPLAY_ID \<or> cmd = MIPI_DCS_GET_DISPLAY_STATUS);
     if write_only (mspi w) then Some (- EACCES, w)
     else if dummy \<and> \<not> (val_len = 3 \<or> val_len = 4) then Some (- EINVAL, w)
     else do {
       let rx_len = (if dummy then val_len + 1 else val_len);
       (buf, w) \<leftarrow> kmalloc os rx_len w;
       if buf = Null then Some (- ENOMEM, w)
       else do {
         (_, w) \<leftarrow> set_dc os 0 w;
         let m = spi_message_init_with_transfers
                   [zero_transfer\<lparr>tr_speed_hz := speed_hz, tr_tx_buf := reg, tr_len := 1\<rparr>,
                    zero_transfer\<lparr>tr_speed_hz := speed_hz, tr_len := rx_len, tr_rx_buf := buf\<rparr>];
         ((ret, m), w) \<leftarrow> spi_sync os m w;
         bs \<leftarrow> load w buf rx_len;
         (_, w) \<leftarrow> store val (if dummy then shift_reply bs else bs) w;
         (_, w) \<leftarrow> kfree buf w;
         Some (ret, w) } } }"

end
