(* ===== verification/Limits.thy ===== *)
theory Limits
  imports Mipi_Bus
begin

text \<open>
  The sizes of SPI transfers: what \<open>tinydrm_spi_max_transfer_size\<close> and
  \<open>mipi_dbi_spi_clamp_size\<close> return, in whole numbers.
\<close>

lemma push_bit_drop_bit: "push_bit k (drop_bit k x) = (x :: u32) AND NOT (mask k)"
  by (rule bit_word_eqI) (auto simp: bit_simps)

lemma unat_align4: "unat (x AND NOT 0x3 :: u32) = unat x - unat x mod 4"
proof -
  have m: "(0x3 :: u32) = mask 2" by (simp add: mask_numeral)
  have t: "unat (take_bit 2 x) = unat x mod 4"
    unfolding unsigned_take_bit_eq by (simp add: take_bit_eq_mod)
  have p: "push_bit 2 (drop_bit 2 x) = x AND NOT (mask 2)"
    by (rule push_bit_drop_bit)
  have "x AND NOT (mask 2) = x - take_bit 2 x"
    using bits_ident [of 2 x] unfolding p by (metis add_diff_cancel_right')
  moreover have "take_bit 2 x \<le> x" by (simp add: take_bit_eq_mask word_and_le2)
  ultimately show ?thesis unfolding m using t by (simp add: unat_sub)
qed

lemma unat_align4' [simp]: "unat (x AND - 4 :: u32) = unat x - unat x mod 4"
  using unat_align4 [of x] by simp

lemma align4_le: "n - n mod 4 \<le> (n::nat)" "4 dvd n - n mod (4::nat)" "n < (n - n mod 4) + (4::nat)"
  by (simp_all add: minus_mod_eq_mult_div)

lemma dma_le_spi_max: "max_dma_len s \<le> spi_max_transfer_size s"
  using unsigned_less [of "max_dma_len s", where 'a = nat] by (simp add: spi_max_transfer_size_def word_le_nat_alt)

lemma unat_min: "unat (min a b :: u32) = min (unat a) (unat b)"
  by (simp add: min_def word_le_nat_alt)

lemma unat_max: "unat (max a b :: u32) = max (unat a) (unat b)"
  by (simp add: max_def word_le_nat_alt)

text \<open>The limits that count: a zero \<open>max_len\<close> or module parameter is none.\<close>

definition spi_limit :: "nat \<Rightarrow> nat \<Rightarrow> nat \<Rightarrow> nat" where
  "spi_limit dma max_len par =
     min dma (min (if max_len = 0 then dma else max_len) (if par = 0 then dma else par))"

lemma spi_max_eq:
  "unat (tinydrm_spi_max_transfer_size par s max_len) =
     (let l = spi_limit (unat (max_dma_len s)) (unat max_len) (unat par) in max 4 (l - l mod 4))"
proof -
  let ?l = "spi_limit (unat (max_dma_len s)) (unat max_len) (unat par)"
  define r where "r = (let ret = min (spi_max_transfer_size s) (max_dma_len s);
      ret = (if max_len \<noteq> 0 then min ret max_len else ret) in if par \<noteq> 0 then min ret par else ret)"
  have m: "min (spi_max_transfer_size s) (max_dma_len s) = max_dma_len s"
    using dma_le_spi_max [of s] by simp
  have r: "unat r = ?l"
    unfolding r_def m Let_def spi_limit_def
    by (simp add: unat_min unat_eq_0 min.assoc min.left_commute min.commute)
  have "tinydrm_spi_max_transfer_size par s max_len = (if r AND NOT 0x3 < 4 then 4 else r AND NOT 0x3)"
    by (simp add: tinydrm_spi_max_transfer_size_def r_def Let_def)
  then show ?thesis
    by (simp add: r word_less_nat_alt Let_def max_def)
qed

lemma clamp_size_eq:
  "unat (mipi_dbi_spi_clamp_size s sz) =
     (let d = unat (max_dma_len s); l = min (max (if sz = 0 then d else unat sz) 4) d in l - l mod 4)"
  using dma_le_spi_max [of s]
  by (simp add: mipi_dbi_spi_clamp_size_def clamp_val_def unat_min unat_max Let_def)

end
