(* ===== verification/Regmap.thy ===== *)
theory Regmap
  imports Spi_Transfer
begin

text \<open>
  \<open>include/linux/regmap.h\<close>: the register map that formats a register number and hands it, with
  the value, to the functions of a bus. The functions of the bus are fields of a record, as in
  the C structure, with the bus context already applied; a null function pointer is \<open>None\<close>.
\<close>

section \<open>Data\<close>

datatype regcache_type = REGCACHE_NONE | REGCACHE_RBTREE | REGCACHE_COMPRESSED | REGCACHE_FLAT

type_synonym bus_write_fn = "ptr \<Rightarrow> nat \<Rightarrow> state \<Rightarrow> (int \<times> state) option"
type_synonym bus_gather_fn = "ptr \<Rightarrow> nat \<Rightarrow> ptr \<Rightarrow> nat \<Rightarrow> state \<Rightarrow> (int \<times> state) option"
type_synonym format_fn = "ptr \<Rightarrow> u32 \<Rightarrow> nat \<Rightarrow> state \<Rightarrow> (unit \<times> state) option"

record regmap_bus =
  bus_write :: "bus_write_fn option"
  bus_gather_write :: "bus_gather_fn option"
  bus_read :: "bus_gather_fn option"
  reg_format_endian_default :: regmap_endian
  val_format_endian_default :: regmap_endian
  bus_max_raw_read :: nat
  bus_max_raw_write :: nat

record regmap_config =
  cfg_reg_bits :: nat
  cfg_reg_stride :: nat
  cfg_pad_bits :: nat
  cfg_val_bits :: nat
  cfg_cache_type :: regcache_type
  cfg_use_single_rw :: bool
  cfg_can_multi_write :: bool

text \<open>The functions a map can use to write one register.\<close>

datatype reg_write_fn = No_reg_write | Bus_formatted_write | Bus_raw_write

record regmap =
  work_buf :: ptr
  buf_size :: nat
  reg_bytes :: nat
  pad_bytes :: nat
  val_bytes :: nat
  format_write :: "(ptr \<Rightarrow> u32 \<Rightarrow> u32 \<Rightarrow> state \<Rightarrow> (unit \<times> state) option) option"
  format_reg :: "format_fn option"
  format_val :: "format_fn option"
  parse_val :: "(bytes \<Rightarrow> u32) option"
  parse_inplace :: bool
  bus :: "regmap_bus option"
  reg_write :: reg_write_fn
  read_flag_mask :: u32
  write_flag_mask :: u32
  reg_shift :: nat
  reg_stride :: nat
  reg_stride_order :: int
  cache_type :: regcache_type
  use_single_read :: bool
  use_single_write :: bool
  can_multi_write :: bool
  max_raw_read :: nat
  max_raw_write :: nat

section \<open>Formatting\<close>

definition regmap_format_8 :: format_fn where
  "regmap_format_8 buf val shift w = store buf [ucast (push_bit shift val)] w"

definition regmap_parse_8 :: "bytes \<Rightarrow> u32" where
  "regmap_parse_8 bs = ucast (hd bs)"

text \<open>
  The variable \<open>endian\<close> has no initial value when the bus gives the default; its content is
  the argument \<open>junk\<close>.
\<close>

definition regmap_get_reg_endian :: "regmap_endian \<Rightarrow> regmap_bus option \<Rightarrow> regmap_endian" where
  "regmap_get_reg_endian junk b =
     (let endian = (case b of
            None \<Rightarrow> junk
          | Some b \<Rightarrow> if reg_format_endian_default b \<noteq> REGMAP_ENDIAN_DEFAULT
                      then reg_format_endian_default b else junk)
      in if endian \<noteq> REGMAP_ENDIAN_DEFAULT then endian else REGMAP_ENDIAN_BIG)"

definition regmap_get_val_endian :: "regmap_endian \<Rightarrow> regmap_bus option \<Rightarrow> regmap_endian" where
  "regmap_get_val_endian junk b =
     (let endian = (case b of
            None \<Rightarrow> junk
          | Some b \<Rightarrow> if val_format_endian_default b \<noteq> REGMAP_ENDIAN_DEFAULT
                      then val_format_endian_default b else junk)
      in if endian \<noteq> REGMAP_ENDIAN_DEFAULT then endian else REGMAP_ENDIAN_BIG)"

fun flag_mask_loop :: "ptr \<Rightarrow> u32 \<Rightarrow> nat \<Rightarrow> nat \<Rightarrow> state \<Rightarrow> (unit \<times> state) option" where
  "flag_mask_loop buf fm i 0 w = Some ((), w)"
| "flag_mask_loop buf fm i (Suc k) w = do {
     b \<leftarrow> load w (padd buf i) 1;
     (_, w) \<leftarrow> store (padd buf i) [hd b OR ucast (drop_bit (8 * i) fm AND 0xff)] w;
     flag_mask_loop buf fm (Suc i) k w }"

definition regmap_set_work_buf_flag_mask ::
  "regmap \<Rightarrow> nat \<Rightarrow> u32 \<Rightarrow> state \<Rightarrow> (unit \<times> state) option" where
  "regmap_set_work_buf_flag_mask rm max_bytes fm w =
     (if fm = 0 \<or> work_buf rm = Null then Some ((), w)
      else flag_mask_loop (work_buf rm) fm 0 max_bytes w)"

section \<open>Writing\<close>

definition call_format :: "format_fn option \<Rightarrow> format_fn" where
  "call_format f p v s w = (case f of None \<Rightarrow> None | Some g \<Rightarrow> g p v s w)"

definition call_write :: "regmap \<Rightarrow> bus_write_fn" where
  "call_write rm p n w =
     (case bus rm of None \<Rightarrow> None
      | Some b \<Rightarrow> (case bus_write b of None \<Rightarrow> None | Some f \<Rightarrow> f p n w))"

definition regmap_raw_write_work :: "os \<Rightarrow> regmap \<Rightarrow> u32 \<Rightarrow> ptr \<Rightarrow> nat \<Rightarrow> state \<Rightarrow> (int \<times> state) option" where
  "regmap_raw_write_work os rm reg val val_len w = do {
     let hdr = reg_bytes rm + pad_bytes rm;
     let work_val = padd (work_buf rm) hdr;
     (_, w) \<leftarrow> call_format (format_reg rm) (work_buf rm) reg (reg_shift rm) w;
     (_, w) \<leftarrow> regmap_set_work_buf_flag_mask rm (reg_bytes rm) (write_flag_mask rm) w;
     let copy = (val \<noteq> work_val \<and> val_len = val_bytes rm);
     (_, w) \<leftarrow> (if copy then memcpy work_val val (val_bytes rm) w else Some ((), w));
     let val = (if copy then work_val else val);
     (ret, w) \<leftarrow> (if val = work_val then call_write rm (work_buf rm) (hdr + val_len) w
                  else (case bus rm of
                      None \<Rightarrow> None
                    | Some b \<Rightarrow> (case bus_gather_write b of
                          None \<Rightarrow> Some (- ENOTSUPP, w)
                        | Some f \<Rightarrow> f (work_buf rm) hdr val val_len w)));
     if ret = - ENOTSUPP
     then do {
       (buf, w) \<leftarrow> kzalloc os (hdr + val_len) w;
       if buf = Null then Some (- ENOMEM, w)
       else do {
         (_, w) \<leftarrow> memcpy buf (work_buf rm) (reg_bytes rm) w;
         (_, w) \<leftarrow> memcpy (padd buf hdr) val val_len w;
         (ret, w) \<leftarrow> call_write rm buf (hdr + val_len) w;
         (_, w) \<leftarrow> kfree buf w;
         Some (ret, w) } }
     else Some (ret, w) }"

definition regmap_can_raw_write :: "regmap \<Rightarrow> bool" where
  "regmap_can_raw_write rm \<longleftrightarrow>
     (case bus rm of None \<Rightarrow> False | Some b \<Rightarrow> bus_write b \<noteq> None) \<and>
     format_val rm \<noteq> None \<and> format_reg rm \<noteq> None"

definition regmap_raw_write ::
  "os \<Rightarrow> regmap \<Rightarrow> u32 \<Rightarrow> ptr \<Rightarrow> nat \<Rightarrow> state \<Rightarrow> (int \<times> state) option" where
  "regmap_raw_write os rm reg val val_len w =
     (if \<not> regmap_can_raw_write rm then Some (- EINVAL, w)
      else if val_len mod val_bytes rm \<noteq> 0 then Some (- EINVAL, w)
      else regmap_raw_write_work os rm reg val val_len w)"

definition regmap_bus_formatted_write ::
  "regmap \<Rightarrow> u32 \<Rightarrow> u32 \<Rightarrow> state \<Rightarrow> (int \<times> state) option" where
  "regmap_bus_formatted_write rm reg val w = do {
     (_, w) \<leftarrow> (case format_write rm of None \<Rightarrow> None | Some f \<Rightarrow> f (work_buf rm) reg val w);
     call_write rm (work_buf rm) (buf_size rm) w }"

definition regmap_bus_raw_write ::
  "os \<Rightarrow> regmap \<Rightarrow> u32 \<Rightarrow> u32 \<Rightarrow> state \<Rightarrow> (int \<times> state) option" where
  "regmap_bus_raw_write os rm reg val w = do {
     let p = padd (work_buf rm) (reg_bytes rm + pad_bytes rm);
     (_, w) \<leftarrow> call_format (format_val rm) p val 0 w;
     regmap_raw_write_work os rm reg p (val_bytes rm) w }"

section \<open>Reading\<close>

definition regmap_raw_read_bus ::
  "regmap \<Rightarrow> u32 \<Rightarrow> ptr \<Rightarrow> nat \<Rightarrow> state \<Rightarrow> (int \<times> state) option" where
  "regmap_raw_read_bus rm reg val val_len w =
     (case bus rm of
        None \<Rightarrow> Some (- EINVAL, w)
      | Some b \<Rightarrow> (case bus_read b of
          None \<Rightarrow> Some (- EINVAL, w)
        | Some f \<Rightarrow> do {
            (_, w) \<leftarrow> call_format (format_reg rm) (work_buf rm) reg (reg_shift rm) w;
            (_, w) \<leftarrow> regmap_set_work_buf_flag_mask rm (reg_bytes rm) (read_flag_mask rm) w;
            f (work_buf rm) (reg_bytes rm + pad_bytes rm) val val_len w }))"

definition regmap_raw_read ::
  "regmap \<Rightarrow> u32 \<Rightarrow> ptr \<Rightarrow> nat \<Rightarrow> state \<Rightarrow> (int \<times> state) option" where
  "regmap_raw_read rm reg val val_len w =
     (let val_count = val_len div val_bytes rm
      in case bus rm of
           None \<Rightarrow> Some (- EINVAL, w)
         | Some b \<Rightarrow>
             if val_len mod val_bytes rm \<noteq> 0 then Some (- EINVAL, w)
             else if \<not> IS_ALIGNED reg (of_nat (reg_stride rm)) then Some (- EINVAL, w)
             else if val_count = 0 then Some (- EINVAL, w)
             else if bus_read b = None then Some (- ENOTSUPP, w)
             else if max_raw_read rm \<noteq> 0 \<and> max_raw_read rm < val_len then Some (- E2BIG, w)
             else regmap_raw_read_bus rm reg val val_len w)"

definition regmap_bus_read :: "regmap \<Rightarrow> u32 \<Rightarrow> state \<Rightarrow> ((int \<times> u32 option) \<times> state) option" where
  "regmap_bus_read rm reg w =
     (case parse_val rm of
        None \<Rightarrow> Some ((- EINVAL, None), w)
      | Some parse \<Rightarrow> do {
          (ret, w) \<leftarrow> regmap_raw_read_bus rm reg (work_buf rm) (val_bytes rm) w;
          if ret = 0
          then do { bs \<leftarrow> load w (work_buf rm) (val_bytes rm); Some ((ret, Some (parse bs)), w) }
          else Some ((ret, None), w) })"

section \<open>Initialisation\<close>

definition div_round_up :: "nat \<Rightarrow> nat \<Rightarrow> nat" where
  "div_round_up n d = (n + d - 1) div d"

text \<open>\<open>config->reg_bits + rm->reg_shift\<close> and \<open>config->val_bits\<close>: only 8 is compiled in.\<close>

definition regmap_reg_format :: "nat \<Rightarrow> format_fn option" where
  "regmap_reg_format n = (if n = 8 then Some regmap_format_8 else None)"

definition regmap_init ::
  "os \<Rightarrow> regmap_endian \<Rightarrow> regmap_bus option \<Rightarrow> regmap_config option \<Rightarrow> state \<Rightarrow>
     (regmap errptr \<times> state) option" where
  "regmap_init os junk b config w =
     (case config of
        None \<Rightarrow> Some (PErr (- EINVAL), w)
      | Some c \<Rightarrow> do {
          (p, w) \<leftarrow> kzalloc os 96 w;
          if p = Null then Some (PErr (- ENOMEM), w)
          else do {
            let stride = (if cfg_reg_stride c \<noteq> 0 then cfg_reg_stride c else 1);
            let m = \<lparr>work_buf = Null,
              buf_size = div_round_up (cfg_reg_bits c + cfg_val_bits c + cfg_pad_bits c) 8,
              reg_bytes = div_round_up (cfg_reg_bits c) 8,
              pad_bytes = cfg_pad_bits c div 8,
              val_bytes = div_round_up (cfg_val_bits c) 8,
              format_write = None, format_reg = None, format_val = None, parse_val = None,
              parse_inplace = False, bus = b, reg_write = No_reg_write, read_flag_mask = 0,
              write_flag_mask = 0, reg_shift = cfg_pad_bits c mod 8, reg_stride = stride,
              reg_stride_order =
                (if is_power_of_2 (of_nat stride) then ilog2 (of_nat stride) else - 1),
              cache_type = cfg_cache_type c,
              use_single_read = (cfg_use_single_rw c \<or> b = None \<or> bus_read (the b) = None),
              use_single_write = (cfg_use_single_rw c \<or> b = None \<or> bus_write (the b) = None),
              can_multi_write = (cfg_can_multi_write c \<and> b \<noteq> None \<and> bus_write (the b) \<noteq> None),
              max_raw_read = (case b of None \<Rightarrow> 0 | Some b \<Rightarrow> bus_max_raw_read b),
              max_raw_write = (case b of None \<Rightarrow> 0 | Some b \<Rightarrow> bus_max_raw_write b)\<rparr>;
            let reg_endian = regmap_get_reg_endian junk b;
            let val_endian = regmap_get_val_endian junk b;
            case regmap_reg_format (cfg_reg_bits c + reg_shift m) of
              None \<Rightarrow> do { (_, w) \<leftarrow> kfree p w; Some (PErr (- EINVAL), w) }
            | Some f \<Rightarrow> do {
                let m = m\<lparr>format_reg := Some f\<rparr>;
                let m = (if val_endian = REGMAP_ENDIAN_NATIVE then m\<lparr>parse_inplace := True\<rparr> else m);
                let m = (if cfg_val_bits c = 8
                         then m\<lparr>format_val := Some regmap_format_8, parse_val := Some regmap_parse_8,
                                parse_inplace := True\<rparr>
                         else m);
                if format_write m \<noteq> None \<and>
                   (reg_endian \<noteq> REGMAP_ENDIAN_BIG \<or> val_endian \<noteq> REGMAP_ENDIAN_BIG)
                then do { (_, w) \<leftarrow> kfree p w; Some (PErr (- EINVAL), w) }
                else do {
                  let m = (if format_write m \<noteq> None then m\<lparr>use_single_write := True\<rparr> else m);
                  if format_write m = None \<and> \<not> (format_reg m \<noteq> None \<and> format_val m \<noteq> None)
                  then do { (_, w) \<leftarrow> kfree p w; Some (PErr (- EINVAL), w) }
                  else do {
                    (wb, w) \<leftarrow> kzalloc os (buf_size m) w;
                    if wb = Null
                    then do { (_, w) \<leftarrow> kfree p w; Some (PErr (- ENOMEM), w) }
                    else Some (PObj (m\<lparr>work_buf := wb,
                      reg_write := (if format_write m \<noteq> None then Bus_formatted_write
                                    else if format_val m \<noteq> None then Bus_raw_write
                                    else No_reg_write)\<rparr>), w) } } } } })"

end
