(* ===== verification/Tinydrm_Helpers.thy ===== *)
theory Tinydrm_Helpers
  imports Gpio
begin

text \<open>
  \<open>tinydrm-helpers.c\<close>: merging of dirty rectangles, conversion of XRGB8888 pixels to RGB565,
  and the backlight.
\<close>

section \<open>Operations\<close>

text \<open>
  The loop of \<open>tinydrm_merge_clips\<close>. An index past the array \<open>src\<close> is an access
  outside it, \<open>None\<close>.
\<close>

function merge_loop ::
  "clip_rect list \<Rightarrow> nat \<Rightarrow> bool \<Rightarrow> nat \<Rightarrow> clip_rect \<Rightarrow> clip_rect option" where
  "merge_loop src num_clips annotate_copy i dst =
     (if i < num_clips
      then let i = (if annotate_copy then Suc i else i)
           in if i < length src
              then merge_loop src num_clips annotate_copy (Suc i)
                     \<lparr>x1 = kmin (x1 dst) (x1 (src ! i)), y1 = kmin (y1 dst) (y1 (src ! i)),
                      x2 = kmax (x2 dst) (x2 (src ! i)), y2 = kmax (y2 dst) (y2 (src ! i))\<rparr>
              else None
      else Some dst)"
  by pat_completeness auto
termination
  by (relation "measure (\<lambda>(src, num_clips, annotate_copy, i, dst). num_clips - i)") auto

declare merge_loop.simps [simp del]

definition full_clip :: "u32 \<Rightarrow> u32 \<Rightarrow> clip_rect" where
  "full_clip max_width max_height =
     \<lparr>x1 = 0, y1 = 0, x2 = ucast max_width, y2 = ucast max_height\<rparr>"

definition tinydrm_merge_clips ::
  "clip_rect list option \<Rightarrow> nat \<Rightarrow> bool \<Rightarrow> u32 \<Rightarrow> u32 \<Rightarrow> clip_rect option" where
  "tinydrm_merge_clips src num_clips annotate_copy max_width max_height =
     (case src of
        None \<Rightarrow> Some (full_clip max_width max_height)
      | Some cs \<Rightarrow>
          if num_clips = 0 then Some (full_clip max_width max_height)
          else do {
            dst \<leftarrow> merge_loop cs num_clips annotate_copy 0
                     \<lparr>x1 = NOT 0, y1 = NOT 0, x2 = 0, y2 = 0\<rparr>;
            if ucast (x2 dst) > max_width \<or> ucast (y2 dst) > max_height \<or>
               x1 dst \<ge> x2 dst \<or> y1 dst \<ge> y2 dst
            then Some (full_clip max_width max_height)
            else Some dst })"

definition xrgb_pixel :: "u32 \<Rightarrow> u16" where
  "xrgb_pixel p =
     ucast (drop_bit 8 (p AND 0x00F80000) OR drop_bit 5 (p AND 0x0000FC00) OR
            drop_bit 3 (p AND 0x000000F8))"

fun tinydrm_xrgb8888_to_rgb565 :: "ptr \<Rightarrow> ptr \<Rightarrow> nat \<Rightarrow> state \<Rightarrow> (unit \<times> state) option" where
  "tinydrm_xrgb8888_to_rgb565 src dst 0 w = Some ((), w)"
| "tinydrm_xrgb8888_to_rgb565 src dst (Suc n) w = do {
     bs \<leftarrow> load w src 4;
     (_, w) \<leftarrow> store dst (le16 (xrgb_pixel (get_unaligned_le32 bs))) w;
     tinydrm_xrgb8888_to_rgb565 (padd src 4) (padd dst 2) n w }"

definition tinydrm_of_find_backlight :: "os \<Rightarrow> state \<Rightarrow> (gpio_desc errptr \<times> state) option" where
  "tinydrm_of_find_backlight os w = devm_gpiod_get_optional os ''led'' GPIOD_OUT_LOW w"

definition tinydrm_enable_backlight ::
  "os \<Rightarrow> gpio_desc option \<Rightarrow> state \<Rightarrow> (int \<times> state) option" where
  "tinydrm_enable_backlight os bl w = do {
     (_, w) \<leftarrow> (case bl of None \<Rightarrow> Some ((), w) | Some d \<Rightarrow> gpiod_set_value_cansleep os d 1 w);
     Some (0, w) }"

definition tinydrm_disable_backlight ::
  "os \<Rightarrow> gpio_desc option \<Rightarrow> state \<Rightarrow> (unit \<times> state) option" where
  "tinydrm_disable_backlight os bl w =
     (case bl of None \<Rightarrow> Some ((), w) | Some d \<Rightarrow> gpiod_set_value_cansleep os d 0 w)"

end
