(* ===== verification/Tinydrm_Core.thy ===== *)
theory Tinydrm_Core
  imports Machine Text Kernel_Shim
begin

text \<open>
  \<open>tinydrm-core.c\<close>: the device structure, registration with \<open>/dev/udrm\<close>, the test for a
  flush, and the display mode with its rotation. Also the mode conversion and the table of
  legacy formats of \<open>drmP.h\<close>.
\<close>

section \<open>Modes and formats\<close>

abbreviation DRM_DISPLAY_MODE_LEN :: nat where
  "DRM_DISPLAY_MODE_LEN \<equiv> 32"

definition drm_mode_convert_to_umode :: "drm_display_mode \<Rightarrow> umode" where
  "drm_mode_convert_to_umode m =
     \<lparr>um_clock = clock m, um_hdisplay = hdisplay m, um_hsync_start = hsync_start m,
      um_hsync_end = hsync_end m, um_htotal = htotal m, um_hskew = hskew m,
      um_vdisplay = vdisplay m, um_vsync_start = vsync_start m, um_vsync_end = vsync_end m,
      um_vtotal = vtotal m, um_vscan = vscan m, um_vrefresh = vrefresh m,
      um_flags = mode_flags m, um_type = mode_type m,
      um_name = take (DRM_DISPLAY_MODE_LEN - 1) (mode_name m)\<rparr>"

definition drm_mode_legacy_fb_format :: "u32 \<Rightarrow> u32 \<Rightarrow> pixel_format" where
  "drm_mode_legacy_fb_format bpp depth =
     (if bpp = 8 then DRM_FORMAT_C8
      else if bpp = 16 then (if depth = 15 then DRM_FORMAT_XRGB1555 else DRM_FORMAT_RGB565)
      else if bpp = 24 then DRM_FORMAT_RGB888
      else if bpp = 32
      then (if depth = 24 then DRM_FORMAT_XRGB8888
            else if depth = 30 then DRM_FORMAT_XRGB2101010 else DRM_FORMAT_ARGB8888)
      else DRM_FORMAT_XRGB8888)"

definition tinydrm_rotate_mode :: "drm_display_mode \<Rightarrow> u32 \<Rightarrow> int \<times> drm_display_mode" where
  "tinydrm_rotate_mode m rot =
     (if rot = 0 \<or> rot = 180 then (0, m)
      else if rot = 90 \<or> rot = 270
      then (0, m\<lparr>hdisplay := vdisplay m, vdisplay := hdisplay m,
                 hsync_start := vsync_start m, vsync_start := hsync_start m,
                 hsync_end := vsync_end m, vsync_end := hsync_end m,
                 htotal := vtotal m, vtotal := htotal m,
                 width_mm := height_mm m, height_mm := width_mm m\<rparr>)
      else (- EINVAL, m))"

section \<open>The device\<close>

text \<open>\<open>pipe.plane.state\<close> points to the state inside the structure, whose \<open>fb\<close> is null.\<close>

definition devm_tinydrm_init :: "state \<Rightarrow> (int \<times> state) option" where
  "devm_tinydrm_init w = Some (0, w\<lparr>udev_fb_funcs := True\<rparr>)"

definition tinydrm_display_pipe_init ::
  "drm_display_mode \<Rightarrow> u32 \<Rightarrow> state \<Rightarrow> (int \<times> state) option" where
  "tinydrm_display_pipe_init mode rot w =
     (case tinydrm_rotate_mode mode rot of (ret, mode_copy) \<Rightarrow>
        if ret \<noteq> 0 then Some (- EINVAL, w)
        else Some (0, w\<lparr>udev_mode := drm_mode_convert_to_umode mode_copy, pipe_funcs := True\<rparr>))"

definition udrm_formats :: "pixel_format list" where
  "udrm_formats = [DRM_FORMAT_RGB565]"

definition devm_tinydrm_register :: "os \<Rightarrow> string \<Rightarrow> state \<Rightarrow> (int \<times> state) option" where
  "devm_tinydrm_register os driver_name w = do {
     (fd, w) \<leftarrow> syscall os (Ev_open ''/dev/udrm'') w;
     let w = w\<lparr>udev_fd := fd\<rparr>;
     if fd = - 1 then Some (- errno w, w)
     else do {
       (ret, w) \<leftarrow> syscall os (Ev_dev_create fd (udev_mode w) udrm_formats UDRM_BUF_MODE_SWAP_BYTES driver_name) w;
       if ret = - 1
       then do { (_, w) \<leftarrow> syscall os (Ev_close fd) w; Some (- errno w, w) }
       else (case os_dev os (trace w) of (index, buf_fd) \<Rightarrow> do {
         (cfd, w) \<leftarrow> syscall os (Ev_open (''/dev/dri/controlD'' @ int_string (index + 64))) w;
         let w = w\<lparr>udev_control_fd := cfd\<rparr>;
         if cfd = - 1
         then do { (_, w) \<leftarrow> syscall os (Ev_close fd) w; Some (- errno w, w) }
         else Some (0, w\<lparr>spi := (spi w)\<lparr>utinydrm := True\<rparr>, udev_buf_fd := buf_fd\<rparr>) }) } }"

definition tinydrm_unregister :: "os \<Rightarrow> state \<Rightarrow> (unit \<times> state) option" where
  "tinydrm_unregister os w = do {
     (_, w) \<leftarrow> syscall os (Ev_close (udev_control_fd w)) w;
     (_, w) \<leftarrow> syscall os (Ev_close (udev_fd w)) w;
     Some ((), w) }"

definition tinydrm_check_dirty ::
  "state \<Rightarrow> clip_rect list option \<Rightarrow> nat \<Rightarrow> bool \<times> clip_rect list option \<times> nat" where
  "tinydrm_check_dirty w clips num_clips =
     (if \<not> prepared w then (False, clips, num_clips)
      else if \<not> enabled w then (True, None, 0)
      else (True, clips, num_clips))"

text \<open>\<open>drm_crtc_force_disable_all\<close> has an empty body, so shutdown, suspend and resume do nothing.\<close>

definition tinydrm_shutdown :: "state \<Rightarrow> (unit \<times> state) option" where
  "tinydrm_shutdown w = Some ((), w)"

definition tinydrm_suspend :: "state \<Rightarrow> (int \<times> state) option" where
  "tinydrm_suspend w = Some (0, w)"

definition tinydrm_resume :: "state \<Rightarrow> (int \<times> state) option" where
  "tinydrm_resume w = Some (0, w)"

definition tinydrm_spi_shutdown :: "state \<Rightarrow> (unit \<times> state) option" where
  "tinydrm_spi_shutdown w = (if drvdata (spi w) then tinydrm_shutdown w else Some ((), w))"

end
