(* ===== verification/Mipi_Dbi.thy ===== *)
theory Mipi_Dbi
  imports Mipi_Bus Regmap Tinydrm_Helpers Tinydrm_Core
begin

text \<open>
  The controller layer of \<open>mipi-dbi.c\<close>: the register map of each interface option, commands
  with parameters, flushing a framebuffer rectangle, blanking, and disabling the pipe.

  The register map does not change after it was made, so it is an argument of the functions that
  use \<open>mipi->reg\<close>. The mutex calls have empty bodies in \<open>kernel.h\<close>.
\<close>

section \<open>The register map\<close>

definition mipi_dbi_regmap_bus1 :: "os \<Rightarrow> regmap_bus" where
  "mipi_dbi_regmap_bus1 os =
     \<lparr>bus_write = Some (mipi_dbi_spi1_write os),
      bus_gather_write = Some (mipi_dbi_spi1_gather_write os),
      bus_read = Some (mipi_dbi_spi1_read os),
      reg_format_endian_default = REGMAP_ENDIAN_DEFAULT,
      val_format_endian_default = REGMAP_ENDIAN_DEFAULT,
      bus_max_raw_read = 0, bus_max_raw_write = 0\<rparr>"

definition mipi_dbi_regmap_bus3 :: "os \<Rightarrow> regmap_bus" where
  "mipi_dbi_regmap_bus3 os =
     \<lparr>bus_write = Some (mipi_dbi_spi3_write os),
      bus_gather_write = Some (mipi_dbi_spi3_gather_write os),
      bus_read = Some (mipi_dbi_spi3_read os),
      reg_format_endian_default = REGMAP_ENDIAN_DEFAULT,
      val_format_endian_default = REGMAP_ENDIAN_DEFAULT,
      bus_max_raw_read = 0, bus_max_raw_write = 0\<rparr>"

abbreviation mipi_dbi_regmap_config :: regmap_config where
  "mipi_dbi_regmap_config \<equiv>
     \<lparr>cfg_reg_bits = 8, cfg_reg_stride = 0, cfg_pad_bits = 0, cfg_val_bits = 8,
      cfg_cache_type = REGCACHE_NONE, cfg_use_single_rw = False, cfg_can_multi_write = False\<rparr>"

text \<open>\<open>junk\<close> is the content of the uninitialised variable in \<open>regmap_init\<close>.\<close>

definition mipi_dbi_spi_init ::
  "os \<Rightarrow> regmap_endian \<Rightarrow> gpio_desc option \<Rightarrow> bool \<Rightarrow> state \<Rightarrow> (regmap errptr \<times> state) option" where
  "mipi_dbi_spi_init os junk d wo w = do {
     (p, w) \<leftarrow> kzalloc os 24 w;
     if p = Null then Some (PErr (- ENOMEM), w)
     else do {
       let w = w\<lparr>mspi := \<lparr>ram_reg = MIPI_DCS_WRITE_MEMORY_START, ms_dc = d, write_only = wo,
                          ms_tx_buf = Null,
                          chunk_size = tinydrm_spi_max_transfer_size 0 (spi w) 0\<rparr>\<rparr>;
       regmap_init os junk
         (Some (if d \<noteq> None then mipi_dbi_regmap_bus3 os else mipi_dbi_regmap_bus1 os))
         (Some mipi_dbi_regmap_config) w } }"

section \<open>Commands\<close>

definition mipi_dbi_write_buf ::
  "os \<Rightarrow> regmap \<Rightarrow> u32 \<Rightarrow> ptr \<Rightarrow> nat \<Rightarrow> state \<Rightarrow> (int \<times> state) option" where
  "mipi_dbi_write_buf os reg cmd parameters num w = do {
     (buf, w) \<leftarrow> kmalloc os num w;
     if buf = Null then Some (- ENOMEM, w)
     else do {
       (_, w) \<leftarrow> memcpy buf parameters num w;
       (ret, w) \<leftarrow> regmap_raw_write os reg cmd buf num w;
       (_, w) \<leftarrow> kfree buf w;
       Some (ret, w) } }"

text \<open>The macro, with its local array of parameters.\<close>

definition mipi_dbi_write ::
  "os \<Rightarrow> regmap \<Rightarrow> u32 \<Rightarrow> bytes \<Rightarrow> state \<Rightarrow> (int \<times> state) option" where
  "mipi_dbi_write os reg cmd sq w = do {
     (d, w) \<leftarrow> new_block sq w;
     (ret, w) \<leftarrow> mipi_dbi_write_buf os reg cmd d (length sq) w;
     (_, w) \<leftarrow> drop_block d w;
     Some (ret, w) }"

section \<open>Flushing\<close>

definition clip_width :: "clip_rect \<Rightarrow> u32" where
  "clip_width c = ucast (x2 c) - ucast (x1 c)"

definition clip_height :: "clip_rect \<Rightarrow> u32" where
  "clip_height c = ucast (y2 c) - ucast (y1 c)"

definition tinydrm_regmap_flush_rgb565 ::
  "os \<Rightarrow> regmap \<Rightarrow> u32 \<Rightarrow> utinydrm_fb \<Rightarrow> ptr \<Rightarrow> clip_rect \<Rightarrow> state \<Rightarrow> (int \<times> state) option" where
  "tinydrm_regmap_flush_rgb565 os reg regnr fb vmem clip w =
     (let width = clip_width clip;
          height = clip_height clip;
          num_pixels = width * height
      in case fb_format fb of
           DRM_FORMAT_RGB565 \<Rightarrow> do {
             let tr = padd vmem (unat (ucast (y1 clip) * width * 2));
             (ret, w) \<leftarrow> regmap_raw_write os reg regnr tr (unat (num_pixels * 2)) w;
             (_, w) \<leftarrow> kfree Null w;
             Some (ret, w) }
         | DRM_FORMAT_XRGB8888 \<Rightarrow> do {
             let vmem = padd vmem (unat (ucast (y1 clip) * width * 4));
             (buf, w) \<leftarrow> kzalloc os (unat num_pixels * 2) w;
             if buf = Null then Some (- ENOMEM, w)
             else do {
               (_, w) \<leftarrow> tinydrm_xrgb8888_to_rgb565 vmem buf (unat num_pixels) w;
               (ret, w) \<leftarrow> regmap_raw_write os reg regnr buf (unat (num_pixels * 2)) w;
               (_, w) \<leftarrow> kfree buf w;
               Some (ret, w) } }
         | _ \<Rightarrow> Some (- EINVAL, w))"

text \<open>The four bytes of a column or page address command.\<close>

definition window_params :: "u16 \<Rightarrow> u16 \<Rightarrow> bytes" where
  "window_params a b =
     [ucast (drop_bit 8 a AND 0xFF), ucast (a AND 0xFF),
      ucast (drop_bit 8 b AND 0xFF), ucast ((b - 1) AND 0xFF)]"

definition mipi_dbi_enable_output :: "os \<Rightarrow> state \<Rightarrow> (int \<times> state) option" where
  "mipi_dbi_enable_output os w = do {
     (_, w) \<leftarrow> (if enable_delay_ms (mipi w) \<noteq> 0 then msleep (enable_delay_ms (mipi w)) w
                else Some ((), w));
     (ret, w) \<leftarrow> tinydrm_enable_backlight os (backlight (mipi w)) w;
     if ret \<noteq> 0 then Some (ret, w) else Some (ret, w\<lparr>enabled := True\<rparr>) }"

text \<open>
  \<open>flags\<close> is used for its annotate bit only. The clips are the array in the event; the
  pointer is never null.
\<close>

definition mipi_dbi_fb_dirty ::
  "os \<Rightarrow> regmap \<Rightarrow> utinydrm_fb \<Rightarrow> bool \<Rightarrow> u32 \<Rightarrow> clip_rect list \<Rightarrow> nat \<Rightarrow> state \<Rightarrow>
     (int \<times> state) option" where
  "mipi_dbi_fb_dirty os reg fb annotate color clips num_clips w =
     (case tinydrm_check_dirty w (Some clips) num_clips of
        (False, _, _) \<Rightarrow> Some (0, w)
      | (True, clips, num_clips) \<Rightarrow> do {
          clip \<leftarrow> tinydrm_merge_clips clips num_clips annotate (fb_width fb) (fb_height fb);
          (_, w) \<leftarrow> mipi_dbi_write os reg MIPI_DCS_SET_COLUMN_ADDRESS
                      (window_params (x1 clip) (x2 clip)) w;
          (_, w) \<leftarrow> mipi_dbi_write os reg MIPI_DCS_SET_PAGE_ADDRESS
                      (window_params (y1 clip) (y2 clip)) w;
          (ret, w) \<leftarrow> tinydrm_regmap_flush_rgb565 os reg MIPI_DCS_WRITE_MEMORY_START fb
                        (fb_map fb) clip w;
          if ret \<noteq> 0 then Some (ret, w)
          else if \<not> enabled w then mipi_dbi_enable_output os w
          else Some (ret, w) })"

section \<open>Disabling\<close>

definition blank_params :: "int \<Rightarrow> bytes" where
  "blank_params n =
     [0, 0, ucast (drop_bit 8 (word_of_int n :: u32) AND 0xFF), ucast (word_of_int (n - 1) AND (0xFF :: u32))]"

definition mipi_dbi_blank :: "os \<Rightarrow> regmap \<Rightarrow> state \<Rightarrow> (unit \<times> state) option" where
  "mipi_dbi_blank os reg w = do {
     let height = min_height w;
     let width = min_width w;
     let num_pixels = (word_of_int (width * height) :: u32);
     (buf, w) \<leftarrow> kzalloc os (unat (num_pixels * 2)) w;
     if buf = Null then Some ((), w)
     else do {
       (_, w) \<leftarrow> mipi_dbi_write os reg MIPI_DCS_SET_COLUMN_ADDRESS (blank_params width) w;
       (_, w) \<leftarrow> mipi_dbi_write os reg MIPI_DCS_SET_PAGE_ADDRESS (blank_params height) w;
       (_, w) \<leftarrow> regmap_raw_write os reg MIPI_DCS_WRITE_MEMORY_START buf (unat (num_pixels * 2)) w;
       kfree buf w } }"

text \<open>\<open>regulator_enable\<close> and \<open>regulator_disable\<close> of the shim return 0 and do nothing.\<close>

definition mipi_dbi_pipe_disable :: "os \<Rightarrow> regmap \<Rightarrow> state \<Rightarrow> (unit \<times> state) option" where
  "mipi_dbi_pipe_disable os reg w = do {
     (_, w) \<leftarrow> (if enabled w
                then (if backlight (mipi w) \<noteq> None
                      then tinydrm_disable_backlight os (backlight (mipi w)) w
                      else if \<not> regulator (mipi w) then mipi_dbi_blank os reg w
                      else Some ((), w))
                else Some ((), w));
     let w = w\<lparr>enabled := False\<rparr>;
     if prepared w
     then do {
       (_, w) \<leftarrow> (if backlight (mipi w) \<noteq> None
                  then do {
                    (_, w) \<leftarrow> mipi_dbi_write os reg MIPI_DCS_SET_DISPLAY_OFF [] w;
                    (_, w) \<leftarrow> mipi_dbi_write os reg MIPI_DCS_ENTER_SLEEP_MODE [] w;
                    Some ((), w\<lparr>prepared := False\<rparr>) }
                  else Some ((), w));
       let w = (if regulator (mipi w) then w\<lparr>prepared := False\<rparr> else w);
       Some ((), w) }
     else Some ((), w) }"

section \<open>Initialisation and reset\<close>

definition mipi_dbi_init :: "drm_display_mode \<Rightarrow> u32 \<Rightarrow> state \<Rightarrow> (int \<times> state) option" where
  "mipi_dbi_init mode rot w = do {
     (ret, w) \<leftarrow> devm_tinydrm_init w;
     if ret \<noteq> 0 then Some (ret, w)
     else do {
       (ret, w) \<leftarrow> tinydrm_display_pipe_init mode rot w;
       if ret \<noteq> 0 then Some (ret, w)
       else Some (0, w\<lparr>mipi := (mipi w)\<lparr>rotation := rot\<rparr>\<rparr>) } }"

definition mipi_dbi_hw_reset :: "os \<Rightarrow> state \<Rightarrow> (unit \<times> state) option" where
  "mipi_dbi_hw_reset os w =
     (case reset_gpio (mipi w) of
        None \<Rightarrow> Some ((), w)
      | Some d \<Rightarrow> do {
          (_, w) \<leftarrow> gpiod_set_value_cansleep os d 0 w;
          (_, w) \<leftarrow> msleep 20 w;
          (_, w) \<leftarrow> gpiod_set_value_cansleep os d 1 w;
          msleep 120 w })"

definition DCS_POWER_MODE_ON :: u8 where
  "DCS_POWER_MODE_ON = ucast (BIT 2 OR BIT 3 OR BIT 4)"

definition DCS_POWER_MODE_RESERVED_MASK :: u8 where
  "DCS_POWER_MODE_RESERVED_MASK = ucast (BIT 0 OR BIT 1 OR BIT 7)"

text \<open>The local \<open>val\<close> is a block of one byte.\<close>

definition mipi_dbi_display_is_on :: "os \<Rightarrow> regmap \<Rightarrow> state \<Rightarrow> (bool \<times> state) option" where
  "mipi_dbi_display_is_on os reg w = do {
     (val, w) \<leftarrow> new_block [os_junk os (trace w) 0] w;
     (ret, w) \<leftarrow> regmap_raw_read reg MIPI_DCS_GET_POWER_MODE val 1 w;
     v \<leftarrow> load w val 1;
     (_, w) \<leftarrow> drop_block val w;
     Some (ret = 0 \<and> hd v AND NOT DCS_POWER_MODE_RESERVED_MASK = DCS_POWER_MODE_ON, w) }"

end
