(* ===== verification/Panel.thy ===== *)
theory Panel
  imports Mipi_Dbi
begin

text \<open>
  \<open>mi0283qt.c\<close>: the driver of the MI0283QT panel, that is the sequence that turns the panel on
  and the probe function that sets the whole device up.
\<close>

section \<open>Turning the panel on\<close>

text \<open>Commands one after the other; their results are not looked at.\<close>

fun write_all :: "os \<Rightarrow> regmap \<Rightarrow> (u32 \<times> bytes) list \<Rightarrow> state \<Rightarrow> (unit \<times> state) option" where
  "write_all os reg [] w = Some ((), w)"
| "write_all os reg ((cmd, sq) # cs) w = do {
     (_, w) \<leftarrow> mipi_dbi_write os reg cmd sq w;
     write_all os reg cs w }"

definition mi0283qt_addr_mode :: "u32 \<Rightarrow> u8" where
  "mi0283qt_addr_mode rot =
     (if rot = 90 then ILI9341_MADCTL_MY
      else if rot = 180 then ILI9341_MADCTL_MV
      else if rot = 270 then ILI9341_MADCTL_MX
      else ILI9341_MADCTL_MV OR ILI9341_MADCTL_MY OR ILI9341_MADCTL_MX)
     OR ILI9341_MADCTL_BGR"

text \<open>The commands from the delay after the soft reset to the delay after leaving sleep mode.\<close>

definition mi0283qt_setup_cmds :: "u32 \<Rightarrow> (u32 \<times> bytes) list" where
  "mi0283qt_setup_cmds rot =
     [(MIPI_DCS_SET_DISPLAY_OFF, []),
      (ILI9341_PWCTRLB, [0x00, 0x83, 0x30]),
      (ILI9341_PWRSEQ, [0x64, 0x03, 0x12, 0x81]),
      (ILI9341_DTCTRLA, [0x85, 0x01, 0x79]),
      (ILI9341_PWCTRLA, [0x39, 0x2c, 0x00, 0x34, 0x02]),
      (ILI9341_PUMPCTRL, [0x20]),
      (ILI9341_DTCTRLB, [0x00, 0x00]),
      (ILI9341_PWCTRL1, [0x26]),
      (ILI9341_PWCTRL2, [0x11]),
      (ILI9341_VMCTRL1, [0x35, 0x3e]),
      (ILI9341_VMCTRL2, [0xbe]),
      (MIPI_DCS_SET_PIXEL_FORMAT, [0x55]),
      (MIPI_DCS_SET_ADDRESS_MODE, [mi0283qt_addr_mode rot]),
      (ILI9341_FRMCTR1, [0x00, 0x1b]),
      (ILI9341_EN3GAM, [0x08]),
      (MIPI_DCS_SET_GAMMA_CURVE, [0x01]),
      (ILI9341_PGAMCTRL,
         [0x1f, 0x1a, 0x18, 0x0a, 0x0f, 0x06, 0x45, 0x87,
          0x32, 0x0a, 0x07, 0x02, 0x07, 0x05, 0x00]),
      (ILI9341_NGAMCTRL,
         [0x00, 0x25, 0x27, 0x05, 0x10, 0x09, 0x3a, 0x78,
          0x4d, 0x05, 0x18, 0x0d, 0x38, 0x3a, 0x1f]),
      (ILI9341_ETMOD, [0x07]),
      (ILI9341_DISCTRL, [0x0a, 0x82, 0x27, 0x00]),
      (MIPI_DCS_EXIT_SLEEP_MODE, [])]"

text \<open>
  \<open>schedule_work\<close> has an empty body, and \<open>regulator_enable\<close> of the shim returns 0 and does
  nothing, so its error exit is never taken.
\<close>

definition mi0283qt_enable :: "os \<Rightarrow> regmap \<Rightarrow> state \<Rightarrow> (unit \<times> state) option" where
  "mi0283qt_enable os reg w =
     (if prepared w then Some ((), w)
      else do {
        (is_on, w) \<leftarrow> mipi_dbi_display_is_on os reg w;
        if is_on then Some ((), w\<lparr>prepared := True\<rparr>)
        else do {
          (_, w) \<leftarrow> mipi_dbi_hw_reset os w;
          (ret, w) \<leftarrow> mipi_dbi_write os reg MIPI_DCS_SOFT_RESET [] w;
          if ret \<noteq> 0 then Some ((), w)
          else do {
            (_, w) \<leftarrow> msleep 20 w;
            (_, w) \<leftarrow> write_all os reg (mi0283qt_setup_cmds (rotation (mipi w))) w;
            (_, w) \<leftarrow> msleep 100 w;
            (_, w) \<leftarrow> mipi_dbi_write os reg MIPI_DCS_SET_DISPLAY_ON [] w;
            (_, w) \<leftarrow> msleep 100 w;
            Some ((), w\<lparr>prepared := True\<rparr>) } } })"

section \<open>Probing\<close>

text \<open>\<open>TINYDRM_MODE(320, 240, 58, 43)\<close>; the type is \<open>DRM_MODE_TYPE_DRIVER\<close> of the kernel.\<close>

definition TINYDRM_MODE :: "int \<Rightarrow> int \<Rightarrow> int \<Rightarrow> int \<Rightarrow> drm_display_mode" where
  "TINYDRM_MODE hd1 vd hd_mm vd_mm =
     \<lparr>mode_name = [], mode_type = BIT 6, clock = 1, hdisplay = hd1, hsync_start = hd1,
      hsync_end = hd1, htotal = hd1, hskew = 0, vdisplay = vd, vsync_start = vd, vsync_end = vd,
      vtotal = vd, vscan = 0, mode_flags = 0, width_mm = hd_mm, height_mm = vd_mm, vrefresh = 0\<rparr>"

definition mi0283qt_mode :: drm_display_mode where
  "mi0283qt_mode = TINYDRM_MODE 320 240 58 43"

fun obj_of :: "'a errptr \<Rightarrow> 'a option" where
  "obj_of (PObj x) = Some x"
| "obj_of _ = None"

text \<open>
  The result comes with the register map that \<open>mipi->reg\<close> points to. The regulator of the shim
  is always null, \<open>write-only\<close> is false and \<open>rotation\<close> keeps its initial value 0.
\<close>

definition mi0283qt_probe ::
  "os \<Rightarrow> regmap_endian \<Rightarrow> state \<Rightarrow> ((int \<times> regmap option) \<times> state) option" where
  "mi0283qt_probe os junk w = do {
     (p, w) \<leftarrow> kzalloc os 400 w;
     if p = Null then Some ((- ENOMEM, None), w)
     else do {
       (rst, w) \<leftarrow> devm_gpiod_get_optional os ''reset'' GPIOD_OUT_HIGH w;
       case rst of PErr e \<Rightarrow> Some ((e, None), w) | _ \<Rightarrow> do {
         (d, w) \<leftarrow> devm_gpiod_get_optional os ''dc'' GPIOD_OUT_LOW w;
         case d of PErr e \<Rightarrow> Some ((e, None), w) | _ \<Rightarrow> do {
           (bl, w) \<leftarrow> tinydrm_of_find_backlight os w;
           case bl of PErr e \<Rightarrow> Some ((e, None), w) | _ \<Rightarrow> do {
             let w = w\<lparr>mipi := \<lparr>reset_gpio = obj_of rst, rotation = 0, backlight = obj_of bl,
                                enable_delay_ms = 50, regulator = False\<rparr>\<rparr>;
             (reg, w) \<leftarrow> mipi_dbi_spi_init os junk (obj_of d) False w;
             case reg of
               PErr e \<Rightarrow> Some ((e, None), w)
             | PNull \<Rightarrow> None
             | PObj reg \<Rightarrow> do {
                 (ret, w) \<leftarrow> mipi_dbi_init mi0283qt_mode 0 w;
                 if ret \<noteq> 0 then Some ((ret, Some reg), w)
                 else do {
                   (ret, w) \<leftarrow> devm_tinydrm_register os ''mi0283qt'' w;
                   if ret \<noteq> 0 then Some ((ret, Some reg), w)
                   else Some ((0, Some reg), w\<lparr>spi := (spi w)\<lparr>drvdata := True\<rparr>\<rparr>) } } } } } } }"

end
