(* ===== verification/Event_Loop.thy ===== *)
theory Event_Loop
  imports Panel
begin

text \<open>
  \<open>utinydrm.c\<close>: the events of \<open>/dev/udrm\<close> and the main loop.
\<close>

section \<open>Framebuffers\<close>

definition utinydrm_fb_create :: "os \<Rightarrow> u32 \<Rightarrow> state \<Rightarrow> (int \<times> state) option" where
  "utinydrm_fb_create os id1 w = do {
     (p, w) \<leftarrow> kzalloc os 144 w;
     if p = Null then Some (- ENOMEM, w)
     else do {
       (ret, w) \<leftarrow> syscall os (Ev_getfb (udev_control_fd w) id1) w;
       if ret = - 1
       then do { let r = - errno w; (_, w) \<leftarrow> kfree p w; Some (r, w) }
       else do {
         let info = os_fb os (trace w);
         (ret, w) \<leftarrow> syscall os (Ev_prime_to_fd (udev_control_fd w) (info_handle info) 0) w;
         if ret = - 1
         then do { let r = - errno w; (_, w) \<leftarrow> kfree p w; Some (r, w) }
         else do {
           let fd = os_prime_fd os (trace w);
           let n = info_height info * info_pitch info;
           (mp, w) \<leftarrow> sys_mmap os fd (unat n) 1 w;
           if mp = Null
           then do { let r = - errno w; (_, w) \<leftarrow> kfree p w; Some (r, w) }
           else Some (0, w\<lparr>fbs :=
             \<lparr>fb_id = id1, fb_handle = info_handle info, fb_buf_fd = fd, fb_map_size = sint n,
              fb_map = mp, fb_pitch = info_pitch info, fb_width = info_width info,
              fb_height = info_height info,
              fb_format = drm_mode_legacy_fb_format (info_bpp info) (info_depth info),
              fb_dirty_set = udev_fb_funcs w\<rparr> # fbs w\<rparr>) } } } }"

text \<open>
  The search of \<open>utinydrm_fb_destroy\<close>: \<open>pre\<close> holds the framebuffers before \<open>*curr\<close>. The
  pointer \<open>prev\<close> lags one link behind \<open>curr\<close>, so \<open>*prev = (*curr)->next\<close> also unlinks the
  framebuffer before the one found, if there is one. Theory \<open>Fb_Heap\<close> has the loop over the
  pointers and shows that this is what it does.
\<close>

fun fb_unlink ::
  "u32 \<Rightarrow> utinydrm_fb list \<Rightarrow> utinydrm_fb list \<Rightarrow> (utinydrm_fb \<times> utinydrm_fb list) option" where
  "fb_unlink id1 pre [] = None"
| "fb_unlink id1 pre (u # us) =
     (if fb_id u = id1 then Some (u, butlast pre @ us) else fb_unlink id1 (pre @ [u]) us)"

definition utinydrm_fb_destroy :: "os \<Rightarrow> u32 \<Rightarrow> state \<Rightarrow> (int \<times> state) option" where
  "utinydrm_fb_destroy os id1 w =
     (case fb_unlink id1 [] (fbs w) of
        None \<Rightarrow> Some (- EINVAL, w)
      | Some (u, us) \<Rightarrow> do {
          let w = w\<lparr>fbs := us\<rparr>;
          (ret, w) \<leftarrow> syscall os (Ev_munmap (fb_map u) (fb_map_size u)) w;
          (_, w) \<leftarrow> (if ret = - 1 then Some ((), w) else drop_block (fb_map u) w);
          Some (0, w) })"

definition utinydrm_fb_dirty ::
  "os \<Rightarrow> regmap \<Rightarrow> u32 \<Rightarrow> bool \<Rightarrow> u32 \<Rightarrow> nat \<Rightarrow> clip_rect list \<Rightarrow> state \<Rightarrow> (int \<times> state) option" where
  "utinydrm_fb_dirty os reg id1 annotate color num_clips clips w =
     (case find (\<lambda>u. fb_id u = id1) (fbs w) of
        None \<Rightarrow> Some (0, w)
      | Some ufb \<Rightarrow> do {
          let w = w\<lparr>plane_fb := Some (fb_id ufb)\<rparr>;
          if fb_dirty_set ufb
          then do {
            (_, w) \<leftarrow> mipi_dbi_fb_dirty os reg ufb annotate color clips num_clips w;
            Some (0, w) }
          else Some (0, w) })"

section \<open>Events\<close>

definition utinydrm_pipe_enable :: "os \<Rightarrow> regmap \<Rightarrow> state \<Rightarrow> (int \<times> state) option" where
  "utinydrm_pipe_enable os reg w = do {
     (_, w) \<leftarrow> (if pipe_funcs w then mi0283qt_enable os reg w else Some ((), w));
     Some (0, w) }"

definition utinydrm_pipe_disable :: "os \<Rightarrow> regmap \<Rightarrow> state \<Rightarrow> (int \<times> state) option" where
  "utinydrm_pipe_disable os reg w = do {
     (_, w) \<leftarrow> (if pipe_funcs w then mipi_dbi_pipe_disable os reg w else Some ((), w));
     Some (0, w) }"

fun utinydrm_event :: "os \<Rightarrow> regmap \<Rightarrow> udrm_event \<Rightarrow> state \<Rightarrow> (int \<times> state) option" where
  "utinydrm_event os reg UDRM_EVENT_PIPE_ENABLE w = utinydrm_pipe_enable os reg w"
| "utinydrm_event os reg UDRM_EVENT_PIPE_DISABLE w = utinydrm_pipe_disable os reg w"
| "utinydrm_event os reg (UDRM_EVENT_FB_CREATE id1) w = utinydrm_fb_create os id1 w"
| "utinydrm_event os reg (UDRM_EVENT_FB_DESTROY id1) w = utinydrm_fb_destroy os id1 w"
| "utinydrm_event os reg (UDRM_EVENT_FB_DIRTY id1 annotate color num clips) w =
     utinydrm_fb_dirty os reg id1 annotate color num clips w"
| "utinydrm_event os reg (Unknown_event ty) w = Some (0, w)"

section \<open>The main program\<close>

text \<open>One round of the loop of \<open>main\<close>: \<open>Some r\<close> is a \<open>return r\<close> out of it.\<close>

definition main_round :: "os \<Rightarrow> regmap \<Rightarrow> state \<Rightarrow> ((int option \<times> bool) \<times> state) option" where
  "main_round os reg w = do {
     (ret, w) \<leftarrow> syscall os (Ev_read (udev_fd w)) w;
     if ret = - 1 then do { (_, w) \<leftarrow> tinydrm_unregister os w; Some ((Some 1, False), w) }
     else do {
       (event_ret, w) \<leftarrow> utinydrm_event os reg (os_event os (trace w)) w;
       (ret, w) \<leftarrow> syscall os (Ev_reply (udev_fd w) event_ret) w;
       if ret = - 1 then do { (_, w) \<leftarrow> tinydrm_unregister os w; Some ((Some 1, False), w) }
       else do {
         (ret, w) \<leftarrow> syscall os (Ev_poll (udev_fd w)) w;
         Some ((None, 0 \<le> ret \<and> os_hangup os (trace w)), w) } } }"

partial_function (option) main_loop :: "os \<Rightarrow> regmap \<Rightarrow> bool \<Rightarrow> state \<Rightarrow> (int \<times> state) option" where
  "main_loop os reg hangup w =
     (if hangup then do { (_, w) \<leftarrow> tinydrm_unregister os w; Some (0, w) }
      else do {
        ((r, hangup), w) \<leftarrow> main_round os reg w;
        case r of Some r \<Rightarrow> Some (r, w) | None \<Rightarrow> main_loop os reg hangup w })"

definition utinydrm_main :: "os \<Rightarrow> regmap_endian \<Rightarrow> state \<Rightarrow> (int \<times> state) option" where
  "utinydrm_main os junk w = do {
     (ev, w) \<leftarrow> kmalloc os 1024 w;
     if ev = Null then Some (1, w)
     else do {
       ((ret, reg), w) \<leftarrow> mi0283qt_probe os junk w;
       if ret \<noteq> 0 then Some (1, w)
       else (case reg of None \<Rightarrow> None | Some reg \<Rightarrow> main_loop os reg False w) } }"

text \<open>The state \<open>main\<close> starts in.\<close>

definition main_spi :: spi_device where
  "main_spi = \<lparr>max_speed_hz = 32000000, max_dma_len = 320 * 240 * 2,
               bits_per_word_mask = SPI_BPW_MASK 8 OR SPI_BPW_MASK 16,
               drvdata = False, utinydrm = False\<rparr>"

definition init_state :: state where
  "init_state =
     \<lparr>mem = (\<lambda>_. None), nblk = 0, trace = [], errno = 0, tx_buf = PNull, spi = main_spi,
      mspi = \<lparr>ram_reg = 0, ms_dc = None, write_only = False, ms_tx_buf = Null, chunk_size = 0\<rparr>,
      mipi = \<lparr>reset_gpio = None, rotation = 0, backlight = None, enable_delay_ms = 0,
              regulator = False\<rparr>,
      udev_fd = 0, udev_control_fd = 0, udev_buf_fd = 0,
      udev_mode = \<lparr>um_clock = 0, um_hdisplay = 0, um_hsync_start = 0, um_hsync_end = 0,
                   um_htotal = 0, um_hskew = 0, um_vdisplay = 0, um_vsync_start = 0,
                   um_vsync_end = 0, um_vtotal = 0, um_vscan = 0, um_vrefresh = 0,
                   um_flags = 0, um_type = 0, um_name = []\<rparr>,
      udev_fb_funcs = False, fbs = [], pipe_funcs = False, plane_fb = None, prepared = False,
      enabled = False, min_width = 0, min_height = 0\<rparr>"

end
