(* ===== verification/Evolve.thy ===== *)
theory Evolve
  imports Machine
begin

text \<open>
  How a call changes the state, in the terms the correctness proofs share: which events it adds
  to the trace (\<open>new_evs\<close>), which blocks of memory it may change, which blocks the kernel can
  read by DMA (\<open>dma_blk\<close>), and the device fields it leaves alone (\<open>evolves\<close>).
\<close>

section \<open>Relations between states\<close>

definition new_evs :: "state \<Rightarrow> state \<Rightarrow> sysev list" where
  "new_evs w w' = drop (length (trace w)) (trace w')"

fun blk_of :: "ptr \<Rightarrow> nat option" where
  "blk_of Null = None"
| "blk_of (Ptr b i) = Some b"

text \<open>The blocks that are framebuffers or the global DMA buffer.\<close>

definition dma_blk :: "nat \<Rightarrow> state \<Rightarrow> bool" where
  "dma_blk b w \<longleftrightarrow>
     (\<exists>u \<in> set (fbs w). blk_of (fb_map u) = Some b) \<or>
     (case tx_buf w of PObj d \<Rightarrow> blk_of (dm_map d) = Some b | _ \<Rightarrow> False)"

definition same_dev :: "state \<Rightarrow> state \<Rightarrow> bool" where
  "same_dev w w' \<longleftrightarrow>
     spi w' = spi w \<and> mipi w' = mipi w \<and> fbs w' = fbs w \<and> prepared w' = prepared w \<and>
     enabled w' = enabled w \<and> udev_fd w' = udev_fd w \<and> udev_control_fd w' = udev_control_fd w \<and>
     udev_buf_fd w' = udev_buf_fd w \<and> udev_mode w' = udev_mode w \<and>
     udev_fb_funcs w' = udev_fb_funcs w \<and> pipe_funcs w' = pipe_funcs w \<and>
     plane_fb w' = plane_fb w \<and> min_width w' = min_width w \<and> min_height w' = min_height w \<and>
     (mspi w')\<lparr>ms_tx_buf := Null\<rparr> = (mspi w)\<lparr>ms_tx_buf := Null\<rparr>"

text \<open>
  \<open>evolves X w w'\<close>: from \<open>w\<close> to \<open>w'\<close> the trace grows, no block of \<open>w\<close> outside \<open>X\<close>
  changes, no block of \<open>w\<close> becomes visible to DMA, and the device fields stay.
\<close>

definition evolves :: "nat set \<Rightarrow> state \<Rightarrow> state \<Rightarrow> bool" where
  "evolves X w w' \<longleftrightarrow>
     trace w' = trace w @ new_evs w w' \<and> nblk w \<le> nblk w' \<and>
     (\<forall>b. b < nblk w \<and> b \<notin> X \<longrightarrow> mem w' b = mem w b) \<and>
     (\<forall>b. dma_blk b w' \<longrightarrow> dma_blk b w \<or> nblk w \<le> b) \<and> same_dev w w'"

text \<open>A pointer into a block that DMA cannot read.\<close>

definition priv :: "ptr \<Rightarrow> state \<Rightarrow> bool" where
  "priv p w \<longleftrightarrow> (\<exists>b i. p = Ptr b i \<and> b < nblk w \<and> \<not> dma_blk b w)"

section \<open>Lemmas\<close>

lemma new_evs_self [simp]: "new_evs w w = []"
  by (simp add: new_evs_def)

lemma same_dev_refl [simp]: "same_dev w w"
  by (simp add: same_dev_def)

lemma same_dev_trans: "same_dev w w' \<Longrightarrow> same_dev w' w'' \<Longrightarrow> same_dev w w''"
  by (simp add: same_dev_def)

lemma same_devD:
  assumes "same_dev w w'"
  shows "spi w' = spi w" "mipi w' = mipi w" "fbs w' = fbs w" "prepared w' = prepared w"
    "enabled w' = enabled w" "udev_fd w' = udev_fd w" "udev_control_fd w' = udev_control_fd w"
    "udev_buf_fd w' = udev_buf_fd w" "udev_mode w' = udev_mode w"
    "udev_fb_funcs w' = udev_fb_funcs w" "pipe_funcs w' = pipe_funcs w"
    "plane_fb w' = plane_fb w" "min_width w' = min_width w" "min_height w' = min_height w"
    "ram_reg (mspi w') = ram_reg (mspi w)" "ms_dc (mspi w') = ms_dc (mspi w)"
    "write_only (mspi w') = write_only (mspi w)" "chunk_size (mspi w') = chunk_size (mspi w)"
proof -
  have "(mspi w')\<lparr>ms_tx_buf := Null\<rparr> = (mspi w)\<lparr>ms_tx_buf := Null\<rparr>"
    using assms by (simp add: same_dev_def)
  then show "ram_reg (mspi w') = ram_reg (mspi w)" "ms_dc (mspi w') = ms_dc (mspi w)"
    "write_only (mspi w') = write_only (mspi w)" "chunk_size (mspi w') = chunk_size (mspi w)"
    by (cases "mspi w"; cases "mspi w'"; simp)+
qed (use assms in \<open>simp_all add: same_dev_def\<close>)

lemma evolves_refl [simp]: "evolves X w w"
  by (simp add: evolves_def)

lemma evolves_mono: "evolves X w w' \<Longrightarrow> X \<subseteq> Y \<Longrightarrow> evolves Y w w'"
  by (auto simp: evolves_def)

lemma evolves_same_dev: "evolves X w w' \<Longrightarrow> same_dev w w'"
  by (simp add: evolves_def)

lemma evolves_nblk: "evolves X w w' \<Longrightarrow> nblk w \<le> nblk w'"
  by (simp add: evolves_def)

lemma evolves_mem: "evolves X w w' \<Longrightarrow> b < nblk w \<Longrightarrow> b \<notin> X \<Longrightarrow> mem w' b = mem w b"
  by (simp add: evolves_def)

lemma evolves_dma: "evolves X w w' \<Longrightarrow> dma_blk b w' \<Longrightarrow> b < nblk w \<Longrightarrow> dma_blk b w"
  by (auto simp: evolves_def)

lemma evolves_trace: "evolves X w w' \<Longrightarrow> trace w' = trace w @ new_evs w w'"
  by (simp add: evolves_def)

lemma evolves_trans:
  assumes "evolves X w w'" and "evolves X w' w''"
  shows "evolves X w w''" and "new_evs w w'' = new_evs w w' @ new_evs w' w''"
proof -
  have t: "trace w'' = trace w @ new_evs w w' @ new_evs w' w''"
    using assms evolves_trace by (metis append.assoc)
  then show n: "new_evs w w'' = new_evs w w' @ new_evs w' w''"
    by (simp add: new_evs_def [of w w''])
  have d: "dma_blk b w \<or> nblk w \<le> b" if "dma_blk b w''" for b
  proof -
    have "dma_blk b w' \<or> nblk w' \<le> b" using assms(2) that by (simp add: evolves_def)
    then show ?thesis using assms(1) unfolding evolves_def by (meson le_trans)
  qed
  have m: "mem w'' b = mem w b" if "b < nblk w" "b \<notin> X" for b
    using assms that evolves_nblk [OF assms(1)] by (simp add: evolves_mem)
  have "nblk w \<le> nblk w''"
    using assms evolves_nblk le_trans by blast
  with t n d m assms show "evolves X w w''"
    by (auto simp: evolves_def intro: same_dev_trans)
qed

lemma priv_evolves: "priv p w \<Longrightarrow> evolves X w w' \<Longrightarrow> priv p w'"
  unfolding priv_def by (metis evolves_dma evolves_nblk order_less_le_trans)

lemma load_evolves:
  assumes "load w p n = Some bs" and "evolves X w w'" and "priv p w" and "blk_of p \<notin> Some ` X"
  shows "load w' p n = Some bs"
proof -
  from assms(3) obtain b i where p: "p = Ptr b i" "b < nblk w" by (auto simp: priv_def)
  with assms(2,4) have "mem w' b = mem w b" by (intro evolves_mem) auto
  with p assms(1) show ?thesis by simp
qed

lemma priv_padd [simp]: "priv (padd p n) w = priv p w"
  by (cases p) (auto simp: priv_def)

lemma priv_not_Null [simp]: "\<not> priv Null w"
  by (simp add: priv_def)

text \<open>The primitive changes.\<close>

lemma dma_blk_simps [simp]:
  "dma_blk b (w\<lparr>mem := m\<rparr>) = dma_blk b w"
  "dma_blk b (w\<lparr>nblk := n\<rparr>) = dma_blk b w"
  "dma_blk b (w\<lparr>trace := t\<rparr>) = dma_blk b w"
  "dma_blk b (w\<lparr>errno := e\<rparr>) = dma_blk b w"
  "dma_blk b (log_evs es w) = dma_blk b w"
  "dma_blk b (w\<lparr>mspi := x\<rparr>) = dma_blk b w"
  "dma_blk b (w\<lparr>prepared := y\<rparr>) = dma_blk b w"
  "dma_blk b (w\<lparr>enabled := y\<rparr>) = dma_blk b w"
  by (simp_all add: dma_blk_def)

lemma evolves_log [simp]: "evolves X w (log_evs es w)"
  by (simp add: evolves_def new_evs_def same_dev_def)

lemma new_evs_log [simp]: "new_evs w (log_evs es w) = es"
  by (simp add: new_evs_def)

lemma evolves_mem_upd: "b \<in> X \<Longrightarrow> evolves X w (w\<lparr>mem := (mem w)(b := x)\<rparr>)"
  by (auto simp: evolves_def new_evs_def same_dev_def)

lemma evolves_mem_fresh: "nblk w \<le> b \<Longrightarrow> evolves X w (w\<lparr>mem := (mem w)(b := x)\<rparr>)"
  by (auto simp: evolves_def new_evs_def same_dev_def)

lemma evolves_new_block: "evolves X w (w\<lparr>mem := (mem w)(nblk w := x), nblk := Suc (nblk w)\<rparr>)"
  by (auto simp: evolves_def new_evs_def same_dev_def)

lemma new_block_eq:
  "new_block bs w = Some (Ptr (nblk w) 0, w\<lparr>mem := (mem w)(nblk w \<mapsto> bs), nblk := Suc (nblk w)\<rparr>)"
  by (simp add: new_block_def)

text \<open>A successful allocation.\<close>

definition allocated :: "nat \<Rightarrow> bytes \<Rightarrow> state \<Rightarrow> state" where
  "allocated n bs w =
     (log_ev (Ev_alloc n) w)\<lparr>mem := (mem w)(nblk w \<mapsto> bs), nblk := Suc (nblk w)\<rparr>"

lemma allocated_simps [simp]:
  "mem (allocated n bs w) = (mem w)(nblk w \<mapsto> bs)" "nblk (allocated n bs w) = Suc (nblk w)"
  "trace (allocated n bs w) = trace w @ [Ev_alloc n]" "tx_buf (allocated n bs w) = tx_buf w"
  "spi (allocated n bs w) = spi w" "mspi (allocated n bs w) = mspi w"
  "mipi (allocated n bs w) = mipi w" "fbs (allocated n bs w) = fbs w"
  "dma_blk b (allocated n bs w) = dma_blk b w"
  by (simp_all add: allocated_def dma_blk_def)

lemma evolves_allocated [simp]: "evolves X w (allocated n bs w)"
  by (auto simp: evolves_def new_evs_def same_dev_def) (simp_all add: allocated_def)

lemma new_evs_allocated [simp]: "new_evs w (allocated n bs w) = [Ev_alloc n]"
  by (simp add: new_evs_def)

lemma kmalloc_ok:
  assumes "os_good os"
  obtains bs where "length bs = n" and "kmalloc os n w = Some (Ptr (nblk w) 0, allocated n bs w)"
proof
  show "length (map (os_junk os (trace w @ [Ev_alloc n])) [0..<n]) = n" by simp
  show "kmalloc os n w = Some (Ptr (nblk w) 0,
      allocated n (map (os_junk os (trace w @ [Ev_alloc n])) [0..<n]) w)"
    using assms by (simp add: kmalloc_def alloc_def os_goodD new_block_def allocated_def Let_def)
qed

lemma kzalloc_ok:
  assumes "os_good os"
  shows "kzalloc os n w = Some (Ptr (nblk w) 0, allocated n (replicate n 0) w)"
  using assms by (simp add: kzalloc_def alloc_def os_goodD new_block_def allocated_def Let_def)

definition freed :: "nat \<Rightarrow> state \<Rightarrow> state" where
  "freed b w = log_ev (Ev_free b) (w\<lparr>mem := (mem w)(b := None)\<rparr>)"

lemma freed_simps [simp]:
  "mem (freed b w) = (mem w)(b := None)" "nblk (freed b w) = nblk w"
  "trace (freed b w) = trace w @ [Ev_free b]" "tx_buf (freed b w) = tx_buf w"
  "spi (freed b w) = spi w" "mspi (freed b w) = mspi w"
  "mipi (freed b w) = mipi w" "fbs (freed b w) = fbs w"
  "dma_blk c (freed b w) = dma_blk c w"
  by (simp_all add: freed_def dma_blk_def)

lemma kfree_ok: "mem w b \<noteq> None \<Longrightarrow> kfree (Ptr b 0) w = Some ((), freed b w)"
  by (simp add: freed_def)

lemma evolves_freed: "b \<in> X \<Longrightarrow> evolves X w (freed b w)"
  by (auto simp: evolves_def new_evs_def same_dev_def) (simp_all add: freed_def)

lemma new_evs_freed [simp]: "new_evs w (freed b w) = [Ev_free b]"
  by (simp add: new_evs_def)

lemma new_evs_mem [simp]: "new_evs w (w\<lparr>mem := m\<rparr>) = []" "new_evs w (w\<lparr>mem := m, nblk := k\<rparr>) = []"
  by (simp_all add: new_evs_def)

text \<open>
  A call may use blocks it has made itself: they do not count as changed.
\<close>

lemma evolves_fresh_drop:
  assumes "evolves (X \<union> Y) w w'" and "\<And>b. b \<in> Y \<Longrightarrow> nblk w \<le> b"
  shows "evolves X w w'"
  using assms by (fastforce simp: evolves_def)

end
