(* ===== verification/Frame.thy ===== *)
theory Frame
  imports Event_Loop Evolve
begin

text \<open>
  Frame rules: when a relation between states survives every small step of the program that the
  event handlers make, it survives the operations built from them. The locales \<open>frame0\<close> and
  \<open>frame\<close> ask it of the assignments, of single system calls and of the two SPI messages; the
  locale \<open>frame_bus\<close> of the functions of a bus. Theories \<open>Calm\<close> and \<open>Descriptors\<close> interpret them.
\<close>

section \<open>Walking down the code\<close>

definition keeps :: "(state \<Rightarrow> state \<Rightarrow> bool) \<Rightarrow> state \<Rightarrow> ('a \<times> state) option \<Rightarrow> bool" where
  "keeps R w0 m = (case m of None \<Rightarrow> True | Some (r, w) \<Rightarrow> R w0 w)"

named_theorems frame_intros \<open>rules that follow the structure of an operation\<close>
named_theorems frame_ops \<open>operations that keep the relation\<close>

lemma keepsD: "keeps R w0 m \<Longrightarrow> m = Some (r, w) \<Longrightarrow> R w0 w"
  by (simp add: keeps_def)

lemma keepsI: "(\<And>r w. m = Some (r, w) \<Longrightarrow> R w0 w) \<Longrightarrow> keeps R w0 m"
  by (auto simp: keeps_def split: option.split)

lemma keeps_Some [frame_intros]: "R w0 w \<Longrightarrow> keeps R w0 (Some (r, w))"
  by (simp add: keeps_def)

lemma keeps_None [frame_intros]: "keeps R w0 None"
  by (simp add: keeps_def)

lemma keeps_bind [frame_intros]:
  "keeps R w0 m \<Longrightarrow> (\<And>r w. R w0 w \<Longrightarrow> keeps R w0 (f (r, w))) \<Longrightarrow> keeps R w0 (m \<bind> f)"
  by (cases m) (auto simp: keeps_def)

lemma keeps_bind_bytes [frame_intros]:
  "(\<And>bs. keeps R w0 (f bs)) \<Longrightarrow> keeps R w0 ((m :: bytes option) \<bind> f)"
  by (cases m) (auto simp: keeps_def)

lemma keeps_bind_bytes_list [frame_intros]:
  "(\<And>bs. keeps R w0 (f bs)) \<Longrightarrow> keeps R w0 ((m :: bytes list option) \<bind> f)"
  by (cases m) (auto simp: keeps_def)

lemma keeps_bind_clip [frame_intros]:
  "(\<And>c. keeps R w0 (f c)) \<Longrightarrow> keeps R w0 ((m :: clip_rect option) \<bind> f)"
  by (cases m) (auto simp: keeps_def)

lemma keeps_if [frame_intros]:
  "(b \<Longrightarrow> keeps R w0 m) \<Longrightarrow> (\<not> b \<Longrightarrow> keeps R w0 n) \<Longrightarrow> keeps R w0 (if b then m else n)"
  by simp

lemma keeps_Let [frame_intros]: "(\<And>x. x = v \<Longrightarrow> keeps R w0 (f x)) \<Longrightarrow> keeps R w0 (Let v f)"
  by simp

lemma keeps_pair [frame_intros]: "keeps R w0 (f a b) \<Longrightarrow> keeps R w0 (case (a, b) of (x, y) \<Rightarrow> f x y)"
  by simp

lemma keeps_prod [frame_intros]:
  "(\<And>a b. p = (a, b) \<Longrightarrow> keeps R w0 (f a b)) \<Longrightarrow> keeps R w0 (case p of (x, y) \<Rightarrow> f x y)"
  by (cases p) simp

lemma keeps_prod_fun [frame_intros]:
  "(\<And>a b. p = (a, b) \<Longrightarrow> keeps R w0 (f a b w)) \<Longrightarrow> keeps R w0 ((case p of (x, y) \<Rightarrow> f x y) w)"
  by (cases p) simp

lemma keeps_option [frame_intros]:
  "keeps R w0 m \<Longrightarrow> (\<And>x. v = Some x \<Longrightarrow> keeps R w0 (f x)) \<Longrightarrow> keeps R w0 (case v of None \<Rightarrow> m | Some x \<Rightarrow> f x)"
  by (cases v) simp_all

lemma keeps_errptr [frame_intros]:
  "keeps R w0 a \<Longrightarrow> (\<And>e. keeps R w0 (f e)) \<Longrightarrow> (\<And>x. keeps R w0 (g x)) \<Longrightarrow>
   keeps R w0 (case v of PNull \<Rightarrow> a | PErr e \<Rightarrow> f e | PObj x \<Rightarrow> g x)"
  by (cases v) simp_all

lemma keeps_list [frame_intros]:
  "keeps R w0 a \<Longrightarrow> (\<And>x xs. keeps R w0 (f x xs)) \<Longrightarrow> keeps R w0 (case v of [] \<Rightarrow> a | x # xs \<Rightarrow> f x xs)"
  by (cases v) simp_all

lemma keeps_pixel_format [frame_intros]:
  "keeps R w0 a \<Longrightarrow> keeps R w0 b \<Longrightarrow> keeps R w0 c \<Longrightarrow>
   keeps R w0 (case f of DRM_FORMAT_RGB565 \<Rightarrow> a | DRM_FORMAT_XRGB8888 \<Rightarrow> b | _ \<Rightarrow> c)"
  by (cases f) simp_all


section \<open>The machine\<close>

text \<open>Calls that neither open nor close a file nor belong to the protocol of the main loop.\<close>

definition frame_ev :: "sysev \<Rightarrow> bool" where
  "frame_ev e = (case e of Ev_read _ \<Rightarrow> False | Ev_reply _ _ \<Rightarrow> False | Ev_poll _ \<Rightarrow> False |
     Ev_open _ \<Rightarrow> False | Ev_close _ \<Rightarrow> False | _ \<Rightarrow> True)"

lemma frame_ev_simps [frame_ops]:
  "frame_ev (Ev_alloc n)" "frame_ev (Ev_free blk)" "frame_ev (Ev_usleep n)"
  "frame_ev (Ev_write fd s)" "frame_ev (Ev_access f)"
  "frame_ev (Ev_spi fd utr bss)" "frame_ev (Ev_create_dumb fd a b c)" "frame_ev (Ev_prime_to_fd fd h n)"
  "frame_ev (Ev_getfb fd i)" "frame_ev (Ev_mmap fd n k)" "frame_ev (Ev_munmap p j)"
  "frame_ev (Ev_dev_create fd u fmts bm nm)"
  by (simp_all add: frame_ev_def)

locale frame0 =
  fixes os :: os and R :: "state \<Rightarrow> state \<Rightarrow> bool"
  assumes R_refl: "R w w"
    and R_trans: "R w w' \<Longrightarrow> R w' w'' \<Longrightarrow> R w w''"
    and R_errno: "R w (w\<lparr>errno := e\<rparr>)"
    and R_mem: "R w (w\<lparr>mem := m\<rparr>)"
    and R_nblk: "R w (w\<lparr>nblk := n\<rparr>)"
    and R_tx_buf: "R w (w\<lparr>tx_buf := t\<rparr>)"
    and R_mspi: "R w (w\<lparr>mspi := (mspi w)\<lparr>ms_tx_buf := p\<rparr>\<rparr>)"
    and R_log: "frame_ev ev \<Longrightarrow> R w (log_ev ev w)"
begin

lemma R_upds [frame_intros]:
  "R w0 w \<Longrightarrow> R w0 (w\<lparr>errno := e\<rparr>)"
  "R w0 w \<Longrightarrow> R w0 (w\<lparr>mem := m\<rparr>)"
  "R w0 w \<Longrightarrow> R w0 (w\<lparr>nblk := n\<rparr>)"
  "R w0 w \<Longrightarrow> R w0 (w\<lparr>tx_buf := t\<rparr>)"
  "R w0 w \<Longrightarrow> R w0 (w\<lparr>mspi := (mspi w)\<lparr>ms_tx_buf := p\<rparr>\<rparr>)"
  using R_trans R_errno R_mem R_nblk R_tx_buf R_mspi by blast+

lemma R_logs: "frame_ev ev \<Longrightarrow> R w0 w \<Longrightarrow> R w0 (log_ev ev w)"
  using R_trans R_log by blast

lemma keeps_store [frame_ops]: "R w0 w \<Longrightarrow> keeps R w0 (store p bs w)"
  by (cases p) (auto simp: keeps_def intro: R_upds split: option.splits)

lemma keeps_memcpy [frame_ops]: "R w0 w \<Longrightarrow> keeps R w0 (memcpy p q n w)"
  unfolding memcpy_def by (rule frame_intros frame_ops | assumption)+

lemma keeps_new_block [frame_ops]: "R w0 w \<Longrightarrow> keeps R w0 (new_block bs w)"
  unfolding new_block_def by (rule frame_intros | assumption)+

lemma keeps_drop_block [frame_ops]: "R w0 w \<Longrightarrow> keeps R w0 (drop_block p w)"
  by (cases p) (auto intro: frame_intros)

lemma keeps_kzalloc [frame_ops]: "R w0 w \<Longrightarrow> keeps R w0 (kzalloc os n w)"
  unfolding kzalloc_def alloc_def new_block_def
  by (rule keeps_Let frame_intros frame_ops R_logs | assumption | hypsubst | simp add: frame_ev_def)+

lemma keeps_kmalloc [frame_ops]: "R w0 w \<Longrightarrow> keeps R w0 (kmalloc os n w)"
  unfolding kmalloc_def alloc_def new_block_def
  by (rule keeps_Let frame_intros frame_ops R_logs | assumption | hypsubst | simp add: frame_ev_def)+

lemma keeps_kfree [frame_ops]: "R w0 w \<Longrightarrow> keeps R w0 (kfree p w)"
  by (cases p) (auto simp: frame_ev_def intro!: frame_intros R_logs)

lemma keeps_syscall [frame_ops]: "frame_ev e \<Longrightarrow> R w0 w \<Longrightarrow> keeps R w0 (syscall os e w)"
  unfolding syscall_def Let_def by (auto intro!: frame_intros R_logs)

lemma keeps_usleep [frame_ops]: "R w0 w \<Longrightarrow> keeps R w0 (usleep us w)"
  unfolding usleep_def by (auto intro!: frame_intros R_logs simp: frame_ev_def)

lemma keeps_msleep [frame_ops]: "R w0 w \<Longrightarrow> keeps R w0 (msleep ms w)"
  by (simp add: msleep_def keeps_usleep)

lemma keeps_store_rx [frame_ops]: "R w0 w \<Longrightarrow> keeps R w0 (store_rx f xs w)"
proof (induction xs arbitrary: f w)
  case (Cons x xs)
  show ?case
    unfolding store_rx.simps by (rule frame_intros frame_ops Cons | assumption)+
qed (simp add: keeps_def)

lemma keeps_spi_ioctl [frame_ops]: "R w0 w \<Longrightarrow> keeps R w0 (spi_ioctl os fd utr w)"
  unfolding spi_ioctl_def by (rule frame_intros frame_ops | assumption)+

end

section \<open>Transfers and buses\<close>

locale frame = frame0 +
  assumes message_keeps: "keeps R w (spi_ioc_message os utr w)"
    and send_keeps: "keeps R w (spi_sync_send os u rest w)"
begin

lemma keeps_spi_ioc_message [frame_ops]: "R w0 w \<Longrightarrow> keeps R w0 (spi_ioc_message os utr w)"
  by (intro keepsI) (metis message_keeps keepsD R_trans)

lemma keeps_spi_sync_send [frame_ops]: "R w0 w \<Longrightarrow> keeps R w0 (spi_sync_send os u rest w)"
  by (intro keepsI) (metis send_keeps keepsD R_trans)

lemma keeps_spi_buf_loop [frame_ops]: "R w0 w \<Longrightarrow> keeps R w0 (spi_buf_loop os bfd sp off len w)"
proof (induction len arbitrary: off w rule: less_induct)
  case (less len)
  show ?case
  proof (cases "len = 0")
    case True
    then show ?thesis using less.prems by (simp add: spi_buf_loop.simps keeps_Some)
  next
    case False
    then have "len - kmin len spi_buf_max_chunk < len" by simp
    note ih = less.IH [OF this]
    show ?thesis
      by (subst spi_buf_loop.simps) (rule frame_intros frame_ops ih less.prems | assumption | hypsubst)+
  qed
qed

lemma keeps_spi_buf_transfer [frame_ops]: "R w0 w \<Longrightarrow> keeps R w0 (spi_buf_transfer os tr bfd w)"
  unfolding spi_buf_transfer_def by (rule frame_ops)

lemma keeps_spi_sync [frame_ops]: "R w0 w \<Longrightarrow> keeps R w0 (spi_sync os m w)"
  unfolding spi_sync_def by (rule frame_intros frame_ops | assumption)+

lemma keeps_swab_loop [frame_ops]: "R w0 w \<Longrightarrow> keeps R w0 (swab_loop dst src k w)"
proof (induction k arbitrary: dst src w)
  case (Suc k)
  show ?case unfolding swab_loop.simps by (rule frame_intros frame_ops Suc | assumption)+
qed (simp add: keeps_def)

text \<open>
  A loop that is a partial function: what holds of every result that one unfolding gives holds of
  every result.
\<close>

lemma R_spi_transfer_loop:
  assumes "spi_transfer_loop os swap sb mc h tr buf len w = Some (r, w')"
  shows "R w w'"
proof -
  let ?P = "\<lambda>o1 swap sb mc h tr buf len w x. o1 = os \<longrightarrow> R w (snd x)"
  have "?P os swap sb mc h tr buf len w (r, w')"
  proof (rule spi_transfer_loop.raw_induct [where P = ?P, OF _ assms], goal_cases)
    case (1 loop o1 swap sb mc h tr buf len w x)
    have ih: "keeps R w0 (loop os swap sb mc h tr buf len w)" if "R w0 w" for w0 swap sb mc h tr buf len w
      using 1(1) that by (intro keepsI) (metis R_trans snd_conv)
    obtain r w' where x: "x = (r, w')" by (cases x)
    show ?case
      unfolding x snd_conv
      by (rule impI, rule keepsD [OF _ 1(2) [unfolded x]], hypsubst)
        (rule frame_intros frame_ops ih R_refl | assumption | hypsubst)+
  qed
  then show ?thesis by simp
qed

lemma keeps_spi_transfer_loop [frame_ops]:
  "R w0 w \<Longrightarrow> keeps R w0 (spi_transfer_loop os swap sb mc h tr buf len w)"
  by (intro keepsI) (metis R_spi_transfer_loop R_trans)

lemma keeps_tinydrm_spi_transfer [frame_ops]: "R w0 w \<Longrightarrow> keeps R w0 (tinydrm_spi_transfer os sp h bpw buf len sb mc w)"
  unfolding tinydrm_spi_transfer_def by (rule frame_intros frame_ops | assumption | hypsubst)+

lemma keeps_gpiod_set_value_cansleep [frame_ops]: "R w0 w \<Longrightarrow> keeps R w0 (gpiod_set_value_cansleep os d v w)"
  unfolding gpiod_set_value_cansleep_def by (rule frame_intros frame_ops | assumption | hypsubst)+

lemma keeps_bo_create_dumb [frame_ops]: "R w0 w \<Longrightarrow> keeps R w0 (bo_create_dumb os fd a b c w)"
  unfolding bo_create_dumb_def by (rule frame_intros frame_ops | assumption | hypsubst)+

lemma keeps_sys_mmap [frame_ops]: "R w0 w \<Longrightarrow> keeps R w0 (sys_mmap os fd n pr w)"
  unfolding sys_mmap_def by (rule frame_intros frame_ops | assumption | hypsubst)+

lemma keeps_utinydrm_create_dmabuf [frame_ops]: "R w0 w \<Longrightarrow> keeps R w0 (utinydrm_create_dmabuf os fd a b c w)"
  unfolding utinydrm_create_dmabuf_def by (rule frame_intros frame_ops | assumption | hypsubst)+

lemma keeps_utinydrm_get_tx_buf [frame_ops]: "R w0 w \<Longrightarrow> keeps R w0 (utinydrm_get_tx_buf os len w)"
  unfolding utinydrm_get_tx_buf_def by (rule frame_intros frame_ops | assumption | hypsubst)+

lemma keeps_spi1e_blocks [frame_ops]: "R w0 w \<Longrightarrow> keeps R w0 (spi1e_blocks bpw chunk i src dst added w)"
proof (induction "chunk - i" arbitrary: i src dst added w rule: less_induct)
  case less
  show ?case
  proof (cases "i < chunk")
    case False
    then show ?thesis using less.prems by (simp add: spi1e_blocks.simps keeps_Some)
  next
    case True
    then have "chunk - (i + 8) < chunk - i" by simp
    note ih = less.hyps [OF this]
    show ?thesis
      by (subst spi1e_blocks.simps) (rule frame_intros frame_ops ih less.prems | assumption | hypsubst)+
  qed
qed

lemma keeps_spi1e_chunk [frame_ops]: "R w0 w \<Longrightarrow> keeps R w0 (spi1e_chunk bpw chunk src buf w)"
  unfolding spi1e_chunk_def by (rule frame_intros frame_ops | assumption | hypsubst)+

lemma R_spi1e_loop:
  assumes "spi1e_loop os bpw msc buf tr src len w = Some (r, w')"
  shows "R w w'"
proof -
  let ?P = "\<lambda>o1 bpw msc buf tr src len w x. o1 = os \<longrightarrow> R w (snd x)"
  have "?P os bpw msc buf tr src len w (r, w')"
  proof (rule spi1e_loop.raw_induct [where P = ?P, OF _ assms], goal_cases)
    case (1 loop o1 bpw msc buf tr src len w x)
    have ih: "keeps R w0 (loop os bpw msc buf tr src len w)" if "R w0 w" for w0 bpw msc buf tr src len w
      using 1(1) that by (intro keepsI) (metis R_trans snd_conv)
    obtain r w' where x: "x = (r, w')" by (cases x)
    show ?case
      unfolding x snd_conv
      by (rule impI, rule keepsD [OF _ 1(2) [unfolded x]], hypsubst)
        (rule frame_intros frame_ops ih R_refl | assumption | hypsubst)+
  qed
  then show ?thesis by simp
qed

lemma keeps_spi1e_loop [frame_ops]:
  "R w0 w \<Longrightarrow> keeps R w0 (spi1e_loop os bpw msc buf tr src len w)"
  by (intro keepsI) (metis R_spi1e_loop R_trans)

lemma keeps_mipi_dbi_spi1e_transfer [frame_ops]: "R w0 w \<Longrightarrow> keeps R w0 (mipi_dbi_spi1e_transfer os bpw d buf len mc w)"
  unfolding mipi_dbi_spi1e_transfer_def by (rule frame_intros frame_ops | assumption | hypsubst)+

lemma keeps_spi1_fill8 [frame_ops]: "R w0 w \<Longrightarrow> keeps R w0 (spi1_fill8 d src dst k w)"
proof (induction k arbitrary: src dst w)
  case (Suc k)
  show ?case unfolding spi1_fill8.simps by (rule frame_intros frame_ops Suc | assumption | hypsubst)+
qed (simp add: keeps_def)

lemma keeps_spi1_fill16 [frame_ops]: "R w0 w \<Longrightarrow> keeps R w0 (spi1_fill16 d src dst k w)"
proof (induction k arbitrary: src dst w)
  case (Suc k)
  show ?case unfolding spi1_fill16.simps by (rule frame_intros frame_ops Suc | assumption | hypsubst)+
qed (simp add: keeps_def)

lemma R_spi1_loop:
  assumes "spi1_loop os bpw d msc dst tr src len w = Some (r, w')"
  shows "R w w'"
proof -
  let ?P = "\<lambda>o1 bpw d msc dst tr src len w x. o1 = os \<longrightarrow> R w (snd x)"
  have "?P os bpw d msc dst tr src len w (r, w')"
  proof (rule spi1_loop.raw_induct [where P = ?P, OF _ assms], goal_cases)
    case (1 loop o1 bpw d msc dst tr src len w x)
    have ih: "keeps R w0 (loop os bpw d msc dst tr src len w)" if "R w0 w" for w0 bpw d msc dst tr src len w
      using 1(1) that by (intro keepsI) (metis R_trans snd_conv)
    obtain r w' where x: "x = (r, w')" by (cases x)
    show ?case
      unfolding x snd_conv
      by (rule impI, rule keepsD [OF _ 1(2) [unfolded x]], hypsubst)
        (rule frame_intros frame_ops ih R_refl | assumption | hypsubst)+
  qed
  then show ?thesis by simp
qed

lemma keeps_spi1_loop [frame_ops]:
  "R w0 w \<Longrightarrow> keeps R w0 (spi1_loop os bpw d msc dst tr src len w)"
  by (intro keepsI) (metis R_spi1_loop R_trans)

lemma keeps_mipi_dbi_spi1_transfer [frame_ops]: "R w0 w \<Longrightarrow> keeps R w0 (mipi_dbi_spi1_transfer os bpw d buf len mc w)"
  unfolding mipi_dbi_spi1_transfer_def by (rule frame_intros frame_ops | assumption | hypsubst)+

lemma keeps_mipi_dbi_spi1_gather_write [frame_ops]: "R w0 w \<Longrightarrow> keeps R w0 (mipi_dbi_spi1_gather_write os p n q k w)"
  unfolding mipi_dbi_spi1_gather_write_def by (rule frame_intros frame_ops | assumption | hypsubst)+

lemma keeps_mipi_dbi_spi1_write [frame_ops]: "R w0 w \<Longrightarrow> keeps R w0 (mipi_dbi_spi1_write os p n w)"
  unfolding mipi_dbi_spi1_write_def by (rule frame_intros frame_ops | assumption | hypsubst)+

lemma keeps_mipi_dbi_spi1_read [frame_ops]: "R w0 w \<Longrightarrow> keeps R w0 (mipi_dbi_spi1_read os p n q k w)"
  unfolding mipi_dbi_spi1_read_def by (rule frame_intros frame_ops | assumption | hypsubst)+

lemma keeps_set_dc [frame_ops]: "R w0 w \<Longrightarrow> keeps R w0 (set_dc os v w)"
  unfolding set_dc_def by (rule frame_intros frame_ops | assumption | hypsubst)+

lemma keeps_mipi_dbi_spi3_gather_write [frame_ops]: "R w0 w \<Longrightarrow> keeps R w0 (mipi_dbi_spi3_gather_write os p n q k w)"
  unfolding mipi_dbi_spi3_gather_write_def by (rule frame_intros frame_ops | assumption | hypsubst)+

lemma keeps_mipi_dbi_spi3_write [frame_ops]: "R w0 w \<Longrightarrow> keeps R w0 (mipi_dbi_spi3_write os p n w)"
  unfolding mipi_dbi_spi3_write_def by (rule frame_intros frame_ops | assumption | hypsubst)+

lemma keeps_mipi_dbi_spi3_read [frame_ops]: "R w0 w \<Longrightarrow> keeps R w0 (mipi_dbi_spi3_read os p n q k w)"
  unfolding mipi_dbi_spi3_read_def by (rule frame_intros frame_ops | assumption | hypsubst)+

lemma keeps_format_8 [frame_ops]: "R w0 w \<Longrightarrow> keeps R w0 (regmap_format_8 p v s w)"
  unfolding regmap_format_8_def by (rule frame_ops)

lemma keeps_call_format:
  "f \<in> {None, Some regmap_format_8} \<Longrightarrow> R w0 w \<Longrightarrow> keeps R w0 (call_format f p v s w)"
  by (auto simp: call_format_def keeps_None keeps_format_8)

lemma keeps_flag_mask_loop [frame_ops]: "R w0 w \<Longrightarrow> keeps R w0 (flag_mask_loop p fm i k w)"
proof (induction k arbitrary: i w)
  case (Suc k)
  show ?case unfolding flag_mask_loop.simps by (rule frame_intros frame_ops Suc | assumption)+
qed (simp add: keeps_def)

lemma keeps_set_work_buf [frame_ops]: "R w0 w \<Longrightarrow> keeps R w0 (regmap_set_work_buf_flag_mask m k fm w)"
  unfolding regmap_set_work_buf_flag_mask_def by (rule frame_intros frame_ops | assumption)+

lemma keeps_xrgb [frame_ops]: "R w0 w \<Longrightarrow> keeps R w0 (tinydrm_xrgb8888_to_rgb565 src dst n w)"
proof (induction n arbitrary: src dst w)
  case (Suc n)
  show ?case
    unfolding tinydrm_xrgb8888_to_rgb565.simps by (rule frame_intros frame_ops Suc | assumption)+
qed (simp add: keeps_def)

lemma keeps_disable_backlight [frame_ops]: "R w0 w \<Longrightarrow> keeps R w0 (tinydrm_disable_backlight os bl w)"
  unfolding tinydrm_disable_backlight_def by (rule frame_intros frame_ops | assumption)+

lemma keeps_enable_backlight [frame_ops]: "R w0 w \<Longrightarrow> keeps R w0 (tinydrm_enable_backlight os bl w)"
  unfolding tinydrm_enable_backlight_def by (rule frame_intros frame_ops | assumption)+

lemma keeps_hw_reset [frame_ops]: "R w0 w \<Longrightarrow> keeps R w0 (mipi_dbi_hw_reset os w)"
  unfolding mipi_dbi_hw_reset_def by (rule frame_intros frame_ops | assumption)+

end

section \<open>The contract of a bus\<close>

text \<open>\<open>on_bus b m\<close>: the register map \<open>m\<close> uses the bus \<open>b\<close> and formats bytes.\<close>

definition on_bus :: "regmap_bus \<Rightarrow> regmap \<Rightarrow> bool" where
  "on_bus b m \<longleftrightarrow> bus m = Some b \<and> format_reg m \<in> {None, Some regmap_format_8} \<and>
     format_val m \<in> {None, Some regmap_format_8}"

locale frame_bus = frame +
  fixes b :: regmap_bus
  assumes write_keeps: "bus_write b = Some f \<Longrightarrow> R w0 w \<Longrightarrow> keeps R w0 (f p n w)"
    and gather_keeps: "bus_gather_write b = Some g \<Longrightarrow> R w0 w \<Longrightarrow> keeps R w0 (g p n q k w)"
    and read_keeps: "bus_read b = Some g \<Longrightarrow> R w0 w \<Longrightarrow> keeps R w0 (g p n q k w)"
begin

lemma call_write_keeps: "on_bus b m \<Longrightarrow> R w0 w \<Longrightarrow> keeps R w0 (call_write m p n w)"
  unfolding call_write_def on_bus_def
  by (auto split: option.split intro: write_keeps keeps_None)

lemma gather_case_keeps:
  "on_bus b m \<Longrightarrow> R w0 w \<Longrightarrow> keeps R w0 (case bus m of None \<Rightarrow> None | Some b \<Rightarrow>
     (case bus_gather_write b of None \<Rightarrow> Some (e, w) | Some f \<Rightarrow> f p n q k w))"
  unfolding on_bus_def by (auto split: option.split intro: gather_keeps keeps_Some)

lemma call_format_keeps:
  assumes "on_bus b m" and "R w0 w"
  shows "keeps R w0 (call_format (format_reg m) p v s w)" "keeps R w0 (call_format (format_val m) p v s w)"
  using assms keeps_call_format unfolding on_bus_def by blast+

lemma raw_write_work_keeps:
  assumes "on_bus b m" and "R w0 w"
  shows "keeps R w0 (regmap_raw_write_work os m reg q n w)"
  unfolding regmap_raw_write_work_def
  by (rule gather_case_keeps [OF assms(1)] call_write_keeps [OF assms(1)] call_format_keeps [OF assms(1)]
      frame_intros frame_ops assms(2) | assumption | hypsubst)+

lemma raw_write_keeps: "on_bus b m \<Longrightarrow> R w0 w \<Longrightarrow> keeps R w0 (regmap_raw_write os m reg q n w)"
  unfolding regmap_raw_write_def
  by (rule frame_intros raw_write_work_keeps | assumption)+

lemma raw_read_bus_keeps:
  assumes m: "on_bus b m" and c: "R w0 w"
  shows "keeps R w0 (regmap_raw_read_bus m reg q n w)"
proof (cases "bus_read b")
  case None
  then show ?thesis using m c by (simp add: regmap_raw_read_bus_def on_bus_def keeps_Some)
next
  case (Some f)
  have eq: "regmap_raw_read_bus m reg q n w = do {
      (_, w) \<leftarrow> call_format (format_reg m) (work_buf m) reg (reg_shift m) w;
      (_, w) \<leftarrow> regmap_set_work_buf_flag_mask m (reg_bytes m) (read_flag_mask m) w;
      f (work_buf m) (reg_bytes m + pad_bytes m) q n w }"
    using m Some by (simp add: regmap_raw_read_bus_def on_bus_def)
  show ?thesis
    unfolding eq
    by (rule read_keeps [OF Some] call_format_keeps [OF m] frame_intros frame_ops c | assumption)+
qed

lemma raw_read_keeps: "on_bus b m \<Longrightarrow> R w0 w \<Longrightarrow> keeps R w0 (regmap_raw_read m reg q n w)"
  unfolding regmap_raw_read_def
  by (rule frame_intros raw_read_bus_keeps | assumption | hypsubst)+

lemma write_cmd_keeps: "on_bus b m \<Longrightarrow> R w0 w \<Longrightarrow> keeps R w0 (mipi_dbi_write os m cmd sq w)"
  unfolding mipi_dbi_write_def mipi_dbi_write_buf_def
  by (rule frame_intros frame_ops raw_write_keeps | assumption)+

lemma write_all_keeps: "on_bus b m \<Longrightarrow> R w0 w \<Longrightarrow> keeps R w0 (write_all os m cs w)"
proof (induction cs arbitrary: w)
  case (Cons x cs)
  obtain c ps where x: "x = (c, ps)" by (cases x)
  show ?case
    unfolding x write_all.simps by (rule frame_intros write_cmd_keeps Cons | assumption)+
qed (simp add: keeps_Some)

lemma flush_keeps:
  "on_bus b m \<Longrightarrow> R w0 w \<Longrightarrow> keeps R w0 (tinydrm_regmap_flush_rgb565 os m reg fb vm c w)"
  unfolding tinydrm_regmap_flush_rgb565_def
  by (rule frame_intros frame_ops raw_write_keeps | assumption | hypsubst)+

lemma blank_keeps: "on_bus b m \<Longrightarrow> R w0 w \<Longrightarrow> keeps R w0 (mipi_dbi_blank os m w)"
  unfolding mipi_dbi_blank_def
  by (rule frame_intros frame_ops raw_write_keeps write_cmd_keeps | assumption | hypsubst)+

lemma display_is_on_keeps: "on_bus b m \<Longrightarrow> R w0 w \<Longrightarrow> keeps R w0 (mipi_dbi_display_is_on os m w)"
  unfolding mipi_dbi_display_is_on_def
  by (rule frame_intros frame_ops raw_read_keeps | assumption)+

end

end
