(* ===== verification/Calm.thy ===== *)
theory Calm
  imports Frame
begin

text \<open>
  A frame property that holds for every behaviour of the operating system, failures included:
  the operations below the event handlers change no field of the device, and they make no call
  of the main loop's protocol with \<open>/dev/udrm\<close> (read, reply, poll). It satisfies the locales of
  theory \<open>Frame\<close>, for both buses of the driver.
\<close>

definition calm_ev :: "sysev \<Rightarrow> bool" where
  "calm_ev e = (case e of Ev_read _ \<Rightarrow> False | Ev_reply _ _ \<Rightarrow> False | Ev_poll _ \<Rightarrow> False | _ \<Rightarrow> True)"

definition calm :: "state \<Rightarrow> state \<Rightarrow> bool" where
  "calm w w' \<longleftrightarrow> same_dev w w' \<and> (\<exists>es. trace w' = trace w @ es \<and> list_all calm_ev es)"

lemma calm_refl [simp]: "calm w w"
  by (simp add: calm_def)

lemma calm_trans: "calm w w' \<Longrightarrow> calm w' w'' \<Longrightarrow> calm w w''"
  unfolding calm_def by (metis append.assoc list_all_append same_dev_trans)

lemma calm_upd:
  "calm w (w\<lparr>errno := e\<rparr>)" "calm w (w\<lparr>mem := m\<rparr>)" "calm w (w\<lparr>nblk := n\<rparr>)" "calm w (w\<lparr>tx_buf := t\<rparr>)"
  "calm w (w\<lparr>mspi := (mspi w)\<lparr>ms_tx_buf := p\<rparr>\<rparr>)"
  by (simp_all add: calm_def same_dev_def)

lemma calm_log: "calm_ev e \<Longrightarrow> calm w (log_ev e w)"
  by (auto simp: calm_def same_dev_def)

lemma frame_calm_ev: "frame_ev e \<Longrightarrow> calm_ev e"
  by (cases e) (simp_all add: frame_ev_def calm_ev_def)

interpretation c0: frame0 os calm for os
  by unfold_locales (auto intro: calm_upd calm_log frame_calm_ev calm_trans)

text \<open>Files may be opened and closed as well.\<close>

lemma calm_syscall: "calm_ev e \<Longrightarrow> calm w0 w \<Longrightarrow> keeps calm w0 (syscall os e w)"
  unfolding syscall_def Let_def using calm_trans [OF _ calm_log] by (auto intro!: frame_intros)

lemma calm_files [frame_ops]: "calm_ev (Ev_open f)" "calm_ev (Ev_close fd)"
  by (simp_all add: calm_ev_def)

lemma calm_message: "keeps calm w (spi_ioc_message os utr w)"
  unfolding spi_ioc_message_def
  by (rule frame_intros c0.keeps_spi_ioctl calm_syscall calm_files calm_refl | assumption)+

lemma calm_send: "keeps calm w (spi_sync_send os u rest w)"
  unfolding spi_sync_send_def
  by (rule frame_intros c0.keeps_spi_ioctl calm_syscall calm_files calm_refl | assumption)+

interpretation cf: frame os calm for os
  by unfold_locales (rule calm_message calm_send)+

interpretation c1: frame_bus os calm "mipi_dbi_regmap_bus1 os" for os
  by unfold_locales (auto simp: mipi_dbi_regmap_bus1_def intro: frame_ops)

interpretation c3: frame_bus os calm "mipi_dbi_regmap_bus3 os" for os
  by unfold_locales (auto simp: mipi_dbi_regmap_bus3_def intro: frame_ops)

end
