(* ===== verification/Loop_Inv.thy ===== *)
theory Loop_Inv
  imports Calm
begin

text \<open>
  The state machine of the main loop: what every event handler keeps, whatever the operating
  system answers, the states that are reachable from a probed device, and when the loop ends.
\<close>

section \<open>The invariant\<close>

text \<open>Nothing is shown before the panel is set up.\<close>

definition dev_inv :: "state \<Rightarrow> bool" where
  "dev_inv w \<longleftrightarrow> (enabled w \<longrightarrow> prepared w)"

definition calm_trace :: "state \<Rightarrow> state \<Rightarrow> bool" where
  "calm_trace w w' \<longleftrightarrow> (\<exists>es. trace w' = trace w @ es \<and> list_all calm_ev es)"

text \<open>The fields that only probing sets.\<close>

definition same_setup :: "state \<Rightarrow> state \<Rightarrow> bool" where
  "same_setup w w' \<longleftrightarrow>
     spi w' = spi w \<and> mipi w' = mipi w \<and> udev_fd w' = udev_fd w \<and>
     udev_control_fd w' = udev_control_fd w \<and> udev_buf_fd w' = udev_buf_fd w \<and>
     udev_mode w' = udev_mode w \<and> udev_fb_funcs w' = udev_fb_funcs w \<and>
     pipe_funcs w' = pipe_funcs w \<and> min_width w' = min_width w \<and> min_height w' = min_height w"

definition handler_ok :: "state \<Rightarrow> state \<Rightarrow> bool" where
  "handler_ok w w' \<longleftrightarrow> (dev_inv w \<longrightarrow> dev_inv w') \<and> same_setup w w' \<and> calm_trace w w'"

lemma calm_trace_refl [simp]: "calm_trace w w"
  by (simp add: calm_trace_def)

lemma calm_trace_trans: "calm_trace w w' \<Longrightarrow> calm_trace w' w'' \<Longrightarrow> calm_trace w w''"
  unfolding calm_trace_def by (metis append.assoc list_all_append)

lemma calm_calm_trace: "calm w w' \<Longrightarrow> calm_trace w w'"
  by (simp add: calm_def calm_trace_def)

lemma calm_same_setup: "calm w w' \<Longrightarrow> same_setup w w'"
  by (simp add: calm_def same_dev_def same_setup_def)

lemma calm_flags: "calm w w' \<Longrightarrow> prepared w' = prepared w" "calm w w' \<Longrightarrow> enabled w' = enabled w"
  by (simp_all add: calm_def same_dev_def)

lemma calm_handler: "calm w w' \<Longrightarrow> handler_ok w w'"
  by (simp add: handler_ok_def dev_inv_def calm_flags calm_calm_trace calm_same_setup)

lemma calm_trace_upd [simp]:
  "calm_trace w (w'\<lparr>prepared := p\<rparr>) = calm_trace w w'" "calm_trace w (w'\<lparr>enabled := p\<rparr>) = calm_trace w w'"
  "calm_trace w (w'\<lparr>fbs := f\<rparr>) = calm_trace w w'" "calm_trace (w\<lparr>enabled := p\<rparr>) w' = calm_trace w w'"
  "calm_trace (w\<lparr>plane_fb := q\<rparr>) w' = calm_trace w w'" "calm_trace (w\<lparr>fbs := f\<rparr>) w' = calm_trace w w'"
  by (simp_all add: calm_trace_def)

lemma same_setup_upd [simp]:
  "same_setup w (w'\<lparr>prepared := p\<rparr>) = same_setup w w'" "same_setup w (w'\<lparr>enabled := p\<rparr>) = same_setup w w'"
  "same_setup w (w'\<lparr>fbs := f\<rparr>) = same_setup w w'" "same_setup (w\<lparr>enabled := p\<rparr>) w' = same_setup w w'"
  "same_setup (w\<lparr>plane_fb := q\<rparr>) w' = same_setup w w'" "same_setup (w\<lparr>fbs := f\<rparr>) w' = same_setup w w'"
  by (simp_all add: same_setup_def)

lemma dev_inv_upd [simp]:
  "dev_inv (w\<lparr>fbs := f\<rparr>) = dev_inv w" "dev_inv (w\<lparr>plane_fb := q\<rparr>) = dev_inv w"
  by (simp_all add: dev_inv_def)

section \<open>The handlers\<close>

text \<open>\<open>gives Q m\<close>: every result of \<open>m\<close> leaves a state with \<open>Q\<close>.\<close>

definition gives :: "(state \<Rightarrow> bool) \<Rightarrow> ('a \<times> state) option \<Rightarrow> bool" where
  "gives Q m = (case m of None \<Rightarrow> True | Some (r, w) \<Rightarrow> Q w)"

named_theorems gives_intros \<open>rules that follow the structure of a handler\<close>

lemma givesD: "gives Q m \<Longrightarrow> m = Some (r, w) \<Longrightarrow> Q w"
  by (simp add: gives_def)

lemma gives_keeps: "keeps calm w0 m \<Longrightarrow> (\<And>w. calm w0 w \<Longrightarrow> Q w) \<Longrightarrow> gives Q m"
  by (auto simp: gives_def keeps_def split: option.splits)

lemma gives_bind:
  "keeps calm w0 m \<Longrightarrow> (\<And>r w. calm w0 w \<Longrightarrow> gives Q (f (r, w))) \<Longrightarrow> gives Q (m \<bind> f)"
  by (cases m) (auto simp: gives_def keeps_def)

lemma gives_bind_gives:
  "gives P m \<Longrightarrow> (\<And>r w. P w \<Longrightarrow> gives Q (f (r, w))) \<Longrightarrow> gives Q (m \<bind> f)"
  by (cases m) (auto simp: gives_def)

lemma gives_bind_clip [gives_intros]:
  "(\<And>c. gives Q (f c)) \<Longrightarrow> gives Q ((m :: clip_rect option) \<bind> f)"
  by (cases m) (auto simp: gives_def)

lemma gives_simps [gives_intros]:
  "Q w \<Longrightarrow> gives Q (Some (r, w))"
  "gives Q None"
  "(c \<Longrightarrow> gives Q m) \<Longrightarrow> (\<not> c \<Longrightarrow> gives Q n) \<Longrightarrow> gives Q (if c then m else n)"
  "(\<And>x. x = v \<Longrightarrow> gives Q (g x)) \<Longrightarrow> gives Q (Let v g)"
  "gives Q (h a b) \<Longrightarrow> gives Q (case (a, b) of (x, y) \<Rightarrow> h x y)"
  by (simp_all add: gives_def)

locale calm_bus = frame_bus os calm b for os b
begin

lemma enable_gives:
  assumes m: "on_bus b m"
  shows "gives (\<lambda>w'. \<exists>w1. calm w w1 \<and> (w' = w1 \<or> w' = w1\<lparr>prepared := True\<rparr>)) (mi0283qt_enable os m w)"
  unfolding mi0283qt_enable_def
  by (rule gives_bind [of w] gives_intros frame_ops display_is_on_keeps [OF m] write_cmd_keeps [OF m] write_all_keeps [OF m]
      calm_refl | assumption | (rule exI, rule conjI, assumption, simp) | (rule exI, rule conjI, rule calm_refl, simp))+

lemma dirty_gives:
  assumes m: "on_bus b m"
  shows "gives (\<lambda>w'. \<exists>w1. calm w w1 \<and> (w' = w1 \<or> prepared w \<and> w' = w1\<lparr>enabled := True\<rparr>))
    (mipi_dbi_fb_dirty os m fb ann color clips n w)"
proof (cases "prepared w")
  case False
  then show ?thesis
    by (auto simp: mipi_dbi_fb_dirty_def tinydrm_check_dirty_def gives_def intro: exI [of _ w])
next
  case True
  let ?cl = "if enabled w then Some clips else None" and ?n = "if enabled w then n else 0"
  have eq: "mipi_dbi_fb_dirty os m fb ann color clips n w = do {
          clip \<leftarrow> tinydrm_merge_clips ?cl ?n ann (fb_width fb) (fb_height fb);
          (_, w) \<leftarrow> mipi_dbi_write os m MIPI_DCS_SET_COLUMN_ADDRESS
                      (window_params (x1 clip) (x2 clip)) w;
          (_, w) \<leftarrow> mipi_dbi_write os m MIPI_DCS_SET_PAGE_ADDRESS
                      (window_params (y1 clip) (y2 clip)) w;
          (ret, w) \<leftarrow> tinydrm_regmap_flush_rgb565 os m MIPI_DCS_WRITE_MEMORY_START fb
                        (fb_map fb) clip w;
          if ret \<noteq> 0 then Some (ret, w)
          else if \<not> enabled w then mipi_dbi_enable_output os w
          else Some (ret, w) }"
    using True by (simp add: mipi_dbi_fb_dirty_def tinydrm_check_dirty_def)
  have "gives (\<lambda>w'. \<exists>w1. calm w w1 \<and> (w' = w1 \<or> w' = w1\<lparr>enabled := True\<rparr>))
      (mipi_dbi_fb_dirty os m fb ann color clips n w)"
    unfolding eq mipi_dbi_enable_output_def
    by (rule gives_bind [of w] gives_intros frame_intros frame_ops flush_keeps [OF m] write_cmd_keeps [OF m]
      calm_refl | assumption | (rule exI, rule conjI, assumption, simp) | (rule exI, rule conjI, rule calm_refl, simp))+
  then show ?thesis using True by simp
qed

lemma disable_gives:
  assumes m: "on_bus b m"
  shows "gives (\<lambda>w'. \<exists>w1 w2. calm w w1 \<and> calm (w1\<lparr>enabled := False\<rparr>) w2 \<and>
      (w' = w2 \<or> w' = w2\<lparr>prepared := False\<rparr>)) (mipi_dbi_pipe_disable os m w)"
proof -
  let ?Q = "\<lambda>w'. \<exists>w1 w2. calm w w1 \<and> calm (w1\<lparr>enabled := False\<rparr>) w2 \<and>
      (w' = w2 \<or> w' = w2\<lparr>prepared := False\<rparr>)"
  let ?first = "if enabled w then (if backlight (mipi w) \<noteq> None
        then tinydrm_disable_backlight os (backlight (mipi w)) w
        else if \<not> regulator (mipi w) then mipi_dbi_blank os m w else Some ((), w))
      else Some ((), w)"
  have k: "keeps calm w ?first"
    by (rule frame_intros frame_ops blank_keeps [OF m] calm_refl)+
  have rest: "gives ?Q (do {
     let w = w1\<lparr>enabled := False\<rparr>;
     if prepared w
     then do {
       (_, w) \<leftarrow> (if backlight (mipi w) \<noteq> None
                  then do {
                    (_, w) \<leftarrow> mipi_dbi_write os m MIPI_DCS_SET_DISPLAY_OFF [] w;
                    (_, w) \<leftarrow> mipi_dbi_write os m MIPI_DCS_ENTER_SLEEP_MODE [] w;
                    Some ((), w\<lparr>prepared := False\<rparr>) }
                  else Some ((), w));
       let w = (if regulator (mipi w) then w\<lparr>prepared := False\<rparr> else w);
       Some ((), w) }
     else Some ((), w) })" if c: "calm w w1" for w1
  proof -
    let ?w = "w1\<lparr>enabled := False\<rparr>"
    let ?P = "\<lambda>w'. \<exists>w2. calm ?w w2 \<and> (w' = w2 \<or> w' = w2\<lparr>prepared := False\<rparr>)"
    have mid: "gives ?P (if backlight (mipi ?w) \<noteq> None
                  then do {
                    (_, w) \<leftarrow> mipi_dbi_write os m MIPI_DCS_SET_DISPLAY_OFF [] ?w;
                    (_, w) \<leftarrow> mipi_dbi_write os m MIPI_DCS_ENTER_SLEEP_MODE [] w;
                    Some ((), w\<lparr>prepared := False\<rparr>) }
                  else Some ((), ?w))"
      by (rule gives_bind [of ?w] gives_intros write_cmd_keeps [OF m] calm_refl | assumption
          | (rule exI, rule conjI, assumption, simp) | (rule exI, rule conjI, rule calm_refl, simp))+
    have st: "?Q (if regulator (mipi w') then w'\<lparr>prepared := False\<rparr> else w')" if p: "?P w'" for w'
    proof -
      obtain w2 where "calm ?w w2" "w' = w2 \<or> w' = w2\<lparr>prepared := False\<rparr>" using p by blast
      then show ?thesis using c by (intro exI [of _ w1] exI [of _ w2]) auto
    qed
    have base: "?Q ?w" using c by (intro exI [of _ w1] exI [of _ ?w]) simp
    have after: "gives ?Q (Some ((), if regulator (mipi w') then w'\<lparr>prepared := False\<rparr> else w'))"
      if p: "?P w'" for w'
      using st [OF p] by (rule gives_simps(1))
    show ?thesis
      unfolding Let_def
      by (rule gives_simps(3))
        (simp only: prod.case after gives_bind_gives [OF mid], rule gives_simps(1), rule base)
  qed
  show ?thesis
    unfolding mipi_dbi_pipe_disable_def
    by (rule gives_bind [OF k]) (simp only: prod.case rest)
qed

lemma pipe_enable_ok:
  assumes "on_bus b m" and "utinydrm_pipe_enable os m w = Some (r, w')"
  shows "handler_ok w w'"
proof (cases "pipe_funcs w")
  case False
  then show ?thesis using assms(2) calm_handler by (auto simp: utinydrm_pipe_enable_def)
next
  case True
  then obtain u where "mi0283qt_enable os m w = Some (u, w')"
    using assms(2) by (auto simp: utinydrm_pipe_enable_def bind_eq_Some_conv)
  from givesD [OF enable_gives [OF assms(1)] this]
  obtain w1 where "calm w w1" "w' = w1 \<or> w' = w1\<lparr>prepared := True\<rparr>" by blast
  then show ?thesis
    using calm_handler [of w w1] by (auto simp: handler_ok_def dev_inv_def)
qed

lemma pipe_disable_handler:
  assumes "on_bus b m" and "utinydrm_pipe_disable os m w = Some (r, w')"
  shows "handler_ok w w'"
proof (cases "pipe_funcs w")
  case False
  then show ?thesis using assms(2) calm_handler by (auto simp: utinydrm_pipe_disable_def)
next
  case True
  then obtain u where "mipi_dbi_pipe_disable os m w = Some (u, w')"
    using assms(2) by (auto simp: utinydrm_pipe_disable_def bind_eq_Some_conv)
  from givesD [OF disable_gives [OF assms(1)] this]
  obtain w1 w2 where w: "calm w w1" "calm (w1\<lparr>enabled := False\<rparr>) w2"
    "w' = w2 \<or> w' = w2\<lparr>prepared := False\<rparr>" by blast
  have "\<not> enabled w2" using calm_flags(2) [OF w(2)] by simp
  moreover have "calm_trace w w2"
    using calm_trace_trans [of w w1 w2] calm_calm_trace [OF w(1)] calm_calm_trace [OF w(2)] by simp
  moreover have "same_setup w w2"
    using calm_same_setup [OF w(1)] calm_same_setup [OF w(2)] by (simp add: same_setup_def)
  ultimately show ?thesis using w(3) by (auto simp: handler_ok_def dev_inv_def)
qed

lemma fb_dirty_handler:
  assumes "on_bus b m" and "utinydrm_fb_dirty os m i ann color n clips w = Some (r, w')"
  shows "handler_ok w w'"
proof (cases "find (\<lambda>u. fb_id u = i) (fbs w)")
  case None
  then show ?thesis using assms(2) calm_handler by (simp add: utinydrm_fb_dirty_def)
next
  case (Some fb)
  let ?w = "w\<lparr>plane_fb := Some (fb_id fb)\<rparr>"
  have q: "handler_ok w w2" if "handler_ok ?w w2" for w2
    using that by (simp add: handler_ok_def)
  show ?thesis
  proof (cases "fb_dirty_set fb")
    case False
    then show ?thesis using assms(2) Some q [OF calm_handler [OF calm_refl]] by (simp add: utinydrm_fb_dirty_def)
  next
    case True
    then obtain u where "mipi_dbi_fb_dirty os m fb ann color clips n ?w = Some (u, w')"
      using assms(2) Some by (auto simp: utinydrm_fb_dirty_def bind_eq_Some_conv)
    from givesD [OF dirty_gives [OF assms(1)] this]
    obtain w1 where w1: "calm ?w w1" "w' = w1 \<or> prepared ?w \<and> w' = w1\<lparr>enabled := True\<rparr>" by blast
    have "handler_ok ?w w'"
      using calm_handler [OF w1(1)] w1(2) calm_flags(1) [OF w1(1)]
      by (auto simp: handler_ok_def dev_inv_def)
    then show ?thesis by (rule q)
  qed
qed

end

interpretation m1: calm_bus os "mipi_dbi_regmap_bus1 os" for os ..

interpretation m3: calm_bus os "mipi_dbi_regmap_bus3 os" for os ..

text \<open>Creating and destroying framebuffers does not use the bus.\<close>

lemma fb_create_gives:
  "gives (\<lambda>w'. \<exists>w1 us. calm w w1 \<and> w' = w1\<lparr>fbs := us\<rparr>) (utinydrm_fb_create os i w)"
proof -
  have upd: "\<exists>w1 us. calm w w1 \<and> w2\<lparr>fbs := vs\<rparr> = w1\<lparr>fbs := us\<rparr>" if "calm w w2" for w2 vs
    using that by blast
  have same: "\<exists>w1 us. calm w w1 \<and> w2 = w1\<lparr>fbs := us\<rparr>" if "calm w w2" for w2
    using that by (intro exI [of _ w2] exI [of _ "fbs w2"]) simp
  show ?thesis
    unfolding utinydrm_fb_create_def
    by (rule gives_bind [of w] gives_intros frame_ops calm_refl upd same | assumption)+
qed

lemma fb_create_handler: "utinydrm_fb_create os i w = Some (r, w') \<Longrightarrow> handler_ok w w'"
  using givesD [OF fb_create_gives, of os i w r w'] calm_handler by (auto simp: handler_ok_def)

lemma fb_destroy_handler:
  assumes "utinydrm_fb_destroy os i w = Some (r, w')"
  shows "handler_ok w w'"
proof (cases "fb_unlink i [] (fbs w)")
  case None
  then show ?thesis using assms calm_handler by (simp add: utinydrm_fb_destroy_def)
next
  case (Some x)
  obtain u us where x: "x = (u, us)" by (cases x)
  let ?w = "w\<lparr>fbs := us\<rparr>"
  have eq: "utinydrm_fb_destroy os i w = do {
      (ret, w) \<leftarrow> syscall os (Ev_munmap (fb_map u) (fb_map_size u)) ?w;
      (_, w) \<leftarrow> (if ret = - 1 then Some ((), w) else drop_block (fb_map u) w);
      Some (0, w) }"
    using Some x by (simp add: utinydrm_fb_destroy_def)
  have "keeps calm ?w (utinydrm_fb_destroy os i w)"
    unfolding eq by (rule frame_intros frame_ops calm_refl | assumption)+
  then have "calm ?w w'" using assms by (rule keepsD)
  then show ?thesis using calm_handler [of ?w w'] by (simp add: handler_ok_def)
qed

text \<open>A register map on one of the two buses of the driver.\<close>

definition driver_map :: "os \<Rightarrow> regmap \<Rightarrow> bool" where
  "driver_map os m \<longleftrightarrow> on_bus (mipi_dbi_regmap_bus1 os) m \<or> on_bus (mipi_dbi_regmap_bus3 os) m"

lemma utinydrm_event_handler:
  assumes "driver_map os m" and "utinydrm_event os m e w = Some (r, w')"
  shows "handler_ok w w'"
proof (cases e)
  case UDRM_EVENT_PIPE_ENABLE
  then show ?thesis using assms m1.pipe_enable_ok m3.pipe_enable_ok by (auto simp: driver_map_def)
next
  case UDRM_EVENT_PIPE_DISABLE
  then show ?thesis
    using assms m1.pipe_disable_handler m3.pipe_disable_handler by (auto simp: driver_map_def)
next
  case UDRM_EVENT_FB_DIRTY
  then show ?thesis using assms m1.fb_dirty_handler m3.fb_dirty_handler by (auto simp: driver_map_def)
qed (use assms in \<open>auto intro: fb_create_handler fb_destroy_handler calm_handler\<close>)

section \<open>Rounds of the main loop\<close>

text \<open>
  \<open>loop_step os m w w'\<close>: one round of the loop that goes on. The event and all answers are
  those of \<open>os\<close>, so the relation covers every sequence of events.
\<close>

inductive loop_step :: "os \<Rightarrow> regmap \<Rightarrow> state \<Rightarrow> state \<Rightarrow> bool" for os m where
  round: "main_round os m w = Some ((None, hangup), w') \<Longrightarrow> loop_step os m w w'"

inductive loop_reach :: "os \<Rightarrow> regmap \<Rightarrow> state \<Rightarrow> state \<Rightarrow> bool" for os m where
  start: "loop_reach os m w w"
| more: "loop_reach os m w w' \<Longrightarrow> loop_step os m w' w'' \<Longrightarrow> loop_reach os m w w''"

inductive_cases loop_stepE: "loop_step os m w w'"
inductive_simps loop_step_iff: "loop_step os m w w'"

lemma syscall_eq:
  "syscall os e w = Some (r, w') \<longleftrightarrow> r = os_ret os (trace w @ [e]) \<and>
     w' = (log_ev e w)\<lparr>errno := (if r < 0 then os_errno os (trace w @ [e]) else errno w)\<rparr>"
  by (auto simp: syscall_def Let_def)

text \<open>The calls of one round: one read, what the handler does, one reply, one poll.\<close>

definition round_trace :: "state \<Rightarrow> state \<Rightarrow> bool" where
  "round_trace w w' \<longleftrightarrow> (\<exists>es r. trace w' = trace w @ [Ev_read (udev_fd w)] @ es @
     [Ev_reply (udev_fd w) r, Ev_poll (udev_fd w)] \<and> list_all calm_ev es)"

lemma main_round_ok:
  assumes m: "driver_map os m" and r: "main_round os m w = Some ((None, hangup), w')"
  shows "(dev_inv w \<longrightarrow> dev_inv w') \<and> same_setup w w' \<and> round_trace w w'"
proof -
  from r obtain r1 w1 er w2 r3 w3 r4 where
    a: "syscall os (Ev_read (udev_fd w)) w = Some (r1, w1)" and
    b: "utinydrm_event os m (os_event os (trace w1)) w1 = Some (er, w2)" and
    c: "syscall os (Ev_reply (udev_fd w2) er) w2 = Some (r3, w3)" and
    d: "syscall os (Ev_poll (udev_fd w3)) w3 = Some (r4, w')"
    unfolding main_round_def by (auto simp: bind_eq_Some_conv split: if_splits) blast+
  have h: "handler_ok w1 w2" using utinydrm_event_handler [OF m b] .
  then obtain es where es: "trace w2 = trace w1 @ es" "list_all calm_ev es"
    by (auto simp: handler_ok_def calm_trace_def)
  have s: "same_setup w1 w2" using h by (simp add: handler_ok_def)
  have "dev_inv w \<longrightarrow> dev_inv w'"
    using h a c d by (auto simp: handler_ok_def dev_inv_def syscall_eq)
  moreover have "same_setup w w'"
    using s a c d by (auto simp: same_setup_def syscall_eq)
  moreover have "round_trace w w'"
    unfolding round_trace_def
    using s a c d es by (intro exI [of _ es] exI [of _ er]) (auto simp: same_setup_def syscall_eq)
  ultimately show ?thesis by blast
qed

lemma loop_reach_inv:
  assumes "loop_reach os m w w'" and "driver_map os m" and "dev_inv w"
  shows "dev_inv w' \<and> same_setup w w'"
  using assms
proof (induction rule: loop_reach.induct)
  case (start w)
  then show ?case by (simp add: same_setup_def)
next
  case (more w w' w'')
  then show ?case
    using main_round_ok [OF more.prems(1)] by (auto simp: loop_step_iff same_setup_def)
qed

section \<open>When the loop ends\<close>

text \<open>The loop with a bound on the number of rounds.\<close>

fun main_fuel :: "nat \<Rightarrow> os \<Rightarrow> regmap \<Rightarrow> bool \<Rightarrow> state \<Rightarrow> (int \<times> state) option" where
  "main_fuel 0 os m hangup w = None"
| "main_fuel (Suc n) os m hangup w =
     (if hangup then do { (_, w) \<leftarrow> tinydrm_unregister os w; Some (0, w) }
      else do {
        ((r, hangup), w) \<leftarrow> main_round os m w;
        case r of Some r \<Rightarrow> Some (r, w) | None \<Rightarrow> main_fuel n os m hangup w })"

lemma main_fuel_loop: "main_fuel n os m hangup w = Some x \<Longrightarrow> main_loop os m hangup w = Some x"
proof (induction n arbitrary: hangup w)
  case (Suc n)
  show ?case
  proof (cases hangup)
    case True
    then show ?thesis using Suc.prems by (subst main_loop.simps) simp
  next
    case False
    then obtain r h w' where r: "main_round os m w = Some ((r, h), w')"
      using Suc.prems by (auto simp: bind_eq_Some_conv)
    show ?thesis
      using Suc False r by (subst main_loop.simps) (cases r, auto)
  qed
qed simp

lemma main_loop_fuel:
  assumes "main_loop os m hangup w = Some x"
  shows "\<exists>n. main_fuel n os m hangup w = Some x"
proof (rule main_loop.raw_induct [where P = "\<lambda>os m hangup w x. \<exists>n. main_fuel n os m hangup w = Some x",
      OF _ assms], goal_cases)
  case (1 loop os m hangup w x)
  show ?case
  proof (cases hangup)
    case True
    then show ?thesis using 1(2) by (intro exI [of _ 1]) simp
  next
    case False
    then obtain r h w' where r: "main_round os m w = Some ((r, h), w')"
      using 1(2) by (auto simp: bind_eq_Some_conv)
    show ?thesis
    proof (cases r)
      case None
      then obtain n where "main_fuel n os m h w' = Some x"
        using 1(1) [of os m h w' x] 1(2) False r by auto
      then show ?thesis using False r None by (intro exI [of _ "Suc n"]) simp
    next
      case (Some v)
      then show ?thesis using 1(2) False r by (intro exI [of _ 1]) simp
    qed
  qed
qed

text \<open>Without a failure of the device file, the loop ends in the round whose poll hangs up.\<close>

inductive rounds :: "os \<Rightarrow> regmap \<Rightarrow> nat \<Rightarrow> state \<Rightarrow> state \<Rightarrow> bool" for os m where
  last: "main_round os m w = Some ((None, True), w') \<Longrightarrow> rounds os m 1 w w'"
| next_round: "main_round os m w = Some ((None, False), w') \<Longrightarrow> rounds os m n w' w'' \<Longrightarrow>
    rounds os m (Suc n) w w''"

lemma tinydrm_unregister_Some: "\<exists>w'. tinydrm_unregister os w = Some ((), w')"
  by (simp add: tinydrm_unregister_def syscall_def Let_def)

lemma rounds_end:
  assumes "rounds os m n w w'"
  shows "\<exists>w''. tinydrm_unregister os w' = Some ((), w'') \<and> main_loop os m False w = Some (0, w'')"
  using assms
proof (induction rule: rounds.induct)
  case (last w w')
  obtain w'' where u: "tinydrm_unregister os w' = Some ((), w'')"
    using tinydrm_unregister_Some by blast
  have "main_loop os m True w' = Some (0, w'')" using u by (subst main_loop.simps) simp
  with last u show ?case by (subst main_loop.simps) simp
next
  case (next_round w w' n w'')
  then show ?case by (subst main_loop.simps) simp
qed

end
