(* ===== verification/Descriptors.thy ===== *)
theory Descriptors
  imports Loop_Inv "HOL-Library.Multiset"
begin

text \<open>
  File descriptors. What the event handlers open with \<open>open\<close> they close again, whatever fails on
  the way; the descriptors of buffers exported by the kernel (\<open>PRIME_HANDLE_TO_FD\<close>) are never
  closed. Proved by a third interpretation of the frame locales.
\<close>

section \<open>Open descriptors\<close>

text \<open>The descriptors that are open after the calls of a trace, the last call first.\<close>

fun open_rev :: "os \<Rightarrow> sysev list \<Rightarrow> int multiset" where
  "open_rev os [] = {#}"
| "open_rev os (e # h) =
     (case e of
        Ev_open f \<Rightarrow> if 0 \<le> os_ret os (rev (e # h)) then add_mset (os_ret os (rev (e # h))) (open_rev os h)
                     else open_rev os h
      | Ev_prime_to_fd fd i n \<Rightarrow>
          if os_ret os (rev (e # h)) = - 1 then open_rev os h
          else add_mset (os_prime_fd os (rev (e # h))) (open_rev os h)
      | Ev_close fd \<Rightarrow> open_rev os h - {#fd#}
      | _ \<Rightarrow> open_rev os h)"

fun export_rev :: "os \<Rightarrow> sysev list \<Rightarrow> int multiset" where
  "export_rev os [] = {#}"
| "export_rev os (e # h) =
     (case e of
        Ev_prime_to_fd fd i n \<Rightarrow>
          if os_ret os (rev (e # h)) = - 1 then export_rev os h
          else add_mset (os_prime_fd os (rev (e # h))) (export_rev os h)
      | _ \<Rightarrow> export_rev os h)"

definition open_fds :: "os \<Rightarrow> state \<Rightarrow> int multiset" where
  "open_fds os w = open_rev os (rev (trace w))"

text \<open>The descriptors of exported buffers so far.\<close>

definition exported :: "os \<Rightarrow> state \<Rightarrow> int multiset" where
  "exported os w = export_rev os (rev (trace w))"

text \<open>From \<open>w\<close> to \<open>w'\<close> the descriptors \<open>M\<close> of exported buffers are added and no others.\<close>

definition same_fds :: "os \<Rightarrow> state \<Rightarrow> state \<Rightarrow> bool" where
  "same_fds os w w' \<longleftrightarrow>
     (\<exists>M. open_fds os w' = open_fds os w + M \<and> exported os w' = exported os w + M)"

lemma same_fdsI:
  "open_fds os w' = open_fds os w \<Longrightarrow> exported os w' = exported os w \<Longrightarrow> same_fds os w w'"
  unfolding same_fds_def by (rule exI [of _ "{#}"]) simp

lemma same_fds_trans: "same_fds os w w' \<Longrightarrow> same_fds os w' w'' \<Longrightarrow> same_fds os w w''"
  unfolding same_fds_def by (metis add.assoc)

lemma same_fds_trace: "trace v = trace w \<Longrightarrow> same_fds os w v"
  by (intro same_fdsI) (simp_all add: open_fds_def exported_def)

lemma same_fds_log: "frame_ev e \<Longrightarrow> same_fds os w (log_ev e w)"
proof (cases e)
  case (Ev_prime_to_fd fd i n)
  then show ?thesis
    unfolding same_fds_def open_fds_def exported_def
    by (intro exI [of _ "if os_ret os (trace w @ [e]) = - 1 then {#} else {#os_prime_fd os (trace w @ [e])#}"])
      simp
qed (auto simp: frame_ev_def open_fds_def exported_def intro!: same_fdsI)

interpretation d0: frame0 os "same_fds os" for os
  by unfold_locales (auto intro: same_fds_trans same_fds_trace same_fds_log)

section \<open>One message opens and closes the device\<close>

lemma open_fds_open:
  "syscall os (Ev_open f) w = Some (fd, w') \<Longrightarrow> exported os w' = exported os w \<and>
     open_fds os w' = (if 0 \<le> fd then add_mset fd (open_fds os w) else open_fds os w)"
  by (auto simp: syscall_eq open_fds_def exported_def)

lemma open_fds_close:
  "syscall os (Ev_close fd) w = Some (r, w') \<Longrightarrow> exported os w' = exported os w \<and>
     open_fds os w' = open_fds os w - {#fd#}"
  by (auto simp: syscall_eq open_fds_def exported_def)

text \<open>What is opened before a part that adds no descriptors and closed after it leaves no trace.\<close>

lemma same_fds_failed_open:
  "syscall os (Ev_open f) w = Some (fd, w') \<Longrightarrow> fd < 0 \<Longrightarrow> same_fds os w w'"
  using open_fds_open by (intro same_fdsI) auto

lemma same_fds_bracket:
  assumes "syscall os (Ev_open f) w = Some (fd, w1)" and "\<not> fd < 0" and "same_fds os w1 w2"
    and "syscall os (Ev_close fd) w2 = Some (r, w3)"
  shows "same_fds os w w3"
  using open_fds_open [OF assms(1)] open_fds_close [OF assms(4)] assms(2,3)
  by (auto simp: same_fds_def)

lemma fds_message: "keeps (same_fds os) w (spi_ioc_message os utr w)"
proof (rule keepsI)
  fix r w'
  assume m: "spi_ioc_message os utr w = Some (r, w')"
  obtain fd w1 where o: "syscall os (Ev_open spidev) w = Some (fd, w1)" by (simp add: syscall_def Let_def)
  show "same_fds os w w'"
  proof (cases "fd < 0")
    case True
    then show ?thesis using m o same_fds_failed_open by (auto simp: spi_ioc_message_def)
  next
    case False
    with m o obtain ret w2 c where i: "spi_ioctl os fd utr w1 = Some (ret, w2)"
      and c: "syscall os (Ev_close fd) w2 = Some (c, w')"
      by (auto simp: spi_ioc_message_def Let_def bind_eq_Some_conv)
    have "same_fds os w1 w2" by (rule keepsD [OF d0.keeps_spi_ioctl [OF d0.R_refl] i])
    then show ?thesis by (rule same_fds_bracket [OF o False _ c])
  qed
qed

lemma fds_send: "keeps (same_fds os) w (spi_sync_send os u rest w)"
proof (rule keepsI)
  fix r w'
  assume m: "spi_sync_send os u rest w = Some (r, w')"
  obtain fd w1 where o: "syscall os (Ev_open spidev) w = Some (fd, w1)" by (simp add: syscall_def Let_def)
  show "same_fds os w w'"
  proof (cases "fd < 0")
    case True
    then show ?thesis using m o same_fds_failed_open by (auto simp: spi_sync_send_def Let_def)
  next
    case False
    with m o obtain utr ret w2 c where i: "spi_ioctl os fd utr w1 = Some (ret, w2)"
      and c: "syscall os (Ev_close fd) w2 = Some (c, w')"
      by (auto simp: spi_sync_send_def bind_eq_Some_conv Let_def split: if_splits)
    have "same_fds os w1 w2" by (rule keepsD [OF d0.keeps_spi_ioctl [OF d0.R_refl] i])
    then show ?thesis by (rule same_fds_bracket [OF o False _ c])
  qed
qed

interpretation df: frame os "same_fds os" for os
  by unfold_locales (rule fds_message fds_send)+

section \<open>Handlers\<close>

text \<open>A relation that the flags and the list of framebuffers do not matter to.\<close>

locale frame_dev = frame_bus +
  assumes R_prepared: "R w (w\<lparr>prepared := p\<rparr>)" and R_enabled: "R w (w\<lparr>enabled := p\<rparr>)"
    and R_fbs: "R w (w\<lparr>fbs := us\<rparr>)" and R_plane_fb: "R w (w\<lparr>plane_fb := q\<rparr>)"
begin

lemma R_dev_upds [frame_intros]:
  "R w0 w \<Longrightarrow> R w0 (w\<lparr>prepared := p\<rparr>)" "R w0 w \<Longrightarrow> R w0 (w\<lparr>enabled := p\<rparr>)"
  "R w0 w \<Longrightarrow> R w0 (w\<lparr>fbs := us\<rparr>)" "R w0 w \<Longrightarrow> R w0 (w\<lparr>plane_fb := q\<rparr>)"
  using R_trans R_prepared R_enabled R_fbs R_plane_fb by blast+

lemma R_if: "R w0 w \<Longrightarrow> R w0 w' \<Longrightarrow> R w0 (if c then w else w')"
  by simp

lemma enable_keeps: "on_bus b m \<Longrightarrow> R w0 w \<Longrightarrow> keeps R w0 (mi0283qt_enable os m w)"
  unfolding mi0283qt_enable_def
  by (rule frame_intros frame_ops display_is_on_keeps write_cmd_keeps write_all_keeps | assumption)+

lemma disable_keeps: "on_bus b m \<Longrightarrow> R w0 w \<Longrightarrow> keeps R w0 (mipi_dbi_pipe_disable os m w)"
  unfolding mipi_dbi_pipe_disable_def
  by (rule frame_intros frame_ops blank_keeps write_cmd_keeps R_if | assumption | hypsubst)+

lemma keeps_dirty:
  "(\<And>c n. keeps R w0 (f c n)) \<Longrightarrow> keeps R w0 m \<Longrightarrow>
   keeps R w0 (case d of (False, x, y) \<Rightarrow> m | (True, c, n) \<Rightarrow> f c n)"
  by (auto split: prod.split bool.split)

lemma dirty_keeps:
  "on_bus b m \<Longrightarrow> R w0 w \<Longrightarrow> keeps R w0 (mipi_dbi_fb_dirty os m fb ann color clips n w)"
  unfolding mipi_dbi_fb_dirty_def mipi_dbi_enable_output_def
  by (rule keeps_dirty frame_intros frame_ops flush_keeps write_cmd_keeps | assumption)+

lemma create_keeps: "R w0 w \<Longrightarrow> keeps R w0 (utinydrm_fb_create os i w)"
  unfolding utinydrm_fb_create_def by (rule frame_intros frame_ops | assumption | hypsubst)+

lemma destroy_keeps: "R w0 w \<Longrightarrow> keeps R w0 (utinydrm_fb_destroy os i w)"
  unfolding utinydrm_fb_destroy_def by (rule frame_intros frame_ops | assumption | hypsubst)+

lemma event_keeps:
  assumes m: "on_bus b m" and r: "R w0 w"
  shows "keeps R w0 (utinydrm_event os m e w)"
proof (cases e)
  case UDRM_EVENT_PIPE_ENABLE
  show ?thesis
    unfolding UDRM_EVENT_PIPE_ENABLE utinydrm_event.simps utinydrm_pipe_enable_def
    by (rule frame_intros enable_keeps [OF m] r | assumption)+
next
  case UDRM_EVENT_PIPE_DISABLE
  show ?thesis
    unfolding UDRM_EVENT_PIPE_DISABLE utinydrm_event.simps utinydrm_pipe_disable_def
    by (rule frame_intros disable_keeps [OF m] r | assumption)+
next
  case (UDRM_EVENT_FB_DIRTY i ann color n clips)
  show ?thesis
    unfolding UDRM_EVENT_FB_DIRTY utinydrm_event.simps utinydrm_fb_dirty_def
    by (rule frame_intros dirty_keeps [OF m] r | assumption | hypsubst)+
qed (use r create_keeps destroy_keeps keeps_Some in auto)

end

interpretation d1: frame_dev os "same_fds os" "mipi_dbi_regmap_bus1 os" for os
  by unfold_locales (auto simp: mipi_dbi_regmap_bus1_def intro: frame_ops same_fds_trace)

interpretation d3: frame_dev os "same_fds os" "mipi_dbi_regmap_bus3 os" for os
  by unfold_locales (auto simp: mipi_dbi_regmap_bus3_def intro: frame_ops same_fds_trace)

lemma event_fds: "driver_map os m \<Longrightarrow> utinydrm_event os m e w = Some (r, w') \<Longrightarrow> same_fds os w w'"
  using keepsD [OF d1.event_keeps [OF _ d0.R_refl]] keepsD [OF d3.event_keeps [OF _ d0.R_refl]]
  unfolding driver_map_def by blast

section \<open>The main loop\<close>

lemma round_fds:
  assumes m: "driver_map os m" and r: "main_round os m w = Some ((None, hangup), w')"
  shows "same_fds os w w'"
proof -
  from r obtain r1 w1 er w2 r3 w3 r4 where
    a: "syscall os (Ev_read (udev_fd w)) w = Some (r1, w1)" and
    b: "utinydrm_event os m (os_event os (trace w1)) w1 = Some (er, w2)" and
    c: "syscall os (Ev_reply (udev_fd w2) er) w2 = Some (r3, w3)" and
    d: "syscall os (Ev_poll (udev_fd w3)) w3 = Some (r4, w')"
    unfolding main_round_def by (auto simp: bind_eq_Some_conv split: if_splits) blast+
  have "same_fds os w w1" "same_fds os w2 w3" "same_fds os w3 w'"
    using a c d by (auto simp: syscall_eq open_fds_def exported_def intro!: same_fdsI)
  with event_fds [OF m b] show ?thesis by (blast intro: same_fds_trans)
qed

lemma loop_fds:
  assumes "loop_reach os m w w'" and "driver_map os m"
  shows "same_fds os w w'"
  using assms(1)
proof (induction rule: loop_reach.induct)
  case (start w)
  show ?case by (rule d0.R_refl)
next
  case (more w w' w'')
  then show ?case using round_fds [OF assms(2)] by (auto simp: loop_step_iff intro: same_fds_trans)
qed

section \<open>Buffers of framebuffers\<close>

text \<open>Calls that change no descriptor.\<close>

definition plain_fd_ev :: "sysev \<Rightarrow> bool" where
  "plain_fd_ev e \<longleftrightarrow> (case e of Ev_open _ \<Rightarrow> False | Ev_close _ \<Rightarrow> False | Ev_prime_to_fd _ _ _ \<Rightarrow> False | _ \<Rightarrow> True)"

lemma open_fds_plain [simp]:
  "plain_fd_ev e \<Longrightarrow> trace w' = trace w @ [e] \<Longrightarrow> open_fds os w' = open_fds os w"
  by (cases e) (simp_all add: plain_fd_ev_def open_fds_def)

lemma alloc_fds: "alloc os n c w = Some (p, w') \<Longrightarrow> open_fds os w' = open_fds os w"
  by (rule open_fds_plain [of "Ev_alloc n"])
    (auto simp: plain_fd_ev_def alloc_def new_block_def Let_def split: if_splits)

lemma syscall_fds: "plain_fd_ev e \<Longrightarrow> syscall os e w = Some (r, w') \<Longrightarrow> open_fds os w' = open_fds os w"
  by (auto simp: syscall_eq)

lemma mmap_fds: "sys_mmap os fd n k w = Some (p, w') \<Longrightarrow> open_fds os w' = open_fds os w"
  by (rule open_fds_plain [of "Ev_mmap fd n k"])
    (auto simp: plain_fd_ev_def sys_mmap_def new_block_def syscall_eq bind_eq_Some_conv split: if_splits)

lemma kfree_fbs: "kfree p w = Some (r, w') \<Longrightarrow> fbs w' = fbs w"
  by (cases p) (auto split: if_splits)

lemma syscall_fbs: "syscall os e w = Some (r, w') \<Longrightarrow> fbs w' = fbs w"
  by (auto simp: syscall_eq)

lemma mmap_fbs: "sys_mmap os fd n k w = Some (p, w') \<Longrightarrow> fbs w' = fbs w"
  by (auto simp: sys_mmap_def new_block_def syscall_eq bind_eq_Some_conv split: if_splits)

lemma mmap_result:
  obtains p w' where "sys_mmap os fd n k w = Some (p, w')"
proof -
  have "sys_mmap os fd n k w \<noteq> None" by (simp add: sys_mmap_def syscall_def new_block_def Let_def)
  then show ?thesis using that by auto
qed

lemma kzalloc_fbs: "kzalloc os n w = Some (p, w') \<Longrightarrow> fbs w' = fbs w"
  by (auto simp: kzalloc_def alloc_def new_block_def Let_def split: if_splits)

lemma prime_fds:
  "syscall os (Ev_prime_to_fd fd h n) w = Some (r, w') \<Longrightarrow> r \<noteq> - 1 \<Longrightarrow>
   open_fds os w' = add_mset (os_prime_fd os (trace w')) (open_fds os w)"
  by (auto simp: syscall_eq open_fds_def)

text \<open>A framebuffer that was added has a descriptor of its own.\<close>

lemma fb_create_fds:
  assumes "utinydrm_fb_create os i w = Some (r, w')" and "fbs w' \<noteq> fbs w"
  shows "\<exists>u. fbs w' = u # fbs w \<and> fb_id u = i \<and> open_fds os w' = add_mset (fb_buf_fd u) (open_fds os w)"
proof -
  obtain p w1 where a: "kzalloc os 144 w = Some (p, w1)" and p: "p \<noteq> Null"
    using assms by (auto simp: utinydrm_fb_create_def bind_eq_Some_conv dest: kzalloc_fbs split: if_splits)
  obtain r2 w2 where b: "syscall os (Ev_getfb (udev_control_fd w1) i) w1 = Some (r2, w2)"
    by (simp add: syscall_def Let_def)
  define h where "h = info_handle (os_fb os (trace w2))"
  obtain r3 w3 where c: "syscall os (Ev_prime_to_fd (udev_control_fd w2) h 0) w2 = Some (r3, w3)"
    by (simp add: syscall_def Let_def)
  have f: "fbs w1 = fbs w" "fbs w2 = fbs w" "fbs w3 = fbs w"
    using a b c kzalloc_fbs syscall_fbs by metis+
  have r2: "r2 \<noteq> - 1"
    using assms a b p f by (auto simp: utinydrm_fb_create_def bind_eq_Some_conv dest!: kfree_fbs)
  have r3: "r3 \<noteq> - 1"
    using assms a b c p f r2 by (auto simp: utinydrm_fb_create_def Let_def h_def bind_eq_Some_conv dest!: kfree_fbs)
  define n where "n = info_height (os_fb os (trace w2)) * info_pitch (os_fb os (trace w2))"
  obtain mp w4 where d: "sys_mmap os (os_prime_fd os (trace w3)) (unat n) 1 w3 = Some (mp, w4)"
    by (rule mmap_result)
  have f4: "fbs w4 = fbs w" using mmap_fbs [OF d] f by simp
  have mp: "mp \<noteq> Null"
    using assms a b c d p f f4 r2 r3
    by (auto simp: utinydrm_fb_create_def Let_def h_def n_def bind_eq_Some_conv dest!: kfree_fbs)
  have "open_fds os w4 = add_mset (os_prime_fd os (trace w3)) (open_fds os w)"
    using mmap_fds [OF d] prime_fds [OF c r3] syscall_fds [OF _ b] alloc_fds [OF a [unfolded kzalloc_def]]
    by (simp add: plain_fd_ev_def)
  moreover have "\<exists>u. w' = w4\<lparr>fbs := u # fbs w4\<rparr> \<and> fb_id u = i \<and> fb_buf_fd u = os_prime_fd os (trace w3)"
    using assms(1) a b c d p r2 r3 mp by (auto simp: utinydrm_fb_create_def Let_def h_def n_def)
  ultimately show ?thesis using f4 by (auto simp: open_fds_def)
qed

text \<open>Destroying it, found or not, closes nothing.\<close>

lemma fb_destroy_fds: "utinydrm_fb_destroy os i w = Some (r, w') \<Longrightarrow> open_fds os w' = open_fds os w"
proof (cases "fb_unlink i [] (fbs w)")
  case (Some x)
  assume d: "utinydrm_fb_destroy os i w = Some (r, w')"
  obtain u us where x: "x = (u, us)" by (cases x)
  let ?e = "Ev_munmap (fb_map u) (fb_map_size u)"
  have drop: "drop_block p v = Some (r, v') \<Longrightarrow> trace v' = trace v" for p v r v' by (cases p) auto
  have "trace w' = trace w @ [?e]"
    using d Some x by (auto simp: utinydrm_fb_destroy_def syscall_eq bind_eq_Some_conv dest: drop split: if_splits)
  then show ?thesis by (intro open_fds_plain [of ?e]) (simp_all add: plain_fd_ev_def)
qed (simp add: utinydrm_fb_destroy_def)

lemma fb_destroy_returns:
  assumes "fb_unlink i [] (fbs w) \<noteq> None"
  shows "\<exists>w'. utinydrm_fb_destroy os i w = Some (0, w')"
proof -
  obtain u us where u: "fb_unlink i [] (fbs w) = Some (u, us)" using assms by auto
  obtain r w1 where s: "syscall os (Ev_munmap (fb_map u) (fb_map_size u)) (w\<lparr>fbs := us\<rparr>) = Some (r, w1)"
    by (simp add: syscall_def Let_def)
  have "\<exists>v. drop_block (fb_map u) w1 = Some ((), v)" by (cases "fb_map u") auto
  then show ?thesis using u s by (cases "r = - 1") (auto simp: utinydrm_fb_destroy_def)
qed

end
