(* ===== verification/Fb_Heap.thy ===== *)
theory Fb_Heap
  imports Event_Loop
begin

text \<open>
  The list of framebuffers as \<open>utinydrm.c\<close> has it: nodes in memory that point to the next one,
  and the variable \<open>udev->fbs\<close>. The locale \<open>fb_store\<close> states what the handlers rely on; the
  linked nodes satisfy it, so the HOL list of \<open>Event_Loop\<close> is the right abstraction, with the
  unlinking that the two lagging pointers of \<open>utinydrm_fb_destroy\<close> really do.
\<close>

section \<open>Nodes and links\<close>

text \<open>\<open>struct utinydrm_fb\<close> at an address: its fields and \<open>next\<close>.\<close>

record fb_heap =
  fbs_head :: "nat option"
  nodes :: "nat \<Rightarrow> (utinydrm_fb \<times> nat option) option"

text \<open>What a \<open>struct utinydrm_fb **\<close> can point to.\<close>

datatype link = Fbs | Next_of nat

fun deref :: "fb_heap \<Rightarrow> link \<Rightarrow> nat option option" where
  "deref h Fbs = Some (fbs_head h)"
| "deref h (Next_of a) = map_option snd (nodes h a)"

fun write_link :: "link \<Rightarrow> nat option \<Rightarrow> fb_heap \<Rightarrow> fb_heap option" where
  "write_link Fbs n h = Some (h\<lparr>fbs_head := n\<rparr>)"
| "write_link (Next_of a) n h =
     (case nodes h a of
        None \<Rightarrow> None
      | Some (u, _) \<Rightarrow> Some (h\<lparr>nodes := (nodes h)(a \<mapsto> (u, n))\<rparr>))"

section \<open>The operations\<close>

text \<open>\<open>ufb->next = udev->fbs; udev->fbs = ufb;\<close> for a fresh node at \<open>a\<close>.\<close>

definition fb_push :: "nat \<Rightarrow> utinydrm_fb \<Rightarrow> fb_heap \<Rightarrow> fb_heap" where
  "fb_push a u h = h\<lparr>nodes := (nodes h)(a \<mapsto> (u, fbs_head h)), fbs_head := Some a\<rparr>"

text \<open>\<open>for (ufb = udev->fbs; ufb != NULL; ufb = ufb->next)\<close>\<close>

partial_function (option) fb_lookup :: "u32 \<Rightarrow> nat option \<Rightarrow> fb_heap \<Rightarrow> utinydrm_fb option option" where
  "fb_lookup id1 p h =
     (case p of
        None \<Rightarrow> Some None
      | Some a \<Rightarrow>
          (case nodes h a of
             None \<Rightarrow> None
           | Some (u, n) \<Rightarrow> if fb_id u = id1 then Some (Some u) else fb_lookup id1 n h))"

text \<open>
  \<open>for (prev = &udev->fbs, curr = prev; *curr != NULL; prev = curr, curr = &(*curr)->next)\<close>; the
  result is the node found and the memory after \<open>*prev = (*curr)->next\<close>.
\<close>

partial_function (option) destroy_loop ::
  "u32 \<Rightarrow> link \<Rightarrow> link \<Rightarrow> fb_heap \<Rightarrow> (utinydrm_fb option \<times> fb_heap) option" where
  "destroy_loop id1 prev cur h =
     (case deref h cur of
        None \<Rightarrow> None
      | Some None \<Rightarrow> Some (None, h)
      | Some (Some a) \<Rightarrow>
          (case nodes h a of
             None \<Rightarrow> None
           | Some (u, n) \<Rightarrow>
               if fb_id u = id1 then do { h \<leftarrow> write_link prev n h; Some (Some u, h) }
               else destroy_loop id1 cur (Next_of a) h))"

definition fb_destroy_search :: "u32 \<Rightarrow> fb_heap \<Rightarrow> (utinydrm_fb option \<times> fb_heap) option" where
  "fb_destroy_search id1 h = destroy_loop id1 Fbs Fbs h"

section \<open>Linked nodes\<close>

fun linked :: "fb_heap \<Rightarrow> link \<Rightarrow> nat list \<Rightarrow> bool" where
  "linked h l [] = (deref h l = Some None)"
| "linked h l (a # as) = (deref h l = Some (Some a) \<and> a \<in> dom (nodes h) \<and> linked h (Next_of a) as)"

definition link_after :: "link \<Rightarrow> nat list \<Rightarrow> link" where
  "link_after l ps = (if ps = [] then l else Next_of (last ps))"

definition fbs_at :: "fb_heap \<Rightarrow> nat list \<Rightarrow> utinydrm_fb list" where
  "fbs_at h as = map (\<lambda>a. fst (the (nodes h a))) as"

text \<open>\<open>fb_repr h us\<close>: the nodes reachable from \<open>udev->fbs\<close> hold the framebuffers \<open>us\<close>.\<close>

definition fb_repr :: "fb_heap \<Rightarrow> utinydrm_fb list \<Rightarrow> bool" where
  "fb_repr h us \<longleftrightarrow> (\<exists>as. linked h Fbs as \<and> distinct as \<and> us = fbs_at h as)"

lemma linked_append: "linked h l (ps @ qs) \<Longrightarrow> linked h (link_after l ps) qs"
  by (induction ps arbitrary: l) (auto simp: link_after_def split: if_splits)

lemma linked_dom: "linked h l as \<Longrightarrow> set as \<subseteq> dom (nodes h)"
  by (induction as arbitrary: l) auto

lemma linked_deref: "linked h l as \<Longrightarrow> deref h l \<noteq> None"
  by (cases as) auto

lemma link_after_Cons: "link_after l (p # ps) = link_after (Next_of p) ps"
  by (simp add: link_after_def)

lemma link_after_in: "link_after (Next_of p) ps \<in> Next_of ` set (p # ps)"
  by (simp add: link_after_def)

lemma write_link_facts:
  assumes "write_link l n h = Some h'"
  shows "deref h' l = Some n" "k \<noteq> l \<Longrightarrow> deref h' k = deref h k" "dom (nodes h') = dom (nodes h)"
    "fbs_at h' as = fbs_at h as"
proof -
  have "deref h' l = Some n \<and> dom (nodes h') = dom (nodes h) \<and> fbs_at h' as = fbs_at h as \<and>
    (k \<noteq> l \<longrightarrow> deref h' k = deref h k)"
  proof (cases l)
    case Fbs
    then have "h' = h\<lparr>fbs_head := n\<rparr>" using assms by simp
    then show ?thesis using Fbs by (cases k) (simp_all add: fbs_at_def)
  next
    case (Next_of a)
    then obtain u m where u: "nodes h a = Some (u, m)" "h' = h\<lparr>nodes := (nodes h)(a \<mapsto> (u, n))\<rparr>"
      using assms by (auto split: option.splits)
    then have "dom (nodes h') = dom (nodes h)" by auto
    then show ?thesis using Next_of u by (cases k) (simp_all add: fbs_at_def)
  qed
  then show "deref h' l = Some n" "dom (nodes h') = dom (nodes h)" "fbs_at h' as = fbs_at h as"
    "k \<noteq> l \<Longrightarrow> deref h' k = deref h k"
    by blast+
qed

lemma write_link_Some: "deref h l \<noteq> None \<Longrightarrow> \<exists>h'. write_link l n h = Some h'"
  by (cases l) (auto split: option.splits)

lemma linked_cong:
  assumes "linked h l as" and "deref h' l' = deref h l" and "dom (nodes h') = dom (nodes h)"
    and "\<And>a. a \<in> set as \<Longrightarrow> deref h' (Next_of a) = deref h (Next_of a)"
  shows "linked h' l' as"
  using assms
proof (induction as arbitrary: l l')
  case (Cons a as)
  have "linked h' (Next_of a) as"
    using Cons.prems by (intro Cons.IH) (simp_all del: deref.simps)
  then show ?case using Cons.prems by (simp del: deref.simps)
qed simp

text \<open>Writing the link after \<open>ps\<close> joins what the new value leads to.\<close>

lemma linked_write:
  assumes "linked h l (ps @ qs)" and "distinct (ps @ rs)" and "l \<notin> Next_of ` set (ps @ rs)"
    and "deref h m = Some n" and "linked h m rs" and "write_link (link_after l ps) n h = Some h'"
  shows "linked h' l (ps @ rs)"
  using assms
proof (induction ps arbitrary: l)
  case Nil
  note f = write_link_facts [OF Nil.prems(6)]
  have l: "link_after l [] = l" by (simp add: link_after_def)
  have "deref h' (Next_of a) = deref h (Next_of a)" if "a \<in> set rs" for a
    using that Nil.prems(3) by (intro f(2)) (auto simp: l)
  then have "linked h' l rs"
    using f(1,3) Nil.prems(4) unfolding l by (intro linked_cong [OF Nil.prems(5)]) simp_all
  then show ?case by simp
next
  case (Cons p ps)
  note f = write_link_facts [OF Cons.prems(6)]
  have "linked h' (Next_of p) (ps @ rs)"
    using Cons.prems by (intro Cons.IH) (auto simp: link_after_Cons)
  moreover have "l \<noteq> link_after l (p # ps)"
    using Cons.prems(3) link_after_in [of p ps] by (auto simp: link_after_Cons)
  ultimately show ?case using f Cons.prems(1) by (simp del: deref.simps(2))
qed

section \<open>The operations on linked nodes\<close>

lemma fb_push_repr:
  assumes "fb_repr h us" and "a \<notin> dom (nodes h)"
  shows "fb_repr (fb_push a u h) (u # us)"
proof -
  obtain as where as: "linked h Fbs as" "distinct as" "us = fbs_at h as"
    using assms(1) by (auto simp: fb_repr_def)
  have a: "a \<notin> set as" using linked_dom [OF as(1)] assms(2) by blast
  let ?h = "fb_push a u h"
  have "linked ?h (Next_of a) as"
  proof -
    have n: "nodes ?h b = nodes h b" if "b \<in> set as" for b using a that by (auto simp: fb_push_def)
    have "linked h l bs \<Longrightarrow> set bs \<subseteq> set as \<Longrightarrow> deref ?h l' = deref h l \<Longrightarrow> linked ?h l' bs" for l l' bs
      by (induction bs arbitrary: l l') (use n in \<open>auto simp: dom_def\<close>)
    from this [OF as(1), of "Next_of a"] show ?thesis by (simp add: fb_push_def)
  qed
  then have "linked ?h Fbs (a # as)" by (simp add: fb_push_def)
  moreover have "fbs_at ?h (a # as) = u # us"
    using a as(3) by (auto simp: fbs_at_def fb_push_def)
  ultimately show ?thesis
    using a as(2) unfolding fb_repr_def by (intro exI [of _ "a # as"]) simp
qed

lemma fb_lookup_repr:
  assumes "fb_repr h us"
  shows "fb_lookup id1 (fbs_head h) h = Some (find (\<lambda>u. fb_id u = id1) us)"
proof -
  obtain as where as: "linked h Fbs as" "us = fbs_at h as"
    using assms by (auto simp: fb_repr_def)
  have "linked h l as \<Longrightarrow> deref h l = Some p \<Longrightarrow>
      fb_lookup id1 p h = Some (find (\<lambda>u. fb_id u = id1) (fbs_at h as))" for l p as
    by (induction as arbitrary: l p)
      (subst fb_lookup.simps; auto simp: fbs_at_def)+
  from this [OF as(1)] as(2) show ?thesis by simp
qed

lemma destroy_loop_repr:
  assumes "linked h Fbs (ps @ qs)" and "distinct (ps @ qs)"
  shows "case fb_unlink id1 (fbs_at h ps) (fbs_at h qs) of
      None \<Rightarrow> destroy_loop id1 (link_after Fbs (butlast ps)) (link_after Fbs ps) h = Some (None, h)
    | Some (u, us) \<Rightarrow> \<exists>h'. destroy_loop id1 (link_after Fbs (butlast ps)) (link_after Fbs ps) h =
        Some (Some u, h') \<and> fb_repr h' us"
  using assms
proof (induction qs arbitrary: ps)
  case Nil
  have "deref h (link_after Fbs ps) = Some None" using linked_append [OF Nil.prems(1)] by simp
  then show ?case by (subst destroy_loop.simps) (simp add: fbs_at_def)
next
  case (Cons a qs)
  have l: "linked h (link_after Fbs ps) (a # qs)" by (rule linked_append [OF Cons.prems(1)])
  then obtain u n where u: "nodes h a = Some (u, n)" by auto
  have d: "deref h (link_after Fbs ps) = Some (Some a)" using l by simp
  have at: "fbs_at h (a # qs) = u # fbs_at h qs" using u by (simp add: fbs_at_def)
  show ?case
  proof (cases "fb_id u = id1")
    case True
    let ?p = "butlast ps"
    obtain rs where rs: "ps @ a # qs = ?p @ rs"
      by (metis append.assoc append_butlast_last_id append_eq_append_conv2 butlast.simps(1))
    have lp: "linked h Fbs (?p @ rs)" using Cons.prems(1) rs by simp
    then have "deref h (link_after Fbs ?p) \<noteq> None" using linked_append linked_deref by blast
    then obtain h' where h': "write_link (link_after Fbs ?p) n h = Some h'" using write_link_Some by blast
    have dist: "distinct (?p @ qs)"
      using Cons.prems(2) by (auto dest: in_set_butlastD simp: distinct_butlast)
    have "linked h (Next_of a) qs" using l by simp
    then have "linked h' Fbs (?p @ qs)"
      using u by (intro linked_write [OF lp dist _ _ _ h', of "Next_of a"]) auto
    moreover have "fbs_at h' (?p @ qs) = butlast (fbs_at h ps) @ fbs_at h qs"
      unfolding write_link_facts(4) [OF h'] by (simp add: fbs_at_def map_butlast)
    ultimately have "fb_repr h' (butlast (fbs_at h ps) @ fbs_at h qs)"
      using dist unfolding fb_repr_def by metis
    then show ?thesis using d u at True h' by (subst destroy_loop.simps) simp
  next
    case False
    have s: "destroy_loop id1 (link_after Fbs (butlast ps)) (link_after Fbs ps) h =
        destroy_loop id1 (link_after Fbs ps) (link_after Fbs (ps @ [a])) h"
      using d u False by (subst destroy_loop.simps) (simp add: link_after_def)
    have "fbs_at h ps @ [u] = fbs_at h (ps @ [a])" using u by (simp add: fbs_at_def)
    then have t: "fb_unlink id1 (fbs_at h ps) (fbs_at h (a # qs)) = fb_unlink id1 (fbs_at h (ps @ [a])) (fbs_at h qs)"
      using at False by simp
    show ?thesis
      using Cons.IH [of "ps @ [a]", unfolded butlast_snoc] Cons.prems unfolding t s by simp
  qed
qed

lemma fb_destroy_repr:
  assumes "fb_repr h us"
  shows "case fb_unlink id1 [] us of
      None \<Rightarrow> fb_destroy_search id1 h = Some (None, h)
    | Some (u, us') \<Rightarrow> \<exists>h'. fb_destroy_search id1 h = Some (Some u, h') \<and> fb_repr h' us'"
proof -
  obtain as where as: "linked h Fbs as" "distinct as" "us = fbs_at h as"
    using assms by (auto simp: fb_repr_def)
  have e: "link_after Fbs [] = Fbs" "fbs_at h [] = []" by (simp_all add: link_after_def fbs_at_def)
  show ?thesis
    using destroy_loop_repr [of h "[]" as id1] as
    by (cases "fb_unlink id1 [] us") (auto simp: e fb_destroy_search_def)
qed

section \<open>The contract of the store\<close>

text \<open>
  What the event handlers rely on. \<open>unlink\<close> is the list operation of \<open>utinydrm_fb_destroy\<close>.
\<close>

locale fb_store =
  fixes repr :: "'h \<Rightarrow> utinydrm_fb list \<Rightarrow> bool"
    and fresh :: "'a \<Rightarrow> 'h \<Rightarrow> bool"
    and push :: "'a \<Rightarrow> utinydrm_fb \<Rightarrow> 'h \<Rightarrow> 'h"
    and lookup :: "u32 \<Rightarrow> 'h \<Rightarrow> utinydrm_fb option option"
    and destroy :: "u32 \<Rightarrow> 'h \<Rightarrow> (utinydrm_fb option \<times> 'h) option"
  assumes push_repr: "repr h us \<Longrightarrow> fresh a h \<Longrightarrow> repr (push a u h) (u # us)"
    and lookup_repr: "repr h us \<Longrightarrow> lookup i h = Some (find (\<lambda>u. fb_id u = i) us)"
    and destroy_repr: "repr h us \<Longrightarrow> case fb_unlink i [] us of
        None \<Rightarrow> destroy i h = Some (None, h)
      | Some (u, us') \<Rightarrow> \<exists>h'. destroy i h = Some (Some u, h') \<and> repr h' us'"
begin

lemma lookup_pushed: "repr h us \<Longrightarrow> fresh a h \<Longrightarrow> lookup (fb_id u) (push a u h) = Some (Some u)"
  using lookup_repr [OF push_repr] by simp

text \<open>Destroying the framebuffer created last leaves the others.\<close>

lemma destroy_pushed:
  assumes "repr h us" and "fresh a h"
  shows "\<exists>h'. destroy (fb_id u) (push a u h) = Some (Some u, h') \<and> repr h' us"
proof -
  have "repr (push a u h) (u # us)" using assms by (rule push_repr)
  from destroy_repr [OF this, of "fb_id u"] show ?thesis by simp
qed

text \<open>Destroying the one before it loses both: the pointer written lags one link behind.\<close>

lemma destroy_second:
  assumes "repr h us" and "fresh a h" and "fresh b (push a u h)" and "fb_id v \<noteq> fb_id u"
  shows "\<exists>h'. destroy (fb_id u) (push b v (push a u h)) = Some (Some u, h') \<and> repr h' us"
proof -
  have "repr (push b v (push a u h)) (v # u # us)" using push_repr assms(1-3) by blast
  from destroy_repr [OF this, of "fb_id u"] assms(4) show ?thesis by simp
qed

lemma destroy_absent:
  assumes "repr h us" and "\<forall>u \<in> set us. fb_id u \<noteq> i"
  shows "destroy i h = Some (None, h)"
proof -
  have "fb_unlink i pre us = None" for pre
    using assms(2) by (induction us arbitrary: pre) simp_all
  then show ?thesis using destroy_repr [OF assms(1), of i] by simp
qed

end

interpretation fbh: fb_store fb_repr "\<lambda>a h. a \<notin> dom (nodes h)" fb_push
    "\<lambda>i h. fb_lookup i (fbs_head h) h" fb_destroy_search
proof
  fix h us i
  assume "fb_repr h us"
  then show "case fb_unlink i [] us of
      None \<Rightarrow> fb_destroy_search i h = Some (None, h)
    | Some (u, us') \<Rightarrow> \<exists>h'. fb_destroy_search i h = Some (Some u, h') \<and> fb_repr h' us'"
    by (rule fb_destroy_repr)
qed (use fb_push_repr fb_lookup_repr in auto)

end
