(* ===== verification/Clips.thy ===== *)
theory Clips
  imports Tinydrm_Helpers
begin

text \<open>
  The merging of dirty rectangles and the pixel conversion of \<open>tinydrm-helpers.c\<close> meet their
  specifications: the result covers every rectangle read and lies in the framebuffer, and a
  converted line holds the RGB565 pixels of the source.
\<close>

section \<open>Merging\<close>

definition clip_join :: "clip_rect \<Rightarrow> clip_rect \<Rightarrow> clip_rect" where
  "clip_join d c = \<lparr>x1 = min (x1 d) (x1 c), y1 = min (y1 d) (y1 c),
                    x2 = max (x2 d) (x2 c), y2 = max (y2 d) (y2 c)\<rparr>"

text \<open>Every second rectangle: with the annotate flag they come in pairs of source and target.\<close>

fun odds :: "'a list \<Rightarrow> 'a list" where
  "odds (a # b # xs) = b # odds xs"
| "odds xs = []"

definition clip_contains :: "clip_rect \<Rightarrow> clip_rect \<Rightarrow> bool" where
  "clip_contains d c \<longleftrightarrow> x1 d \<le> x1 c \<and> y1 d \<le> y1 c \<and> x2 c \<le> x2 d \<and> y2 c \<le> y2 d"

definition empty_clip :: clip_rect where
  "empty_clip = \<lparr>x1 = NOT 0, y1 = NOT 0, x2 = 0, y2 = 0\<rparr>"

definition merged :: "clip_rect list \<Rightarrow> clip_rect" where
  "merged cs = foldl clip_join empty_clip cs"

text \<open>A rectangle that is not empty and lies in a framebuffer of the given size.\<close>

definition clip_in :: "u32 \<Rightarrow> u32 \<Rightarrow> clip_rect \<Rightarrow> bool" where
  "clip_in W H c \<longleftrightarrow> x1 c < x2 c \<and> y1 c < y2 c \<and> ucast (x2 c) \<le> W \<and> ucast (y2 c) \<le> H"

lemma clip_contains_refl [simp]: "clip_contains c c"
  by (simp add: clip_contains_def)

lemma clip_contains_trans: "clip_contains a b \<Longrightarrow> clip_contains b c \<Longrightarrow> clip_contains a c"
  unfolding clip_contains_def by (metis order_trans)

lemma clip_join_contains: "clip_contains (clip_join d c) d" "clip_contains (clip_join d c) c"
  by (simp_all add: clip_join_def clip_contains_def)

lemma foldl_join_contains: "clip_contains (foldl clip_join d cs) d"
  by (induction cs arbitrary: d) (auto intro: clip_contains_trans clip_join_contains)

lemma merged_contains: "c \<in> set cs \<Longrightarrow> clip_contains (foldl clip_join d cs) c"
proof (induction cs arbitrary: d)
  case (Cons a cs)
  then show ?case
    using foldl_join_contains [of "clip_join d a" cs] clip_join_contains(2) [of d a]
    by (auto intro: clip_contains_trans)
qed simp

lemma merge_loop_step:
  "i < n \<Longrightarrow> merge_loop src n ann i dst =
     (let i = (if ann then Suc i else i)
      in if i < length src then merge_loop src n ann (Suc i) (clip_join dst (src ! i)) else None)"
  by (subst merge_loop.simps) (simp add: clip_join_def Let_def)

lemma merge_loop_end: "\<not> i < n \<Longrightarrow> merge_loop src n ann i dst = Some dst"
  by (subst merge_loop.simps) simp

lemma merge_loop_plain:
  assumes "n \<le> length src" and "i \<le> n"
  shows "merge_loop src n False i dst = Some (foldl clip_join dst (drop i (take n src)))"
  using assms
proof (induction "n - i" arbitrary: i dst)
  case 0
  then show ?case by (simp add: merge_loop_end)
next
  case (Suc k)
  then have i: "i < n" by simp
  then have "drop i (take n src) = src ! i # drop (Suc i) (take n src)"
    using Suc.prems by (simp add: Cons_nth_drop_Suc [symmetric])
  then show ?case
    using Suc.hyps(1) [of "Suc i"] Suc.hyps(2) Suc.prems i by (simp add: merge_loop_step)
qed

lemma merge_loop_annotate:
  assumes "even n" and "n \<le> length src" and "even i" and "i \<le> n"
  shows "merge_loop src n True i dst = Some (foldl clip_join dst (odds (drop i (take n src))))"
  using assms
proof (induction "n - i" arbitrary: i dst rule: less_induct)
  case less
  show ?case
  proof (cases "i < n")
    case False
    then show ?thesis using less.prems by (simp add: merge_loop_end)
  next
    case True
    then have i: "Suc i < n" using less.prems by (metis Suc_lessI even_Suc)
    then have "drop i (take n src) = src ! i # src ! Suc i # drop (Suc (Suc i)) (take n src)"
      using less.prems by (simp add: Cons_nth_drop_Suc [symmetric])
    moreover have "merge_loop src n True (Suc (Suc i)) d =
        Some (foldl clip_join d (odds (drop (Suc (Suc i)) (take n src))))" for d
      using i less.prems by (intro less.hyps) auto
    ultimately show ?thesis
      using i True less.prems by (simp add: merge_loop_step)
  qed
qed

text \<open>
  With the annotate flag and an odd number of rectangles the loop reads one rectangle past the
  last: there is no result when the array ends there.
\<close>

lemma merge_loop_odd:
  assumes "odd n" and "length src = n" and "even i" and "i < n"
  shows "merge_loop src n True i dst = None"
  using assms
proof (induction "n - i" arbitrary: i dst rule: less_induct)
  case less
  show ?case
  proof (cases "Suc i < n")
    case False
    then show ?thesis using less.prems by (simp add: merge_loop_step)
  next
    case True
    then have "Suc (Suc i) < n" using less.prems by (metis Suc_lessI even_Suc)
    then have "merge_loop src n True (Suc (Suc i)) d = None" for d
      using less.prems by (intro less.hyps) auto
    then show ?thesis using True less.prems by (simp add: merge_loop_step)
  qed
qed

lemma u32_u16: "unat (W::u32) < 2 ^ 16 \<Longrightarrow> ucast (ucast W :: u16) = W"
  by (simp add: word_unat_eq_iff unsigned_ucast_eq unsigned_take_bit_eq take_bit_nat_eq_self)

lemma clip_in_full:
  assumes "0 < W" "unat W < 2 ^ 16" "0 < H" "unat H < 2 ^ 16"
  shows "clip_in W H (full_clip W H)"
proof -
  have "0 < (ucast W :: u16)" "0 < (ucast H :: u16)"
    using assms u32_u16 [of W] u32_u16 [of H] by (metis ucast_0 word_neq_0_conv)+
  then show ?thesis using assms by (simp add: clip_in_def full_clip_def u32_u16)
qed

lemma merge_clips_cases:
  assumes "tinydrm_merge_clips src n ann W H = Some c"
  shows "c = full_clip W H \<or> clip_in W H c"
  using assms
  by (auto simp: tinydrm_merge_clips_def clip_in_def not_le not_less bind_eq_Some_conv
      split: option.splits if_splits)

lemma merge_clips_in:
  assumes "tinydrm_merge_clips src n ann W H = Some c"
    and "0 < W" "unat W < 2 ^ 16" "0 < H" "unat H < 2 ^ 16"
  shows "clip_in W H c"
  using merge_clips_cases [OF assms(1)] clip_in_full [OF assms(2-5)] by auto

lemma merge_clips_selected:
  assumes "0 < n" and "n \<le> length cs" and "ann \<Longrightarrow> even n"
  defines "sel \<equiv> (if ann then odds (take n cs) else take n cs)"
  shows "tinydrm_merge_clips (Some cs) n ann W H =
    Some (if clip_in W H (merged sel) then merged sel else full_clip W H)"
proof -
  have "merge_loop cs n ann 0 empty_clip = Some (merged sel)"
    using merge_loop_annotate [of n cs 0] merge_loop_plain [of n cs 0] assms
    by (cases ann) (simp_all add: merged_def sel_def)
  then show ?thesis
    using assms(1) by (simp add: tinydrm_merge_clips_def empty_clip_def clip_in_def not_le not_less) auto
qed

section \<open>Pixels\<close>

text \<open>The three colour components of a pixel: 8 bits each, cut to 5, 6 and 5 bits.\<close>

definition rgb565 :: "u8 \<Rightarrow> u8 \<Rightarrow> u8 \<Rightarrow> u16" where
  "rgb565 r g b =
     push_bit 11 (ucast (drop_bit 3 r)) OR push_bit 5 (ucast (drop_bit 2 g)) OR ucast (drop_bit 3 b)"

lemma xrgb_masks:
  "(0x00F80000::u32) = push_bit 19 (mask 5)" "(0x0000FC00::u32) = push_bit 10 (mask 6)"
  "(0x000000F8::u32) = push_bit 3 (mask 5)"
  by (simp_all add: mask_numeral)

lemma xrgb_pixel_rgb565:
  "xrgb_pixel (get_unaligned_le32 [b, g, r, x]) = rgb565 r g b"
proof (rule bit_word_eqI)
  fix n :: nat
  assume "n < LENGTH(16)"
  then consider "n < 5" | "5 \<le> n" "n < 11" | "11 \<le> n" "n < 16" by (simp; linarith)
  then show "bit (xrgb_pixel (get_unaligned_le32 [b, g, r, x])) n = bit (rgb565 r g b) n"
  proof cases
    case 2
    then have "n - 3 = Suc (Suc (n - 5))" by simp
    with 2 show ?thesis
      unfolding xrgb_pixel_def xrgb_masks rgb565_def
      by (auto simp: get_unaligned_le32_def bit_simps)
  qed (unfold xrgb_pixel_def xrgb_masks rgb565_def, auto simp: get_unaligned_le32_def bit_simps)
qed

text \<open>A line of pixels: the bytes in memory are blue, green, red and one unused.\<close>

fun line565 :: "bytes \<Rightarrow> bytes" where
  "line565 (b # g # r # x # bs) = le16 (rgb565 r g b) @ line565 bs"
| "line565 bs = []"

lemma length_line565 [simp]: "length (line565 bs) = 2 * (length bs div 4)"
  by (induction bs rule: line565.induct) (simp_all add: div_add_self1)

lemma xrgb_loop_ok:
  assumes "load w (Ptr s i) (4 * n) = Some bs" and "mem w d = Some ds" and "j + 2 * n \<le> length ds"
    and "s \<noteq> d"
  shows "tinydrm_xrgb8888_to_rgb565 (Ptr s i) (Ptr d j) n w = Some ((),
    w\<lparr>mem := (mem w)(d \<mapsto> take j ds @ line565 bs @ drop (j + 2 * n) ds)\<rparr>)"
  using assms
proof (induction n arbitrary: i j bs ds w)
  case 0
  then show ?case
    by (cases bs) (auto simp: fun_upd_idem split: option.splits if_splits)
next
  case (Suc n)
  from Suc.prems(1) have "load w (Ptr s i) (4 + 4 * n) = Some bs" by simp
  then have ld: "load w (Ptr s i) 4 = Some (take 4 bs)" "load w (Ptr s (i + 4)) (4 * n) = Some (drop 4 bs)"
    using load_Some_append [of w "Ptr s i" 4 "4 * n" bs] by simp_all
  have "length bs = 4 + 4 * n" using load_0_len [OF Suc.prems(1)] by simp
  then obtain b g r x cs where bs: "bs = b # g # r # x # cs"
    by (auto simp: eval_nat_numeral length_Suc_conv)
  let ?p = "le16 (rgb565 r g b)"
  let ?ds = "take j ds @ ?p @ drop (j + 2) ds"
  let ?w = "w\<lparr>mem := (mem w)(d \<mapsto> ?ds)\<rparr>"
  have st: "store (Ptr d j) (le16 (xrgb_pixel (get_unaligned_le32 (take 4 bs)))) w = Some ((), ?w)"
    using Suc.prems(2,3) bs by (simp add: xrgb_pixel_rgb565)
  have ih: "load ?w (Ptr s (i + 4)) (4 * n) = Some cs"
    using ld(2) bs Suc.prems(4) by simp
  have twice: "?w\<lparr>mem := (mem ?w)(d \<mapsto> xs)\<rparr> = w\<lparr>mem := (mem w)(d \<mapsto> xs)\<rparr>" for xs
    by simp
  from ih have "tinydrm_xrgb8888_to_rgb565 (Ptr s (i + 4)) (Ptr d (j + 2)) n ?w = Some ((),
      ?w\<lparr>mem := (mem ?w)(d \<mapsto> take (j + 2) ?ds @ line565 cs @ drop (j + 2 + 2 * n) ?ds)\<rparr>)"
    using Suc.prems(2-4) by (intro Suc.IH) simp_all
  moreover have "take (j + 2) ?ds @ line565 cs @ drop (j + 2 + 2 * n) ?ds =
      take j ds @ line565 bs @ drop (j + 2 * Suc n) ds"
    using Suc.prems(3) bs by (simp add: ac_simps)
  ultimately have "tinydrm_xrgb8888_to_rgb565 (Ptr s (i + 4)) (Ptr d (j + 2)) n ?w = Some ((),
      w\<lparr>mem := (mem w)(d \<mapsto> take j ds @ line565 bs @ drop (j + 2 * Suc n) ds)\<rparr>)"
    by (simp only: twice)
  then show ?case
    using ld(1) st by (simp add: fun_upd_def del: load.simps store.simps line565.simps)
qed

lemma line565_map:
  "length bs = 4 * n \<Longrightarrow> line565 bs =
     concat (map (\<lambda>k. le16 (rgb565 (bs ! (4 * k + 2)) (bs ! (4 * k + 1)) (bs ! (4 * k)))) [0..<n])"
proof (induction n arbitrary: bs)
  case (Suc n)
  then obtain b g r x cs where bs: "bs = b # g # r # x # cs"
    by (auto simp: eval_nat_numeral length_Suc_conv)
  have sh: "bs ! (4 * Suc k + j) = cs ! (4 * k + j)" for k j
    using nth_append_length_plus [of "[b, g, r, x]" cs "4 * k + j"] bs by (simp add: ac_simps)
  have sh0: "bs ! (4 * Suc k) = cs ! (4 * k)" for k using sh [of k 0] by simp
  have up: "[0..<Suc n] = 0 # map Suc [0..<n]" by (simp add: upt_conv_Cons map_Suc_upt del: upt_Suc)
  have z: "bs ! (4 * 0 + 2) = r" "bs ! (4 * 0 + 1) = g" "bs ! (4 * 0) = b" using bs by simp_all
  have "length cs = 4 * n" using Suc.prems bs by simp
  from Suc.IH [OF this] show ?case
    unfolding up list.map map_map comp_def sh sh0 z concat.simps by (simp add: bs)
qed simp

end
