(* ===== verification/Linux_List.thy ===== *)
theory Linux_List
  imports Prelude
begin

text \<open>
  \<open>include/linux/list.h\<close>: circular doubly linked lists. Every operation reads and writes the
  \<open>next\<close> and \<open>prev\<close> fields of nodes in the order of the source; \<open>is_list\<close> says which HOL list
  a head stands for, and each operation is shown to do what its comment says to that list.
\<close>

section \<open>Nodes\<close>

text \<open>The two fields of every \<open>struct list_head\<close>; an address without one is not a live node.\<close>

record list_heap =
  lnext :: "nat \<Rightarrow> nat option"
  lprev :: "nat \<Rightarrow> nat option"

definition set_next :: "nat \<Rightarrow> nat \<Rightarrow> list_heap \<Rightarrow> list_heap option" where
  "set_next a v h = (if lnext h a = None then None else Some (h\<lparr>lnext := (lnext h)(a \<mapsto> v)\<rparr>))"

definition set_prev :: "nat \<Rightarrow> nat \<Rightarrow> list_heap \<Rightarrow> list_heap option" where
  "set_prev a v h = (if lprev h a = None then None else Some (h\<lparr>lprev := (lprev h)(a \<mapsto> v)\<rparr>))"

abbreviation LIST_POISON1 :: nat where "LIST_POISON1 \<equiv> 0x100"
abbreviation LIST_POISON2 :: nat where "LIST_POISON2 \<equiv> 0x200"

section \<open>Operations\<close>

definition INIT_LIST_HEAD :: "nat \<Rightarrow> list_heap \<Rightarrow> list_heap option" where
  "INIT_LIST_HEAD l h = do { h \<leftarrow> set_next l l h; set_prev l l h }"

text \<open>The functions whose names begin with two underscores have \<open>raw\<close> instead.\<close>

definition raw_list_add :: "nat \<Rightarrow> nat \<Rightarrow> nat \<Rightarrow> list_heap \<Rightarrow> list_heap option" where
  "raw_list_add new p n h = do {
     h \<leftarrow> set_prev n new h;
     h \<leftarrow> set_next new n h;
     h \<leftarrow> set_prev new p h;
     set_next p new h }"

definition list_add :: "nat \<Rightarrow> nat \<Rightarrow> list_heap \<Rightarrow> list_heap option" where
  "list_add new hd1 h = do { n \<leftarrow> lnext h hd1; raw_list_add new hd1 n h }"

definition list_add_tail :: "nat \<Rightarrow> nat \<Rightarrow> list_heap \<Rightarrow> list_heap option" where
  "list_add_tail new hd1 h = do { p \<leftarrow> lprev h hd1; raw_list_add new p hd1 h }"

definition raw_list_del :: "nat \<Rightarrow> nat \<Rightarrow> list_heap \<Rightarrow> list_heap option" where
  "raw_list_del p n h = do { h \<leftarrow> set_prev n p h; set_next p n h }"

definition raw_list_del_entry :: "nat \<Rightarrow> list_heap \<Rightarrow> list_heap option" where
  "raw_list_del_entry e h = do { p \<leftarrow> lprev h e; n \<leftarrow> lnext h e; raw_list_del p n h }"

definition list_del :: "nat \<Rightarrow> list_heap \<Rightarrow> list_heap option" where
  "list_del e h = do {
     p \<leftarrow> lprev h e;
     n \<leftarrow> lnext h e;
     h \<leftarrow> raw_list_del p n h;
     h \<leftarrow> set_next e LIST_POISON1 h;
     set_prev e LIST_POISON2 h }"

definition list_replace :: "nat \<Rightarrow> nat \<Rightarrow> list_heap \<Rightarrow> list_heap option" where
  "list_replace old new h = do {
     n \<leftarrow> lnext h old;
     h \<leftarrow> set_next new n h;
     n \<leftarrow> lnext h new;
     h \<leftarrow> set_prev n new h;
     p \<leftarrow> lprev h old;
     h \<leftarrow> set_prev new p h;
     p \<leftarrow> lprev h new;
     set_next p new h }"

definition list_replace_init :: "nat \<Rightarrow> nat \<Rightarrow> list_heap \<Rightarrow> list_heap option" where
  "list_replace_init old new h = do { h \<leftarrow> list_replace old new h; INIT_LIST_HEAD old h }"

definition list_del_init :: "nat \<Rightarrow> list_heap \<Rightarrow> list_heap option" where
  "list_del_init e h = do { h \<leftarrow> raw_list_del_entry e h; INIT_LIST_HEAD e h }"

definition list_move :: "nat \<Rightarrow> nat \<Rightarrow> list_heap \<Rightarrow> list_heap option" where
  "list_move l hd1 h = do { h \<leftarrow> raw_list_del_entry l h; list_add l hd1 h }"

definition list_move_tail :: "nat \<Rightarrow> nat \<Rightarrow> list_heap \<Rightarrow> list_heap option" where
  "list_move_tail l hd1 h = do { h \<leftarrow> raw_list_del_entry l h; list_add_tail l hd1 h }"

definition list_is_last :: "nat \<Rightarrow> nat \<Rightarrow> list_heap \<Rightarrow> bool option" where
  "list_is_last l hd1 h = do { n \<leftarrow> lnext h l; Some (n = hd1) }"

definition list_empty :: "nat \<Rightarrow> list_heap \<Rightarrow> bool option" where
  "list_empty hd1 h = do { n \<leftarrow> lnext h hd1; Some (n = hd1) }"

definition list_empty_careful :: "nat \<Rightarrow> list_heap \<Rightarrow> bool option" where
  "list_empty_careful hd1 h = do {
     n \<leftarrow> lnext h hd1;
     if n = hd1 then do { p \<leftarrow> lprev h hd1; Some (n = p) } else Some False }"

definition list_rotate_left :: "nat \<Rightarrow> list_heap \<Rightarrow> list_heap option" where
  "list_rotate_left hd1 h = do {
     e \<leftarrow> list_empty hd1 h;
     if \<not> e then do { first \<leftarrow> lnext h hd1; list_move_tail first hd1 h } else Some h }"

definition list_is_singular :: "nat \<Rightarrow> list_heap \<Rightarrow> bool option" where
  "list_is_singular hd1 h = do {
     e \<leftarrow> list_empty hd1 h;
     if e then Some False
     else do { n \<leftarrow> lnext h hd1; p \<leftarrow> lprev h hd1; Some (n = p) } }"

definition raw_list_cut_position :: "nat \<Rightarrow> nat \<Rightarrow> nat \<Rightarrow> list_heap \<Rightarrow> list_heap option" where
  "raw_list_cut_position l hd1 e h = do {
     new_first \<leftarrow> lnext h e;
     n \<leftarrow> lnext h hd1;
     h \<leftarrow> set_next l n h;
     n \<leftarrow> lnext h l;
     h \<leftarrow> set_prev n l h;
     h \<leftarrow> set_prev l e h;
     h \<leftarrow> set_next e l h;
     h \<leftarrow> set_next hd1 new_first h;
     set_prev new_first hd1 h }"

definition list_cut_position :: "nat \<Rightarrow> nat \<Rightarrow> nat \<Rightarrow> list_heap \<Rightarrow> list_heap option" where
  "list_cut_position l hd1 e h = do {
     emp \<leftarrow> list_empty hd1 h;
     if emp then Some h
     else do {
       sng \<leftarrow> list_is_singular hd1 h;
       n \<leftarrow> lnext h hd1;
       if sng \<and> n \<noteq> e \<and> hd1 \<noteq> e then Some h
       else if e = hd1 then INIT_LIST_HEAD l h
       else raw_list_cut_position l hd1 e h } }"

definition raw_list_splice :: "nat \<Rightarrow> nat \<Rightarrow> nat \<Rightarrow> list_heap \<Rightarrow> list_heap option" where
  "raw_list_splice l p n h = do {
     first \<leftarrow> lnext h l;
     last1 \<leftarrow> lprev h l;
     h \<leftarrow> set_prev first p h;
     h \<leftarrow> set_next p first h;
     h \<leftarrow> set_next last1 n h;
     set_prev n last1 h }"

definition list_splice :: "nat \<Rightarrow> nat \<Rightarrow> list_heap \<Rightarrow> list_heap option" where
  "list_splice l hd1 h = do {
     e \<leftarrow> list_empty l h;
     if \<not> e then do { n \<leftarrow> lnext h hd1; raw_list_splice l hd1 n h } else Some h }"

definition list_splice_tail :: "nat \<Rightarrow> nat \<Rightarrow> list_heap \<Rightarrow> list_heap option" where
  "list_splice_tail l hd1 h = do {
     e \<leftarrow> list_empty l h;
     if \<not> e then do { p \<leftarrow> lprev h hd1; raw_list_splice l p hd1 h } else Some h }"

definition list_splice_init :: "nat \<Rightarrow> nat \<Rightarrow> list_heap \<Rightarrow> list_heap option" where
  "list_splice_init l hd1 h = do {
     e \<leftarrow> list_empty l h;
     if \<not> e
     then do { n \<leftarrow> lnext h hd1; h \<leftarrow> raw_list_splice l hd1 n h; INIT_LIST_HEAD l h }
     else Some h }"

definition list_splice_tail_init :: "nat \<Rightarrow> nat \<Rightarrow> list_heap \<Rightarrow> list_heap option" where
  "list_splice_tail_init l hd1 h = do {
     e \<leftarrow> list_empty l h;
     if \<not> e
     then do { p \<leftarrow> lprev h hd1; h \<leftarrow> raw_list_splice l p hd1 h; INIT_LIST_HEAD l h }
     else Some h }"

text \<open>
  \<open>list_for_each\<close> and \<open>list_for_each_prev\<close>: the nodes visited when the body changes nothing. The
  loop need not end on nodes that are not a list.
\<close>

partial_function (option) visit_next :: "nat \<Rightarrow> nat \<Rightarrow> list_heap \<Rightarrow> nat list option" where
  "visit_next pos hd1 h =
     (if pos = hd1 then Some []
      else do { n \<leftarrow> lnext h pos; ps \<leftarrow> visit_next n hd1 h; Some (pos # ps) })"

definition list_for_each :: "nat \<Rightarrow> list_heap \<Rightarrow> nat list option" where
  "list_for_each hd1 h = do { n \<leftarrow> lnext h hd1; visit_next n hd1 h }"

partial_function (option) visit_prev :: "nat \<Rightarrow> nat \<Rightarrow> list_heap \<Rightarrow> nat list option" where
  "visit_prev pos hd1 h =
     (if pos = hd1 then Some []
      else do { p \<leftarrow> lprev h pos; ps \<leftarrow> visit_prev p hd1 h; Some (pos # ps) })"

definition list_for_each_prev :: "nat \<Rightarrow> list_heap \<Rightarrow> nat list option" where
  "list_for_each_prev hd1 h = do { p \<leftarrow> lprev h hd1; visit_prev p hd1 h }"

section \<open>The list of a head\<close>

text \<open>Along a path every node points to the next one and is pointed back to.\<close>

definition edge :: "list_heap \<Rightarrow> nat \<Rightarrow> nat \<Rightarrow> bool" where
  "edge h a b \<longleftrightarrow> lnext h a = Some b \<and> lprev h b = Some a"

fun path :: "list_heap \<Rightarrow> nat list \<Rightarrow> bool" where
  "path h (a # b # xs) = (edge h a b \<and> path h (b # xs))"
| "path h xs = True"

definition is_list :: "list_heap \<Rightarrow> nat \<Rightarrow> nat list \<Rightarrow> bool" where
  "is_list h hd1 xs \<longleftrightarrow> path h (hd1 # xs @ [hd1]) \<and> distinct (hd1 # xs)"

definition live :: "list_heap \<Rightarrow> nat \<Rightarrow> bool" where
  "live h a \<longleftrightarrow> lnext h a \<noteq> None \<and> lprev h a \<noteq> None"

text \<open>\<open>h'\<close> differs from \<open>h\<close> at most in the fields of the nodes in \<open>S\<close>.\<close>

definition only_at :: "nat set \<Rightarrow> list_heap \<Rightarrow> list_heap \<Rightarrow> bool" where
  "only_at S h h' \<longleftrightarrow>
     (\<forall>a. a \<notin> S \<longrightarrow> lnext h' a = lnext h a \<and> lprev h' a = lprev h a) \<and> (\<forall>a. live h a \<longrightarrow> live h' a)"

lemma path_append: "path h (xs @ a # ys) \<longleftrightarrow> path h (xs @ [a]) \<and> path h (a # ys)"
proof (induction xs)
  case (Cons x xs)
  then show ?case by (cases xs) auto
qed simp

lemma path_snoc: "path h (xs @ [a, b]) \<longleftrightarrow> path h (xs @ [a]) \<and> edge h a b"
  using path_append [of h xs a "[b]"] by simp

lemma path_cong:
  assumes "path h xs" and "\<And>a. a \<in> set (butlast xs) \<Longrightarrow> lnext h' a = lnext h a"
    and "\<And>a. a \<in> set (tl xs) \<Longrightarrow> lprev h' a = lprev h a"
  shows "path h' xs"
  using assms
proof (induction xs rule: path.induct)
  case (1 h a b xs)
  then show ?case by (auto simp: edge_def split: if_splits)
qed simp_all

text \<open>A path through at least two nodes, cut between two of them.\<close>

lemma cutE:
  assumes "path h (A @ p # n # B)" and "distinct (butlast (A @ p # n # B))" and "distinct (tl (A @ p # n # B))"
  shows "path h (A @ [p])" "edge h p n" "path h (n # B)" "p \<notin> set A" "p \<notin> set (butlast (n # B))"
    "n \<notin> set (tl (A @ [p]))" "n \<notin> set B"
proof -
  show "path h (A @ [p])" "edge h p n" "path h (n # B)"
    using assms(1) path_append [of h A p "n # B"] by auto
  have b: "butlast (A @ p # n # B) = A @ p # butlast (n # B)" by (simp add: butlast_append)
  show "p \<notin> set A" "p \<notin> set (butlast (n # B))" using assms(2) unfolding b by auto
  have t: "tl (A @ p # n # B) = tl (A @ [p]) @ n # B" by (cases A) auto
  show "n \<notin> set (tl (A @ [p]))" "n \<notin> set B" using assms(3) unfolding t by auto
qed

lemma edge_live: "edge h a b \<Longrightarrow> lnext h a \<noteq> None" "edge h a b \<Longrightarrow> lprev h b \<noteq> None"
  by (simp_all add: edge_def)

section \<open>Inserting and removing\<close>

lemma raw_list_add_path:
  assumes p: "path h (A @ p # n # B)" "distinct (butlast (A @ p # n # B))" "distinct (tl (A @ p # n # B))"
    and new: "new \<notin> set (A @ p # n # B)" "live h new"
  shows "\<exists>h'. raw_list_add new p n h = Some h' \<and> path h' (A @ p # new # n # B) \<and>
    only_at {new, p, n} h h'"
proof -
  note c = cutE [OF p]
  define h' where "h' = h\<lparr>lnext := (lnext h)(new \<mapsto> n, p \<mapsto> new), lprev := (lprev h)(n \<mapsto> new, new \<mapsto> p)\<rparr>"
  have ne: "new \<noteq> p" "new \<noteq> n" "new \<notin> set A" "new \<notin> set B" using new(1) by auto
  have nt: "new \<notin> set (tl (A @ [p]))" using ne by (cases A) auto
  have "raw_list_add new p n h = Some h'"
    using ne new(2) edge_live [OF c(2)]
    by (auto simp: raw_list_add_def set_next_def set_prev_def h'_def live_def)
  moreover have "path h' (A @ [p])"
    using c(4,6) ne nt by (intro path_cong [OF c(1)]) (auto simp: h'_def)
  moreover have "p \<notin> set (butlast (n # B))" "new \<notin> set (butlast (n # B))"
    using c(5) ne by (auto split: if_splits dest: in_set_butlastD)
  then have "path h' (n # B)"
    using c(7) ne by (intro path_cong [OF c(3)]) (auto simp: h'_def)
  moreover have "edge h' p new" "edge h' new n" using ne by (auto simp: h'_def edge_def)
  moreover have "only_at {new, p, n} h h'" by (simp add: only_at_def h'_def live_def)
  ultimately show ?thesis using path_append [of h' A p "new # n # B"] by auto
qed

lemma raw_list_del_path:
  assumes p: "path h (A @ p # e # n # B)" "distinct (butlast (A @ p # e # n # B))"
    "distinct (tl (A @ p # e # n # B))"
  shows "lprev h e = Some p" "lnext h e = Some n"
    "\<exists>h'. raw_list_del p n h = Some h' \<and> path h' (A @ p # n # B) \<and> only_at {p, n} h h'"
proof -
  note c = cutE [OF p]
  have p2: "path h ((A @ [p]) @ e # n # B)" "distinct (butlast ((A @ [p]) @ e # n # B))"
    "distinct (tl ((A @ [p]) @ e # n # B))"
    using p by simp_all
  note d = cutE [OF p2]
  show "lprev h e = Some p" "lnext h e = Some n" using c(2) d(2) by (simp_all add: edge_def)
  define h' where "h' = h\<lparr>lnext := (lnext h)(p \<mapsto> n), lprev := (lprev h)(n \<mapsto> p)\<rparr>"
  have "raw_list_del p n h = Some h'"
    using edge_live [OF c(2)] edge_live [OF d(2)]
    by (auto simp: raw_list_del_def set_next_def set_prev_def h'_def)
  moreover have "n \<notin> set (tl (A @ [p]))" using d(6) by (cases A) auto
  then have "path h' (A @ [p])"
    using c(1) c(4) by (intro path_cong [OF c(1)]) (auto simp: h'_def)
  moreover have "p \<notin> set (butlast (n # B))" using c(5) by (simp split: if_splits)
  then have "path h' (n # B)"
    using d(7) by (intro path_cong [OF d(3)]) (auto simp: h'_def)
  moreover have "edge h' p n" by (simp add: h'_def edge_def)
  moreover have "only_at {p, n} h h'" by (simp add: only_at_def h'_def live_def)
  ultimately show "\<exists>h'. raw_list_del p n h = Some h' \<and> path h' (A @ p # n # B) \<and> only_at {p, n} h h'"
    using path_append [of h' A p "n # B"] by auto
qed

lemma raw_list_replace_path:
  assumes p: "path h (A @ p # old # n # B)" "distinct (butlast (A @ p # old # n # B))"
    "distinct (tl (A @ p # old # n # B))" and new: "new \<notin> set (A @ p # old # n # B)" "live h new"
  shows "\<exists>h'. list_replace old new h = Some h' \<and> path h' (A @ p # new # n # B) \<and> only_at {new, p, n} h h'"
proof -
  note c = cutE [OF p]
  have p2: "path h ((A @ [p]) @ old # n # B)" "distinct (butlast ((A @ [p]) @ old # n # B))"
    "distinct (tl ((A @ [p]) @ old # n # B))"
    using p by simp_all
  note d = cutE [OF p2]
  define h' where "h' = h\<lparr>lnext := (lnext h)(new \<mapsto> n, p \<mapsto> new), lprev := (lprev h)(n \<mapsto> new, new \<mapsto> p)\<rparr>"
  have ne: "new \<noteq> p" "new \<noteq> n" "new \<noteq> old" "new \<notin> set A" "new \<notin> set B" using new(1) by auto
  have nt: "new \<notin> set (tl (A @ [p]))" "n \<notin> set (tl (A @ [p]))" using ne d(6) by (cases A; auto)+
  have "old \<noteq> n" using d(6) by (cases A) auto
  then have "list_replace old new h = Some h'"
    using ne new(2) c(2) d(2)
    by (auto simp: list_replace_def set_next_def set_prev_def h'_def live_def edge_def)
  moreover have "path h' (A @ [p])"
    using c(4) ne nt by (intro path_cong [OF c(1)]) (auto simp: h'_def)
  moreover have "p \<notin> set (butlast (n # B))" "new \<notin> set (butlast (n # B))"
    using c(5) ne by (auto split: if_splits dest: in_set_butlastD)
  then have "path h' (n # B)"
    using d(7) ne by (intro path_cong [OF d(3)]) (auto simp: h'_def)
  moreover have "edge h' p new" "edge h' new n" using ne by (auto simp: h'_def edge_def)
  moreover have "only_at {new, p, n} h h'" by (simp add: only_at_def h'_def live_def)
  ultimately show ?thesis using path_append [of h' A p "new # n # B"] by auto
qed

text \<open>A whole list put between two neighbours.\<close>

lemma raw_list_splice_path:
  assumes p: "path h (A @ p # n # B)" "distinct (butlast (A @ p # n # B))" "distinct (tl (A @ p # n # B))"
    and l: "path h (l # F @ [l])" "distinct F" "F \<noteq> []" "set F \<inter> set (A @ p # n # B) = {}"
  shows "\<exists>h'. raw_list_splice l p n h = Some h' \<and> path h' (A @ p # F @ n # B) \<and>
    only_at ({p, n} \<union> set F) h h'"
proof -
  note c = cutE [OF p]
  obtain f F' where f: "F = f # F'" using l(3) by (cases F) auto
  obtain G g where g: "F = G @ [g]" using l(3) by (cases F rule: rev_cases) auto
  have lf: "edge h l f" using l(1) f by simp
  have "path h ((l # G) @ g # [l])" using l(1) g by simp
  then have lg: "edge h g l" using path_append [of h "l # G" g "[l]"] by simp
  have "path h (F @ [l])" using l(1) f by simp
  then have "path h (G @ g # [l])" unfolding g by simp
  then have pF: "path h F" using path_append [of h G g "[l]"] g by simp
  have nF: "p \<notin> set F" "n \<notin> set F" "g \<notin> set (A @ [p])" "g \<notin> set (n # B)" "f \<notin> set (A @ [p])"
    "f \<notin> set (n # B)"
  proof -
    have "f \<in> set F" "g \<in> set F" by (simp add: f, simp add: g)
    then show "p \<notin> set F" "n \<notin> set F" "g \<notin> set (A @ [p])" "g \<notin> set (n # B)" "f \<notin> set (A @ [p])"
      "f \<notin> set (n # B)"
      using l(4) by auto
  qed
  have inF: "f \<in> set F" "g \<in> set F" by (simp add: f, simp add: g)
  have bt: "butlast F = G" "tl F = F'" by (simp add: g, simp add: f)
  have ng: "g \<notin> set G" "p \<notin> set G" using l(2) nF(1) unfolding g by auto
  have nf: "f \<notin> set F'" "n \<notin> set F'" using l(2) nF(2) unfolding f by auto
  have ft: "f \<notin> set (tl (A @ [p]))" using nF(5) by (cases A) auto
  have gb: "g \<notin> set (butlast (n # B))" using nF(4) by (auto dest: in_set_butlastD)
  define h' where "h' = h\<lparr>lnext := (lnext h)(p \<mapsto> f, g \<mapsto> n), lprev := (lprev h)(f \<mapsto> p, n \<mapsto> g)\<rparr>"
  have "raw_list_splice l p n h = Some h'"
    using lf lg c(2) by (auto simp: raw_list_splice_def set_next_def set_prev_def h'_def edge_def)
  moreover have "path h' (A @ [p])"
    using c(4,6) nF ft by (intro path_cong [OF c(1)]) (auto simp: h'_def)
  moreover have "path h' F"
    using ng nf unfolding h'_def by (intro path_cong [OF pF]) (auto simp: bt)
  moreover have "path h' (n # B)"
    using c(5,7) nF gb by (intro path_cong [OF c(3)]) (auto simp: h'_def)
  moreover have "edge h' p f" "edge h' g n" using nF g f by (auto simp: h'_def edge_def)
  moreover have "only_at ({p, n} \<union> set F) h h'" using inF by (auto simp: only_at_def h'_def live_def)
  moreover have "path h' (F @ n # B)" if "path h' F" "path h' (n # B)" "edge h' g n"
    using that path_append [of h' G g "n # B"] unfolding g by simp
  moreover have "path h' (p # F @ n # B)" if "path h' (F @ n # B)" "edge h' p f" using that unfolding f by simp
  ultimately show ?thesis using path_append [of h' A p "F @ n # B"] by blast
qed

section \<open>The operations on the list of a head\<close>

lemma only_at_mono: "only_at S h h' \<Longrightarrow> S \<subseteq> T \<Longrightarrow> only_at T h h'"
  by (auto simp: only_at_def)

lemma only_at_trans: "only_at S h h' \<Longrightarrow> only_at S h' h'' \<Longrightarrow> only_at S h h''"
  by (auto simp: only_at_def)

lemma only_at_live: "only_at S h h' \<Longrightarrow> live h a \<Longrightarrow> live h' a"
  by (simp add: only_at_def)

text \<open>A list with no node in \<open>S\<close> is still there after a change at \<open>S\<close>.\<close>

lemma is_list_frame:
  assumes "is_list h l xs" and "only_at S h h'" and "S \<inter> set (l # xs) = {}"
  shows "is_list h' l xs"
proof -
  have s: "a \<notin> S" if "a \<in> set (l # xs @ [l])" for a using that assms(3) by auto
  have eq: "lnext h' a = lnext h a" "lprev h' a = lprev h a" if "a \<in> set (l # xs @ [l])" for a
    using s [OF that] assms(2) by (simp_all add: only_at_def)
  have "path h (l # xs @ [l])" using assms(1) by (simp add: is_list_def)
  then have "path h' (l # xs @ [l])"
  proof (rule path_cong)
    fix a
    show "lnext h' a = lnext h a" if "a \<in> set (butlast (l # xs @ [l]))"
      using that by (intro eq) (rule in_set_butlastD)
    show "lprev h' a = lprev h a" if "a \<in> set (tl (l # xs @ [l]))"
      using that by (intro eq) simp
  qed
  then show ?thesis using assms(1) by (simp add: is_list_def)
qed

lemma is_list_path:
  assumes "is_list h l xs" and "l # xs @ [l] = A @ p # n # B"
  shows "path h (A @ p # n # B)" "distinct (butlast (A @ p # n # B))" "distinct (tl (A @ p # n # B))"
proof -
  have "butlast (l # xs @ [l]) = l # xs" by (simp add: butlast_append)
  then show "path h (A @ p # n # B)" "distinct (butlast (A @ p # n # B))" "distinct (tl (A @ p # n # B))"
    using assms(1) unfolding assms(2) [symmetric] is_list_def by auto
qed

lemma is_list_live: "is_list h l xs \<Longrightarrow> a \<in> set (l # xs) \<Longrightarrow> live h a"
proof -
  assume l: "is_list h l xs" and a: "a \<in> set (l # xs)"
  have n: "lnext h b \<noteq> None" if "path h ys" "b \<in> set (butlast ys)" for b ys
    using that by (induction h ys rule: path.induct) (auto simp: edge_def split: if_splits)
  have p: "lprev h b \<noteq> None" if "path h ys" "b \<in> set (tl ys)" for b ys
    using that by (induction h ys rule: path.induct) (auto simp: edge_def)
  have "path h (l # xs @ [l])" using l by (simp add: is_list_def)
  then show "live h a"
    using n [of "l # xs @ [l]" a] p [of "l # xs @ [l]" a] a by (auto simp: live_def butlast_append)
qed

lemma is_list_ends:
  assumes "is_list h l xs"
  shows "lnext h l = Some (hd (xs @ [l]))" "lprev h l = Some (last (l # xs))"
proof -
  obtain n B where n: "xs @ [l] = n # B" by (cases "xs @ [l]") auto
  obtain A p where p: "l # xs = A @ [p]" by (cases "l # xs" rule: rev_cases) auto
  have "path h (l # n # B)" using assms n by (simp add: is_list_def)
  then show "lnext h l = Some (hd (xs @ [l]))" using n by (simp add: edge_def)
  have e: "l # xs @ [l] = (l # xs) @ [l]" by simp
  have "path h (A @ [p, l])" using assms unfolding is_list_def e p by simp
  then have "edge h p l" using path_snoc by blast
  then show "lprev h l = Some (last (l # xs))" unfolding p by (simp add: edge_def)
qed

lemma INIT_LIST_HEAD_ok:
  assumes "live h l"
  shows "\<exists>h'. INIT_LIST_HEAD l h = Some h' \<and> is_list h' l [] \<and> only_at {l} h h'"
  using assms
  by (auto simp: INIT_LIST_HEAD_def set_next_def set_prev_def live_def is_list_def edge_def only_at_def)

lemma list_add_ok:
  assumes "is_list h l xs" and "new \<notin> set (l # xs)" and "live h new"
  shows "\<exists>h'. list_add new l h = Some h' \<and> is_list h' l (new # xs) \<and> only_at (set (new # l # xs)) h h'"
proof -
  obtain n B where n: "xs @ [l] = n # B" by (cases "xs @ [l]") auto
  have e: "l # xs @ [l] = [] @ l # n # B" using n by simp
  have nn: "new \<notin> set ([] @ l # n # B)" using assms(2) unfolding e [symmetric] by simp
  obtain h' where h': "raw_list_add new l n h = Some h'" "path h' ([] @ l # new # n # B)" "only_at {new, l, n} h h'"
    using raw_list_add_path [OF is_list_path [OF assms(1) e] nn assms(3)] by blast
  have "n \<in> set (l # xs)" using n by (cases xs) auto
  then have "only_at (set (new # l # xs)) h h'" by (intro only_at_mono [OF h'(3)]) auto
  moreover have "path h' (l # (new # xs) @ [l])" using h'(2) n by simp
  then have "is_list h' l (new # xs)" using assms(1,2) by (auto simp: is_list_def)
  moreover have "lnext h l = Some n" using is_list_ends(1) [OF assms(1)] n by simp
  then have "list_add new l h = Some h'" using h'(1) by (simp add: list_add_def)
  ultimately show ?thesis by blast
qed

lemma list_add_tail_ok:
  assumes "is_list h l xs" and "new \<notin> set (l # xs)" and "live h new"
  shows "\<exists>h'. list_add_tail new l h = Some h' \<and> is_list h' l (xs @ [new]) \<and> only_at (set (new # l # xs)) h h'"
proof -
  obtain A p where p: "l # xs = A @ [p]" by (cases "l # xs" rule: rev_cases) auto
  have e: "l # xs @ [l] = A @ p # l # []" using p by simp
  have nn: "new \<notin> set (A @ p # l # [])" using assms(2) unfolding e [symmetric] by simp
  obtain h' where h': "raw_list_add new p l h = Some h'" "path h' (A @ p # new # l # [])" "only_at {new, p, l} h h'"
    using raw_list_add_path [OF is_list_path [OF assms(1) e] nn assms(3)] by blast
  have "p \<in> set (l # xs)" unfolding p by simp
  then have "only_at (set (new # l # xs)) h h'" by (intro only_at_mono [OF h'(3)]) auto
  moreover have q: "(A @ [p]) @ [new, l] = l # (xs @ [new]) @ [l]" unfolding p [symmetric] by simp
  have "path h' (l # (xs @ [new]) @ [l])" using h'(2) unfolding q [symmetric] by simp
  then have "is_list h' l (xs @ [new])" using assms(1,2) by (simp add: is_list_def)
  moreover have "last (l # xs) = p" unfolding p by simp
  then have "list_add_tail new l h = Some h'"
    using h'(1) is_list_ends(2) [OF assms(1)] by (simp add: list_add_tail_def)
  ultimately show ?thesis by blast
qed

lemma raw_list_del_ok:
  assumes "is_list h l (ys @ e # zs)"
  shows "\<exists>p n h'. lprev h e = Some p \<and> lnext h e = Some n \<and> raw_list_del p n h = Some h' \<and>
    is_list h' l (ys @ zs) \<and> only_at (set (l # ys @ zs)) h h'"
proof -
  obtain A p where p: "l # ys = A @ [p]" by (cases "l # ys" rule: rev_cases) auto
  obtain n B where n: "zs @ [l] = n # B" by (cases "zs @ [l]") auto
  have "l # (ys @ e # zs) @ [l] = (l # ys) @ e # (zs @ [l])" by simp
  then have e: "l # (ys @ e # zs) @ [l] = A @ p # e # n # B" unfolding p n by simp
  note d = raw_list_del_path [OF is_list_path [OF assms e]]
  obtain h' where h': "raw_list_del p n h = Some h'" "path h' (A @ p # n # B)" "only_at {p, n} h h'"
    using d(3) by blast
  have "l # (ys @ zs) @ [l] = (l # ys) @ (zs @ [l])" by simp
  then have "path h' (l # (ys @ zs) @ [l])" using h'(2) unfolding p n by simp
  then have "is_list h' l (ys @ zs)" using assms by (simp add: is_list_def)
  moreover have "p \<in> set (l # ys)" unfolding p by simp
  moreover have "n \<in> set (zs @ [l])" unfolding n by simp
  ultimately show ?thesis
    using d(1,2) h'(1) only_at_mono [OF h'(3), of "set (l # ys @ zs)"] by auto
qed

lemma raw_list_del_entry_ok:
  assumes "is_list h l (ys @ e # zs)"
  shows "\<exists>h'. raw_list_del_entry e h = Some h' \<and> is_list h' l (ys @ zs) \<and> only_at (set (l # ys @ zs)) h h'"
  using raw_list_del_ok [OF assms] by (auto simp: raw_list_del_entry_def)

text \<open>After \<open>list_del\<close> the node points to the two poison addresses.\<close>

lemma list_del_ok:
  assumes "is_list h l (ys @ e # zs)"
  shows "\<exists>h'. list_del e h = Some h' \<and> is_list h' l (ys @ zs) \<and> only_at (set (l # ys @ e # zs)) h h' \<and>
    lnext h' e = Some LIST_POISON1 \<and> lprev h' e = Some LIST_POISON2"
proof -
  obtain p n h1 where h1: "lprev h e = Some p" "lnext h e = Some n" "raw_list_del p n h = Some h1"
    "is_list h1 l (ys @ zs)" "only_at (set (l # ys @ zs)) h h1"
    using raw_list_del_ok [OF assms] by blast
  let ?h = "h1\<lparr>lnext := (lnext h1)(e \<mapsto> LIST_POISON1), lprev := (lprev h1)(e \<mapsto> LIST_POISON2)\<rparr>"
  have "live h1 e" using only_at_live [OF h1(5)] is_list_live [OF assms] by simp
  then have "list_del e h = Some ?h" using h1 by (simp add: list_del_def set_next_def set_prev_def live_def)
  moreover have o: "only_at {e} h1 ?h" by (simp add: only_at_def live_def)
  have "e \<notin> set (l # ys @ zs)" using assms by (auto simp: is_list_def)
  then have "is_list ?h l (ys @ zs)" by (intro is_list_frame [OF h1(4) o]) simp
  moreover have "only_at (set (l # ys @ e # zs)) h ?h"
    using only_at_trans [OF only_at_mono [OF h1(5)] only_at_mono [OF o], of "set (l # ys @ e # zs)"] by auto
  ultimately show ?thesis by simp
qed

lemma list_del_init_ok:
  assumes "is_list h l (ys @ e # zs)"
  shows "\<exists>h'. list_del_init e h = Some h' \<and> is_list h' l (ys @ zs) \<and> is_list h' e [] \<and>
    only_at (set (l # ys @ e # zs)) h h'"
proof -
  obtain h1 where h1: "raw_list_del_entry e h = Some h1" "is_list h1 l (ys @ zs)" "only_at (set (l # ys @ zs)) h h1"
    using raw_list_del_entry_ok [OF assms] by blast
  have "live h1 e" using only_at_live [OF h1(3)] is_list_live [OF assms] by simp
  then obtain h2 where h2: "INIT_LIST_HEAD e h1 = Some h2" "is_list h2 e []" "only_at {e} h1 h2"
    using INIT_LIST_HEAD_ok by blast
  have "e \<notin> set (l # ys @ zs)" using assms by (auto simp: is_list_def)
  then have "is_list h2 l (ys @ zs)" by (intro is_list_frame [OF h1(2) h2(3)]) simp
  moreover have "only_at (set (l # ys @ e # zs)) h h2"
    using only_at_trans [OF only_at_mono [OF h1(3)] only_at_mono [OF h2(3)], of "set (l # ys @ e # zs)"] by auto
  ultimately show ?thesis using h1(1) h2 by (auto simp: list_del_init_def)
qed

text \<open>Moving within a list.\<close>

lemma list_move_ok:
  assumes "is_list h l (ys @ e # zs)"
  shows "\<exists>h'. list_move e l h = Some h' \<and> is_list h' l (e # ys @ zs)"
    and "\<exists>h'. list_move_tail e l h = Some h' \<and> is_list h' l (ys @ zs @ [e])"
proof -
  obtain h1 where h1: "raw_list_del_entry e h = Some h1" "is_list h1 l (ys @ zs)" "only_at (set (l # ys @ zs)) h h1"
    using raw_list_del_entry_ok [OF assms] by blast
  have e: "live h1 e" "e \<notin> set (l # ys @ zs)"
    using only_at_live [OF h1(3)] is_list_live [OF assms] assms by (auto simp: is_list_def)
  show "\<exists>h'. list_move e l h = Some h' \<and> is_list h' l (e # ys @ zs)"
    using list_add_ok [OF h1(2) e(2,1)] h1(1) by (auto simp: list_move_def)
  show "\<exists>h'. list_move_tail e l h = Some h' \<and> is_list h' l (ys @ zs @ [e])"
    using list_add_tail_ok [OF h1(2) e(2,1)] h1(1) by (auto simp: list_move_tail_def)
qed

text \<open>Moving to another list.\<close>

lemma list_move_other_ok:
  assumes "is_list h k (ys @ e # zs)" and "is_list h l xs" and "set (k # ys @ e # zs) \<inter> set (l # xs) = {}"
  shows "\<exists>h'. list_move e l h = Some h' \<and> is_list h' k (ys @ zs) \<and> is_list h' l (e # xs)"
    and "\<exists>h'. list_move_tail e l h = Some h' \<and> is_list h' k (ys @ zs) \<and> is_list h' l (xs @ [e])"
proof -
  obtain h1 where h1: "raw_list_del_entry e h = Some h1" "is_list h1 k (ys @ zs)" "only_at (set (k # ys @ zs)) h h1"
    using raw_list_del_entry_ok [OF assms(1)] by blast
  have "set (k # ys @ zs) \<inter> set (l # xs) = {}" using assms(3) by auto
  then have l: "is_list h1 l xs" by (rule is_list_frame [OF assms(2) h1(3)])
  have e: "e \<notin> set (l # xs)" "live h1 e" "set (e # l # xs) \<inter> set (k # ys @ zs) = {}"
    using only_at_live [OF h1(3)] is_list_live [OF assms(1)] assms(1,3) by (auto simp: is_list_def)
  obtain h2 where h2: "list_add e l h1 = Some h2" "is_list h2 l (e # xs)" "only_at (set (e # l # xs)) h1 h2"
    using list_add_ok [OF l e(1,2)] by blast
  show "\<exists>h'. list_move e l h = Some h' \<and> is_list h' k (ys @ zs) \<and> is_list h' l (e # xs)"
    using h1(1) h2 is_list_frame [OF h1(2) h2(3) e(3)] by (auto simp: list_move_def)
  obtain h3 where h3: "list_add_tail e l h1 = Some h3" "is_list h3 l (xs @ [e])" "only_at (set (e # l # xs)) h1 h3"
    using list_add_tail_ok [OF l e(1,2)] by blast
  show "\<exists>h'. list_move_tail e l h = Some h' \<and> is_list h' k (ys @ zs) \<and> is_list h' l (xs @ [e])"
    using h1(1) h3 is_list_frame [OF h1(2) h3(3) e(3)] by (auto simp: list_move_tail_def)
qed

lemma list_replace_ok:
  assumes "is_list h l (ys @ old # zs)" and "new \<notin> set (l # ys @ old # zs)" and "live h new"
  shows "\<exists>h'. list_replace old new h = Some h' \<and> is_list h' l (ys @ new # zs) \<and>
    only_at (set (new # l # ys @ zs)) h h'"
proof -
  obtain A p where p: "l # ys = A @ [p]" by (cases "l # ys" rule: rev_cases) auto
  obtain n B where n: "zs @ [l] = n # B" by (cases "zs @ [l]") auto
  have "l # (ys @ old # zs) @ [l] = (l # ys) @ old # (zs @ [l])" by simp
  then have e: "l # (ys @ old # zs) @ [l] = A @ p # old # n # B" unfolding p n by simp
  have nn: "new \<notin> set (A @ p # old # n # B)" using assms(2) unfolding e [symmetric] by auto
  obtain h' where h': "list_replace old new h = Some h'" "path h' (A @ p # new # n # B)" "only_at {new, p, n} h h'"
    using raw_list_replace_path [OF is_list_path [OF assms(1) e] nn assms(3)] by blast
  have "l # (ys @ new # zs) @ [l] = (l # ys) @ new # (zs @ [l])" by simp
  then have "path h' (l # (ys @ new # zs) @ [l])" using h'(2) unfolding p n by simp
  then have "is_list h' l (ys @ new # zs)" using assms(1,2) by (auto simp: is_list_def)
  moreover have "p \<in> set (l # ys)" unfolding p by simp
  moreover have "n \<in> set (zs @ [l])" unfolding n by simp
  ultimately show ?thesis
    using h'(1) only_at_mono [OF h'(3), of "set (new # l # ys @ zs)"] by auto
qed

lemma list_replace_init_ok:
  assumes "is_list h l (ys @ old # zs)" and "new \<notin> set (l # ys @ old # zs)" and "live h new"
  shows "\<exists>h'. list_replace_init old new h = Some h' \<and> is_list h' l (ys @ new # zs) \<and> is_list h' old []"
proof -
  obtain h1 where h1: "list_replace old new h = Some h1" "is_list h1 l (ys @ new # zs)"
    "only_at (set (new # l # ys @ zs)) h h1"
    using list_replace_ok [OF assms] by blast
  have "live h1 old" using only_at_live [OF h1(3)] is_list_live [OF assms(1)] by simp
  then obtain h2 where h2: "INIT_LIST_HEAD old h1 = Some h2" "is_list h2 old []" "only_at {old} h1 h2"
    using INIT_LIST_HEAD_ok by blast
  have "old \<notin> set (l # ys @ new # zs)" using assms(1,2) by (auto simp: is_list_def)
  then have "is_list h2 l (ys @ new # zs)" by (intro is_list_frame [OF h1(2) h2(3)]) simp
  then show ?thesis using h1(1) h2 by (auto simp: list_replace_init_def)
qed

section \<open>Looking at a list\<close>

lemma list_empty_ok: "is_list h l xs \<Longrightarrow> list_empty l h = Some (xs = [])"
  by (cases xs) (auto simp: list_empty_def is_list_def edge_def)

lemma list_empty_careful_ok: "is_list h l xs \<Longrightarrow> list_empty_careful l h = Some (xs = [])"
  by (cases xs) (auto simp: list_empty_careful_def is_list_def edge_def)

lemma list_is_singular_ok: "is_list h l xs \<Longrightarrow> list_is_singular l h = Some (length xs = 1)"
proof -
  assume l: "is_list h l xs"
  have "(hd xs = last xs) = (length xs = 1)" if "xs \<noteq> []"
  proof (cases xs)
    case (Cons y ys)
    then show ?thesis using l by (cases ys rule: rev_cases) (auto simp: is_list_def)
  qed (use that in simp)
  then show ?thesis
    using list_empty_ok [OF l] is_list_ends [OF l] by (cases xs) (auto simp: list_is_singular_def)
qed

text \<open>The successor of a node, and whether it is the last one.\<close>

lemma list_next_ok: "is_list h l (ys @ e # zs) \<Longrightarrow> lnext h e = Some (hd (zs @ [l]))"
proof -
  assume l: "is_list h l (ys @ e # zs)"
  obtain n B where n: "zs @ [l] = n # B" by (cases "zs @ [l]") auto
  have "l # (ys @ e # zs) @ [l] = (l # ys) @ e # (zs @ [l])" by simp
  then have "path h ((l # ys) @ e # n # B)" using l unfolding is_list_def n by simp
  then have "path h (e # n # B)" using path_append by blast
  then show ?thesis unfolding n by (simp add: edge_def)
qed

lemma list_is_last_ok:
  assumes "is_list h l (ys @ e # zs)"
  shows "list_is_last e l h = Some (zs = [])"
proof -
  have "l \<notin> set zs" using assms by (simp add: is_list_def)
  then have "(hd (zs @ [l]) = l) = (zs = [])" by (cases zs) auto
  then show ?thesis using list_next_ok [OF assms] by (simp add: list_is_last_def)
qed

lemma visit_next_ok: "path h (p # ps @ [l]) \<Longrightarrow> l \<notin> set (p # ps) \<Longrightarrow> visit_next p l h = Some (p # ps)"
proof (induction ps arbitrary: p)
  case Nil
  then show ?case by (simp add: visit_next.simps edge_def)
next
  case (Cons q qs)
  then show ?case by (subst visit_next.simps) (simp add: edge_def)
qed

lemma list_for_each_ok: "is_list h l xs \<Longrightarrow> list_for_each l h = Some xs"
proof -
  assume l: "is_list h l xs"
  then have "path h (l # xs @ [l])" "l \<notin> set xs" by (simp_all add: is_list_def)
  then show ?thesis
    using visit_next_ok [of h "hd xs" "tl xs" l]
    by (cases xs) (simp_all add: list_for_each_def is_list_ends [OF l] visit_next.simps)
qed

lemma visit_prev_ok: "path h (l # ps @ [p]) \<Longrightarrow> l \<notin> set (ps @ [p]) \<Longrightarrow> visit_prev p l h = Some (p # rev ps)"
proof (induction ps arbitrary: p rule: rev_induct)
  case Nil
  then show ?case by (simp add: visit_prev.simps edge_def)
next
  case (snoc q qs)
  have "path h ((l # qs) @ [q, p])" using snoc.prems(1) by simp
  then have "path h ((l # qs) @ [q])" "edge h q p" using path_snoc by blast+
  then show ?case
    using snoc.IH [of q] snoc.prems(2) by (subst visit_prev.simps) (simp add: edge_def)
qed

lemma list_for_each_prev_ok: "is_list h l xs \<Longrightarrow> list_for_each_prev l h = Some (rev xs)"
proof -
  assume l: "is_list h l xs"
  then have p: "path h ((l # xs) @ [l])" "l \<notin> set xs" by (simp_all add: is_list_def)
  show ?thesis
  proof (cases xs rule: rev_cases)
    case Nil
    then show ?thesis by (simp add: list_for_each_prev_def is_list_ends [OF l] visit_prev.simps)
  next
    case (snoc ys y)
    have "path h ((l # ys) @ [y, l])" using p(1) snoc by simp
    then have "path h (l # ys @ [y])" using path_snoc [of h "l # ys" y l] by simp
    then show ?thesis
      using visit_prev_ok [of h l ys y] p(2) snoc by (simp add: list_for_each_prev_def is_list_ends [OF l])
  qed
qed

lemma list_rotate_left_ok:
  assumes "is_list h l xs"
  shows "\<exists>h'. list_rotate_left l h = Some h' \<and> is_list h' l (rotate1 xs)"
proof (cases xs)
  case Nil
  then show ?thesis using assms list_empty_ok [OF assms] by (auto simp: list_rotate_left_def)
next
  case (Cons x ys)
  then show ?thesis
    using assms list_empty_ok [OF assms] list_move_ok(2) [of h l "[]" x ys] is_list_ends(1) [OF assms]
    by (auto simp: list_rotate_left_def)
qed

section \<open>Joining and cutting\<close>

text \<open>
  The nodes of the list at \<open>l\<close> go to the front, or to the back, of the list at \<open>k\<close>; \<open>l\<close> itself
  keeps its old pointers, so it is a head again only after the \<open>_init\<close> versions.
\<close>

lemma raw_list_splice_front:
  assumes l: "is_list h l xs" and k: "is_list h k ys" and ne: "xs \<noteq> []"
    and d: "set (l # xs) \<inter> set (k # ys) = {}"
  shows "\<exists>n h'. lnext h k = Some n \<and> raw_list_splice l k n h = Some h' \<and> is_list h' k (xs @ ys) \<and>
    only_at (set (k # xs @ ys)) h h'"
proof -
  obtain n B where n: "ys @ [k] = n # B" by (cases "ys @ [k]") auto
  have e: "k # ys @ [k] = [] @ k # n # B" using n by simp
  have "set xs \<inter> set ([] @ k # n # B) = {}" using d unfolding e [symmetric] by auto
  moreover have "path h (l # xs @ [l])" "distinct xs" using l by (simp_all add: is_list_def)
  ultimately obtain h' where h': "raw_list_splice l k n h = Some h'" "path h' ([] @ k # xs @ n # B)"
    "only_at ({k, n} \<union> set xs) h h'"
    using raw_list_splice_path [OF is_list_path [OF k e], of l xs] ne by blast
  have "n \<in> set (ys @ [k])" unfolding n by simp
  then have "only_at (set (k # xs @ ys)) h h'" by (intro only_at_mono [OF h'(3)]) auto
  moreover have "path h' (k # (xs @ ys) @ [k])" using h'(2) n by simp
  then have "is_list h' k (xs @ ys)" using l k d by (auto simp: is_list_def)
  moreover have "lnext h k = Some n" using is_list_ends(1) [OF k] n by simp
  ultimately show ?thesis using h'(1) by blast
qed

lemma raw_list_splice_back:
  assumes l: "is_list h l xs" and k: "is_list h k ys" and ne: "xs \<noteq> []"
    and d: "set (l # xs) \<inter> set (k # ys) = {}"
  shows "\<exists>p h'. lprev h k = Some p \<and> raw_list_splice l p k h = Some h' \<and> is_list h' k (ys @ xs) \<and>
    only_at (set (k # xs @ ys)) h h'"
proof -
  obtain A p where p: "k # ys = A @ [p]" by (cases "k # ys" rule: rev_cases) auto
  have "k # ys @ [k] = (k # ys) @ [k]" by simp
  then have e: "k # ys @ [k] = A @ p # k # []" unfolding p by simp
  have "set xs \<inter> set (A @ p # k # []) = {}" using d unfolding e [symmetric] by auto
  moreover have "path h (l # xs @ [l])" "distinct xs" using l by (simp_all add: is_list_def)
  ultimately obtain h' where h': "raw_list_splice l p k h = Some h'" "path h' (A @ p # xs @ k # [])"
    "only_at ({p, k} \<union> set xs) h h'"
    using raw_list_splice_path [OF is_list_path [OF k e], of l xs] ne by blast
  have "p \<in> set (k # ys)" unfolding p by simp
  then have "only_at (set (k # xs @ ys)) h h'" by (intro only_at_mono [OF h'(3)]) auto
  moreover have q: "k # (ys @ xs) @ [k] = (k # ys) @ xs @ [k]" by simp
  have "path h' (k # (ys @ xs) @ [k])" using h'(2) unfolding q p by simp
  then have "is_list h' k (ys @ xs)" using l k d by (auto simp: is_list_def)
  moreover have "last (k # ys) = p" unfolding p by simp
  then have "lprev h k = Some p" using is_list_ends(2) [OF k] by simp
  ultimately show ?thesis using h'(1) by blast
qed

lemma list_splice_ok:
  assumes "is_list h l xs" and "is_list h k ys" and "set (l # xs) \<inter> set (k # ys) = {}"
  shows "\<exists>h'. list_splice l k h = Some h' \<and> is_list h' k (xs @ ys)"
    and "\<exists>h'. list_splice_tail l k h = Some h' \<and> is_list h' k (ys @ xs)"
proof -
  note e = list_empty_ok [OF assms(1)]
  show "\<exists>h'. list_splice l k h = Some h' \<and> is_list h' k (xs @ ys)"
  proof (cases "xs = []")
    case False
    then show ?thesis
      using raw_list_splice_front [OF assms(1,2) False assms(3)] e by (auto simp: list_splice_def)
  qed (use assms(2) e in \<open>simp add: list_splice_def\<close>)
  show "\<exists>h'. list_splice_tail l k h = Some h' \<and> is_list h' k (ys @ xs)"
  proof (cases "xs = []")
    case False
    then show ?thesis
      using raw_list_splice_back [OF assms(1,2) False assms(3)] e by (auto simp: list_splice_tail_def)
  qed (use assms(2) e in \<open>simp add: list_splice_tail_def\<close>)
qed

lemma INIT_spliced:
  assumes "is_list h l xs" and "only_at S h h'" and "is_list h' k zs" and "l \<notin> set (k # zs)"
  shows "\<exists>h''. INIT_LIST_HEAD l h' = Some h'' \<and> is_list h'' l [] \<and> is_list h'' k zs"
proof -
  have "live h' l" using only_at_live [OF assms(2)] is_list_live [OF assms(1)] by simp
  then obtain h'' where h'': "INIT_LIST_HEAD l h' = Some h''" "is_list h'' l []" "only_at {l} h' h''"
    using INIT_LIST_HEAD_ok by blast
  moreover have "is_list h'' k zs" using assms(4) by (intro is_list_frame [OF assms(3) h''(3)]) simp
  ultimately show ?thesis by blast
qed

lemma list_splice_init_ok:
  assumes l: "is_list h l xs" and k: "is_list h k ys" and d: "set (l # xs) \<inter> set (k # ys) = {}"
  shows "\<exists>h'. list_splice_init l k h = Some h' \<and> is_list h' k (xs @ ys) \<and> is_list h' l []"
    and "\<exists>h'. list_splice_tail_init l k h = Some h' \<and> is_list h' k (ys @ xs) \<and> is_list h' l []"
proof -
  note e = list_empty_ok [OF l]
  have nl: "l \<notin> set (k # xs @ ys)" using l d by (auto simp: is_list_def)
  show "\<exists>h'. list_splice_init l k h = Some h' \<and> is_list h' k (xs @ ys) \<and> is_list h' l []"
  proof (cases "xs = []")
    case False
    obtain n h1 where h1: "lnext h k = Some n" "raw_list_splice l k n h = Some h1" "is_list h1 k (xs @ ys)"
      "only_at (set (k # xs @ ys)) h h1"
      using raw_list_splice_front [OF l k False d] by blast
    obtain h2 where "INIT_LIST_HEAD l h1 = Some h2" "is_list h2 l []" "is_list h2 k (xs @ ys)"
      using INIT_spliced [OF l h1(4,3) nl] by blast
    then show ?thesis using False e h1 by (simp add: list_splice_init_def)
  qed (use l k e in \<open>simp add: list_splice_init_def\<close>)
  show "\<exists>h'. list_splice_tail_init l k h = Some h' \<and> is_list h' k (ys @ xs) \<and> is_list h' l []"
  proof (cases "xs = []")
    case False
    obtain n h1 where h1: "lprev h k = Some n" "raw_list_splice l n k h = Some h1" "is_list h1 k (ys @ xs)"
      "only_at (set (k # xs @ ys)) h h1"
      using raw_list_splice_back [OF l k False d] by blast
    have "l \<notin> set (k # ys @ xs)" using nl by auto
    then obtain h2 where "INIT_LIST_HEAD l h1 = Some h2" "is_list h2 l []" "is_list h2 k (ys @ xs)"
      using INIT_spliced [OF l h1(4,3)] by blast
    then show ?thesis using False e h1 by (simp add: list_splice_tail_init_def)
  qed (use l k e in \<open>simp add: list_splice_tail_init_def\<close>)
qed

text \<open>\<open>list_cut_position\<close> puts the nodes up to \<open>e\<close> at the new head \<open>l\<close>.\<close>

lemma raw_list_cut_position_ok:
  assumes k: "is_list h k (ys @ e # zs)" and l: "l \<notin> set (k # ys @ e # zs)" "live h l"
  shows "\<exists>h'. raw_list_cut_position l k e h = Some h' \<and> is_list h' l (ys @ [e]) \<and> is_list h' k zs"
proof -
  obtain f F where f: "ys @ [e] = f # F" by (cases "ys @ [e]") auto
  obtain n B where n: "zs @ [k] = n # B" by (cases "zs @ [k]") auto
  have all: "k # (ys @ e # zs) @ [k] = (k # ys) @ e # n # B" using n by simp
  note c = cutE [OF is_list_path [OF k all]]
  have kf: "edge h k f" "path h (f # F)" using c(1) f by simp_all
  have nd: "distinct (k # ys @ e # zs)" using k by (simp add: is_list_def)
  have fin: "f \<in> set (ys @ [e])" unfolding f by simp
  have nin: "n \<in> set (zs @ [k])" unfolding n by simp
  have d: "l \<noteq> f" "l \<noteq> n" "l \<noteq> e" "l \<noteq> k" "e \<noteq> k" "f \<noteq> k" "f \<noteq> n"
    using fin nin nd l(1) by auto
  define h' where "h' = h\<lparr>lnext := (lnext h)(l \<mapsto> f, e \<mapsto> l, k \<mapsto> n),
    lprev := (lprev h)(f \<mapsto> l, l \<mapsto> e, n \<mapsto> k)\<rparr>"
  have r: "raw_list_cut_position l k e h = Some h'"
    using kf(1) c(2) l(2) d
    by (auto simp: raw_list_cut_position_def set_next_def set_prev_def h'_def edge_def live_def fun_upd_twist)
  have Fb: "butlast (f # F) = ys" unfolding f [symmetric] by simp
  have Ft: "F = tl (ys @ [e])" unfolding f by simp
  have tn: "f \<notin> set F" "l \<notin> set F" "n \<notin> set F"
  proof -
    have "distinct (f # F)" "l \<notin> set (f # F)" "n \<notin> set (f # F)"
      using nd l(1) nin unfolding f [symmetric] by auto
    then show "f \<notin> set F" "l \<notin> set F" "n \<notin> set F" by simp_all
  qed
  have "path h' (ys @ [e])"
    unfolding f
  proof (rule path_cong [OF kf(2)])
    fix a
    show "lnext h' a = lnext h a" if "a \<in> set (butlast (f # F))"
      using that nd l(1) unfolding Fb by (auto simp: h'_def)
    show "lprev h' a = lprev h a" if "a \<in> set (tl (f # F))" using that tn by (auto simp: h'_def)
  qed
  then have pl: "edge h' l f \<Longrightarrow> path h' (l # (ys @ [e]))" unfolding f by simp
  have ed: "edge h' e l" "edge h' l f" "edge h' k n" using d by (auto simp: h'_def edge_def)
  have "path h' ((l # ys) @ [e, l])" using path_snoc [of h' "l # ys" e l] pl [OF ed(2)] ed(1) by simp
  then have "path h' (l # (ys @ [e]) @ [l])" by simp
  then have "is_list h' l (ys @ [e])" using nd l(1) by (simp add: is_list_def)
  moreover have "path h' (n # B)"
  proof (rule path_cong [OF c(3)])
    fix a
    have Bb: "butlast (n # B) = zs" unfolding n [symmetric] by simp
    show "lnext h' a = lnext h a" if "a \<in> set (butlast (n # B))"
      using that nd l(1) unfolding Bb by (auto simp: h'_def)
    have "set B \<subseteq> set (zs @ [k])" unfolding n by auto
    moreover have "f \<notin> set (zs @ [k])" "l \<notin> set (zs @ [k])" using fin nd l(1) by auto
    ultimately show "lprev h' a = lprev h a" if "a \<in> set (tl (n # B))"
      using that c(7) by (auto simp: h'_def)
  qed
  then have "path h' (k # zs @ [k])" using ed(3) n by simp
  then have "is_list h' k zs" using nd by (simp add: is_list_def)
  ultimately show ?thesis using r by blast
qed

lemma list_cut_position_ok:
  assumes k: "is_list h k (ys @ e # zs)" and l: "l \<notin> set (k # ys @ e # zs)" "live h l"
  shows "\<exists>h'. list_cut_position l k e h = Some h' \<and> is_list h' l (ys @ [e]) \<and> is_list h' k zs"
proof -
  have "e \<noteq> k" using k by (auto simp: is_list_def)
  moreover have "hd (ys @ e # zs) = e" if "length (ys @ e # zs) = 1" using that by (cases ys) auto
  ultimately show ?thesis
    using raw_list_cut_position_ok [OF assms] list_empty_ok [OF k] list_is_singular_ok [OF k] is_list_ends(1) [OF k]
    by (auto simp: list_cut_position_def)
qed

section \<open>SPI messages\<close>

text \<open>
  \<open>struct spi_message\<close> is the head of a list of transfers (\<open>include/linux/spi/spi.h\<close>). The locale
  states what \<open>tinydrm-regmap.c\<close>, \<open>mipi-dbi.c\<close> and \<open>spi.c\<close> rely on; theory \<open>Spi\<close> has such a message
  as the list of its transfers.
\<close>

definition spi_message_init :: "nat \<Rightarrow> list_heap \<Rightarrow> list_heap option" where
  "spi_message_init m h = INIT_LIST_HEAD m h"

definition spi_message_add_tail :: "nat \<Rightarrow> nat \<Rightarrow> list_heap \<Rightarrow> list_heap option" where
  "spi_message_add_tail t m h = list_add_tail t m h"

fun add_transfers :: "nat list \<Rightarrow> nat \<Rightarrow> list_heap \<Rightarrow> list_heap option" where
  "add_transfers [] m h = Some h"
| "add_transfers (t # ts) m h = do { h \<leftarrow> spi_message_add_tail t m h; add_transfers ts m h }"

definition spi_message_with_transfers :: "nat \<Rightarrow> nat list \<Rightarrow> list_heap \<Rightarrow> list_heap option" where
  "spi_message_with_transfers m xfers h = do { h \<leftarrow> spi_message_init m h; add_transfers xfers m h }"

locale transfer_queue =
  fixes rep :: "'h \<Rightarrow> 'a list \<Rightarrow> bool"
    and free :: "'h \<Rightarrow> 'a \<Rightarrow> bool"
    and start :: "'h \<Rightarrow> 'h option"
    and add :: "'a \<Rightarrow> 'h \<Rightarrow> 'h option"
    and singular :: "'h \<Rightarrow> bool option"
    and first :: "'h \<Rightarrow> 'a option"
    and succ :: "'a \<Rightarrow> 'h \<Rightarrow> 'a option"
    and ready :: "'h \<Rightarrow> bool"
  assumes start_rep: "ready h \<Longrightarrow> \<exists>h'. start h = Some h' \<and> rep h' [] \<and> (\<forall>a. free h a \<longrightarrow> free h' a)"
    and add_rep: "rep h xs \<Longrightarrow> free h a \<Longrightarrow> a \<notin> set xs \<Longrightarrow>
      \<exists>h'. add a h = Some h' \<and> rep h' (xs @ [a]) \<and> (\<forall>b. free h b \<longrightarrow> free h' b)"
    and singular_rep: "rep h xs \<Longrightarrow> singular h = Some (length xs = 1)"
    and first_rep: "rep h (a # xs) \<Longrightarrow> first h = Some a"
    and succ_rep: "rep h (ys @ a # b # xs) \<Longrightarrow> succ a h = Some b"
begin

fun add_all :: "'a list \<Rightarrow> 'h \<Rightarrow> 'h option" where
  "add_all [] h = Some h"
| "add_all (a # as) h = do { h \<leftarrow> add a h; add_all as h }"

lemma add_all_rep:
  assumes "rep h xs" and "distinct (xs @ as)" and "\<forall>a \<in> set as. free h a"
  shows "\<exists>h'. add_all as h = Some h' \<and> rep h' (xs @ as)"
  using assms
proof (induction as arbitrary: h xs)
  case (Cons a as)
  then obtain h1 where h1: "add a h = Some h1" "rep h1 (xs @ [a])" "\<forall>b. free h b \<longrightarrow> free h1 b"
    using add_rep [of h xs a] by auto
  then show ?case using Cons.IH [of h1 "xs @ [a]"] Cons.prems by simp
qed simp

text \<open>A message is what it was built from, in order.\<close>

lemma built_rep:
  assumes "ready h" and "distinct as" and "\<forall>a \<in> set as. free h a"
  shows "\<exists>h'. (start h \<bind> add_all as) = Some h' \<and> rep h' as"
proof -
  obtain h1 where h1: "start h = Some h1" "rep h1 []" "\<forall>a. free h a \<longrightarrow> free h1 a"
    using start_rep [OF assms(1)] by blast
  with assms(2,3) add_all_rep [of h1 "[]" as] show ?thesis by simp
qed

text \<open>The two shapes that \<open>spi_sync\<close> tells apart.\<close>

lemma one_transfer:
  assumes "rep h [a]"
  shows "first h = Some a" "singular h = Some True"
  using first_rep [OF assms] singular_rep [OF assms] by simp_all

lemma two_transfers:
  assumes "rep h [a, b]"
  shows "first h = Some a" "singular h = Some False" "succ a h = Some b"
  using first_rep [OF assms] singular_rep [OF assms] succ_rep [of h "[]" a b "[]"] assms by simp_all

end

interpretation mq: transfer_queue
    "\<lambda>h xs. is_list h m xs" "\<lambda>h a. live h a \<and> a \<noteq> m" "spi_message_init m" "\<lambda>t. spi_message_add_tail t m"
    "list_is_singular m" "\<lambda>h. lnext h m" "\<lambda>t h. lnext h t" "\<lambda>h. live h m" for m
proof
  fix h a b ys xs
  show "live h m \<Longrightarrow> \<exists>h'. spi_message_init m h = Some h' \<and> is_list h' m [] \<and>
      (\<forall>a. live h a \<and> a \<noteq> m \<longrightarrow> live h' a \<and> a \<noteq> m)"
    using INIT_LIST_HEAD_ok [of h m] only_at_live unfolding spi_message_init_def by blast
  show "\<exists>h'. spi_message_add_tail a m h = Some h' \<and> is_list h' m (xs @ [a]) \<and>
      (\<forall>b. live h b \<and> b \<noteq> m \<longrightarrow> live h' b \<and> b \<noteq> m)"
    if "is_list h m xs" "live h a \<and> a \<noteq> m" "a \<notin> set xs"
    using list_add_tail_ok [OF that(1), of a] that only_at_live unfolding spi_message_add_tail_def by auto
  show "is_list h m xs \<Longrightarrow> list_is_singular m h = Some (length xs = 1)" by (rule list_is_singular_ok)
  show "is_list h m (a # xs) \<Longrightarrow> lnext h m = Some a" by (simp add: is_list_ends)
  show "is_list h m (ys @ a # b # xs) \<Longrightarrow> lnext h a = Some b" using list_next_ok by fastforce
qed

lemma add_transfers_all: "add_transfers ts m = mq.add_all m ts"
  by (rule ext, induction ts) (simp_all cong: Option.bind_cong)

lemma spi_message_built:
  assumes "live h m" and "distinct (m # xfers)" and "\<forall>t \<in> set xfers. live h t"
  shows "\<exists>h'. spi_message_with_transfers m xfers h = Some h' \<and> is_list h' m xfers"
  using mq.built_rep [OF assms(1), of xfers] assms(2,3)
  by (auto simp: spi_message_with_transfers_def add_transfers_all)

end
