(* ===== verification/Hexdump.thy ===== *)
theory Hexdump
  imports Text Kernel_Shim
begin

text \<open>
  The text of debug messages: \<open>hex_dump_to_buffer\<close>, \<open>tinydrm_hexdump\<close> and
  \<open>tinydrm_debug_reg_write\<close> of \<open>tinydrm-regmap.c\<close>, and \<open>drm_get_format_name\<close> of \<open>drmP.h\<close>. They
  write into character arrays of a fixed size; a write outside the array has no result. The
  lemmas show that they never make one, that the text is always terminated, and what it says.
\<close>

section \<open>Writing characters\<close>

abbreviation NUL :: char where "NUL \<equiv> CHR 0x00"

definition put_char :: "nat \<Rightarrow> char \<Rightarrow> string \<Rightarrow> string option" where
  "put_char i c b = (if i < length b then Some (b[i := c]) else None)"

fun put_chars :: "nat \<Rightarrow> string \<Rightarrow> string \<Rightarrow> string option" where
  "put_chars i [] b = Some b"
| "put_chars i (c # cs) b = do { b \<leftarrow> put_char i c b; put_chars (Suc i) cs b }"

text \<open>
  \<open>snprintf(linebuf + i, n, ...)\<close> when the whole text is \<open>s\<close>: at most \<open>n - 1\<close> characters and a
  terminator are written, and the length of \<open>s\<close> is returned.
\<close>

definition snprintf :: "nat \<Rightarrow> nat \<Rightarrow> string \<Rightarrow> string \<Rightarrow> (nat \<times> string) option" where
  "snprintf i n s b =
     (if n = 0 then Some (length s, b)
      else do { b \<leftarrow> put_chars i (take (n - 1) s @ [NUL]) b; Some (length s, b) })"

text \<open>What \<open>%s\<close> prints of an array.\<close>

definition c_string :: "string \<Rightarrow> string" where
  "c_string b = takeWhile (\<lambda>c. c \<noteq> NUL) b"

section \<open>\<open>hex_dump_to_buffer\<close>\<close>

definition hex_asc_lo :: "u8 \<Rightarrow> char" where
  "hex_asc_lo x = digit_char (unat (x AND 0x0f))"

definition hex_asc_hi :: "u8 \<Rightarrow> char" where
  "hex_asc_hi x = digit_char (unat (drop_bit 4 (x AND 0xf0)))"

text \<open>\<open>isascii(ch) && isprint(ch)\<close> in the C locale.\<close>

definition is_print :: "u8 \<Rightarrow> bool" where
  "is_print c \<longleftrightarrow> 0x20 \<le> c \<and> c \<le> 0x7e"

text \<open>How a part of the dump ends: at the next part, or at one of the overflow labels, with \<open>lx\<close>.\<close>

datatype dump = Goes_on nat | Overflow1 | Overflow2 nat

text \<open>The three loops over groups of 8, 4 and 2 bytes differ in the width and the load.\<close>

fun dump_groups :: "nat \<Rightarrow> nat \<Rightarrow> nat list \<Rightarrow> bool \<Rightarrow> nat \<Rightarrow> string \<Rightarrow> (dump \<times> string) option" where
  "dump_groups n k [] j lx b = Some (Goes_on lx, b)"
| "dump_groups n k (v # vs) j lx b = do {
     (ret, b) \<leftarrow> snprintf lx (n - lx) ((if j then '' '' else []) @ hex_string k v) b;
     if n - lx \<le> ret then Some (Overflow1, b) else dump_groups n k vs True (lx + ret) b }"

fun dump_bytes :: "nat \<Rightarrow> bytes \<Rightarrow> nat \<Rightarrow> string \<Rightarrow> (dump \<times> string) option" where
  "dump_bytes n [] lx b = Some (Goes_on lx, b)"
| "dump_bytes n (ch # cs) lx b =
     (if n < lx + 2 then Some (Overflow2 lx, b)
      else do {
        b \<leftarrow> put_char lx (hex_asc_hi ch) b;
        let lx = lx + 1;
        if n < lx + 2 then Some (Overflow2 lx, b)
        else do {
          b \<leftarrow> put_char lx (hex_asc_lo ch) b;
          let lx = lx + 1;
          if n < lx + 2 then Some (Overflow2 lx, b)
          else do { b \<leftarrow> put_char lx (CHR '' '') b; dump_bytes n cs (lx + 1) b } } })"

text \<open>\<open>while (lx < ascii_column)\<close>: \<open>k\<close> columns are left.\<close>

fun dump_pad :: "nat \<Rightarrow> nat \<Rightarrow> nat \<Rightarrow> string \<Rightarrow> (dump \<times> string) option" where
  "dump_pad n 0 lx b = Some (Goes_on lx, b)"
| "dump_pad n (Suc k) lx b =
     (if n < lx + 2 then Some (Overflow2 lx, b)
      else do { b \<leftarrow> put_char lx (CHR '' '') b; dump_pad n k (lx + 1) b })"

fun dump_ascii :: "nat \<Rightarrow> bytes \<Rightarrow> nat \<Rightarrow> string \<Rightarrow> (dump \<times> string) option" where
  "dump_ascii n [] lx b = Some (Goes_on lx, b)"
| "dump_ascii n (ch # cs) lx b =
     (if n < lx + 2 then Some (Overflow2 lx, b)
      else do {
        b \<leftarrow> put_char lx (if is_print ch then char_of (unat ch) else CHR ''.'') b;
        dump_ascii n cs (lx + 1) b })"

text \<open>The words of the groups, and the digits of each.\<close>

definition dump_words :: "nat \<Rightarrow> bytes \<Rightarrow> nat \<Rightarrow> nat list" where
  "dump_words groupsize p ngroups =
     map (\<lambda>j. let q = drop (groupsize * j) p in
            if groupsize = 8 then unat (get_unaligned_le64 q)
            else if groupsize = 4 then unat (get_unaligned_le32 q)
            else unat (get_unaligned_le16 q)) [0..<ngroups]"

definition dump_hex :: "nat \<Rightarrow> nat \<Rightarrow> nat \<Rightarrow> bytes \<Rightarrow> string \<Rightarrow> (dump \<times> string) option" where
  "dump_hex n groupsize ngroups p b =
     (if groupsize = 8 \<or> groupsize = 4 \<or> groupsize = 2
      then dump_groups n (2 * groupsize) (dump_words groupsize p ngroups) False 0 b
      else do {
        (d, b) \<leftarrow> dump_bytes n p 0 b;
        Some (case d of Goes_on lx \<Rightarrow> (Goes_on (if p \<noteq> [] then lx - 1 else lx), b) | _ \<Rightarrow> (d, b)) })"

text \<open>
  \<open>p\<close> is what \<open>buf\<close> points to; the row and group sizes are not negative. The result is the
  return value and the array.
\<close>

definition hex_dump_to_buffer ::
  "bytes \<Rightarrow> nat \<Rightarrow> nat \<Rightarrow> nat \<Rightarrow> nat \<Rightarrow> bool \<Rightarrow> string \<Rightarrow> (int \<times> string) option" where
  "hex_dump_to_buffer p len rowsize groupsize linebuflen ascii b = do {
     let rowsize = (if rowsize \<noteq> 16 \<and> rowsize \<noteq> 32 then 16 else rowsize);
     let len = (if rowsize < len then rowsize else len);
     let groupsize = (if \<not> is_power_of_2 (of_nat groupsize) \<or> 8 < groupsize then 1 else groupsize);
     let groupsize = (if len mod groupsize \<noteq> 0 then 1 else groupsize);
     let ngroups = len div groupsize;
     let ascii_column = rowsize * 2 + rowsize div groupsize + 1;
     let too_long = (if ascii then int (ascii_column + len) else int ((groupsize * 2 + 1) * ngroups) - 1);
     if linebuflen = 0 then Some (too_long, b)
     else if length p < len then None
     else do {
       (d, b) \<leftarrow> (if len = 0 then Some (Goes_on 0, b)
                 else do {
                   (d, b) \<leftarrow> dump_hex linebuflen groupsize ngroups (take len p) b;
                   case d of
                     Goes_on lx \<Rightarrow>
                       if \<not> ascii then Some (Goes_on lx, b)
                       else do {
                         (d, b) \<leftarrow> dump_pad linebuflen (ascii_column - lx) lx b;
                         case d of Goes_on lx \<Rightarrow> dump_ascii linebuflen (take len p) lx b
                         | _ \<Rightarrow> Some (d, b) }
                   | _ \<Rightarrow> Some (d, b) });
       case d of
         Goes_on lx \<Rightarrow> do { b \<leftarrow> put_char lx NUL b; Some (int lx, b) }
       | Overflow2 lx \<Rightarrow> do { b \<leftarrow> put_char lx NUL b; Some (too_long, b) }
       | Overflow1 \<Rightarrow> Some (too_long, b) } }"

section \<open>\<open>tinydrm_hexdump\<close>\<close>

text \<open>The loop over 16-bit words; it breaks off when the text does not fit.\<close>

fun hexdump16 :: "nat \<Rightarrow> nat list \<Rightarrow> bool \<Rightarrow> nat \<Rightarrow> string \<Rightarrow> string option" where
  "hexdump16 n [] j lx b = Some b"
| "hexdump16 n (v # vs) j lx b = do {
     (ret, b) \<leftarrow> snprintf lx (n - lx) ((if j then '' '' else []) @ hex_string 4 v) b;
     if n - lx \<le> ret then do { (_, b) \<leftarrow> snprintf 0 n ''ERROR'' b; Some b }
     else hexdump16 n vs True (lx + ret) b }"

definition tinydrm_hexdump ::
  "nat \<Rightarrow> bytes \<Rightarrow> nat \<Rightarrow> nat \<Rightarrow> nat \<Rightarrow> string \<Rightarrow> string option" where
  "tinydrm_hexdump linebuflen p len bpw mx b =
     (if 16 < bpw then do { (_, b) \<leftarrow> snprintf 0 linebuflen ''bpw not supported'' b; Some b }
      else if 8 < bpw
      then (let count = (if mx < len then mx div 2 else len div 2)
            in if length p < 2 * count then None
               else hexdump16 linebuflen (dump_words 2 p count) False 0 b)
      else do { (_, b) \<leftarrow> hex_dump_to_buffer p len mx 1 linebuflen False b; Some b })"

text \<open>
  The message of \<open>tinydrm_debug_reg_write\<close>; \<open>None\<close> inside the result when nothing is printed. The
  local array starts with arbitrary content \<open>junk\<close>.
\<close>

definition tinydrm_debug_reg_write ::
  "bytes \<Rightarrow> nat \<Rightarrow> bytes option \<Rightarrow> nat \<Rightarrow> nat \<Rightarrow> string \<Rightarrow> string option option" where
  "tinydrm_debug_reg_write reg reg_len val val_len val_width junk =
     (if reg_len \<noteq> 1 \<and> reg_len \<noteq> 2 then Some None
      else if length reg < reg_len then None
      else do {
        let regnr = (if reg_len = 1 then unat (hd reg) else unat (get_unaligned_le16 reg));
        let pre = ''regnr=0x'' @ hex_string (if reg_len = 1 then 2 else 4) regnr;
        case val of
          Some p \<Rightarrow>
            if val_len \<noteq> 0
            then do {
              linebuf \<leftarrow> tinydrm_hexdump 96 p val_len val_width 16 junk;
              Some (Some (pre @ '', data('' @ dec_string val_len @ '')= '' @ c_string linebuf @
                (if 32 < val_len then '' ...'' else []) @ [CHR 0x0A])) }
            else Some (Some (pre @ [CHR 0x0A]))
        | None \<Rightarrow> Some (Some (pre @ [CHR 0x0A])) })"

section \<open>\<open>drm_get_format_name\<close>\<close>

definition printable_char :: "u32 \<Rightarrow> char" where
  "printable_char c = (if c < 0x80 \<and> is_print (ucast c) then char_of (unat c) else CHR ''?'')"

text \<open>\<open>DRM_FORMAT_BIG_ENDIAN\<close> comes from the kernel's headers; it is the argument \<open>be\<close>.\<close>

definition drm_get_format_name :: "u32 \<Rightarrow> u32 \<Rightarrow> string \<Rightarrow> string option" where
  "drm_get_format_name be format b = do {
     (_, b) \<leftarrow> snprintf 0 32
       ([printable_char (format AND 0xff),
         printable_char (drop_bit 8 format AND 0xff),
         printable_char (drop_bit 16 format AND 0xff),
         printable_char (drop_bit 24 format AND 0x7f)] @ '' '' @
        (if format AND be \<noteq> 0 then ''big'' else ''little'') @ ''-endian (0x'' @
        hex_string 8 (unat format) @ '')'') b;
     Some (c_string b) }"

section \<open>Nothing is written outside the array\<close>

text \<open>The array keeps its size and everything from index \<open>n\<close> on.\<close>

definition inside :: "nat \<Rightarrow> string \<Rightarrow> string \<Rightarrow> bool" where
  "inside n b b' \<longleftrightarrow> length b' = length b \<and> drop n b' = drop n b"

lemma inside_refl [simp]: "inside n b b"
  by (simp add: inside_def)

lemma inside_trans: "inside n b b' \<Longrightarrow> inside n b' b'' \<Longrightarrow> inside n b b''"
  by (simp add: inside_def)

lemma inside_update: "i < n \<Longrightarrow> inside n b (b[i := c])"
  by (simp add: inside_def)

lemma put_char_ok: "i < n \<Longrightarrow> n \<le> length b \<Longrightarrow> put_char i c b = Some (b[i := c])"
  by (simp add: put_char_def)

lemma put_chars_ok:
  "i + length cs \<le> length b \<Longrightarrow> put_chars i cs b = Some (take i b @ cs @ drop (i + length cs) b)"
proof (induction cs arbitrary: i b)
  case (Cons c cs)
  then have "put_chars (Suc i) cs (b[i := c]) =
      Some (take (Suc i) (b[i := c]) @ cs @ drop (Suc i + length cs) (b[i := c]))"
    by (intro Cons.IH) simp
  then show ?case
    using Cons.prems by (simp add: put_char_def take_Suc_conv_app_nth)
qed simp

lemma snprintf_ok:
  assumes "i + n \<le> length b" and "0 < n"
  shows "snprintf i n s b = Some (length s,
    take i b @ take (n - 1) s @ [NUL] @ drop (i + length (take (n - 1) s) + 1) b)"
  using assms put_chars_ok [of i "take (n - 1) s @ [NUL]" b] by (simp add: snprintf_def)

lemma inside_text:
  assumes "i + length cs \<le> n" and "n \<le> length b"
  shows "inside n b (take i b @ cs @ drop (i + length cs) b)"
proof -
  have "drop n (take i b @ cs @ drop (i + length cs) b) = drop n b"
    using assms by simp
  then show ?thesis using assms by (simp add: inside_def)
qed

lemma in_text:
  assumes "i + length cs \<le> n" and "n \<le> length b" and "c \<in> set cs"
  shows "c \<in> set (take n (take i b @ cs @ drop (i + length cs) b))"
proof -
  have "take n (take i b @ cs @ drop (i + length cs) b) = take i b @ cs @ take (n - i - length cs) (drop (i + length cs) b)"
    using assms(1,2) by (simp add: min_absorb2)
  then show ?thesis using assms(3) by simp
qed

text \<open>What every part guarantees: it stays inside and leaves room for the terminator.\<close>

definition dumped :: "nat \<Rightarrow> string \<Rightarrow> (dump \<times> string) option \<Rightarrow> bool" where
  "dumped n b m \<longleftrightarrow> (\<exists>d b'. m = Some (d, b') \<and> inside n b b' \<and>
     (case d of Goes_on lx \<Rightarrow> lx < n | Overflow2 lx \<Rightarrow> lx < n | Overflow1 \<Rightarrow> NUL \<in> set (take n b')))"

lemma dumpedI:
  "m = Some (d, b') \<Longrightarrow> inside n b b' \<Longrightarrow>
   (case d of Goes_on lx \<Rightarrow> lx < n | Overflow2 lx \<Rightarrow> lx < n | Overflow1 \<Rightarrow> NUL \<in> set (take n b')) \<Longrightarrow> dumped n b m"
  unfolding dumped_def by blast

lemma dumped_from: "inside n b b' \<Longrightarrow> dumped n b' m \<Longrightarrow> dumped n b m"
  unfolding dumped_def using inside_trans by blast

lemma dump_groups_safe:
  assumes "lx < n" and "n \<le> length b"
  shows "dumped n b (dump_groups n k vs j lx b)"
  using assms
proof (induction vs arbitrary: j lx b)
  case Nil
  then show ?case by (intro dumpedI [of _ "Goes_on lx" b]) simp_all
next
  case (Cons v vs)
  let ?s = "(if j then '' '' else []) @ hex_string k v"
  let ?t = "take (n - lx - 1) ?s @ [NUL]"
  let ?b = "take lx b @ ?t @ drop (lx + length ?t) b"
  have s: "snprintf lx (n - lx) ?s b = Some (length ?s, ?b)"
    using snprintf_ok [of lx "n - lx" b ?s] Cons.prems by simp
  have l: "lx + length ?t \<le> n" using Cons.prems by auto
  then have ins: "inside n b ?b" using Cons.prems(2) by (intro inside_text)
  show ?case
  proof (cases "n - lx \<le> length ?s")
    case True
    have "NUL \<in> set (take n ?b)" using in_text [OF l Cons.prems(2), of NUL] by simp
    then show ?thesis
      using s True ins by (intro dumpedI [of _ Overflow1 ?b]) simp_all
  next
    case False
    have "dumped n ?b (dump_groups n k vs True (lx + length ?s) ?b)"
      using False Cons.prems ins by (intro Cons.IH) (auto simp: inside_def)
    then have "dumped n b (dump_groups n k vs True (lx + length ?s) ?b)" by (rule dumped_from [OF ins])
    then show ?thesis using s False by simp
  qed
qed

lemma dump_bytes_safe:
  assumes "lx < n" and "n \<le> length b"
  shows "dumped n b (dump_bytes n cs lx b)"
  using assms
proof (induction cs arbitrary: lx b)
  case Nil
  then show ?case by (intro dumpedI [of _ "Goes_on lx" b]) simp_all
next
  case (Cons c cs)
  let ?b1 = "b[lx := hex_asc_hi c]" and ?b2 = "b[lx := hex_asc_hi c, lx + 1 := hex_asc_lo c]"
  let ?b3 = "?b2[lx + 2 := CHR '' '']"
  have l: "length ?b1 = length b" "length ?b2 = length b" "length ?b3 = length b" by simp_all
  consider "n < lx + 2" | "\<not> n < lx + 2" "n < lx + 3" | "\<not> n < lx + 3" "n < lx + 4" | "\<not> n < lx + 4" by linarith
  then show ?case
  proof cases
    case 1
    then show ?thesis using Cons.prems by (intro dumpedI [of _ "Overflow2 lx" b]) simp_all
  next
    case 2
    then have "dump_bytes n (c # cs) lx b = Some (Overflow2 (lx + 1), ?b1)"
      using Cons.prems put_char_ok [of lx n b] by (simp add: Let_def)
    moreover have "inside n b ?b1" using Cons.prems by (intro inside_update)
    ultimately show ?thesis using 2 by (intro dumpedI [of _ "Overflow2 (lx + 1)" ?b1]) simp_all
  next
    case 3
    then have "dump_bytes n (c # cs) lx b = Some (Overflow2 (lx + 2), ?b2)"
      using Cons.prems put_char_ok [of lx n b] put_char_ok [of "lx + 1" n ?b1] by (simp add: Let_def)
    moreover have "inside n b ?b2" using 3 by (intro inside_trans [OF inside_update inside_update]) simp_all
    ultimately show ?thesis using 3 by (intro dumpedI [of _ "Overflow2 (lx + 2)" ?b2]) simp_all
  next
    case 4
    then have "dump_bytes n (c # cs) lx b = dump_bytes n cs (lx + 3) ?b3"
      using Cons.prems put_char_ok [of lx n b] put_char_ok [of "lx + 1" n ?b1] put_char_ok [of "lx + 2" n ?b2]
      by (simp add: Let_def numeral_3_eq_3)
    moreover have "inside n b ?b3"
      using 4 by (intro inside_trans [OF inside_trans [OF inside_update inside_update] inside_update]) simp_all
    moreover have "dumped n ?b3 (dump_bytes n cs (lx + 3) ?b3)" using 4 Cons.prems by (intro Cons.IH) simp_all
    ultimately show ?thesis using dumped_from by simp
  qed
qed

lemma dump_pad_safe:
  assumes "lx < n" and "n \<le> length b"
  shows "dumped n b (dump_pad n k lx b)"
  using assms
proof (induction k arbitrary: lx b)
  case 0
  then show ?case by (intro dumpedI [of _ "Goes_on lx" b]) simp_all
next
  case (Suc k)
  show ?case
  proof (cases "n < lx + 2")
    case True
    then show ?thesis using Suc.prems by (intro dumpedI [of _ "Overflow2 lx" b]) simp_all
  next
    case False
    let ?b = "b[lx := CHR '' '']"
    have "dumped n ?b (dump_pad n k (lx + 1) ?b)" using False Suc.prems by (intro Suc.IH) simp_all
    then have "dumped n b (dump_pad n k (lx + 1) ?b)"
      by (rule dumped_from [OF inside_update, rotated]) (rule Suc.prems(1))
    then show ?thesis using False Suc.prems put_char_ok [of lx n b] by simp
  qed
qed

lemma dump_ascii_safe:
  assumes "lx < n" and "n \<le> length b"
  shows "dumped n b (dump_ascii n cs lx b)"
  using assms
proof (induction cs arbitrary: lx b)
  case Nil
  then show ?case by (intro dumpedI [of _ "Goes_on lx" b]) simp_all
next
  case (Cons c cs)
  show ?case
  proof (cases "n < lx + 2")
    case True
    then show ?thesis using Cons.prems by (intro dumpedI [of _ "Overflow2 lx" b]) simp_all
  next
    case False
    let ?b = "b[lx := (if is_print c then char_of (unat c) else CHR ''.'')]"
    have "dumped n ?b (dump_ascii n cs (lx + 1) ?b)" using False Cons.prems by (intro Cons.IH) simp_all
    then have "dumped n b (dump_ascii n cs (lx + 1) ?b)"
      by (rule dumped_from [OF inside_update, rotated]) (rule Cons.prems(1))
    then show ?thesis using False Cons.prems put_char_ok [of lx n b] by simp
  qed
qed

lemma dumped_bind:
  assumes "dumped n b m"
    and "\<And>lx b'. inside n b b' \<Longrightarrow> lx < n \<Longrightarrow> m = Some (Goes_on lx, b') \<Longrightarrow> dumped n b (f (Goes_on lx, b'))"
    and "\<And>b'. m = Some (Overflow1, b') \<Longrightarrow> f (Overflow1, b') = Some (Overflow1, b')"
    and "\<And>lx b'. m = Some (Overflow2 lx, b') \<Longrightarrow> f (Overflow2 lx, b') = Some (Overflow2 lx, b')"
  shows "dumped n b (m \<bind> f)"
proof -
  obtain d b' where d: "m = Some (d, b')" "inside n b b'"
    "case d of Goes_on lx \<Rightarrow> lx < n | Overflow2 lx \<Rightarrow> lx < n | Overflow1 \<Rightarrow> NUL \<in> set (take n b')"
    using assms(1) by (auto simp: dumped_def)
  show ?thesis
  proof (cases d)
    case (Goes_on lx)
    then show ?thesis using d assms(2) by simp
  next
    case Overflow1
    then show ?thesis using d assms(3) by (intro dumpedI [of _ Overflow1 b']) simp_all
  next
    case (Overflow2 lx)
    then show ?thesis using d assms(4) by (intro dumpedI [of _ "Overflow2 lx" b']) simp_all
  qed
qed

lemma dump_hex_safe:
  assumes "0 < n" and "n \<le> length b"
  shows "dumped n b (dump_hex n g k p b)"
proof -
  have "dumped n b (do {
      (d, b) \<leftarrow> dump_bytes n p 0 b;
      Some (case d of Goes_on lx \<Rightarrow> (Goes_on (if p \<noteq> [] then lx - 1 else lx), b) | _ \<Rightarrow> (d, b)) })"
  proof (rule dumped_bind [OF dump_bytes_safe [OF assms]])
    fix lx b'
    assume "inside n b b'" "lx < n"
    then show "dumped n b (case (Goes_on lx, b') of (d, b) \<Rightarrow>
        Some (case d of Goes_on lx \<Rightarrow> (Goes_on (if p \<noteq> [] then lx - 1 else lx), b) | _ \<Rightarrow> (d, b)))"
      by (intro dumpedI [of _ "Goes_on (if p \<noteq> [] then lx - 1 else lx)" b']) auto
  qed simp_all
  then show ?thesis
    using dump_groups_safe [OF assms, of "2 * g" "dump_words g p k" False] by (simp add: dump_hex_def)
qed

lemma dump_line_safe:
  assumes "0 < n" and "n \<le> length b"
  shows "dumped n b (do {
    (d, b) \<leftarrow> dump_hex n g k p b;
    case d of
      Goes_on lx \<Rightarrow>
        if \<not> ascii then Some (Goes_on lx, b)
        else do {
          (d, b) \<leftarrow> dump_pad n (col - lx) lx b;
          case d of Goes_on lx \<Rightarrow> dump_ascii n p lx b | _ \<Rightarrow> Some (d, b) }
    | _ \<Rightarrow> Some (d, b) })"
proof (rule dumped_bind [OF dump_hex_safe [OF assms]], unfold prod.case dump.case)
  fix lx b1
  assume b1: "inside n b b1" "lx < n"
  then have n1: "n \<le> length b1" using assms(2) by (simp add: inside_def)
  have "dumped n b1 (do {
      (d, b) \<leftarrow> dump_pad n (col - lx) lx b1;
      case d of Goes_on lx \<Rightarrow> dump_ascii n p lx b | _ \<Rightarrow> Some (d, b) })"
  proof (rule dumped_bind [OF dump_pad_safe [OF b1(2) n1]], unfold prod.case dump.case)
    fix lx b2
    assume b2: "inside n b1 b2" "lx < n"
    then show "dumped n b1 (dump_ascii n p lx b2)"
      using n1 by (intro dumped_from [OF b2(1) dump_ascii_safe]) (simp_all add: inside_def)
  qed (rule refl)+
  then show "dumped n b (if \<not> ascii then Some (Goes_on lx, b1) else do {
      (d, b) \<leftarrow> dump_pad n (col - lx) lx b1;
      case d of Goes_on lx \<Rightarrow> dump_ascii n p lx b | _ \<Rightarrow> Some (d, b) })"
    using b1 by (auto intro: dumpedI dumped_from)
qed (rule refl)+

lemma dumped_terminated:
  assumes "dumped n b m" and "n \<le> length b"
  shows "\<exists>r b'. (m \<bind> (\<lambda>(d, b). case d of
      Goes_on lx \<Rightarrow> do { b \<leftarrow> put_char lx NUL b; Some (int lx, b) }
    | Overflow2 lx \<Rightarrow> do { b \<leftarrow> put_char lx NUL b; Some (too_long, b) }
    | Overflow1 \<Rightarrow> Some (too_long, b))) = Some (r, b') \<and> inside n b b' \<and> NUL \<in> set (take n b')"
proof -
  obtain d b1 where d: "m = Some (d, b1)" "inside n b b1"
    "case d of Goes_on lx \<Rightarrow> lx < n | Overflow2 lx \<Rightarrow> lx < n | Overflow1 \<Rightarrow> NUL \<in> set (take n b1)"
    using assms(1) by (auto simp: dumped_def)
  have l: "n \<le> length b1" using d(2) assms(2) by (simp add: inside_def)
  have nul: "NUL \<in> set (take n (b1[lx := NUL]))" if "lx < n" for lx
    using that l by (simp add: take_update_swap set_update_memI)
  have ins: "inside n b (b1[lx := NUL])" if "lx < n" for lx
    using that by (intro inside_trans [OF d(2) inside_update])
  show ?thesis
    using d nul ins l by (cases d) (simp_all add: put_char_ok [OF _ l])
qed

text \<open>
  Whatever the sizes: the dump of readable bytes into an array of at least \<open>linebuflen\<close>
  characters succeeds, changes only the first \<open>linebuflen\<close> of them and terminates the text.
\<close>

lemma hex_dump_safe:
  assumes "0 < n" and "n \<le> length b" and "len \<le> length p"
  shows "\<exists>r b'. hex_dump_to_buffer p len rowsize groupsize n ascii b = Some (r, b') \<and>
    inside n b b' \<and> NUL \<in> set (take n b')"
proof -
  have nil: "dumped n b (Some (Goes_on 0, b))" using assms(1) by (intro dumpedI [of _ "Goes_on 0" b]) simp_all
  have ln: "\<not> length p < (if rowsize' < len then rowsize' else len)" for rowsize' using assms(3) by auto
  show ?thesis
    unfolding hex_dump_to_buffer_def Let_def
    using assms(1) ln dumped_terminated [OF _ assms(2)] nil dump_line_safe [OF assms(1,2)]
    by simp
qed

section \<open>What the text says\<close>

fun join_sp :: "string list \<Rightarrow> string" where
  "join_sp [] = []"
| "join_sp [s] = s"
| "join_sp (s # t # ss) = s @ '' '' @ join_sp (t # ss)"

text \<open>The words with a space before each but, unless \<open>j\<close>, the first.\<close>

fun spaced :: "bool \<Rightarrow> string list \<Rightarrow> string" where
  "spaced j [] = []"
| "spaced j (s # ss) = (if j then '' '' else []) @ s @ spaced True ss"

lemma spaced_join: "spaced False ss = join_sp ss"
proof -
  have "spaced True (s # ss) = '' '' @ join_sp (s # ss)" for s ss
    by (induction ss arbitrary: s) simp_all
  then show ?thesis by (cases ss rule: join_sp.cases) simp_all
qed

lemma length_spaced: "\<forall>s \<in> set ss. length s = k \<Longrightarrow> length (spaced True ss) = (k + 1) * length ss"
  by (induction ss) auto

lemma digit_char_not_NUL:
  assumes "d < 16"
  shows "digit_char d \<noteq> NUL"
proof -
  have "(of_char (digit_char d) :: nat) \<noteq> of_char NUL" using assms by (simp add: digit_char_def)
  then show ?thesis by metis
qed

lemma hex_string_not_NUL: "NUL \<notin> set (hex_string k n)"
proof (induction k arbitrary: n)
  case (Suc k)
  then show ?case using digit_char_not_NUL [of "n mod 16"] by auto
qed simp

lemma join_sp_not_NUL: "\<forall>s \<in> set ss. NUL \<notin> set s \<Longrightarrow> NUL \<notin> set (join_sp ss)"
  by (induction ss rule: join_sp.induct) auto

lemma c_string_text: "NUL \<notin> set s \<Longrightarrow> c_string (s @ NUL # cs) = s"
  unfolding c_string_def by (subst takeWhile_append2) auto

lemma u8_high: "(0xf0 :: u8) = push_bit 4 (mask 4)"
  by (simp add: mask_numeral)

lemma hex_digits2: "hex_string 2 (unat x) = [hex_asc_hi x, hex_asc_lo x]" for x :: u8
proof -
  have "unat (drop_bit 4 (x AND 0xf0)) = unat x div 16"
  proof -
    have "drop_bit 4 (x AND 0xf0) = drop_bit 4 x"
      unfolding u8_high by (rule bit_word_eqI) (auto dest: bit_imp_le_length simp: bit_simps)
    moreover have "unat (drop_bit 4 x) = unat x div 16" unfolding drop_bit_eq_div unat_div by simp
    ultimately show ?thesis by (simp only:)
  qed
  moreover have "unat (x AND 0x0f) = unat x mod 16"
  proof -
    have "(0x0f :: u8) = mask 4" by (simp add: mask_numeral)
    then have "x AND 0x0f = take_bit 4 x" by (simp only: take_bit_eq_mask)
    then have "unat (x AND 0x0f) = take_bit 4 (unat x)" by (simp only: unsigned_take_bit_eq)
    then show ?thesis by (simp add: take_bit_eq_mod)
  qed
  moreover have "unat x div 16 mod 16 = unat x div 16" using unsigned_less [of x, where 'a = nat] by simp
  ultimately show ?thesis by (simp add: numeral_2_eq_2 hex_asc_hi_def hex_asc_lo_def)
qed

lemma take_update3:
  assumes "lx + 2 < length b"
  shows "take (lx + 3) (b[lx := x, lx + 1 := y, lx + 2 := z]) = take lx b @ [x, y, z]"
proof (rule nth_equalityI)
  fix i
  assume "i < length (take (lx + 3) (b[lx := x, lx + 1 := y, lx + 2 := z]))"
  then consider "i < lx" | "i = lx" | "i = lx + 1" | "i = lx + 2" by fastforce
  then show "take (lx + 3) (b[lx := x, lx + 1 := y, lx + 2 := z]) ! i = (take lx b @ [x, y, z]) ! i"
    using assms by cases (simp_all add: nth_append)
qed (use assms in simp)

lemma dump_bytes_text:
  assumes "lx + 3 * length cs < n" and "n \<le> length b"
  shows "dump_bytes n cs lx b = Some (Goes_on (lx + 3 * length cs),
    take lx b @ concat (map (\<lambda>c. hex_string 2 (unat c) @ '' '') cs) @ drop (lx + 3 * length cs) b)"
  using assms
proof (induction cs arbitrary: lx b)
  case (Cons c cs)
  let ?b1 = "b[lx := hex_asc_hi c]" and ?b2 = "b[lx := hex_asc_hi c, lx + 1 := hex_asc_lo c]"
  let ?b = "b[lx := hex_asc_hi c, lx + 1 := hex_asc_lo c, lx + 2 := CHR '' '']"
  have "dump_bytes n (c # cs) lx b = dump_bytes n cs (lx + 3) ?b"
    using Cons.prems put_char_ok [of lx n b] put_char_ok [of "lx + 1" n ?b1] put_char_ok [of "lx + 2" n ?b2]
    by (simp add: Let_def numeral_3_eq_3)
  moreover have tk: "take (lx + 3) ?b = take lx b @ hex_string 2 (unat c) @ '' ''"
    using Cons.prems take_update3 [of lx b] by (simp add: hex_digits2)
  moreover have dr: "drop (lx + 3 + 3 * length cs) ?b = drop (lx + 3 + 3 * length cs) b" by simp
  moreover have ih: "dump_bytes n cs (lx + 3) ?b = Some (Goes_on (lx + 3 + 3 * length cs),
      take (lx + 3) ?b @ concat (map (\<lambda>c. hex_string 2 (unat c) @ '' '') cs) @ drop (lx + 3 + 3 * length cs) ?b)"
    using Cons.prems by (intro Cons.IH) simp_all
  moreover have "lx + 3 * length (c # cs) = lx + 3 + 3 * length cs" by simp
  ultimately show ?case unfolding ih tk dr by (simp only: list.map concat.simps append_assoc)
qed simp

lemma concat_spaces: "cs \<noteq> [] \<Longrightarrow> concat (map (\<lambda>c. f c @ '' '') cs) = join_sp (map f cs) @ '' ''"
proof (induction cs)
  case (Cons c cs)
  then show ?case by (cases cs) simp_all
qed simp

text \<open>Bytes, without a column of characters: two digits each, separated by spaces.\<close>

lemma hex_dump_text:
  assumes "0 < len" and "len \<le> 16" and "len \<le> length p" and "3 * len < n" and "n \<le> length b"
  shows "\<exists>b'. hex_dump_to_buffer p len 16 1 n False b = Some (3 * int len - 1, b') \<and>
    c_string b' = join_sp (map (\<lambda>c. hex_string 2 (unat c)) (take len p))"
proof -
  let ?p = "take len p"
  let ?t = "join_sp (map (\<lambda>c. hex_string 2 (unat c)) ?p)"
  have lp: "length ?p = len" "?p \<noteq> []" using assms(1,3) by auto
  let ?b = "(?t @ '' '') @ drop (3 * len) b"
  have d: "dump_bytes n ?p 0 b = Some (Goes_on (3 * len), ?b)"
    using dump_bytes_text [of 0 ?p n b] assms(4,5) lp concat_spaces [OF lp(2), of "\<lambda>c. hex_string 2 (unat c)"]
    by simp
  have lt: "length ?t = 3 * len - 1"
  proof -
    have "length (concat (map (\<lambda>c. hex_string 2 (unat c) @ '' '') ?p)) = 3 * len"
      using lp(1) by (simp add: length_concat comp_def sum_list_triv)
    then show ?thesis unfolding concat_spaces [OF lp(2)] by simp
  qed
  then have "put_char (3 * len - 1) NUL ?b = Some (?t @ NUL # drop (3 * len) b)"
    using put_char_ok [of "3 * len - 1" "length ?b" ?b NUL] by (simp add: list_update_append)
  moreover have "is_power_of_2 1" by (simp add: is_power_of_2_def)
  ultimately have "hex_dump_to_buffer p len 16 1 n False b = Some (3 * int len - 1, ?t @ NUL # drop (3 * len) b)"
    using assms d lp by (simp add: hex_dump_to_buffer_def dump_hex_def Let_def of_nat_diff)
  moreover have "NUL \<notin> set ?t" by (rule join_sp_not_NUL) (simp add: hex_string_not_NUL)
  ultimately show ?thesis using c_string_text by blast
qed

text \<open>Words of 16 bits: four digits each.\<close>

lemma hexdump16_text:
  assumes "lx + length (spaced j (map (hex_string 4) vs)) < n" and "n \<le> length b" and "vs \<noteq> []"
  shows "\<exists>cs. hexdump16 n vs j lx b = Some (take lx b @ spaced j (map (hex_string 4) vs) @ NUL # cs)"
  using assms
proof (induction vs arbitrary: j lx b)
  case (Cons v vs)
  let ?s = "(if j then '' '' else []) @ hex_string 4 v"
  have sp: "spaced j (map (hex_string 4) (v # vs)) = ?s @ spaced True (map (hex_string 4) vs)" by simp
  have l: "lx + length ?s + length (spaced True (map (hex_string 4) vs)) < n"
    using Cons.prems(1) unfolding sp by simp
  let ?b = "take lx b @ ?s @ [NUL] @ drop (lx + length ?s + 1) b"
  have "take (n - lx - 1) ?s = ?s" using l by simp
  then have s: "snprintf lx (n - lx) ?s b = Some (length ?s, ?b)"
    using snprintf_ok [of lx "n - lx" b ?s] l Cons.prems(2) by simp
  have nl: "\<not> n - lx \<le> length ?s" using l by linarith
  have go: "hexdump16 n (v # vs) j lx b = hexdump16 n vs True (lx + length ?s) ?b"
    by (simp only: hexdump16.simps s Option.bind_lunit prod.case nl if_False)
  have tk: "take (lx + length ?s) ?b = take lx b @ ?s" using l Cons.prems(2) by simp
  show ?case
  proof (cases "vs = []")
    case True
    then show ?thesis unfolding go sp by (intro exI [of _ "drop (lx + length ?s + 1) b"]) simp
  next
    case False
    have lb: "n \<le> length ?b" using l Cons.prems(2) by auto
    obtain cs where "hexdump16 n vs True (lx + length ?s) ?b =
        Some (take (lx + length ?s) ?b @ spaced True (map (hex_string 4) vs) @ NUL # cs)"
      using Cons.IH [OF l lb False] by (elim exE)
    then show ?thesis unfolding go sp tk by (intro exI [of _ cs]) (simp only: append_assoc)
  qed
qed simp

text \<open>The text of a debug line: at most 16 bytes, as bytes or as 16-bit words.\<close>

definition debug_text :: "bytes \<Rightarrow> nat \<Rightarrow> nat \<Rightarrow> string" where
  "debug_text p len bpw =
     join_sp (if bpw = 16 then map (hex_string 4) (dump_words 2 p (min len 16 div 2))
              else map (\<lambda>c. hex_string 2 (unat c)) (take (min len 16) p))"

lemma hex_dump_cut: "16 < len \<Longrightarrow> hex_dump_to_buffer p len 16 1 n False b = hex_dump_to_buffer p 16 16 1 n False b"
  by (simp add: hex_dump_to_buffer_def)

lemma tinydrm_hexdump_text:
  assumes "bpw = 8 \<and> 0 < len \<or> bpw = 16 \<and> 1 < len" and "len \<le> length p" and "length b = 96"
  shows "\<exists>b'. tinydrm_hexdump 96 p len bpw 16 b = Some b' \<and> c_string b' = debug_text p len bpw"
proof (cases "bpw = 16")
  case True
  let ?k = "min len 16 div 2"
  let ?vs = "dump_words 2 p ?k"
  have k: "(if 16 < len then 16 div 2 else len div 2) = ?k" by (simp add: min_def)
  have vs: "length ?vs = ?k" "?vs \<noteq> []" "?k \<le> 8" using True assms(1) by (auto simp: dump_words_def)
  have five: "5 * (?k - 1) \<le> 35" using vs(3) by simp
  have "length (spaced True (map (hex_string 4) (tl ?vs))) = 5 * (?k - 1)"
    using length_spaced [of "map (hex_string 4) (tl ?vs)" 4] vs(1) by simp
  then have "length (spaced False (map (hex_string 4) ?vs)) < 96"
    using vs five by (cases ?vs) simp_all
  then obtain cs where "hexdump16 96 ?vs False 0 b = Some (spaced False (map (hex_string 4) ?vs) @ NUL # cs)"
    using hexdump16_text [of 0 False ?vs 96 b] vs(2) assms(3) by auto
  moreover have "NUL \<notin> set (spaced False (map (hex_string 4) ?vs))"
    unfolding spaced_join by (rule join_sp_not_NUL) (simp add: hex_string_not_NUL)
  moreover have "2 * ?k \<le> min len 16" by (rule times_div_less_eq_dividend)
  then have "\<not> length p < 2 * ?k" using assms(2) by simp
  ultimately show ?thesis
    using True k c_string_text by (simp add: tinydrm_hexdump_def Let_def debug_text_def spaced_join)
next
  case False
  then have b: "bpw = 8" "0 < len" using assms(1) by auto
  have "\<exists>r b'. hex_dump_to_buffer p len 16 1 96 False b = Some (r, b') \<and>
      c_string b' = join_sp (map (\<lambda>c. hex_string 2 (unat c)) (take (min len 16) p))"
  proof (cases "16 < len")
    case True
    then show ?thesis using hex_dump_cut [OF True] hex_dump_text [of 16 p 96 b] assms(2,3) by auto
  next
    case False
    then show ?thesis using hex_dump_text [of len p 96 b] b(2) assms(2,3) by (auto simp: min_absorb1)
  qed
  then show ?thesis using b by (auto simp: tinydrm_hexdump_def debug_text_def)
qed

text \<open>
  With one byte and 16-bit words nothing is written: the message has what the array held before.
\<close>

lemma tinydrm_hexdump_one: "tinydrm_hexdump 96 p 1 16 16 b = Some b"
  by (simp add: tinydrm_hexdump_def dump_words_def)

lemma debug_reg_write_text:
  assumes "bpw = 8 \<and> 0 < len \<or> bpw = 16 \<and> 1 < len" and "len \<le> length p" and "length junk = 96"
  shows "tinydrm_debug_reg_write [r] 1 (Some p) len bpw junk =
    Some (Some (''regnr=0x'' @ hex_string 2 (unat r) @ '', data('' @ dec_string len @ '')= '' @
      debug_text p len bpw @ (if 32 < len then '' ...'' else []) @ [CHR 0x0A]))"
  using tinydrm_hexdump_text [OF assms] assms(1)
  by (auto simp: tinydrm_debug_reg_write_def Let_def simp del: hex_string.simps)

text \<open>The name of a format always fits: with its terminator it takes at most 32 characters.\<close>

lemma printable_char_not_NUL: "printable_char c \<noteq> NUL"
proof (cases "c < 0x80 \<and> is_print (ucast c)")
  case True
  then have c: "unat c < 128" by (simp add: word_less_nat_alt)
  have "unat (ucast c :: u8) = unat c" using c by (simp add: unsigned_ucast_eq unsigned_take_bit_eq take_bit_nat_eq_self)
  then have "32 \<le> unat c" using True by (simp add: is_print_def word_le_nat_alt)
  then have "(of_char (printable_char c) :: nat) \<noteq> of_char NUL" using True c by (simp add: printable_char_def)
  then show ?thesis by metis
qed (auto simp: printable_char_def)

lemma format_name_text:
  assumes "length b = 32"
  shows "drm_get_format_name be f b = Some
    ([printable_char (f AND 0xff), printable_char (drop_bit 8 f AND 0xff),
      printable_char (drop_bit 16 f AND 0xff), printable_char (drop_bit 24 f AND 0x7f)] @ '' '' @
     (if f AND be \<noteq> 0 then ''big'' else ''little'') @ ''-endian (0x'' @ hex_string 8 (unat f) @ '')'')"
    (is "_ = Some ?t")
proof -
  have l: "length ?t \<le> 31" by simp
  then have "take 31 ?t = ?t" by (rule take_all)
  then obtain cs where "snprintf 0 32 ?t b = Some (length ?t, ?t @ NUL # cs)"
    using snprintf_ok [of 0 32 b ?t] assms by simp
  moreover have "NUL \<notin> set ?t"
    using printable_char_not_NUL hex_string_not_NUL [of 8] by (auto simp: eq_commute [of NUL])
  then have "c_string (?t @ NUL # cs) = ?t" by (rule c_string_text)
  ultimately show ?thesis unfolding drm_get_format_name_def by simp
qed

end
