(* ===== verification/Dbi_Bus.thy ===== *)
theory Dbi_Bus
  imports Panel Evolve
begin

text \<open>
  What a MIPI DBI bus promises to the code above it, as the locale \<open>dbi_bus\<close>, and what that code
  makes of it: a register write, a command with parameters, and a list of commands reach the
  display as they are. The display is a receiver \<open>run\<close> that reads the events of the trace and
  delivers commands and data.
\<close>

section \<open>What a display receives\<close>

text \<open>
  \<open>Pix\<close> stands for bytes the kernel sends from a DMA buffer: the state of the D/C line, the
  descriptor of the buffer, the offset and the length.
\<close>

datatype item = Cmd u8 | Dat u8 | Pix bool int u32 nat

definition plain_cmd :: "u8 \<Rightarrow> bool" where
  "plain_cmd c \<longleftrightarrow> c \<noteq> 0 \<and> ucast c \<noteq> MIPI_DCS_WRITE_MEMORY_START"

definition quiet_ev :: "sysev \<Rightarrow> bool" where
  "quiet_ev e = (case e of Ev_alloc _ \<Rightarrow> True | Ev_free _ \<Rightarrow> True | Ev_usleep _ \<Rightarrow> True | _ \<Rightarrow> False)"

lemma ucast_u8_u32 [simp]: "ucast (ucast c :: u32) = (c :: u8)"
  by (rule bit_word_eqI) (auto simp: bit_simps)

text \<open>The items of a list of commands.\<close>

definition cmd_items :: "(u32 \<times> bytes) list \<Rightarrow> item list" where
  "cmd_items cs = concat (map (\<lambda>(c, ps). Cmd (ucast c) # map Dat ps) cs)"

lemma cmd_items_simps [simp]:
  "cmd_items [] = []"
  "cmd_items ((c, ps) # cs) = Cmd (ucast c) # map Dat ps @ cmd_items cs"
  by (simp_all add: cmd_items_def)

text \<open>The register map as \<open>mipi_dbi_spi_init\<close> makes it, with the functions of a bus.\<close>

definition rm_shape :: "bus_write_fn \<Rightarrow> bus_gather_fn \<Rightarrow> regmap \<Rightarrow> bool" where
  "rm_shape wr ga m \<longleftrightarrow>
     (\<exists>b. bus m = Some b \<and> bus_write b = Some wr \<and> bus_gather_write b = Some ga) \<and>
     reg_bytes m = 1 \<and> pad_bytes m = 0 \<and> val_bytes m = 1 \<and> format_reg m = Some regmap_format_8 \<and>
     format_val m \<noteq> None \<and> write_flag_mask m = 0 \<and> reg_shift m = 0"

definition rm_buf :: "regmap \<Rightarrow> nat \<Rightarrow> state \<Rightarrow> bool" where
  "rm_buf m wb w \<longleftrightarrow>
     work_buf m = Ptr wb 0 \<and> wb < nblk w \<and> \<not> dma_blk wb w \<and> (\<exists>a b. mem w wb = Some [a, b])"

section \<open>The contract\<close>

locale dbi_bus =
  fixes os :: os
    and wr :: bus_write_fn
    and ga :: bus_gather_fn
    and inv :: "state \<Rightarrow> bool"
    and fits :: "nat \<Rightarrow> bool"
    and run :: "'l \<Rightarrow> sysev list \<Rightarrow> 'l \<times> item list"
  assumes os_ok: "inv w \<Longrightarrow> os_good os"
    and inv_dma: "inv w \<Longrightarrow> dma_blk b w \<Longrightarrow> b < nblk w"
    and inv_stable: "inv w \<Longrightarrow> nblk w \<le> nblk w' \<Longrightarrow> same_dev w w' \<Longrightarrow> mspi w' = mspi w \<Longrightarrow>
      tx_buf w' = tx_buf w \<Longrightarrow> inv w'"
    and wr_ga: "wr p (Suc n) w = ga p 1 (padd p 1) n w"
    and ga_sends: "inv w \<Longrightarrow> priv p w \<Longrightarrow> priv q w \<Longrightarrow> load w p 1 = Some [c] \<Longrightarrow>
      load w q n = Some ps \<Longrightarrow> plain_cmd c \<Longrightarrow> fits n \<Longrightarrow>
      wp (ga p 1 q n w) (\<lambda>r w'. r = 0 \<and> inv w' \<and> evolves {} w w' \<and>
        (\<forall>l. snd (run l (new_evs w w')) = Cmd c # map Dat ps))"
    and run_append: "run l (es @ fs) =
      (case run l es of (l', a) \<Rightarrow> case run l' fs of (l'', b) \<Rightarrow> (l'', a @ b))"
    and run_quiet: "list_all quiet_ev es \<Longrightarrow> run l es = (l, [])"
begin

definition says :: "state \<Rightarrow> state \<Rightarrow> item list \<Rightarrow> bool" where
  "says w w' xs \<longleftrightarrow> (\<forall>l. snd (run l (new_evs w w')) = xs)"

lemma says_trans:
  assumes "evolves X w w'" and "evolves X w' w''" and "says w w' xs" and "says w' w'' ys"
  shows "says w w'' (xs @ ys)"
  using assms(3,4) unfolding says_def evolves_trans(2) [OF assms(1,2)] run_append
  by (auto split: prod.splits) (metis snd_conv)

lemma says_quiet: "list_all quiet_ev (new_evs w w') \<Longrightarrow> says w w' []"
  by (simp add: says_def run_quiet)

text \<open>A state that the bus can be used in, with the work buffer of the register map.\<close>

definition ready :: "regmap \<Rightarrow> nat \<Rightarrow> state \<Rightarrow> bool" where
  "ready m wb w \<longleftrightarrow> inv w \<and> rm_shape wr ga m \<and> rm_buf m wb w"

definition step :: "regmap \<Rightarrow> nat \<Rightarrow> nat set \<Rightarrow> item list \<Rightarrow> state \<Rightarrow> state \<Rightarrow> bool" where
  "step m wb X xs w w' \<longleftrightarrow> ready m wb w' \<and> evolves (insert wb X) w w' \<and> says w w' xs"

lemma step_trans: "step m wb X xs w w' \<Longrightarrow> step m wb X ys w' w'' \<Longrightarrow> step m wb X (xs @ ys) w w''"
  unfolding step_def using evolves_trans(1) says_trans by blast

lemma step_refl: "ready m wb w \<Longrightarrow> step m wb X [] w w"
  by (simp add: step_def says_quiet)

text \<open>Quiet changes of other blocks keep the bus ready.\<close>

lemma step_quiet:
  assumes "ready m wb w" and "evolves X w w'" and "wb \<notin> X" and "list_all quiet_ev (new_evs w w')"
    and "mspi w' = mspi w" and "tx_buf w' = tx_buf w"
  shows "step m wb X [] w w'"
proof -
  have "inv w'"
    using assms inv_stable [of w w'] evolves_nblk evolves_same_dev by (auto simp: ready_def)
  moreover have "rm_buf m wb w'"
    using assms(1-3) evolves_nblk [OF assms(2)] evolves_dma [OF assms(2)] evolves_mem [OF assms(2)]
    unfolding ready_def rm_buf_def by (metis order_less_le_trans)
  ultimately show ?thesis
    using assms evolves_mono [OF assms(2)] by (auto simp: step_def ready_def says_quiet)
qed

lemma step_log: "ready m wb w \<Longrightarrow> list_all quiet_ev es \<Longrightarrow> step m wb {} [] w (log_evs es w)"
  by (rule step_quiet) simp_all

lemma ga_wb:
  assumes "ready m wb w" and "work_buf m = Ptr wb 0" and "mem w wb = Some [c, b]"
    and "priv q w" and "load w q n = Some ps" and "plain_cmd c" and "fits n"
  shows "wp (ga (Ptr wb 0) 1 q n w) (\<lambda>r w'. r = 0 \<and> step m wb {} (Cmd c # map Dat ps) w w')"
proof -
  have "priv (Ptr wb 0) w" using assms(1) by (auto simp: ready_def rm_buf_def priv_def)
  moreover have "load w (Ptr wb 0) 1 = Some [c]" using assms(3) by simp
  ultimately have *: "wp (ga (Ptr wb 0) 1 q n w) (\<lambda>r w'. r = 0 \<and> inv w' \<and> evolves {} w w' \<and>
      (\<forall>l. snd (run l (new_evs w w')) = Cmd c # map Dat ps))"
    using assms ga_sends [of w "Ptr wb 0" q c n ps] by (simp add: ready_def)
  show ?thesis
  proof (rule wp_weaken [OF *])
    fix r w' assume h: "r = 0 \<and> inv w' \<and> evolves {} w w' \<and>
      (\<forall>l. snd (run l (new_evs w w')) = Cmd c # map Dat ps)"
    then have ev: "evolves {} w w'" by simp
    have rb: "rm_buf m wb w" using assms(1) by (simp add: ready_def)
    then have "rm_buf m wb w'"
      using evolves_nblk [OF ev] evolves_dma [OF ev] evolves_mem [OF ev]
      unfolding rm_buf_def by (metis empty_iff order_less_le_trans)
    then show "r = 0 \<and> step m wb {} (Cmd c # map Dat ps) w w'"
      using h assms(1) evolves_mono [OF ev, of "{wb}"] by (simp add: step_def ready_def says_def)
  qed
qed

lemma upd_wb:
  assumes "ready m wb w"
  shows "ready m wb (w\<lparr>mem := (mem w)(wb \<mapsto> [a, b])\<rparr>)"
    and "step m wb {} [] w (w\<lparr>mem := (mem w)(wb \<mapsto> [a, b])\<rparr>)"
proof -
  have "inv (w\<lparr>mem := (mem w)(wb \<mapsto> [a, b])\<rparr>)"
    using assms inv_stable [of w "w\<lparr>mem := (mem w)(wb \<mapsto> [a, b])\<rparr>"]
    by (simp add: ready_def same_dev_def)
  then show r: "ready m wb (w\<lparr>mem := (mem w)(wb \<mapsto> [a, b])\<rparr>)"
    using assms by (simp add: ready_def rm_buf_def)
  show "step m wb {} [] w (w\<lparr>mem := (mem w)(wb \<mapsto> [a, b])\<rparr>)"
    using r evolves_mem_upd [of wb "{wb}" w "Some [a, b]"] by (simp add: step_def says_quiet)
qed

lemma raw_write:
  assumes r: "ready m wb w" and q: "priv q w" "blk_of q \<noteq> Some wb" "load w q n = Some ps"
    and c: "plain_cmd c" and n: "fits n"
  shows "wp (regmap_raw_write os m (ucast c) q n w)
    (\<lambda>r w'. r = 0 \<and> step m wb {} (Cmd c # map Dat ps) w w')"
proof -
  from r obtain a b where m: "rm_shape wr ga m" "work_buf m = Ptr wb 0" "mem w wb = Some [a, b]"
    by (auto simp: ready_def rm_buf_def)
  obtain qb qi where qp: "q = Ptr qb qi" "qb \<noteq> wb" using q(1,2) by (auto simp: priv_def)
  let ?w1 = "w\<lparr>mem := (mem w)(wb \<mapsto> [c, b])\<rparr>"
  have r1: "ready m wb ?w1" and s1: "step m wb {} [] w ?w1" using upd_wb [OF r] by simp_all
  have q1: "priv q ?w1" "load ?w1 q n = Some ps"
    using q qp by (auto simp: priv_def)
  have fmt: "call_format (format_reg m) (Ptr wb 0) (ucast c) 0 w = Some ((), ?w1)"
    using m by (simp add: call_format_def rm_shape_def regmap_format_8_def)
  have can: "regmap_can_raw_write m" using m(1) by (auto simp: regmap_can_raw_write_def rm_shape_def)
  show ?thesis
  proof (cases "n = 1")
    case True
    obtain x where x: "ps = [x]" using load_0_len [OF q(3)] True by (cases ps) auto
    let ?w2 = "?w1\<lparr>mem := (mem ?w1)(wb \<mapsto> [c, x])\<rparr>"
    have r2: "ready m wb ?w2" and s2: "step m wb {} [] ?w1 ?w2" using upd_wb [OF r1] by simp_all
    have cp: "memcpy (Ptr wb 1) q 1 ?w1 = Some ((), ?w2)"
      using q1(2) x True by (simp add: memcpy_def)
    have n1: "fits (Suc 0)" using n True by simp
    have "wp (ga (Ptr wb 0) 1 (Ptr wb 1) 1 ?w2) (\<lambda>r w'. r = 0 \<and> step m wb {} (Cmd c # map Dat [x]) ?w2 w')"
      using r2 by (intro ga_wb [OF r2 m(2)]) (auto simp: c n1 ready_def rm_buf_def priv_def)
    then have "wp (wr (Ptr wb 0) (Suc 1) ?w2) (\<lambda>r w'. r = 0 \<and> step m wb {} (Cmd c # map Dat ps) ?w2 w')"
      by (simp add: wr_ga x)
    then obtain w' where w': "wr (Ptr wb 0) (Suc (Suc 0)) ?w2 = Some (0, w')"
      "step m wb {} (Cmd c # map Dat ps) ?w2 w'"
      by (auto elim!: wpE)
    then have "step m wb {} (Cmd c # map Dat ps) w w'"
      using step_trans [OF step_trans [OF s1 s2]] by simp
    then show ?thesis
      using m can True qp fmt cp w'(1)
      by (auto simp: regmap_raw_write_def regmap_raw_write_work_def rm_shape_def
          regmap_set_work_buf_flag_mask_def call_write_def Let_def)
  next
    case False
    have "wp (ga (Ptr wb 0) 1 q n ?w1) (\<lambda>r w'. r = 0 \<and> step m wb {} (Cmd c # map Dat ps) ?w1 w')"
      by (rule ga_wb [OF r1 m(2) _ q1 c n]) simp
    then have "wp (ga (Ptr wb 0) 1 q n ?w1) (\<lambda>r w'. r = 0 \<and> step m wb {} (Cmd c # map Dat ps) w w')"
      by (rule wp_weaken) (use step_trans [OF s1] in auto)
    then show ?thesis
      using m can False qp fmt
      by (auto simp: regmap_raw_write_def regmap_raw_write_work_def rm_shape_def
          regmap_set_work_buf_flag_mask_def Let_def elim!: wp_weaken)
  qed
qed

lemma step_ready: "step m wb X xs w w' \<Longrightarrow> ready m wb w'"
  by (simp add: step_def)

lemma step_mono: "step m wb X xs w w' \<Longrightarrow> X \<subseteq> Y \<Longrightarrow> step m wb Y xs w w'"
  unfolding step_def by (meson evolves_mono insert_mono)

lemma step_fresh:
  assumes "step m wb (X \<union> Y) xs w w'" and "\<And>b. b \<in> Y \<Longrightarrow> nblk w \<le> b"
  shows "step m wb X xs w w'"
  using assms evolves_fresh_drop [of "insert wb X" Y w w'] by (simp add: step_def)

text \<open>A command whose parameters are in a private buffer, and one with a local array.\<close>

lemma write_buf:
  assumes r: "ready m wb w" and q: "priv q w" "blk_of q \<noteq> Some wb" "load w q n = Some ps"
    and c: "plain_cmd c" and n: "fits n"
  shows "wp (mipi_dbi_write_buf os m (ucast c) q n w)
    (\<lambda>r w'. r = 0 \<and> step m wb {} (Cmd c # map Dat ps) w w')"
proof -
  let ?d = "nblk w"
  have inv: "inv w" using r by (simp add: ready_def)
  have good: "os_good os" using inv by (rule os_ok)
  have wb: "wb < ?d" using r by (simp add: ready_def rm_buf_def)
  have len: "length ps = n" using q(3) by (rule load_0_len)
  obtain bs where bs: "length bs = n" "kmalloc os n w = Some (Ptr ?d 0, allocated n bs w)"
    using kmalloc_ok [OF good] .
  let ?w1 = "allocated n bs w"
  have s1: "step m wb {} [] w ?w1"
    using r by (rule step_quiet) (simp_all add: quiet_ev_def)
  let ?w2 = "?w1\<lparr>mem := (mem ?w1)(?d := Some ps)\<rparr>"
  have "load ?w1 q n = Some ps"
    by (rule load_evolves [OF q(3) evolves_allocated [of "{}"] q(1)]) simp
  then have cp: "memcpy (Ptr ?d 0) q n ?w1 = Some ((), ?w2)"
    using len bs(1) by (simp add: memcpy_def)
  have s2: "step m wb {?d} [] ?w1 ?w2"
    by (rule step_quiet [OF step_ready [OF s1] evolves_mem_upd]) (use wb in simp_all)
  have nd: "\<not> dma_blk ?d w" using inv_dma [OF inv] by blast
  have "priv (Ptr ?d 0) ?w2" using nd by (simp add: priv_def)
  moreover have "load ?w2 (Ptr ?d 0) n = Some ps" using len by simp
  ultimately have "wp (regmap_raw_write os m (ucast c) (Ptr ?d 0) n ?w2)
      (\<lambda>r w'. r = 0 \<and> step m wb {} (Cmd c # map Dat ps) ?w2 w')"
    using wb c n by (intro raw_write [OF step_ready [OF s2]]) simp_all
  then obtain w3 where w3: "regmap_raw_write os m (ucast c) (Ptr ?d 0) n ?w2 = Some (0, w3)"
    and s3: "step m wb {} (Cmd c # map Dat ps) ?w2 w3"
    by (auto elim!: wpE)
  have "mem w3 ?d = Some ps"
    using s3 wb evolves_mem [of "{wb}" ?w2 w3 ?d] by (simp add: step_def)
  then have fr: "kfree (Ptr ?d 0) w3 = Some ((), freed ?d w3)" by (intro kfree_ok) simp
  have s4: "step m wb {?d} [] w3 (freed ?d w3)"
    using step_ready [OF s3] wb by (intro step_quiet evolves_freed) (simp_all add: quiet_ev_def)
  have "step m wb {?d} (([] @ []) @ (Cmd c # map Dat ps) @ []) w (freed ?d w3)"
    by (rule step_trans [OF step_trans [OF step_mono [OF s1] s2]
          step_trans [OF step_mono [OF s3] s4]]) simp_all
  then have "step m wb {} (Cmd c # map Dat ps) w (freed ?d w3)"
    using step_fresh [of m wb "{}" "{?d}"] by simp
  then show ?thesis
    using bs(2) cp w3 fr by (simp add: mipi_dbi_write_buf_def)
qed

lemma write_cmd:
  assumes r: "ready m wb w" and c: "plain_cmd c" and n: "fits (length ps)"
  shows "wp (mipi_dbi_write os m (ucast c) ps w)
    (\<lambda>r w'. r = 0 \<and> step m wb {} (Cmd c # map Dat ps) w w')"
proof -
  let ?d = "nblk w"
  let ?w1 = "w\<lparr>mem := (mem w)(?d \<mapsto> ps), nblk := Suc ?d\<rparr>"
  have inv: "inv w" and wb: "wb < ?d" using r by (simp_all add: ready_def rm_buf_def)
  have nd: "\<not> dma_blk ?d w" using inv_dma [OF inv] by blast
  have s1: "step m wb {} [] w ?w1"
    using r evolves_new_block [of "{}" w "Some ps"] by (intro step_quiet) simp_all
  have "wp (mipi_dbi_write_buf os m (ucast c) (Ptr ?d 0) (length ps) ?w1)
      (\<lambda>r w'. r = 0 \<and> step m wb {} (Cmd c # map Dat ps) ?w1 w')"
    using wb c nd n by (intro write_buf [OF step_ready [OF s1]]) (simp_all add: priv_def)
  then obtain w2 where w2: "mipi_dbi_write_buf os m (ucast c) (Ptr ?d 0) (length ps) ?w1 = Some (0, w2)"
    and s2: "step m wb {} (Cmd c # map Dat ps) ?w1 w2"
    by (auto elim!: wpE)
  let ?w3 = "w2\<lparr>mem := (mem w2)(?d := None)\<rparr>"
  have s3: "step m wb {?d} [] w2 ?w3"
    using step_ready [OF s2] wb evolves_mem_upd [of ?d "{?d}" w2 None]
    by (intro step_quiet) simp_all
  have "step m wb {?d} (([] @ (Cmd c # map Dat ps)) @ []) w ?w3"
    by (rule step_trans [OF step_trans [OF step_mono [OF s1] step_mono [OF s2]] s3]) simp_all
  then have "step m wb {} (Cmd c # map Dat ps) w ?w3"
    using step_fresh [of m wb "{}" "{?d}"] by simp
  then show ?thesis
    using w2 by (simp add: mipi_dbi_write_def new_block_def)
qed

lemma write_all_cmds:
  assumes "ready m wb w" and "\<forall>(c, ps) \<in> set cs. plain_cmd (ucast c) \<and> c = ucast (ucast c :: u8) \<and> fits (length ps)"
  shows "wp (write_all os m cs w) (\<lambda>r w'. step m wb {} (cmd_items cs) w w')"
  using assms
proof (induction cs arbitrary: w)
  case Nil
  then show ?case by (simp add: step_refl)
next
  case (Cons x cs)
  obtain c ps where x: "x = (c, ps)" by (cases x)
  with Cons.prems have c: "plain_cmd (ucast c)" "ucast (ucast c :: u8) = c" "fits (length ps)" by auto
  obtain w1 where w1: "mipi_dbi_write os m c ps w = Some (0, w1)"
    and s1: "step m wb {} (Cmd (ucast c) # map Dat ps) w w1"
    using write_cmd [OF Cons.prems(1) c(1,3)] c(2) by (auto elim!: wpE)
  have "wp (write_all os m cs w1) (\<lambda>r w'. step m wb {} (cmd_items cs) w1 w')"
    using Cons.IH [OF step_ready [OF s1]] Cons.prems(2) by simp
  then have "wp (write_all os m cs w1) (\<lambda>r w'. step m wb {} (cmd_items (x # cs)) w w')"
    by (rule wp_weaken) (use step_trans [OF s1] x in auto)
  then show ?case using w1 x by simp
qed

end

end
