(* ===== verification/Spi_Wire.thy ===== *)
theory Spi_Wire
  imports Spi_Transfer Evolve
begin

text \<open>
  What \<open>spi_sync\<close> and \<open>tinydrm_spi_transfer\<close> put on the wire when the buffer is a private one:
  exactly its bytes, cut into chunks.
\<close>

section \<open>Events of plain transfers\<close>

fun plain_ev :: "sysev \<Rightarrow> bool" where
  "plain_ev (Ev_open f) = True"
| "plain_ev (Ev_close fd) = True"
| "plain_ev (Ev_spi fd [x] [bs]) = (ioc_tx_buf x \<noteq> Null)"
| "plain_ev e = False"

fun spi_payloads :: "sysev list \<Rightarrow> bytes list" where
  "spi_payloads [] = []"
| "spi_payloads (Ev_spi fd utr bss # es) = concat bss # spi_payloads es"
| "spi_payloads (e # es) = spi_payloads es"

lemma spi_payloads_append [simp]: "spi_payloads (es @ fs) = spi_payloads es @ spi_payloads fs"
  by (induction es rule: spi_payloads.induct) simp_all

lemma spi_log_plain:
  assumes "ioc_tx_buf x \<noteq> Null"
  shows "list_all plain_ev (spi_log os h [x] [bs])" "spi_payloads (spi_log os h [x] [bs]) = [bs]"
  using assms by (simp_all add: spi_log_def Let_def)

section \<open>Private buffers\<close>

lemma ptr_in_blk: "ptr_in p q n \<Longrightarrow> blk_of p = blk_of q \<and> p \<noteq> Null"
  by (induction p q n rule: ptr_in.induct) auto

lemma priv_private_ptr:
  assumes "priv p w" and "\<And>e. tx_buf w \<noteq> PErr e"
  shows "private_ptr p w"
proof -
  from assms(1) obtain b where b: "blk_of p = Some b" "\<not> dma_blk b w" by (auto simp: priv_def)
  then have "\<not> ptr_in p (fb_map u) n" if "u \<in> set (fbs w)" for u n
    using that ptr_in_blk [of p "fb_map u" n] by (auto simp: dma_blk_def)
  moreover have "\<not> ptr_in p (dm_map d) n" if "tx_buf w = PObj d" for d n
    using that b ptr_in_blk [of p "dm_map d" n] by (auto simp: dma_blk_def)
  ultimately show ?thesis
    using assms(2) by (auto simp: private_ptr_def split: errptr.splits)
qed

definition spi_ready :: "os \<Rightarrow> state \<Rightarrow> bool" where
  "spi_ready os w \<longleftrightarrow> os_good os \<and> drvdata (spi w) \<and> (\<forall>e. tx_buf w \<noteq> PErr e)"

lemma spi_ready_log [simp]: "spi_ready os (log_evs es w) = spi_ready os w"
  by (simp add: spi_ready_def)

lemma priv_log [simp]: "priv p (log_evs es w) = priv p w"
  by (simp add: priv_def)

lemma spi_sync_priv:
  assumes "spi_ready os w" and "priv (tr_tx_buf tr) w" and "load w (tr_tx_buf tr) (tr_len tr) = Some bs"
  shows "\<exists>es. spi_sync os [tr] w = Some ((0, [tr]), log_evs es w) \<and>
    list_all plain_ev es \<and> spi_payloads es = [bs]"
proof -
  have nn: "tr_tx_buf tr \<noteq> Null" using assms(2) by auto
  obtain sp where s: "spi_sync os [tr] w =
      Some ((0, [tr]), log_evs (spi_log os (trace w) [(spi_ioc_first tr)\<lparr>ioc_speed_hz := sp\<rparr>] [bs]) w)"
    using spi_sync_private [of os w tr bs] priv_private_ptr [OF assms(2)] nn assms(1,3)
    by (auto simp: spi_ready_def)
  have "ioc_tx_buf ((spi_ioc_first tr)\<lparr>ioc_speed_hz := sp\<rparr>) \<noteq> Null"
    using nn by (simp add: spi_ioc_first_def)
  then show ?thesis
    using s spi_log_plain [of "(spi_ioc_first tr)\<lparr>ioc_speed_hz := sp\<rparr>" os "trace w" bs] by blast
qed

section \<open>The chunks of a transfer\<close>

lemma spi_transfer_loop_priv:
  assumes "spi_ready os w" and "priv buf w" and "load w buf len = Some bs" and "0 < max_chunk"
  shows "\<exists>es. spi_transfer_loop os False sb max_chunk None tr buf len w = Some (0, log_evs es w) \<and>
    list_all plain_ev es \<and> spi_payloads es = chunks max_chunk bs"
  using assms
proof (induction len arbitrary: tr buf bs w rule: less_induct)
  case (less len)
  have bs: "length bs = len" using less.prems(3) by (rule load_0_len)
  show ?case
  proof (cases "len = 0")
    case True
    with bs show ?thesis
      by (intro exI [of _ "[]"]) (simp add: spi_transfer_loop.simps)
  next
    case False
    let ?c = "min len max_chunk"
    let ?tr = "tr\<lparr>tr_tx_buf := buf, tr_len := ?c\<rparr>"
    have "load w buf (?c + (len - ?c)) = Some bs" using less.prems(3) by simp
    then have ld: "load w buf ?c = Some (take ?c bs)" "load w (padd buf ?c) (len - ?c) = Some (drop ?c bs)"
      using load_Some_append by blast+
    obtain es where es: "spi_sync os [?tr] w = Some ((0, [?tr]), log_evs es w)"
      "list_all plain_ev es" "spi_payloads es = [take ?c bs]"
      using spi_sync_priv [of os w ?tr "take ?c bs"] less.prems(1,2) ld(1) by auto
    have lt: "len - ?c < len" using False less.prems(4) by simp
    obtain fs where fs: "spi_transfer_loop os False sb max_chunk None ?tr (padd buf ?c) (len - ?c)
        (log_evs es w) = Some (0, log_evs fs (log_evs es w))"
      "list_all plain_ev fs" "spi_payloads fs = chunks max_chunk (drop ?c bs)"
      using less.IH [OF lt, of "log_evs es w" "padd buf ?c" "drop ?c bs" ?tr] less.prems ld(2) by auto
    have "spi_transfer_loop os False sb max_chunk None tr buf len w = Some (0, log_evs (es @ fs) w)"
      using False es(1) fs(1) by (subst spi_transfer_loop.simps) simp
    moreover have "spi_payloads (es @ fs) = chunks max_chunk bs"
    proof -
      have "bs \<noteq> []" using False bs by auto
      moreover have "take ?c bs = take max_chunk bs" "drop ?c bs = drop max_chunk bs"
        using bs by (cases "len \<le> max_chunk"; simp add: min_def)+
      ultimately show ?thesis
        using es(3) fs(3) less.prems(4) by (simp add: chunks_step)
    qed
    ultimately show ?thesis using es(2) fs(2) by (intro exI [of _ "es @ fs"]) simp
  qed
qed

lemma tinydrm_spi_transfer_priv:
  assumes "spi_ready os w" and "priv buf w" and "load w buf len = Some bs" and "0 < max_chunk"
    and "bpw = 8 \<or> bpw = 16 \<and> tinydrm_spi_bpw_supported (spi w) 16"
  shows "\<exists>es. tinydrm_spi_transfer os speed None bpw buf len sb max_chunk w = Some (0, log_evs es w) \<and>
    list_all plain_ev es \<and> spi_payloads es = chunks max_chunk bs"
  using spi_transfer_loop_priv [OF assms(1-4)] assms(5)
  by (auto simp: tinydrm_spi_transfer_def Let_def)

section \<open>Swapping bytes\<close>

text \<open>The pairs of bytes exchanged; a last odd byte is not copied.\<close>

fun swap16 :: "bytes \<Rightarrow> bytes" where
  "swap16 (a # b # bs) = b # a # swap16 bs"
| "swap16 bs = []"

lemma length_swap16 [simp]: "length (swap16 bs) = 2 * (length bs div 2)"
  by (induction bs rule: swap16.induct) simp_all

lemma le16_swab16_pair: "le16 (swab16 (get_unaligned_le16 [a, b])) = [b, a]"
  by (simp add: le16_swab16)

lemma swab_loop_ok:
  assumes "load w (Ptr s i) (2 * k) = Some bs" and "mem w d = Some ds" and "j + 2 * k \<le> length ds"
    and "s \<noteq> d"
  shows "swab_loop (Ptr d j) (Ptr s i) k w = Some ((),
    w\<lparr>mem := (mem w)(d \<mapsto> take j ds @ swap16 bs @ drop (j + 2 * k) ds)\<rparr>)"
  using assms
proof (induction k arbitrary: i j bs ds w)
  case 0
  then show ?case
    by (cases bs) (auto simp: fun_upd_idem split: option.splits if_splits)
next
  case (Suc k)
  from Suc.prems(1) have "load w (Ptr s i) (2 + 2 * k) = Some bs" by simp
  then have ld: "load w (Ptr s i) 2 = Some (take 2 bs)" "load w (Ptr s (i + 2)) (2 * k) = Some (drop 2 bs)"
    using load_Some_append [of w "Ptr s i" 2 "2 * k" bs] by simp_all
  have "length bs = 2 + 2 * k" using load_0_len [OF Suc.prems(1)] by simp
  then obtain a b cs where bs: "bs = a # b # cs"
    by (cases bs; cases "tl bs") auto
  let ?ds = "take j ds @ [b, a] @ drop (j + 2) ds"
  let ?w = "w\<lparr>mem := (mem w)(d \<mapsto> ?ds)\<rparr>"
  have st: "store (Ptr d j) (le16 (swab16 (get_unaligned_le16 (take 2 bs)))) w = Some ((), ?w)"
    using Suc.prems(2,3) bs by (simp add: le16_swab16_pair)
  have ih: "load ?w (Ptr s (i + 2)) (2 * k) = Some cs"
    using ld(2) bs Suc.prems(4) by simp
  have twice: "?w\<lparr>mem := (mem ?w)(d \<mapsto> xs)\<rparr> = w\<lparr>mem := (mem w)(d \<mapsto> xs)\<rparr>" for xs
    by simp
  from ih have "swab_loop (Ptr d (j + 2)) (Ptr s (i + 2)) k ?w = Some ((),
      ?w\<lparr>mem := (mem ?w)(d \<mapsto> take (j + 2) ?ds @ swap16 cs @ drop (j + 2 + 2 * k) ?ds)\<rparr>)"
    using Suc.prems(2-4) by (intro Suc.IH) simp_all
  moreover have "take (j + 2) ?ds @ swap16 cs @ drop (j + 2 + 2 * k) ?ds =
      take j ds @ swap16 bs @ drop (j + 2 * Suc k) ds"
    using Suc.prems(3) bs by (simp add: ac_simps)
  ultimately have "swab_loop (Ptr d (j + 2)) (Ptr s (i + 2)) k ?w = Some ((),
      w\<lparr>mem := (mem w)(d \<mapsto> take j ds @ swap16 bs @ drop (j + 2 * Suc k) ds)\<rparr>)"
    by (simp only: twice)
  then show ?case
    using ld(1) st by (simp add: fun_upd_def del: load.simps store.simps swap16.simps)
qed

text \<open>
  A transfer of 16-bit words on a controller that has only 8-bit words: every chunk goes out
  from the swap buffer with the bytes of each word exchanged.
\<close>

lemma spi_transfer_loop_swap:
  assumes "spi_ready os w" and "priv (Ptr d 0) w" and "mem w d = Some ds" and "s \<noteq> d"
    and "load w (Ptr s i) len = Some bs" and "even len" and "even mc" and "0 < mc" and "mc \<le> length ds"
  shows "\<exists>es ds'. spi_transfer_loop os True (Ptr d 0) mc None tr (Ptr s i) len w =
      Some (0, log_evs es (w\<lparr>mem := (mem w)(d \<mapsto> ds')\<rparr>)) \<and>
    list_all plain_ev es \<and> spi_payloads es = map swap16 (chunks mc bs)"
  using assms
proof (induction len arbitrary: tr i bs ds w rule: less_induct)
  case (less len)
  note pr = less.prems
  have bs: "length bs = len" using pr(5) by (rule load_0_len)
  show ?case
  proof (cases "len = 0")
    case True
    with bs show ?thesis using fun_upd_idem [of "mem w" d "Some ds"] pr(3)
      by - (rule exI [of _ "[]"], rule exI [of _ ds], simp add: spi_transfer_loop.simps del: fun_upd_apply)
  next
    case False
    let ?c = "min len mc"
    have even: "even ?c" "2 * (?c div 2) = ?c" and lt: "len - ?c < len" "even (len - ?c)"
      using pr(6-8) False by (auto simp: min_def)
    have "load w (Ptr s i) (?c + (len - ?c)) = Some bs" using pr(5) by simp
    then have ld: "load w (Ptr s i) ?c = Some (take ?c bs)"
      "load w (padd (Ptr s i) ?c) (len - ?c) = Some (drop ?c bs)"
      using load_Some_append by blast+
    let ?p = "swap16 (take ?c bs)"
    let ?ds = "?p @ drop ?c ds"
    let ?w = "w\<lparr>mem := (mem w)(d \<mapsto> ?ds)\<rparr>"
    have lp: "length ?p = ?c" using bs even(2) by simp
    have cl: "?c \<le> length ds" using pr(9) by simp
    then have sw: "swab_loop (Ptr d 0) (Ptr s i) (?c div 2) w = Some ((), ?w)"
      using swab_loop_ok [of w s i "?c div 2" "take ?c bs" d ds 0] ld(1) pr(3,4) even(2) by simp
    let ?tr = "tr\<lparr>tr_len := ?c, tr_tx_buf := Ptr d 0\<rparr>"
    have r1: "spi_ready os ?w" "priv (Ptr d 0) ?w" using pr(1,2) by (simp_all add: spi_ready_def priv_def)
    have "load ?w (Ptr d 0) (length ?p) = Some ?p" by (simp del: length_swap16)
    then have "load ?w (Ptr d 0) ?c = Some ?p" unfolding lp .
    then obtain es where es: "spi_sync os [?tr] ?w = Some ((0, [?tr]), log_evs es ?w)"
      "list_all plain_ev es" "spi_payloads es = [?p]"
      using spi_sync_priv [of os ?w ?tr ?p] r1 by (auto simp del: load.simps)
    let ?w1 = "log_evs es ?w"
    have w1: "spi_ready os ?w1" "priv (Ptr d 0) ?w1" using r1 by simp_all
    have ld1: "load ?w1 (Ptr s (i + ?c)) (len - ?c) = Some (drop ?c bs)" using ld(2) pr(4) by simp
    have m1: "mem ?w1 d = Some ?ds" by simp
    have l1: "mc \<le> length ?ds" using pr(9) cl unfolding length_append lp by simp
    obtain fs ds' where fs: "spi_transfer_loop os True (Ptr d 0) mc None ?tr (Ptr s (i + ?c)) (len - ?c) ?w1 =
        Some (0, log_evs fs (?w1\<lparr>mem := (mem ?w1)(d \<mapsto> ds')\<rparr>))"
      "list_all plain_ev fs" "spi_payloads fs = map swap16 (chunks mc (drop ?c bs))"
      using less.IH [OF lt(1) w1 m1 pr(4) ld1 lt(2) pr(7,8) l1] by blast
    have "spi_transfer_loop os True (Ptr d 0) mc None tr (Ptr s i) len w =
        Some (0, log_evs (es @ fs) (w\<lparr>mem := (mem w)(d \<mapsto> ds')\<rparr>))"
      using False sw es(1) fs(1) by (subst spi_transfer_loop.simps) (simp add: log_evs_def Let_def)
    moreover have "spi_payloads (es @ fs) = map swap16 (chunks mc bs)"
    proof -
      have "bs \<noteq> []" using False bs by auto
      moreover have "take ?c bs = take mc bs" "drop ?c bs = drop mc bs"
        using bs by (cases "len \<le> mc"; simp add: min_def)+
      ultimately show ?thesis using es(3) fs(3) pr(8) by (simp add: chunks_step)
    qed
    moreover have "list_all plain_ev (es @ fs)" using es(2) fs(2) by simp
    ultimately show ?thesis by blast
  qed
qed

lemma tinydrm_spi_transfer_swap:
  assumes "spi_ready os w" and "priv (Ptr d 0) w" and "mem w d = Some ds" and "s \<noteq> d"
    and "load w (Ptr s i) len = Some bs" and "even len" and "even mc" and "0 < mc" and "mc \<le> length ds"
    and "\<not> tinydrm_spi_bpw_supported (spi w) 16"
  shows "\<exists>es w'. tinydrm_spi_transfer os speed None 16 (Ptr s i) len (Ptr d 0) mc w = Some (0, w') \<and>
    trace w' = trace w @ es \<and> spi_payloads es = map swap16 (chunks mc bs)"
proof -
  obtain es ds' where l: "spi_transfer_loop os True (Ptr d 0) mc None
      (zero_transfer\<lparr>tr_bits_per_word := 8, tr_speed_hz := speed\<rparr>) (Ptr s i) len w =
      Some (0, log_evs es (w\<lparr>mem := (mem w)(d \<mapsto> ds')\<rparr>))"
    "spi_payloads es = map swap16 (chunks mc bs)"
    using spi_transfer_loop_swap [OF assms(1-9)] by blast
  have "tinydrm_spi_transfer os speed None 16 (Ptr s i) len (Ptr d 0) mc w =
      Some (0, log_evs es (w\<lparr>mem := (mem w)(d \<mapsto> ds')\<rparr>))"
    using l(1) assms(10) by (simp add: tinydrm_spi_transfer_def tinydrm_get_machine_endian_def Let_def)
  then show ?thesis
    using l(2) by (intro exI [of _ es] exI [of _ "log_evs es (w\<lparr>mem := (mem w)(d \<mapsto> ds')\<rparr>)"]) simp
qed

end
