(* ===== verification/Bus1.thy ===== *)
theory Bus1
  imports Dbi_Bus Spi_Wire
begin

text \<open>
  Interface option 1 on a controller without 9-bit words keeps the contract \<open>dbi_bus\<close>: the
  display reads the packed bytes nine bits at a time, data/command bit first, and finds the
  command and its parameters among the no-operation commands that fill the blocks.
\<close>

section \<open>The receiver\<close>

definition bits_byte :: "bool list \<Rightarrow> u8" where
  "bits_byte bs = horner_sum of_bool 2 (rev bs)"

fun unwords9 :: "bool list \<Rightarrow> (bool \<times> u8) list" where
  "unwords9 (d # b7 # b6 # b5 # b4 # b3 # b2 # b1 # b0 # bs) =
     (d, bits_byte [b7, b6, b5, b4, b3, b2, b1, b0]) # unwords9 bs"
| "unwords9 bs = []"

text \<open>\<open>MIPI_DCS_NOP\<close> is zero; a display ignores it.\<close>

definition item9 :: "bool \<times> u8 \<Rightarrow> item list" where
  "item9 = (\<lambda>(d, b). if d then [Dat b] else if b = 0 then [] else [Cmd b])"

definition items9 :: "bytes \<Rightarrow> item list" where
  "items9 bs = concat (map item9 (unwords9 (stream_bits bs)))"

fun run1 :: "unit \<Rightarrow> sysev list \<Rightarrow> unit \<times> item list" where
  "run1 u [] = (u, [])"
| "run1 u (Ev_spi g utr bss # es) = (u, concat (map items9 bss) @ snd (run1 u es))"
| "run1 u (e # es) = run1 u es"

lemma bits_byte_bits [simp]: "bits_byte (byte_bits b) = b"
proof -
  have r: "[bit b 0, bit b 1, bit b 2, bit b 3, bit b 4, bit b 5, bit b 6, bit b 7] = map (bit b) [0..<8]"
    by (simp add: upt_rec numeral_eq_Suc)
  have "bits_byte (byte_bits b) =
      horner_sum of_bool 2 [bit b 0, bit b 1, bit b 2, bit b 3, bit b 4, bit b 5, bit b 6, bit b 7]"
    by (simp add: bits_byte_def byte_bits_def)
  also have "\<dots> = take_bit 8 b"
    unfolding r by (rule horner_sum_bit_eq_take_bit)
  also have "\<dots> = b" by (rule bit_word_eqI) (simp add: bit_simps)
  finally show ?thesis .
qed

lemma unwords9_word9: "unwords9 (word9 x @ bs) = x # unwords9 bs"
  using bits_byte_bits [of "snd x"]
  by (cases x) (simp add: word9_def byte_bits_def del: bits_byte_bits)

lemma unwords9_words9: "unwords9 (words9 ws @ bs) = ws @ unwords9 bs"
  by (induction ws) (simp_all add: words9_def unwords9_word9)

text \<open>Whole words decode piece by piece.\<close>

lemma items9_words:
  "stream_bits bs = words9 ws \<Longrightarrow> items9 bs = concat (map item9 ws)"
  using unwords9_words9 [of ws "[]"] by (simp add: items9_def)

lemma words9_zeros: "words9 (replicate k (False, 0)) = replicate (9 * k) False"
proof (induction k)
  case (Suc k)
  have z: "word9 (False, 0) = replicate 9 False"
    by (simp add: word9_def byte_bits_def numeral_eq_Suc)
  have "words9 (replicate (Suc k) (False, 0)) = word9 (False, 0) @ words9 (replicate k (False, 0))"
    by (simp add: words9_def)
  also have "\<dots> = replicate (9 + 9 * k) False"
    using Suc by (simp add: z replicate_add)
  finally show ?case by simp
qed (simp add: words9_def)

lemma concat_item9_nops [simp]: "concat (map item9 (replicate k (False, 0))) = []"
  by (induction k) (simp_all add: item9_def)

lemma concat_item9_data [simp]: "concat (map (item9 \<circ> Pair True) ps) = map Dat ps"
  by (induction ps) (simp_all add: item9_def)

text \<open>The block of a command: seven no-operations, then the command.\<close>

lemma items9_cmd:
  assumes "c \<noteq> 0"
  shows "items9 (replicate 8 0 @ [c]) = [Cmd c]"
proof -
  have "stream_bits (replicate 8 0 @ [c]) = words9 (replicate 7 (False, 0) @ [(False, c)])"
    unfolding words9_append words9_zeros
    by (simp add: stream_bits_def words9_def word9_def byte_bits_def numeral_eq_Suc)
  from items9_words [OF this] show ?thesis using assms
    unfolding map_append concat_append concat_item9_nops by (simp add: item9_def)
qed

definition packs8 :: "bytes \<Rightarrow> bytes" where
  "packs8 bs = concat (map (pack_block 8) (chunks 8 bs))"

lemma packs8_step:
  assumes "length b = 8"
  shows "packs8 (b @ bs) = pack_block 8 b @ packs8 bs"
proof -
  have "b @ bs \<noteq> []" using assms by auto
  then show ?thesis using assms by (simp add: packs8_def chunks_step)
qed

lemma packs8_Nil [simp]: "packs8 [] = []"
  by (simp add: packs8_def)

lemma packs8_words:
  assumes "length bs = 8 * k"
  shows "stream_bits (packs8 bs) = words9 (map (Pair True) bs) \<and> length (packs8 bs) = 9 * k"
  using assms
proof (induction k arbitrary: bs)
  case 0
  then show ?case by (simp add: stream_bits_def words9_def)
next
  case (Suc k)
  let ?b = "take 8 bs" and ?r = "drop 8 bs"
  have b: "length ?b = 8" and r: "length ?r = 8 * k" using Suc.prems by simp_all
  have "packs8 bs = pack_block 8 ?b @ packs8 ?r"
    using packs8_step [OF b, of ?r] by simp
  moreover have "stream_bits (pack_block 8 ?b) = words9 (map (Pair True) ?b)"
    using pack_block8_words [OF b] by (simp add: pack_block_def)
  moreover have "words9 (map (Pair True) bs) = words9 (map (Pair True) ?b) @ words9 (map (Pair True) ?r)"
    by (simp flip: words9_append map_append)
  ultimately show ?case using Suc.IH [OF r] by simp
qed

lemma items9_packs8: "length bs = 8 * k \<Longrightarrow> items9 (packs8 bs) = map Dat bs"
  using items9_words [of "packs8 bs" "map (Pair True) bs"] packs8_words [of bs k] by simp

lemma items9_tail8:
  assumes "length bs < 8"
  shows "items9 (pack_tail 8 bs) = map Dat bs"
proof -
  have "stream_bits (pack_tail 8 bs) = words9 (map (Pair True) bs @ replicate (8 - length bs) (False, 0))"
    unfolding words9_append words9_zeros pack_tail8_words [OF assms] using assms by (simp add: diff_mult_distrib2)
  from items9_words [OF this] show ?thesis
    unfolding map_append concat_append concat_item9_nops by simp
qed

section \<open>The transmitter\<close>

lemma store_block:
  assumes "mem w d = Some old" and "i + length bs \<le> length old"
  shows "store (Ptr d i) bs w =
    Some ((), w\<lparr>mem := (mem w)(d \<mapsto> take i old @ bs @ drop (i + length bs) old)\<rparr>)"
  using assms by simp

lemma spi1e_blocks_ok:
  assumes "load w src (8 * k) = Some bs" and "blk_of src \<noteq> Some d" and "mem w d = Some old"
    and "j + 9 * k \<le> length old" and "chunk = i + 8 * k"
  shows "spi1e_blocks 8 chunk i src (Ptr d j) added w = Some ((padd src (8 * k), added + k),
    w\<lparr>mem := (mem w)(d \<mapsto> take j old @ packs8 bs @ drop (j + 9 * k) old)\<rparr>)"
  using assms
proof (induction k arbitrary: w src bs old i j added)
  case 0
  then have "bs = []" using load_0_len by force
  with 0 show ?case by (simp add: spi1e_blocks.simps fun_upd_idem)
next
  case (Suc k)
  have len: "length bs = 8 * Suc k" using Suc.prems(1) by (rule load_0_len)
  have "load w src (8 + 8 * k) = Some bs" using Suc.prems(1) by simp
  then have ld: "load w src 8 = Some (take 8 bs)" "load w (padd src 8) (8 * k) = Some (drop 8 bs)"
    using load_Some_append by blast+
  let ?p = "pack_block 8 (take 8 bs)"
  let ?old = "take j old @ ?p @ drop (j + 9) old"
  let ?w = "w\<lparr>mem := (mem w)(d \<mapsto> ?old)\<rparr>"
  have st: "store (Ptr d j) ?p w = Some ((), ?w)"
    using store_block [OF Suc.prems(3), of j ?p] Suc.prems(4) by simp
  have "load ?w (padd src 8) (8 * k) = Some (drop 8 bs)"
    using ld(2) Suc.prems(2) by (cases src) auto
  moreover have "blk_of (padd src 8) \<noteq> Some d" using Suc.prems(2) by (cases src) auto
  moreover have l: "length ?old = length old" using Suc.prems(4) by simp
  ultimately have IH: "spi1e_blocks 8 chunk (i + 8) (padd src 8) (Ptr d (j + 9)) (Suc added) ?w =
      Some ((padd (padd src 8) (8 * k), Suc added + k),
        ?w\<lparr>mem := (mem ?w)(d \<mapsto> take (j + 9) ?old @ packs8 (drop 8 bs) @ drop (j + 9 + 9 * k) ?old)\<rparr>)"
    using Suc.prems(4,5) by (intro Suc.IH) simp_all
  have "packs8 bs = ?p @ packs8 (drop 8 bs)"
    using packs8_step [of "take 8 bs" "drop 8 bs"] len by simp
  then have "take (j + 9) ?old @ packs8 (drop 8 bs) @ drop (j + 9 + 9 * k) ?old =
      take j old @ packs8 bs @ drop (j + 9 * Suc k) old"
    using Suc.prems(4) by (simp add: ac_simps)
  moreover have "i < chunk" using Suc.prems(5) by simp
  ultimately show ?case
    using IH st ld(1) by (subst spi1e_blocks.simps) (simp del: store.simps add: add.commute)
qed

text \<open>A chunk that is short or a multiple of eight: the packed bytes decode to the data.\<close>

lemma spi1e_chunk_ok:
  assumes ld: "load w src n = Some bs" and src: "blk_of src \<noteq> Some d" and m: "mem w d = Some old"
    and n: "0 < n" "n < 8 \<or> 8 dvd n" and room: "9 \<le> length old" "n + n div 8 \<le> length old"
  shows "\<exists>pk c a. spi1e_chunk 8 n src (Ptr d 0) w =
      Some ((padd src n, c, a), w\<lparr>mem := (mem w)(d \<mapsto> pk @ drop (length pk) old)\<rparr>) \<and>
    c + a = length pk \<and> length pk \<le> length old \<and> items9 pk = map Dat bs"
proof (cases "n < 8")
  case True
  let ?pk = "pack_tail 8 bs"
  have "store (Ptr d 0) ?pk w = Some ((), w\<lparr>mem := (mem w)(d \<mapsto> ?pk @ drop (length ?pk) old)\<rparr>)"
    using store_block [OF m, of 0 ?pk] room by simp
  moreover have "items9 ?pk = map Dat bs" using True load_0_len [OF ld] by (intro items9_tail8) simp
  ultimately show ?thesis using True ld room
    by (intro exI [of _ ?pk] exI [of _ 8] exI [of _ 1]) (simp add: spi1e_chunk_def del: store.simps)
next
  case False
  with n obtain k where k: "n = 8 * k" by auto
  have pk: "items9 (packs8 bs) = map Dat bs" "length (packs8 bs) = 9 * k"
    using items9_packs8 packs8_words load_0_len [OF ld] k by blast+
  have "spi1e_blocks 8 n 0 src (Ptr d 0) 0 w = Some ((padd src (8 * k), 0 + k),
      w\<lparr>mem := (mem w)(d \<mapsto> take 0 old @ packs8 bs @ drop (0 + 9 * k) old)\<rparr>)"
    using ld src m room k by (intro spi1e_blocks_ok) simp_all
  then show ?thesis using False k pk room
    by (intro exI [of _ "packs8 bs"] exI [of _ n] exI [of _ k]) (simp add: spi1e_chunk_def)
qed

text \<open>The lengths the loop over the chunks sends as they are.\<close>

definition sized :: "nat \<Rightarrow> nat \<Rightarrow> bool" where
  "sized msc n \<longleftrightarrow> n mod msc < 8 \<or> 8 dvd n"

lemma sized_step:
  assumes "sized msc n" and "8 dvd msc" and "0 < msc"
  shows "min n msc < 8 \<or> 8 dvd min n msc" and "sized msc (n - min n msc)"
proof -
  show "min n msc < 8 \<or> 8 dvd min n msc"
    using assms by (cases "n = msc") (auto simp: sized_def min_def)
  show "sized msc (n - min n msc)"
    using assms le_mod_geq [of msc n] by (auto simp: sized_def min_def dvd_diff_nat)
qed

lemma run1_append:
  "run1 l (es @ fs) = (case run1 l es of (l', a) \<Rightarrow> case run1 l' fs of (l'', b) \<Rightarrow> (l'', a @ b))"
  by (induction l es rule: run1.induct) (auto split: prod.splits)

lemma run1_plain: "list_all plain_ev es \<Longrightarrow> run1 l es = (l, concat (map items9 (spi_payloads es)))"
proof (induction es)
  case (Cons e es)
  then show ?case by (induction e rule: plain_ev.induct) auto
qed simp

lemma spi1e_loop_ok:
  assumes "spi_ready os w" and "priv (Ptr d 0) w" and "load w src n = Some bs"
    and "blk_of src \<noteq> Some d" and "mem w d = Some old"
    and "8 dvd msc" and "0 < msc" and "msc + msc div 8 \<le> length old" and "sized msc n"
    and "tr_tx_buf tr = Ptr d 0"
  shows "\<exists>w' es old'. spi1e_loop os 8 msc (Ptr d 0) tr src n w = Some (0, w') \<and>
    w' = log_evs es (w\<lparr>mem := (mem w)(d \<mapsto> old')\<rparr>) \<and> list_all plain_ev es \<and>
    concat (map items9 (spi_payloads es)) = map Dat bs"
  using assms
proof (induction n arbitrary: tr src bs old w rule: less_induct)
  case (less n)
  note pr = less.prems
  show ?case
  proof (cases "n = 0")
    case True
    have "bs = []" using load_0_len [OF pr(3)] True by simp
    then show ?thesis using True fun_upd_idem [of "mem w" d "Some old"] pr(5)
      by - (rule exI [of _ w], rule exI [of _ "[]"], rule exI [of _ old],
          simp add: spi1e_loop.simps del: fun_upd_apply)
  next
    case False
    let ?c = "min n msc"
    have c0: "0 < ?c" "n - ?c < n" using False pr(7) by simp_all
    have big: "9 \<le> length old"
      using pr(6,7,8) by (auto elim!: dvdE)
    have "?c + ?c div 8 \<le> msc + msc div 8"
      using add_mono [OF _ div_le_mono] by simp
    with pr(8) have room: "?c + ?c div 8 \<le> length old" by simp
    have "load w src (?c + (n - ?c)) = Some bs" using pr(3) by simp
    then have ld: "load w src ?c = Some (take ?c bs)" "load w (padd src ?c) (n - ?c) = Some (drop ?c bs)"
      using load_Some_append by blast+
    obtain pk c a where ch: "spi1e_chunk 8 ?c src (Ptr d 0) w =
        Some ((padd src ?c, c, a), w\<lparr>mem := (mem w)(d \<mapsto> pk @ drop (length pk) old)\<rparr>)"
      "c + a = length pk" "length pk \<le> length old" "items9 pk = map Dat (take ?c bs)"
      using spi1e_chunk_ok [OF ld(1) pr(4,5) c0(1) sized_step(1) [OF pr(9,6,7)] big room] by blast
    let ?old = "pk @ drop (length pk) old"
    let ?w = "w\<lparr>mem := (mem w)(d \<mapsto> ?old)\<rparr>"
    let ?tr = "tr\<lparr>tr_len := c + a\<rparr>"
    have rdy: "spi_ready os ?w" "priv (Ptr d 0) ?w" using pr(1,2) by (simp_all add: spi_ready_def priv_def)
    obtain es where es: "spi_sync os [?tr] ?w = Some ((0, [?tr]), log_evs es ?w)"
      "list_all plain_ev es" "spi_payloads es = [pk]"
      using spi_sync_priv [of os ?w ?tr pk] rdy pr(10) ch(2) by auto
    let ?w1 = "log_evs es ?w"
    have ld1: "load ?w1 (padd src ?c) (n - ?c) = Some (drop ?c bs)"
      using ld(2) pr(4) by (cases src) auto
    obtain w' fs old' where fs: "spi1e_loop os 8 msc (Ptr d 0) ?tr (padd src ?c) (n - ?c) ?w1 = Some (0, w')"
      "w' = log_evs fs (?w1\<lparr>mem := (mem ?w1)(d \<mapsto> old')\<rparr>)" "list_all plain_ev fs"
      "concat (map items9 (spi_payloads fs)) = map Dat (drop ?c bs)"
      using less.IH [OF c0(2) _ _ ld1, of ?old ?tr] rdy pr(4,6-8,10) ch(3)
        sized_step(2) [OF pr(9,6,7)] by (cases src) fastforce+
    have "spi1e_loop os 8 msc (Ptr d 0) tr src n w = Some (0, w')"
      using False ch(1) es(1) fs(1) by (subst spi1e_loop.simps) simp
    moreover have "w' = log_evs (es @ fs) (w\<lparr>mem := (mem w)(d \<mapsto> old')\<rparr>)"
      using fs(2) by (simp add: log_evs_def)
    moreover have "concat (map items9 (spi_payloads (es @ fs))) = map Dat bs"
      using es(3) ch(4) fs(4) by (simp flip: map_append)
    moreover have "list_all plain_ev (es @ fs)" using es(2) fs(3) by simp
    ultimately show ?thesis by blast
  qed
qed

section \<open>The contract\<close>

definition fits1 :: "nat \<Rightarrow> bool" where
  "fits1 n = sized (spi1e_max_src_chunk 4096 n) n"

lemma msc_facts:
  "8 dvd spi1e_max_src_chunk m n" "0 < spi1e_max_src_chunk m n"
  by (simp_all add: spi1e_max_src_chunk_def max_def)

text \<open>Every length up to one chunk is sent as it is, and then every multiple of eight.\<close>

lemma fits1_small: "n \<le> 3640 \<Longrightarrow> fits1 n"
proof -
  assume n: "n \<le> 3640"
  show "fits1 n"
  proof (cases "n < 8")
    case True
    then show ?thesis by (simp add: fits1_def sized_def spi1e_max_src_chunk_def max_def)
  next
    case False
    then have "spi1e_max_src_chunk 4096 n = 8 * (n div 8)"
      using n by (simp add: spi1e_max_src_chunk_def max_def min_def)
    moreover have "n mod (8 * (n div 8)) < 8"
    proof -
      have "n = 8 * (n div 8) + n mod 8" by simp
      then have "n mod (8 * (n div 8)) = n mod 8 mod (8 * (n div 8))"
        by (metis mod_add_self1)
      also have "\<dots> \<le> n mod 8" by simp
      also have "\<dots> < 8" by simp
      finally show ?thesis .
    qed
    ultimately show ?thesis by (simp add: fits1_def sized_def)
  qed
qed

definition inv1e :: "os \<Rightarrow> state \<Rightarrow> bool" where
  "inv1e os w \<longleftrightarrow>
     spi_ready os w \<and> \<not> tinydrm_spi_bpw_supported (spi w) 9 \<and>
     mipi_dbi_spi_clamp_size (spi w) 4096 = 4096 \<and>
     ram_reg (mspi w) = MIPI_DCS_WRITE_MEMORY_START \<and> (\<forall>b. dma_blk b w \<longrightarrow> b < nblk w)"

definition sends1 :: "state \<Rightarrow> state \<Rightarrow> item list \<Rightarrow> bool" where
  "sends1 w w' xs \<longleftrightarrow> evolves {} w w' \<and> mspi w' = mspi w \<and> tx_buf w' = tx_buf w \<and>
     (\<forall>l. snd (run1 l (new_evs w w')) = xs)"

lemma inv1e_stable:
  assumes "inv1e os w" and "nblk w \<le> nblk w'" and "same_dev w w'" and "mspi w' = mspi w"
    and "tx_buf w' = tx_buf w"
  shows "inv1e os w'"
  using assms same_devD(1,3) [OF assms(3)]
  unfolding inv1e_def spi_ready_def dma_blk_def by (auto intro: order_less_le_trans)

lemma sends1_inv: "inv1e os w \<Longrightarrow> sends1 w w' xs \<Longrightarrow> inv1e os w'"
  unfolding sends1_def using inv1e_stable evolves_nblk evolves_same_dev by blast

lemma sends1_trans: "sends1 w w' xs \<Longrightarrow> sends1 w' w'' ys \<Longrightarrow> sends1 w w'' (xs @ ys)"
  unfolding sends1_def using evolves_trans [of "{}" w w' w''] by (auto simp: run1_append split: prod.split)

text \<open>Allocate a buffer, fill it and send: the buffer is gone at the end.\<close>

lemma sends1_buffer:
  assumes "inv1e os w" and es: "list_all plain_ev es"
    and w': "w' = log_evs es ((allocated n bs w)\<lparr>mem := (mem w)(nblk w \<mapsto> old)\<rparr>)"
  shows "kfree (Ptr (nblk w) 0) w' = Some ((), freed (nblk w) w') \<and>
    sends1 w (freed (nblk w) w') (concat (map items9 (spi_payloads es)))"
proof -
  let ?w1 = "(allocated n bs w)\<lparr>mem := (mem w)(nblk w \<mapsto> old)\<rparr>"
  have e1: "evolves {nblk w} w ?w1" "new_evs w ?w1 = [Ev_alloc n]"
    by (auto simp: evolves_def new_evs_def same_dev_def) (simp_all add: allocated_def)
  have e2: "evolves {nblk w} ?w1 w'" "new_evs ?w1 w' = es" using w' by simp_all
  have e3: "evolves {nblk w} w' (freed (nblk w) w')" by (rule evolves_freed) simp
  note t = evolves_trans [OF evolves_trans(1) [OF e1(1) e2(1)] e3]
    evolves_trans(2) [OF e1(1) e2(1)]
  have "evolves {} w (freed (nblk w) w')"
    using t(1) evolves_fresh_drop [of "{}" "{nblk w}"] by simp
  moreover have "new_evs w (freed (nblk w) w') = [Ev_alloc n] @ es @ [Ev_free (nblk w)]"
    using t(2,3) e1(2) e2(2) by simp
  moreover have "kfree (Ptr (nblk w) 0) w' = Some ((), freed (nblk w) w')"
    using w' by (intro kfree_ok) simp
  ultimately show ?thesis
    using w' run1_plain [OF es] by (simp add: sends1_def run1_append)
qed

lemma spi1e_cmd_ok:
  assumes i: "inv1e os w" and p: "priv p w" "load w p 1 = Some [c]" and c: "c \<noteq> 0"
  shows "\<exists>w'. mipi_dbi_spi1_transfer os 8 False p 1 4096 w = Some (0, w') \<and> sends1 w w' [Cmd c]"
proof -
  let ?d = "nblk w" and ?bs = "replicate 8 (0::u8) @ [c]"
  let ?w1 = "allocated 9 (replicate 9 0) w"
  let ?w2 = "?w1\<lparr>mem := (mem w)(?d \<mapsto> ?bs)\<rparr>"
  have rdy: "spi_ready os w" and nd: "\<not> dma_blk ?d w" using i by (auto simp: inv1e_def)
  have al: "kzalloc os 9 w = Some (Ptr ?d 0, ?w1)"
    using rdy kzalloc_ok by (simp add: spi_ready_def)
  have ld: "load ?w1 p 1 = Some [c]"
    by (rule load_evolves [OF p(2) evolves_allocated [of "{}"] p(1)]) simp
  have st: "store (Ptr ?d 8) [c] ?w1 = Some ((), ?w2)"
    using store_block [of ?w1 ?d "replicate 9 0" 8 "[c]"] by (simp add: numeral_eq_Suc)
  let ?tr = "zero_transfer\<lparr>tr_bits_per_word := 8, tr_tx_buf := Ptr ?d 0, tr_len := 9\<rparr>"
  obtain es where es: "spi_sync os [?tr] ?w2 = Some ((0, [?tr]), log_evs es ?w2)"
    "list_all plain_ev es" "spi_payloads es = [?bs]"
    using spi_sync_priv [of os ?w2 ?tr ?bs] rdy nd by (auto simp: spi_ready_def priv_def)
  obtain w' where w': "w' = log_evs es ?w2" by simp
  note k = sends1_buffer [OF i es(2) w']
  have x: "concat (map items9 (spi_payloads es)) = [Cmd c]"
    using es(3) items9_cmd [OF c] by simp
  have "mipi_dbi_spi1_transfer os 8 False p 1 4096 w = Some (0, freed ?d w')"
    using i al ld st es(1) k w'
    by (simp add: inv1e_def mipi_dbi_spi1_transfer_def mipi_dbi_spi1e_transfer_def Let_def
        del: store.simps load.simps kfree.simps)
  then show ?thesis using k x by auto
qed

lemma spi1e_data_ok:
  assumes i: "inv1e os w" and q: "priv q w" "load w q n = Some ps" and n: "fits1 n"
  shows "\<exists>w'. mipi_dbi_spi1_transfer os 8 True q n 4096 w = Some (0, w') \<and> sends1 w w' (map Dat ps)"
proof -
  let ?d = "nblk w" and ?msc = "spi1e_max_src_chunk 4096 n"
  let ?sz = "?msc + ?msc div 8"
  have rdy: "spi_ready os w" and nd: "\<not> dma_blk ?d w" using i by (auto simp: inv1e_def)
  obtain bs where bs: "length bs = ?sz" "kmalloc os ?sz w = Some (Ptr ?d 0, allocated ?sz bs w)"
    using rdy by (auto simp: spi_ready_def intro: kmalloc_ok)
  let ?w1 = "allocated ?sz bs w"
  have ld: "load ?w1 q n = Some ps"
    by (rule load_evolves [OF q(2) evolves_allocated [of "{}"] q(1)]) simp
  have qd: "blk_of q \<noteq> Some ?d" using q(1) by (auto simp: priv_def)
  have r1: "spi_ready os ?w1" "priv (Ptr ?d 0) ?w1" using rdy nd by (simp_all add: spi_ready_def priv_def)
  have m1: "mem ?w1 ?d = Some bs" "?sz \<le> length bs" "sized ?msc n" using bs(1) n by (simp_all add: fits1_def)
  let ?tr = "zero_transfer\<lparr>tr_bits_per_word := 8, tr_tx_buf := Ptr ?d 0\<rparr>"
  have tr: "tr_tx_buf ?tr = Ptr ?d 0" by simp
  obtain w' es old' where l: "spi1e_loop os 8 ?msc (Ptr ?d 0) ?tr q n ?w1 = Some (0, w')"
    "w' = log_evs es (?w1\<lparr>mem := (mem ?w1)(?d \<mapsto> old')\<rparr>)" "list_all plain_ev es"
    "concat (map items9 (spi_payloads es)) = map Dat ps"
    using spi1e_loop_ok [OF r1 ld qd m1(1) msc_facts m1(2,3) tr] by blast
  have w': "w' = log_evs es (?w1\<lparr>mem := (mem w)(?d \<mapsto> old')\<rparr>)" using l(2) by simp
  note k = sends1_buffer [OF i l(3) w']
  have "mipi_dbi_spi1_transfer os 8 True q n 4096 w = Some (0, freed ?d w')"
    using i bs(2) l(1) k
    by (simp add: inv1e_def mipi_dbi_spi1_transfer_def mipi_dbi_spi1e_transfer_def Let_def
        del: kfree.simps)
  then show ?thesis using k l(4) by auto
qed

lemma spi1e_sends:
  assumes i: "inv1e os w" and p: "priv p w" "priv q w"
    and ld: "load w p 1 = Some [c]" "load w q n = Some ps" and c: "plain_cmd c" and n: "fits1 n"
  shows "\<exists>w'. mipi_dbi_spi1_gather_write os p 1 q n w = Some (0, w') \<and>
    sends1 w w' (Cmd c # map Dat ps)"
proof -
  have c0: "c \<noteq> 0" and wd: "reg_val_width c (ram_reg (mspi w)) = 8"
    using c i by (simp_all add: plain_cmd_def reg_val_width_def inv1e_def)
  obtain w1 where w1: "mipi_dbi_spi1_transfer os 8 False p 1 4096 w = Some (0, w1)"
    "sends1 w w1 [Cmd c]"
    using spi1e_cmd_ok [OF i p(1) ld(1) c0] by blast
  have ev: "evolves {} w w1" using w1(2) by (simp add: sends1_def)
  show ?thesis
  proof (cases "n = 0")
    case True
    then show ?thesis using w1 ld load_0_len [OF ld(2)]
      by (simp add: mipi_dbi_spi1_gather_write_def Let_def)
  next
    case False
    have q: "priv q w1" "load w1 q n = Some ps" "q \<noteq> Null"
      using p(2) ld(2) ev by (auto intro: priv_evolves load_evolves)
    obtain w2 where w2: "mipi_dbi_spi1_transfer os 8 True q n 4096 w1 = Some (0, w2)"
      "sends1 w1 w2 (map Dat ps)"
      using spi1e_data_ok [OF sends1_inv [OF i w1(2)] q(1,2) n] by blast
    have "mipi_dbi_spi1_gather_write os p 1 q n w = Some (0, w2)"
      using w1(1) w2(1) ld(1) q(3) False wd
      by (simp add: mipi_dbi_spi1_gather_write_def Let_def)
    then show ?thesis using sends1_trans [OF w1(2) w2(2)] by auto
  qed
qed

interpretation b1: dbi_bus os "mipi_dbi_spi1_write os" "mipi_dbi_spi1_gather_write os" "inv1e os"
    fits1 run1
  for os
proof
  fix w w' :: state
  show "inv1e os w \<Longrightarrow> nblk w \<le> nblk w' \<Longrightarrow> same_dev w w' \<Longrightarrow> mspi w' = mspi w \<Longrightarrow>
      tx_buf w' = tx_buf w \<Longrightarrow> inv1e os w'"
    by (rule inv1e_stable)
next
  fix p q :: ptr and w :: state and c n ps
  assume a: "inv1e os w" "priv p w" "priv q w" "load w p 1 = Some [c]" "load w q n = Some ps"
    "plain_cmd c" "fits1 n"
  show "wp (mipi_dbi_spi1_gather_write os p 1 q n w) (\<lambda>r w'. r = 0 \<and> inv1e os w' \<and>
        evolves {} w w' \<and> (\<forall>l. snd (run1 l (new_evs w w')) = Cmd c # map Dat ps))"
    using spi1e_sends [OF a] sends1_inv [OF a(1)] by (auto simp: sends1_def)
next
  show "list_all quiet_ev es \<Longrightarrow> run1 l es = (l, [])" for es l
    by (induction l es rule: run1.induct) (auto simp: quiet_ev_def)
qed (auto simp: inv1e_def spi_ready_def mipi_dbi_spi1_write_def size_pred_def run1_append)

end
