(* ===== verification/Data_Props.thy ===== *)
theory Data_Props
  imports Fb_Heap Clips Linux_List Hexdump Bus1
begin

text \<open>
  Properties of the data the driver handles: rectangles, pixels, packed words, the lists of
  framebuffers and of transfers, debug messages, and the arithmetic of \<open>kernel.h\<close>.
\<close>

section \<open>Dirty rectangles\<close>

text \<open>The rectangles \<open>tinydrm_merge_clips\<close> reads.\<close>

definition selected :: "bool \<Rightarrow> nat \<Rightarrow> clip_rect list \<Rightarrow> clip_rect list" where
  "selected ann n cs = (if ann then odds (take n cs) else take n cs)"

lemma foldl_join_least:
  "clip_contains d e \<Longrightarrow> \<forall>c \<in> set cs. clip_contains d c \<Longrightarrow> clip_contains d (foldl clip_join e cs)"
  by (induction cs arbitrary: e) (simp_all add: clip_join_def clip_contains_def)

lemma merged_least: "\<forall>c \<in> set cs. clip_contains d c \<Longrightarrow> clip_contains d (merged cs)"
  unfolding merged_def by (rule foldl_join_least) (simp_all add: clip_contains_def empty_clip_def)

lemma foldl_join_bound:
  "ucast (x2 e) \<le> (W::u32) \<Longrightarrow> ucast (y2 e) \<le> (H::u32) \<Longrightarrow>
   \<forall>c \<in> set cs. ucast (x2 c) \<le> W \<and> ucast (y2 c) \<le> H \<Longrightarrow>
   ucast (x2 (foldl clip_join e cs)) \<le> W \<and> ucast (y2 (foldl clip_join e cs)) \<le> H"
  by (induction cs arbitrary: e) (simp_all add: clip_join_def max_def)

lemma merged_in:
  assumes "cs \<noteq> []" and "\<forall>c \<in> set cs. clip_in W H c"
  shows "clip_in W H (merged cs)"
proof -
  obtain c where c: "c \<in> set cs" using assms(1) by (meson last_in_set)
  then have "clip_contains (merged cs) c" unfolding merged_def by (rule merged_contains)
  moreover have "clip_in W H c" using c assms(2) by blast
  moreover have "ucast (x2 (merged cs)) \<le> W \<and> ucast (y2 (merged cs)) \<le> H"
    unfolding merged_def
    using assms(2) by (intro foldl_join_bound) (simp_all add: clip_in_def empty_clip_def)
  ultimately show ?thesis unfolding clip_in_def clip_contains_def by (meson le_less_trans less_le_trans)
qed

lemma odds_nonempty: "even (length cs) \<Longrightarrow> cs \<noteq> [] \<Longrightarrow> odds cs \<noteq> []"
  by (induction cs rule: odds.induct) simp_all

lemma selected_nonempty:
  assumes "0 < n" and "n \<le> length cs" and "ann \<longrightarrow> even n"
  shows "selected ann n cs \<noteq> []"
proof -
  have "take n cs \<noteq> []" "length (take n cs) = n" using assms(1,2) by auto
  then show ?thesis using assms(3) odds_nonempty [of "take n cs"] by (auto simp: selected_def)
qed

text \<open>
  C13. Merging dirty rectangles that lie in the framebuffer gives the smallest rectangle that
  contains every one of them (of every second one, when the annotate flag says that they come
  in pairs of source and target).
\<close>

theorem merge_clips_least:
  assumes "0 < n" and "n \<le> length cs" and "ann \<longrightarrow> even n"
    and "\<forall>r \<in> set (selected ann n cs). clip_in W H r"
  shows "\<exists>c. tinydrm_merge_clips (Some cs) n ann W H = Some c \<and> clip_in W H c \<and>
    (\<forall>r \<in> set (selected ann n cs). clip_contains c r) \<and>
    (\<forall>d. (\<forall>r \<in> set (selected ann n cs). clip_contains d r) \<longrightarrow> clip_contains d c)"
proof -
  let ?c = "merged (selected ann n cs)"
  have i: "clip_in W H ?c" using merged_in [OF selected_nonempty [OF assms(1-3)] assms(4)] .
  then have "tinydrm_merge_clips (Some cs) n ann W H = Some ?c"
    using merge_clips_selected [OF assms(1,2), of ann W H] assms(3) by (simp add: selected_def)
  moreover have "\<forall>r \<in> set (selected ann n cs). clip_contains ?c r"
    using merged_contains by (simp add: merged_def)
  ultimately show ?thesis using i merged_least by blast
qed

theorem merge_clips_least_witness:
  "\<exists>c. tinydrm_merge_clips (Some [\<lparr>x1 = 10, y1 = 20, x2 = 30, y2 = 40\<rparr>, \<lparr>x1 = 5, y1 = 50, x2 = 320, y2 = 60\<rparr>])
      2 False 320 240 = Some c \<and> clip_contains c \<lparr>x1 = 10, y1 = 20, x2 = 30, y2 = 40\<rparr> \<and>
    clip_contains c \<lparr>x1 = 5, y1 = 50, x2 = 320, y2 = 60\<rparr> \<and>
    clip_contains \<lparr>x1 = 5, y1 = 20, x2 = 320, y2 = 60\<rparr> c"
proof -
  let ?cs = "[\<lparr>x1 = 10, y1 = 20, x2 = 30, y2 = 40\<rparr>, \<lparr>x1 = 5, y1 = 50, x2 = 320, y2 = 60\<rparr>]"
  have s: "selected False 2 ?cs = ?cs" by (simp add: selected_def)
  have i: "\<forall>r \<in> set (selected False 2 ?cs). clip_in 320 240 r" unfolding s by (simp add: clip_in_def)
  have "\<forall>r \<in> set (selected False 2 ?cs). clip_contains \<lparr>x1 = 5, y1 = 20, x2 = 320, y2 = 60\<rparr> r"
    unfolding s by (simp add: clip_contains_def)
  then show ?thesis using merge_clips_least [of 2 ?cs False 320 240] i unfolding s by auto
qed

text \<open>
  C14. Whatever rectangles the event holds, the rectangle that is flushed is not empty and lies
  in the framebuffer.
\<close>

theorem merge_clips_in_bounds:
  assumes "tinydrm_merge_clips src n ann W H = Some c"
    and "0 < W" "unat W < 2 ^ 16" "0 < H" "unat H < 2 ^ 16"
  shows "x1 c < x2 c \<and> y1 c < y2 c \<and> ucast (x2 c) \<le> W \<and> ucast (y2 c) \<le> H"
  using merge_clips_in [OF assms] by (simp add: clip_in_def)

theorem merge_clips_in_bounds_witness:
  "x1 (full_clip 320 240) < x2 (full_clip 320 240) \<and> y1 (full_clip 320 240) < y2 (full_clip 320 240) \<and>
    ucast (x2 (full_clip 320 240)) \<le> (320::u32) \<and> ucast (y2 (full_clip 320 240)) \<le> (240::u32)"
  by (rule merge_clips_in_bounds [of None 0 False]) (simp_all add: tinydrm_merge_clips_def)

text \<open>
  C15. With the annotate flag and an odd number of rectangles the loop reads one rectangle past
  the end of the array.
\<close>

theorem merge_clips_overread:
  assumes "odd n" and "length cs = n"
  shows "tinydrm_merge_clips (Some cs) n True W H = None"
  using merge_loop_odd [OF assms, of 0] assms(1) by (auto simp: tinydrm_merge_clips_def odd_pos)

theorem merge_clips_overread_witness:
  "tinydrm_merge_clips (Some [\<lparr>x1 = 0, y1 = 0, x2 = 8, y2 = 8\<rparr>]) 1 True 320 240 = None"
  by (rule merge_clips_overread) simp_all

section \<open>Pixels\<close>

text \<open>
  C16. The conversion of a line writes for every source pixel, in order, the pixel whose three
  components are the highest 5, 6 and 5 bits of the red, green and blue bytes, and changes no
  other byte of memory.
\<close>

theorem xrgb_line_converted:
  assumes "load w (Ptr s i) (4 * n) = Some bs" and "mem w d = Some ds" and "j + 2 * n \<le> length ds"
    and "s \<noteq> d"
  shows "\<exists>w' ds'. tinydrm_xrgb8888_to_rgb565 (Ptr s i) (Ptr d j) n w = Some ((), w') \<and>
    mem w' = (mem w)(d \<mapsto> ds') \<and> length ds' = length ds \<and>
    take (2 * n) (drop j ds') =
      concat (map (\<lambda>k. le16 (rgb565 (bs ! (4 * k + 2)) (bs ! (4 * k + 1)) (bs ! (4 * k)))) [0..<n]) \<and>
    take j ds' = take j ds \<and> drop (j + 2 * n) ds' = drop (j + 2 * n) ds"
proof -
  have l: "length bs = 4 * n" using load_0_len [OF assms(1)] .
  let ?ds = "take j ds @ line565 bs @ drop (j + 2 * n) ds"
  have "length (line565 bs) = 2 * n" using l by simp
  then show ?thesis
    using xrgb_loop_ok [OF assms] assms(3) line565_map [OF l] l
    by (intro exI [of _ "w\<lparr>mem := (mem w)(d \<mapsto> ?ds)\<rparr>"] exI [of _ ?ds]) simp
qed

theorem xrgb_line_converted_witness:
  "\<exists>w'. tinydrm_xrgb8888_to_rgb565 (Ptr 0 0) (Ptr 1 0) 1
      (init_state\<lparr>mem := [0 \<mapsto> [0x12, 0x34, 0x56, 0xFF], 1 \<mapsto> [0, 0, 0]]\<rparr>) = Some ((), w') \<and>
    (\<exists>ds. mem w' 1 = Some ds \<and> take 2 ds = [0xA2, 0x51] \<and> drop 2 ds = [0])"
proof -
  let ?w = "init_state\<lparr>mem := [0 \<mapsto> [0x12, 0x34, 0x56, 0xFF], 1 \<mapsto> [0, 0, 0]]\<rparr>"
  have a: "load ?w (Ptr 0 0) (4 * 1) = Some [0x12, 0x34, 0x56, 0xFF]" "mem ?w 1 = Some [0, 0, 0]" by simp_all
  have p: "le16 (rgb565 0x56 0x34 0x12) = [0xA2, 0x51]" by (simp add: rgb565_def le16_def)
  have c: "0 + 2 * 1 \<le> length [0, 0, 0 :: u8]" "(0::nat) \<noteq> 1" by simp_all
  obtain w' ds' where r: "tinydrm_xrgb8888_to_rgb565 (Ptr 0 0) (Ptr 1 0) 1 ?w = Some ((), w')"
    "mem w' = (mem ?w)(1 \<mapsto> ds')" "take (2 * 1) (drop 0 ds') =
      concat (map (\<lambda>k. le16 (rgb565 ([0x12, 0x34, 0x56, 0xFF] ! (4 * k + 2))
        ([0x12, 0x34, 0x56, 0xFF] ! (4 * k + 1)) ([0x12, 0x34, 0x56, 0xFF] ! (4 * k)))) [0..<1])"
    "drop (0 + 2 * 1) ds' = drop (0 + 2 * 1) [0, 0, 0]"
    using xrgb_line_converted [OF a c] by blast
  have "take 2 ds' = [0xA2, 0x51]" using r(3) p by simp
  moreover have "drop 2 ds' = [0]" using r(4) by (simp add: numeral_2_eq_2)
  moreover have "mem w' 1 = Some ds'" unfolding r(2) by simp
  ultimately show ?thesis using r(1) by blast
qed

section \<open>Packed words\<close>

text \<open>The blocks of nine bytes that carry eight words each.\<close>

definition packed :: "nat \<Rightarrow> bytes \<Rightarrow> bytes" where
  "packed bpw bs = concat (map (pack_block bpw) (chunks 8 bs))"

lemma swap_pairs_append: "even (length xs) \<Longrightarrow> swap_pairs (xs @ ys) = swap_pairs xs @ swap_pairs ys"
  by (induction xs rule: swap_pairs.induct) simp_all

lemma packed_words:
  assumes "length bs = 8 * k"
  shows "stream_bits (packed bpw bs) = words9 (map (Pair True) (if bpw = 8 then bs else swap_pairs bs))"
  using assms
proof (induction k arbitrary: bs)
  case 0
  then show ?case by (simp add: packed_def stream_bits_def words9_def)
next
  case (Suc k)
  let ?b = "take 8 bs" and ?r = "drop 8 bs"
  have b: "length ?b = 8" and r: "length ?r = 8 * k" using Suc.prems by simp_all
  have ne: "bs \<noteq> []" using Suc.prems by auto
  have st: "packed bpw bs = pack_block bpw ?b @ packed bpw ?r"
    using ne by (simp add: packed_def chunks_step)
  have w: "stream_bits (pack_block bpw ?b) = words9 (map (Pair True) (if bpw = 8 then ?b else swap_pairs ?b))"
    using pack_block8_words [OF b] pack_block16_words [OF b] by (simp add: pack_block_def)
  have s: "(if bpw = 8 then bs else swap_pairs bs) =
      (if bpw = 8 then ?b else swap_pairs ?b) @ (if bpw = 8 then ?r else swap_pairs ?r)"
    using swap_pairs_append [of ?b ?r] b by simp
  show ?case unfolding st s stream_bits_append map_append words9_append w Suc.IH [OF r] ..
qed

text \<open>
  C17. Packing for a controller without 9-bit words is undone by a display that reads the stream
  nine bits at a time: it finds every byte, marked as data; with 16-bit words the two bytes of
  every pixel are exchanged, the order the display expects.
\<close>

theorem packed_decodes:
  assumes "length bs = 8 * k"
  shows "unwords9 (stream_bits (packed bpw bs)) = map (Pair True) (if bpw = 8 then bs else swap_pairs bs)"
  using packed_words [OF assms, of bpw]
    unwords9_words9 [of "map (Pair True) (if bpw = 8 then bs else swap_pairs bs)" "[]"] by simp

theorem packed_decodes_witness:
  "unwords9 (stream_bits (packed 16 [1, 2, 3, 4, 5, 6, 7, 8])) =
    [(True, 2), (True, 1), (True, 4), (True, 3), (True, 6), (True, 5), (True, 8), (True, 7)]"
  using packed_decodes [of "[1, 2, 3, 4, 5, 6, 7, 8]" 1 16] by simp

text \<open>
  C18. The last block of 16-bit words loses pixels: of a remainder of 4 bytes only the first
  pixel is sent, of 6 bytes only two of the three.
\<close>

theorem tail16_drops_pixels:
  "unwords9 (stream_bits (pack_tail 16 [a, b, c, d])) =
     [(True, b), (True, a)] @ replicate 6 (False, 0) \<and>
   unwords9 (stream_bits (pack_tail 16 [a, b, c, d, e, f])) =
     [(True, b), (True, a), (True, d), (True, c)] @ replicate 4 (False, 0)"
proof -
  have z: "replicate (9 * k) False = words9 (replicate k (False, 0))" for k by (rule words9_zeros [symmetric])
  have u: "unwords9 (words9 ws) = ws" for ws using unwords9_words9 [of ws "[]"] by simp
  have "stream_bits (pack_tail 16 [a, b, c, d]) = words9 ([(True, b), (True, a)] @ replicate 6 (False, 0))"
    unfolding words9_append z [symmetric] using pack_tail16_words [of "[a, b, c, d]"] by simp
  moreover have "stream_bits (pack_tail 16 [a, b, c, d, e, f]) =
      words9 ([(True, b), (True, a), (True, d), (True, c)] @ replicate 4 (False, 0))"
    unfolding words9_append z [symmetric] using pack_tail16_words [of "[a, b, c, d, e, f]"] by simp
  ultimately show ?thesis by (simp only: u)
qed

section \<open>The list of framebuffers\<close>

lemma fb_unlink_first:
  "\<forall>v \<in> set pre. fb_id v \<noteq> fb_id u \<Longrightarrow>
   fb_unlink (fb_id u) xs (pre @ u # post) = Some (u, butlast (xs @ pre) @ post)"
  by (induction pre arbitrary: xs) simp_all

text \<open>
  C19. Destroying a framebuffer over the linked nodes finds it, and leaves a list without it. The
  framebuffer created just after it, the one before it in the list, is unlinked as well.
\<close>

theorem fb_destroy_unlinks_two:
  assumes "fb_repr h (pre @ u # post)" and "\<forall>v \<in> set pre. fb_id v \<noteq> fb_id u"
  shows "\<exists>h'. fb_destroy_search (fb_id u) h = Some (Some u, h') \<and> fb_repr h' (butlast pre @ post)"
  using fbh.destroy_repr [OF assms(1), of "fb_id u"] fb_unlink_first [OF assms(2), of "[]" post] by simp

definition fb1 :: utinydrm_fb where
  "fb1 = \<lparr>fb_id = 1, fb_handle = 3, fb_buf_fd = 9, fb_map_size = 153600, fb_map = Ptr 5 0,
     fb_pitch = 640, fb_width = 320, fb_height = 240, fb_format = DRM_FORMAT_RGB565, fb_dirty_set = True\<rparr>"

definition no_fbs :: fb_heap where
  "no_fbs = \<lparr>fbs_head = None, nodes = \<lambda>_. None\<rparr>"

lemma no_fbs_repr: "fb_repr no_fbs []"
  unfolding fb_repr_def by (rule exI [of _ "[]"]) (simp add: no_fbs_def fbs_at_def)

lemma two_fbs_repr:
  "fb_repr (fb_push 8 (fb1\<lparr>fb_id := 2\<rparr>) (fb_push 7 fb1 no_fbs)) [fb1\<lparr>fb_id := 2\<rparr>, fb1]"
  by (intro fbh.push_repr no_fbs_repr) (simp_all add: no_fbs_def fb_push_def)

theorem fb_destroy_unlinks_two_witness:
  "\<exists>h'. fb_destroy_search 1 (fb_push 8 (fb1\<lparr>fb_id := 2\<rparr>) (fb_push 7 fb1 no_fbs)) = Some (Some fb1, h') \<and>
    fb_repr h' []"
proof -
  have "fb_repr (fb_push 8 (fb1\<lparr>fb_id := 2\<rparr>) (fb_push 7 fb1 no_fbs)) ([fb1\<lparr>fb_id := 2\<rparr>] @ fb1 # [])"
    using two_fbs_repr by simp
  from fb_destroy_unlinks_two [OF this] show ?thesis by (simp add: fb1_def)
qed

text \<open>
  C20. A framebuffer just created is found under its number, and destroying it leaves the list as
  it was.
\<close>

theorem fb_create_lookup_destroy:
  assumes "fb_repr h us" and "a \<notin> dom (nodes h)"
  shows "fb_lookup (fb_id u) (fbs_head (fb_push a u h)) (fb_push a u h) = Some (Some u) \<and>
    (\<exists>h'. fb_destroy_search (fb_id u) (fb_push a u h) = Some (Some u, h') \<and> fb_repr h' us)"
  using fbh.lookup_pushed [OF assms] fbh.destroy_pushed [OF assms] by blast

theorem fb_create_lookup_destroy_witness:
  "fb_lookup 1 (fbs_head (fb_push 7 fb1 no_fbs)) (fb_push 7 fb1 no_fbs) = Some (Some fb1) \<and>
    (\<exists>h'. fb_destroy_search 1 (fb_push 7 fb1 no_fbs) = Some (Some fb1, h') \<and> fb_repr h' [])"
  using fb_create_lookup_destroy [OF no_fbs_repr, of 7 fb1] by (simp add: no_fbs_def fb1_def)

section \<open>Lists of transfers\<close>

text \<open>
  C21. The linked list of transfers that \<open>spi_message_init_with_transfers\<close> builds has exactly the
  transfers given, in order: the loop over it visits them all and ends, and the test for a
  single transfer that \<open>spi_sync\<close> makes is right.
\<close>

theorem message_has_its_transfers:
  assumes "live h m" and "distinct (m # xfers)" and "\<forall>t \<in> set xfers. live h t"
  shows "\<exists>h'. spi_message_with_transfers m xfers h = Some h' \<and>
    list_for_each m h' = Some xfers \<and> list_for_each_prev m h' = Some (rev xfers) \<and>
    list_is_singular m h' = Some (length xfers = 1)"
  using spi_message_built [OF assms] list_for_each_ok list_for_each_prev_ok list_is_singular_ok by blast

definition blank_nodes :: list_heap where
  "blank_nodes = \<lparr>lnext = \<lambda>_. Some 0, lprev = \<lambda>_. Some 0\<rparr>"

lemma blank_live: "live blank_nodes a"
  by (simp add: live_def blank_nodes_def)

theorem message_has_its_transfers_witness:
  "\<exists>h'. spi_message_with_transfers 1 [10, 20] blank_nodes = Some h' \<and>
    list_for_each 1 h' = Some [10, 20] \<and> list_for_each_prev 1 h' = Some [20, 10] \<and>
    list_is_singular 1 h' = Some False"
  using message_has_its_transfers [OF blank_live, of 1 "[10, 20]"] blank_live by simp

text \<open>
  C22. Cutting a list after an entry and splicing the part back in front gives the list again, and
  leaves the second head empty.
\<close>

theorem list_cut_splice:
  assumes "is_list h k (ys @ e # zs)" and "l \<notin> set (k # ys @ e # zs)" and "live h l"
  shows "\<exists>h1 h2. list_cut_position l k e h = Some h1 \<and> is_list h1 l (ys @ [e]) \<and> is_list h1 k zs \<and>
    list_splice_init l k h1 = Some h2 \<and> is_list h2 k (ys @ e # zs) \<and> is_list h2 l []"
proof -
  obtain h1 where h1: "list_cut_position l k e h = Some h1" "is_list h1 l (ys @ [e])" "is_list h1 k zs"
    using list_cut_position_ok [OF assms] by blast
  have "set (l # ys @ [e]) \<inter> set (k # zs) = {}"
    using assms(1,2) by (auto simp: is_list_def)
  from list_splice_init_ok(1) [OF h1(2,3) this] h1 show ?thesis by auto
qed

text \<open>A ring of three nodes and a head of its own.\<close>

definition ring3 :: list_heap where
  "ring3 = \<lparr>lnext = [1 \<mapsto> 10, 10 \<mapsto> 20, 20 \<mapsto> 30, 30 \<mapsto> 1, 2 \<mapsto> 2],
            lprev = [10 \<mapsto> 1, 20 \<mapsto> 10, 30 \<mapsto> 20, 1 \<mapsto> 30, 2 \<mapsto> 2]\<rparr>"

theorem list_cut_splice_witness:
  "\<exists>h1 h2. list_cut_position 2 1 20 ring3 = Some h1 \<and> is_list h1 2 [10, 20] \<and> is_list h1 1 [30] \<and>
    list_splice_init 2 1 h1 = Some h2 \<and> is_list h2 1 [10, 20, 30] \<and> is_list h2 2 []"
proof -
  have "is_list ring3 1 ([10] @ 20 # [30])" "live ring3 2"
    by (simp_all add: is_list_def edge_def live_def ring3_def)
  from list_cut_splice [OF this(1) _ this(2)] show ?thesis by simp
qed

section \<open>Debug messages\<close>

text \<open>
  C23. The dump of a buffer into an array of \<open>n\<close> characters never writes outside the array,
  whatever the row size, the group size and the length.
\<close>

theorem hex_dump_in_bounds:
  assumes "0 < n" and "n \<le> length b" and "len \<le> length p"
  shows "\<exists>r b'. hex_dump_to_buffer p len rowsize groupsize n ascii b = Some (r, b') \<and>
    length b' = length b \<and> drop n b' = drop n b \<and> NUL \<in> set (take n b')"
  using hex_dump_safe [OF assms, of rowsize groupsize ascii] unfolding inside_def by blast

theorem hex_dump_in_bounds_witness:
  "\<exists>r b'. hex_dump_to_buffer [1, 2, 3, 4] 4 16 4 8 True (replicate 10 CHR ''x'') = Some (r, b') \<and>
    length b' = 10 \<and> drop 8 b' = ''xx'' \<and> NUL \<in> set (take 8 b')"
  using hex_dump_in_bounds [of 8 "replicate 10 CHR ''x''" 4 "[1, 2, 3, 4]" 16 4 True]
  by (simp add: numeral_eq_Suc)

text \<open>
  The debug message of a register write has the register, the length and the hexadecimal
  digits of at most the first 16 bytes, as bytes or as 16-bit words.
\<close>

theorem debug_message_text:
  assumes "bpw = 8 \<and> 0 < len \<or> bpw = 16 \<and> 1 < len" and "len \<le> length p" and "length junk = 96"
  shows "tinydrm_debug_reg_write [r] 1 (Some p) len bpw junk =
    Some (Some (''regnr=0x'' @ hex_string 2 (unat r) @ '', data('' @ dec_string len @ '')= '' @
      join_sp (if bpw = 16 then map (hex_string 4) (dump_words 2 p (min len 16 div 2))
               else map (\<lambda>c. hex_string 2 (unat c)) (take (min len 16) p)) @
      (if 32 < len then '' ...'' else []) @ [CHR 0x0A]))"
  using debug_reg_write_text [OF assms] unfolding debug_text_def .

theorem debug_message_text_witness:
  "tinydrm_debug_reg_write [0x2A] 1 (Some [0, 0, 1, 0x3F]) 4 8 (replicate 96 CHR ''x'') =
    Some (Some (''regnr=0x2a, data(4)= 00 00 01 3f'' @ [CHR 0x0A]))"
proof -
  have d: "hex_string 2 (unat (0x2A::u8)) = ''2a''" "dec_string 4 = ''4''"
    "join_sp (map (\<lambda>c. hex_string 2 (unat (c::u8))) [0, 0, 1, 0x3F]) = ''00 00 01 3f''"
    by code_simp+
  from debug_message_text [of 8 4 "[0, 0, 1, 0x3F]" "replicate 96 CHR ''x''" "0x2A"] d
  show ?thesis by (simp del: hex_string.simps)
qed

text \<open>
  A single byte with 16-bit words writes nothing: the message prints the uninitialised
  array.
\<close>

theorem debug_message_uninitialised:
  "tinydrm_debug_reg_write [r] 1 (Some [x]) 1 16 junk =
    Some (Some (''regnr=0x'' @ hex_string 2 (unat r) @ '', data(1)= '' @ c_string junk @ [CHR 0x0A]))"
proof -
  have "dec_string 1 = ''1''" by code_simp
  then show ?thesis
    by (simp add: tinydrm_debug_reg_write_def tinydrm_hexdump_def dump_words_def del: hex_string.simps)
qed

section \<open>Arithmetic of \<open>kernel.h\<close>\<close>

text \<open>
  \<open>fls\<close> by halving finds the highest set bit: for every non-zero word the number lies
  between the two powers of two around the word, and \<open>ilog2\<close> is its logarithm.
\<close>

theorem fls_highest_bit:
  assumes "x \<noteq> 0"
  shows "0 < fls x \<and> fls x \<le> 32 \<and> 2 ^ (fls x - 1) \<le> unat x \<and> unat x < 2 ^ fls x \<and>
    ilog2 x = int (fls x) - 1"
  using fls_bounds [OF assms] by (simp add: ilog2_def)

theorem fls_highest_bit_witness: "2 ^ (fls 4096 - 1) \<le> (4096::nat) \<and> (4096::nat) < 2 ^ fls 4096"
  using fls_highest_bit [of 4096] by simp

text \<open>The test of \<open>is_power_of_2\<close> is right for every 32-bit word.\<close>

theorem power_of_2_test: "is_power_of_2 n \<longleftrightarrow> (\<exists>k < 32. n = 2 ^ k)"
  by (rule is_power_of_2_iff)

text \<open>
  An error number comes back from an error pointer, and such a pointer is recognised as an
  error.
\<close>

theorem error_pointer_roundtrip:
  assumes "- MAX_ERRNO \<le> e" and "e < 0"
  shows "IS_ERR (ERR_PTR e) \<and> PTR_ERR (ERR_PTR e) = e"
  using IS_ERR_ERR_PTR [OF assms] PTR_ERR_ERR_PTR [OF assms] by blast

theorem error_pointer_roundtrip_witness: "IS_ERR (ERR_PTR (- 22)) \<and> PTR_ERR (ERR_PTR (- 22)) = - 22"
  by (rule error_pointer_roundtrip) (simp_all add: MAX_ERRNO_def)

end
