(* ===== verification/Bus3.thy ===== *)
theory Bus3
  imports Dbi_Bus Spi_Wire
begin

text \<open>
  Interface option 3 keeps the contract \<open>dbi_bus\<close>: the D/C line tells commands from data, and
  the bytes of a register write arrive as one command and its data, whatever the chunk size.
\<close>

section \<open>The receiver\<close>

text \<open>One transfer of an ioctl, with the D/C line at \<open>l\<close>.\<close>

definition xfer_items :: "bool \<Rightarrow> ioc_xfer \<Rightarrow> bytes \<Rightarrow> item list" where
  "xfer_items l x bs =
     (if ioc_tx_buf x \<noteq> Null then map (if l then Dat else Cmd) bs
      else if ioc_rx_buf x \<noteq> Null then []
      else [Pix l (ioc_tx_dma_fd x) (ioc_dma_offset x) (ioc_len x)])"

text \<open>\<open>fd\<close> is the descriptor of the D/C line.\<close>

fun run3 :: "int \<Rightarrow> bool \<Rightarrow> sysev list \<Rightarrow> bool \<times> item list" where
  "run3 fd l [] = (l, [])"
| "run3 fd l (Ev_write g s # es) = run3 fd (if g = fd then s \<noteq> ''0'' else l) es"
| "run3 fd l (Ev_spi g utr bss # es) =
     (case run3 fd l es of (l', xs) \<Rightarrow>
        (l', concat (map (\<lambda>(x, bs). xfer_items l x bs) (zip utr bss)) @ xs))"
| "run3 fd l (e # es) = run3 fd l es"

definition inv3 :: "os \<Rightarrow> int \<Rightarrow> state \<Rightarrow> bool" where
  "inv3 os fd w \<longleftrightarrow>
     spi_ready os w \<and> utinydrm (spi w) \<and> (\<exists>d. ms_dc (mspi w) = Some d \<and> gpio_fd d = fd) \<and>
     ram_reg (mspi w) = MIPI_DCS_WRITE_MEMORY_START \<and>
     0 < chunk_size (mspi w) \<and> chunk_size (mspi w) \<le> 153600 \<and>
     (\<forall>b. dma_blk b w \<longrightarrow> b < nblk w)"

lemma run3_append:
  "run3 fd l (es @ fs) =
     (case run3 fd l es of (l', a) \<Rightarrow> case run3 fd l' fs of (l'', b) \<Rightarrow> (l'', a @ b))"
  by (induction fd l es rule: run3.induct) (auto split: prod.splits)

text \<open>Events the display does not see.\<close>

definition other_ev :: "sysev \<Rightarrow> bool" where
  "other_ev e = (case e of Ev_write _ _ \<Rightarrow> False | Ev_spi _ _ _ \<Rightarrow> False | _ \<Rightarrow> True)"

lemma run3_other: "list_all other_ev es \<Longrightarrow> run3 fd l es = (l, [])"
  by (induction fd l es rule: run3.induct) (auto simp: other_ev_def)

lemma quiet_other: "quiet_ev e \<Longrightarrow> other_ev e"
  by (auto simp: quiet_ev_def other_ev_def split: sysev.splits)

lemma run3_quiet: "list_all quiet_ev es \<Longrightarrow> run3 fd l es = (l, [])"
  by (rule run3_other) (metis quiet_other list.pred_mono_strong)

lemma run3_plain:
  "list_all plain_ev es \<Longrightarrow>
   run3 fd l es = (l, map (if l then Dat else Cmd) (concat (spi_payloads es)))"
proof (induction es)
  case (Cons e es)
  then show ?case
    by (induction e rule: plain_ev.induct) (auto simp: xfer_items_def)
qed simp

section \<open>The DMA buffer\<close>

lemma syscall_nonneg:
  assumes "os_good os" and "\<And>r. ret_ok e r \<Longrightarrow> 0 \<le> r"
  shows "syscall os e w = Some (os_ret os (trace w @ [e]), log_ev e w)"
    and "os_ret os (trace w @ [e]) \<noteq> - 1"
  using syscall_ok [OF assms] assms(2) [OF os_goodD(2) [OF assms(1), of e "trace w"]] by simp_all

lemma bo_create_dumb_ok:
  assumes "os_good os"
  shows "\<exists>b w'. bo_create_dumb os fd width height bpp w = Some (Some b, w') \<and> evolves {} w w' \<and>
    list_all other_ev (new_evs w w') \<and> mspi w' = mspi w \<and> tx_buf w' = tx_buf w"
proof -
  let ?e = "Ev_create_dumb fd width height bpp"
  let ?w1 = "allocated 24 (replicate 24 0) w"
  have "ret_ok ?e (os_ret os (trace ?w1 @ [?e]))" using os_goodD(2) [OF assms] .
  then have s: "syscall os ?e ?w1 = Some (0, log_ev ?e ?w1)"
    by (simp add: syscall_def ret_ok_def Let_def log_evs_def)
  obtain b where "bo_create_dumb os fd width height bpp w = Some (Some b, log_ev ?e ?w1)"
    using s kzalloc_ok [OF assms, of 24 w]
    by (cases "os_dumb os (trace (log_ev ?e ?w1))") (auto simp: bo_create_dumb_def)
  moreover have "evolves {} w (log_ev ?e ?w1)" "new_evs w (log_ev ?e ?w1) = [Ev_alloc 24, ?e]"
    using evolves_trans [OF evolves_allocated evolves_log] by simp_all
  ultimately show ?thesis by (auto simp: other_ev_def)
qed

lemma utinydrm_create_dmabuf_ok:
  assumes "os_good os"
  shows "\<exists>d b w'. utinydrm_create_dmabuf os fd width height bpp w = Some (PObj d, w') \<and>
    dm_map d = Ptr b 0 \<and> nblk w \<le> b \<and> b < nblk w' \<and> evolves {} w w' \<and>
    list_all other_ev (new_evs w w') \<and> mspi w' = mspi w \<and> tx_buf w' = tx_buf w"
proof -
  let ?w1 = "allocated 16 (replicate 16 0) w"
  obtain bo w2 where bo: "bo_create_dumb os fd width height bpp ?w1 = Some (Some bo, w2)"
    "evolves {} ?w1 w2" "list_all other_ev (new_evs ?w1 w2)" "mspi w2 = mspi ?w1" "tx_buf w2 = tx_buf ?w1"
    using bo_create_dumb_ok [OF assms] by blast
  let ?e = "Ev_prime_to_fd fd (bo_handle bo) 2"
  let ?w3 = "log_ev ?e w2"
  let ?f = "os_prime_fd os (trace ?w3)"
  let ?m = "Ev_mmap ?f (bo_size bo) 3"
  let ?w4 = "log_ev ?m ?w3"
  let ?bs = "map (os_map os (trace ?w4)) [0..<bo_size bo]"
  let ?w5 = "?w4\<lparr>mem := (mem ?w4)(nblk ?w4 \<mapsto> ?bs), nblk := Suc (nblk ?w4)\<rparr>"
  have s: "syscall os ?e w2 = Some (os_ret os (trace w2 @ [?e]), ?w3)"
    "os_ret os (trace w2 @ [?e]) \<noteq> - 1"
    "syscall os ?m ?w3 = Some (os_ret os (trace ?w3 @ [?m]), ?w4)"
    "os_ret os (trace ?w3 @ [?m]) \<noteq> - 1"
    by (rule syscall_nonneg [OF assms]; simp add: ret_ok_def)+
  have mm: "sys_mmap os ?f (bo_size bo) 3 ?w3 = Some (Ptr (nblk w2) 0, ?w5)"
    using s(3,4) by (simp add: sys_mmap_def new_block_def)
  have "utinydrm_create_dmabuf os fd width height bpp w =
      Some (PObj \<lparr>dm_fd = ?f, dm_map = Ptr (nblk w2) 0, dm_map_size = bo_size bo\<rparr>, ?w5)"
    using bo(1) s(1,2) mm kzalloc_ok [OF assms, of 16 w]
    by (simp add: utinydrm_create_dmabuf_def Let_def)
  moreover have e1: "evolves {} w w2" "new_evs w w2 = [Ev_alloc 16] @ new_evs ?w1 w2"
    using evolves_trans [OF evolves_allocated bo(2)] by simp_all
  moreover have e2: "evolves {} w2 ?w4" "new_evs w2 ?w4 = [?e, ?m]"
    using evolves_log [of "{}" w2 "[?e, ?m]"] new_evs_log [of w2 "[?e, ?m]"] by simp_all
  moreover have e3: "evolves {} ?w4 ?w5" "new_evs ?w4 ?w5 = []"
    using evolves_new_block [of "{}" ?w4 "Some ?bs"] by (simp_all add: new_evs_def)
  moreover have "evolves {} w ?w5" "new_evs w ?w5 = [Ev_alloc 16] @ new_evs ?w1 w2 @ [?e, ?m]"
    using evolves_trans [OF evolves_trans(1) [OF e1(1) e2(1)] e3(1)]
      evolves_trans [OF e1(1) e2(1)] e1(2) e2(2) e3(2) by simp_all
  moreover have "nblk w \<le> nblk w2" using evolves_nblk [OF e1(1)] .
  ultimately show ?thesis
    using bo(3-5) by (intro exI) (auto simp: other_ev_def)
qed

lemma utinydrm_get_tx_buf_ok:
  assumes "os_good os" and "utinydrm (spi w)" and "len \<le> 153600"
  shows "\<exists>b d w'. utinydrm_get_tx_buf os len w = Some (Ptr b 0, w') \<and> tx_buf w' = PObj d \<and>
    dm_map d = Ptr b 0 \<and> b < nblk w' \<and> evolves {} w w' \<and> list_all other_ev (new_evs w w') \<and>
    mspi w' = mspi w"
proof -
  obtain d b w1 where d: "utinydrm_create_dmabuf os (udev_control_fd w) 320 240 16 w = Some (PObj d, w1)"
    "dm_map d = Ptr b 0" "nblk w \<le> b" "b < nblk w1" "evolves {} w w1"
    "list_all other_ev (new_evs w w1)" "mspi w1 = mspi w"
    using utinydrm_create_dmabuf_ok [OF assms(1)] by blast
  let ?w = "w1\<lparr>tx_buf := PObj d\<rparr>"
  have "utinydrm_get_tx_buf os len w = Some (Ptr b 0, ?w)"
    using assms(2,3) d(1,2) by (simp add: utinydrm_get_tx_buf_def not_less)
  moreover have "evolves {} w ?w"
    using d(2,3,5) by (auto simp: evolves_def dma_blk_def same_dev_def new_evs_def)
  moreover have "new_evs w ?w = new_evs w w1" by (simp add: new_evs_def)
  ultimately show ?thesis using d by (intro exI) auto
qed

section \<open>The contract\<close>

lemma inv3_evolves:
  assumes "inv3 os fd w" and "evolves X w w'" and "\<And>e. tx_buf w' \<noteq> PErr e"
    and "\<And>b. dma_blk b w' \<Longrightarrow> nblk w \<le> b \<Longrightarrow> b < nblk w'"
  shows "inv3 os fd w'"
proof -
  have d: "b < nblk w'" if b: "dma_blk b w'" for b
  proof (cases "nblk w \<le> b")
    case True
    with assms(4) b show ?thesis by blast
  next
    case False
    with evolves_nblk [OF assms(2)] show ?thesis by simp
  qed
  show ?thesis
    using assms(1,3) d same_devD [OF evolves_same_dev [OF assms(2)]]
    by (simp add: inv3_def spi_ready_def)
qed

lemma inv3_mspi: "inv3 os fd (w\<lparr>mspi := (mspi w)\<lparr>ms_tx_buf := p\<rparr>\<rparr>) = inv3 os fd w"
  by (simp add: inv3_def spi_ready_def)

lemma dma_blk_new_tx: "tx_buf w' = PObj d \<Longrightarrow> same_dev w w' \<Longrightarrow> dma_blk b w' \<Longrightarrow>
    dma_blk b w \<or> blk_of (dm_map d) = Some b"
  by (auto simp: dma_blk_def same_dev_def)

definition spi3_prep :: "os \<Rightarrow> state \<Rightarrow> (unit \<times> state) option" where
  "spi3_prep os w =
     (if ms_tx_buf (mspi w) = Null
      then do {
        (p, w) \<leftarrow> utinydrm_get_tx_buf os (chunk_size (mspi w)) w;
        Some ((), w\<lparr>mspi := (mspi w)\<lparr>ms_tx_buf := p\<rparr>\<rparr>) }
      else Some ((), w))"

lemma spi3_prep_ok:
  assumes "inv3 os fd w"
  shows "\<exists>w'. spi3_prep os w = Some ((), w') \<and> inv3 os fd w' \<and> ms_tx_buf (mspi w') \<noteq> Null \<and>
    evolves {} w w' \<and> list_all other_ev (new_evs w w')"
proof (cases "ms_tx_buf (mspi w) = Null")
  case False
  with assms show ?thesis by (simp add: spi3_prep_def)
next
  case True
  obtain b d w1 where t: "utinydrm_get_tx_buf os (chunk_size (mspi w)) w = Some (Ptr b 0, w1)"
    "tx_buf w1 = PObj d" "dm_map d = Ptr b 0" "b < nblk w1" "evolves {} w w1"
    "list_all other_ev (new_evs w w1)" "mspi w1 = mspi w"
    using utinydrm_get_tx_buf_ok [of os w "chunk_size (mspi w)"] assms
    by (auto simp: inv3_def spi_ready_def)
  let ?w = "w1\<lparr>mspi := (mspi w1)\<lparr>ms_tx_buf := Ptr b 0\<rparr>\<rparr>"
  have "c < nblk w1" if c: "dma_blk c w1" "nblk w \<le> c" for c
    using dma_blk_new_tx [OF t(2) evolves_same_dev [OF t(5)] c(1)] t(3,4) c(2) assms
    by (auto simp: inv3_def)
  then have "inv3 os fd w1"
    using t(2) by (intro inv3_evolves [OF assms t(5)]) auto
  then have "inv3 os fd ?w" by (simp add: inv3_mspi)
  moreover have "evolves {} w ?w" "new_evs w ?w = new_evs w w1"
    using t(5) by (auto simp: evolves_def new_evs_def same_dev_def)
  moreover have "spi3_prep os w = Some ((), ?w)" using t(1) True by (simp add: spi3_prep_def)
  ultimately show ?thesis using t(6) by auto
qed

lemma dec_string_01: "dec_string 0 = ''0''" "dec_string 1 = ''1''"
  by (code_simp, code_simp)

lemma gpiod_set_value_ok:
  assumes "os_good os"
  shows "gpiod_set_value_cansleep os d v w =
    Some ((), log_ev (Ev_write (gpio_fd d) (if v \<noteq> 0 then ''1'' else ''0'')) w)"
  using assms dec_string_01 by (simp add: gpiod_set_value_cansleep_def)

lemma set_dc_ok:
  assumes "inv3 os fd w"
  shows "set_dc os v w = Some ((), log_ev (Ev_write fd (if v \<noteq> 0 then ''1'' else ''0'')) w)"
  using assms
  by (auto simp: inv3_def spi_ready_def set_dc_def gpiod_set_value_ok)

lemma inv3_log: "inv3 os fd w \<Longrightarrow> inv3 os fd (log_evs es w)"
  by (simp add: inv3_def)

lemma plain_cmd_width: "plain_cmd c \<Longrightarrow> ram = MIPI_DCS_WRITE_MEMORY_START \<Longrightarrow> reg_val_width c ram = 8"
  by (simp add: plain_cmd_def reg_val_width_def)

lemma spi3_sends:
  assumes i: "inv3 os fd w" and p: "priv p w" "priv q w"
    and ld: "load w p 1 = Some [c]" "load w q n = Some ps"
    and sup: "reg_val_width c (ram_reg (mspi w)) = 8 \<or> tinydrm_spi_bpw_supported (spi w) 16"
  shows "wp (mipi_dbi_spi3_gather_write os p 1 q n w) (\<lambda>r w'. r = 0 \<and> inv3 os fd w' \<and> evolves {} w w' \<and>
    (\<forall>l. snd (run3 fd l (new_evs w w')) = Cmd c # map Dat ps))"
proof -
  obtain w1 where w1: "spi3_prep os w = Some ((), w1)" "inv3 os fd w1" "ms_tx_buf (mspi w1) \<noteq> Null"
    "evolves {} w w1" "list_all other_ev (new_evs w w1)"
    using spi3_prep_ok [OF i] by blast
  have dev: "same_dev w w1" using w1(4) by (rule evolves_same_dev)
  have q1: "priv p w1" "priv q w1" "load w1 p 1 = Some [c]" "load w1 q n = Some ps"
    using p ld w1(4) by (auto intro: priv_evolves load_evolves)
  have rdy: "spi_ready os w1" "0 < unat (chunk_size (mspi w1))"
    using w1(2) by (auto simp: inv3_def unat_gt_0 word_gt_0)
  let ?tx = "ms_tx_buf (mspi w1)" and ?mc = "unat (chunk_size (mspi w1))"
  let ?d0 = "Ev_write fd ''0''" and ?d1 = "Ev_write fd ''1''"
  obtain es where es: "tinydrm_spi_transfer os 0 None 8 p 1 ?tx ?mc (log_ev ?d0 w1) =
      Some (0, log_evs es (log_ev ?d0 w1))"
    "list_all plain_ev es" "spi_payloads es = chunks ?mc [c]"
    using tinydrm_spi_transfer_priv [of os "log_ev ?d0 w1" p 1 "[c]" ?mc 8] rdy q1 by auto
  have c1: "concat (spi_payloads es) = [c]"
    using es(3) rdy(2) by (simp add: concat_chunks)
  let ?w2 = "log_evs (?d0 # es) w1"
  show ?thesis
  proof (cases "n = 0")
    case True
    have "mipi_dbi_spi3_gather_write os p 1 q n w = Some (0, ?w2)"
      using w1(1,3) q1(3) es(1) True set_dc_ok [OF w1(2), of 0]
      by (simp add: mipi_dbi_spi3_gather_write_def spi3_prep_def)
    moreover have "evolves {} w ?w2" "new_evs w ?w2 = new_evs w w1 @ ?d0 # es"
      using evolves_trans [OF w1(4) evolves_log] by simp_all
    moreover have "snd (run3 fd l (new_evs w w1 @ ?d0 # es)) = [Cmd c]" for l
      using run3_other [OF w1(5)] run3_plain [OF es(2)] c1 by (simp add: run3_append)
    ultimately show ?thesis
      using inv3_log [OF w1(2)] True load_0_len [OF ld(2)] by simp
  next
    case False
    let ?bpw = "of_nat (reg_val_width c (ram_reg (mspi w1))) :: u8"
    have bpw: "?bpw = 8 \<or> ?bpw = 16 \<and> tinydrm_spi_bpw_supported (spi w1) 16"
      using sup same_devD [OF dev] by (auto simp: reg_val_width_def)
    obtain fs where fs: "tinydrm_spi_transfer os 0 None ?bpw q n ?tx ?mc (log_ev ?d1 ?w2) =
        Some (0, log_evs fs (log_ev ?d1 ?w2))"
      "list_all plain_ev fs" "spi_payloads fs = chunks ?mc ps"
      using tinydrm_spi_transfer_priv [of os "log_ev ?d1 ?w2" q n ps ?mc ?bpw] rdy q1 bpw by auto
    have c2: "concat (spi_payloads fs) = ps"
      using fs(3) rdy(2) by (simp add: concat_chunks)
    let ?w3 = "log_evs ((?d0 # es) @ ?d1 # fs) w1"
    have "q \<noteq> Null" using q1(2) by auto
    then have "mipi_dbi_spi3_gather_write os p 1 q n w = Some (0, ?w3)"
      using w1(1,3) q1(3) es(1) fs(1) False set_dc_ok [OF w1(2), of 0]
        set_dc_ok [OF inv3_log [OF w1(2)], of 1]
      by (simp add: mipi_dbi_spi3_gather_write_def spi3_prep_def)
    moreover have "evolves {} w ?w3" "new_evs w ?w3 = new_evs w w1 @ (?d0 # es) @ ?d1 # fs"
      using evolves_trans [OF w1(4) evolves_log] by simp_all
    moreover have "snd (run3 fd l (new_evs w w1 @ (?d0 # es) @ ?d1 # fs)) = Cmd c # map Dat ps" for l
      using run3_other [OF w1(5)] run3_plain [OF es(2)] run3_plain [OF fs(2)] c1 c2
      by (simp add: run3_append)
    ultimately show ?thesis
      using inv3_log [OF w1(2)] by simp
  qed
qed

interpretation b3: dbi_bus os "mipi_dbi_spi3_write os" "mipi_dbi_spi3_gather_write os" "inv3 os fd"
    "\<lambda>_. True" "run3 fd"
  for os fd
proof
  fix w w' :: state
  show "inv3 os fd w \<Longrightarrow> nblk w \<le> nblk w' \<Longrightarrow> same_dev w w' \<Longrightarrow> mspi w' = mspi w \<Longrightarrow>
      tx_buf w' = tx_buf w \<Longrightarrow> inv3 os fd w'"
    unfolding inv3_def spi_ready_def dma_blk_def using same_devD(1,3) [of w w']
    by (auto intro: order_less_le_trans)
next
  fix p q :: ptr and w :: state and c n ps
  show "inv3 os fd w \<Longrightarrow> priv p w \<Longrightarrow> priv q w \<Longrightarrow> load w p 1 = Some [c] \<Longrightarrow> load w q n = Some ps \<Longrightarrow>
      plain_cmd c \<Longrightarrow> wp (mipi_dbi_spi3_gather_write os p 1 q n w) (\<lambda>r w'. r = 0 \<and> inv3 os fd w' \<and>
        evolves {} w w' \<and> (\<forall>l. snd (run3 fd l (new_evs w w')) = Cmd c # map Dat ps))"
    using spi3_sends plain_cmd_width by (simp add: inv3_def)
next
  show "list_all quiet_ev es \<Longrightarrow> run3 fd l es = (l, [])" for es l by (rule run3_quiet)
qed (auto simp: inv3_def spi_ready_def mipi_dbi_spi3_write_def size_pred_def run3_append)

end
