(* ===== verification/Panel_Seq.thy ===== *)
theory Panel_Seq
  imports Bus3
begin

text \<open>
  The panel on interface option 3: reading the power mode, the commands of
  \<open>mi0283qt_enable\<close> as the display receives them, and turning the pipe off.
\<close>

section \<open>A panel that is set up\<close>

definition bus3_ready :: "os \<Rightarrow> int \<Rightarrow> regmap \<Rightarrow> nat \<Rightarrow> state \<Rightarrow> bool" where
  "bus3_ready os fd m wb w \<longleftrightarrow>
     inv3 os fd w \<and> rm_shape (mipi_dbi_spi3_write os) (mipi_dbi_spi3_gather_write os) m \<and>
     rm_buf m wb w \<and> bus m = Some (mipi_dbi_regmap_bus3 os) \<and> max_raw_read m = 0 \<and>
     reg_stride m = 1 \<and> read_flag_mask m = 0 \<and> \<not> write_only (mspi w) \<and>
     (\<forall>d. reset_gpio (mipi w) = Some d \<longrightarrow> gpio_fd d \<noteq> fd) \<and>
     (\<forall>d. backlight (mipi w) = Some d \<longrightarrow> gpio_fd d \<noteq> fd)"

text \<open>The items the display receives between two states, whatever the D/C line was before.\<close>

definition shows3 :: "int \<Rightarrow> state \<Rightarrow> state \<Rightarrow> item list \<Rightarrow> bool" where
  "shows3 fd w w' xs \<longleftrightarrow> (\<forall>l. snd (run3 fd l (new_evs w w')) = xs)"

text \<open>A step of the driver that keeps the panel set up and delivers \<open>xs\<close>.\<close>

definition panel_step :: "os \<Rightarrow> int \<Rightarrow> regmap \<Rightarrow> nat \<Rightarrow> item list \<Rightarrow> state \<Rightarrow> state \<Rightarrow> bool" where
  "panel_step os fd m wb xs w w' \<longleftrightarrow>
     bus3_ready os fd m wb w' \<and> evolves {wb} w w' \<and> shows3 fd w w' xs"

lemma bus3_ready_b3: "bus3_ready os fd m wb w \<Longrightarrow> b3.ready os fd m wb w"
  by (simp add: bus3_ready_def b3.ready_def)

lemma b3_panel_step:
  assumes "bus3_ready os fd m wb w" and "b3.step os fd m wb {} xs w w'"
  shows "panel_step os fd m wb xs w w'"
proof -
  have "same_dev w w'" using assms(2) by (auto simp: b3.step_def dest: evolves_same_dev)
  note same_devD [OF this]
  then show ?thesis
    using assms by (simp add: bus3_ready_def b3.step_def b3.ready_def b3.says_def shows3_def panel_step_def)
qed

lemma panel_step_trans:
  assumes "panel_step os fd m wb xs w w'" and "panel_step os fd m wb ys w' w''"
  shows "panel_step os fd m wb (xs @ ys) w w''"
proof -
  have "evolves {wb} w w'" "evolves {wb} w' w''" using assms by (simp_all add: panel_step_def)
  note t = evolves_trans [OF this]
  have "shows3 fd w w'' (xs @ ys)"
    using assms unfolding shows3_def panel_step_def t(2) run3_append
    by (auto split: prod.splits) (metis snd_conv)
  with t(1) assms(2) show ?thesis by (simp add: panel_step_def)
qed

lemma panel_step_ready: "panel_step os fd m wb xs w w' \<Longrightarrow> bus3_ready os fd m wb w'"
  by (simp add: panel_step_def)

lemma panel_step_dev: "panel_step os fd m wb xs w w' \<Longrightarrow> same_dev w w'"
  unfolding panel_step_def by (blast dest: evolves_same_dev)

lemma panel_step_log:
  assumes "bus3_ready os fd m wb w" and "\<And>l. run3 fd l es = (l, [])"
  shows "panel_step os fd m wb [] w (log_evs es w)"
  using assms by (simp add: panel_step_def shows3_def bus3_ready_def inv3_log rm_buf_def)

lemma panel_cmd:
  assumes "bus3_ready os fd m wb w" and "plain_cmd c"
  shows "wp (mipi_dbi_write os m (ucast c) ps w)
    (\<lambda>r w'. r = 0 \<and> panel_step os fd m wb (Cmd c # map Dat ps) w w')"
  by (rule wp_weaken [OF b3.write_cmd [OF bus3_ready_b3 [OF assms(1)] assms(2) TrueI]])
    (simp add: b3_panel_step [OF assms(1)])

lemma panel_cmds:
  assumes "bus3_ready os fd m wb w" and "\<forall>(c, ps) \<in> set cs. plain_cmd (ucast c) \<and> c = ucast (ucast c :: u8)"
  shows "\<exists>w'. write_all os m cs w = Some ((), w') \<and> panel_step os fd m wb (cmd_items cs) w w'"
proof -
  have "\<forall>(c, ps) \<in> set cs. plain_cmd (ucast c) \<and> c = ucast (ucast c :: u8) \<and> True"
    using assms(2) by auto
  then show ?thesis
    using wp_weaken [OF b3.write_all_cmds [OF bus3_ready_b3 [OF assms(1)]] b3_panel_step [OF assms(1)]]
    by (auto simp: wp_iff)
qed

section \<open>Reading a register\<close>

lemma spi_sync_send_read:
  assumes good: "os_good os" and u: "ioc_tx_buf u = p" "p \<noteq> Null" "ioc_rx_buf u = Null" "ioc_len u = 1"
    and p: "load w p 1 = Some [c]" and t: "tr_rx_buf t = Ptr b 0" "tr_len t = n"
    and b: "mem w b = Some bs" "length bs = n"
  shows "\<exists>f sp. spi_sync_send os u [t] w =
      Some (0, (log_evs [Ev_open spidev, Ev_spi f sp [[c], []], Ev_close f] w)\<lparr>mem := (mem w)(b \<mapsto>
          map (os_rx os (trace w @ [Ev_open spidev, Ev_spi f sp [[c], []]])) [0..<n])\<rparr>) \<and>
      (\<exists>x y. sp = [x, y] \<and> ioc_tx_buf x \<noteq> Null \<and> ioc_tx_buf y = Null \<and> ioc_rx_buf y \<noteq> Null)"
proof -
  define u0 where "u0 = (if ioc_speed_hz u = 0 then u\<lparr>ioc_speed_hz := max_speed_hz (spi w)\<rparr> else u)"
  define t0 where "t0 = spi_ioc_second t"
  define f where "f = os_ret os (trace w @ [Ev_open spidev])"
  define es where "es = [Ev_open spidev, Ev_spi f [u0, t0] [[c], []]]"
  define bs' where "bs' = map (os_rx os (trace w @ es)) [0..<n]"
  define w2 where "w2 = (log_evs es w)\<lparr>mem := (mem w)(b \<mapsto> bs')\<rparr>"
  have u0: "ioc_tx_buf u0 = p" "ioc_rx_buf u0 = Null" "ioc_len u0 = 1"
    using u by (auto simp: u0_def)
  have t0: "ioc_tx_buf t0 = Null" "ioc_rx_buf t0 = Ptr b 0" "ioc_len t0 = n"
    using t by (simp_all add: t0_def spi_ioc_second_def)
  have "payloads (log_ev (Ev_open spidev) w) [u0, t0] = Some [[c], []]"
    using u0 t0 u(2) p by simp
  moreover have "store_rx (os_rx os (trace w @ es)) [u0, t0] (log_evs es w) = Some ((), w2)"
    using u0(2) t0 b by (simp add: w2_def bs'_def)
  moreover have "1 \<le> os_ret os (trace w @ es)"
    using os_good_spi [OF good, of "trace w @ [Ev_open spidev]"] by (simp add: es_def)
  ultimately have io: "spi_ioctl os f [u0, t0] (log_ev (Ev_open spidev) w) =
      Some (os_ret os (trace w @ es), w2)"
    using good by (simp add: spi_ioctl_def es_def del: payloads.simps store_rx.simps)
  have cl: "syscall os (Ev_close f) w2 = Some (os_ret os (trace w2 @ [Ev_close f]), log_ev (Ev_close f) w2)"
    using good by simp
  have "\<not> f < 0" using os_good_open [OF good] by (simp add: f_def)
  moreover have "\<not> os_ret os (trace w @ es) < 1"
    using os_good_spi [OF good, of "trace w @ [Ev_open spidev]"] by (simp add: es_def not_less)
  ultimately have "spi_sync_send os u [t] w = Some (0, log_ev (Ev_close f) w2)"
    using io cl good unfolding spi_sync_send_def u0_def [symmetric] t0_def [symmetric] Let_def
    by (simp add: f_def [symmetric] t0_def [symmetric])
  moreover have "log_ev (Ev_close f) w2 = (log_evs [Ev_open spidev, Ev_spi f [u0, t0] [[c], []], Ev_close f] w)
      \<lparr>mem := (mem w)(b \<mapsto> map (os_rx os (trace w @ [Ev_open spidev, Ev_spi f [u0, t0] [[c], []]])) [0..<n])\<rparr>"
    by (simp add: w2_def bs'_def es_def log_evs_def)
  ultimately show ?thesis using u0 t0 u(2) by (intro exI [of _ f] exI [of _ "[u0, t0]"]) simp
qed

lemma spi_sync_read:
  assumes rdy: "spi_ready os w" and p: "priv p w" "load w p 1 = Some [c]"
    and b: "mem w b = Some bs" "length bs = n"
    and t: "tr_tx_buf t1 = p" "tr_rx_buf t1 = Null" "tr_len t1 = 1" "tr_rx_buf t2 = Ptr b 0" "tr_len t2 = n"
  shows "\<exists>f sp. spi_sync os (spi_message_init_with_transfers [t1, t2]) w =
      Some ((0, [t1, t2]), (log_evs [Ev_open spidev, Ev_spi f sp [[c], []], Ev_close f] w)\<lparr>mem := (mem w)(b \<mapsto>
          map (os_rx os (trace w @ [Ev_open spidev, Ev_spi f sp [[c], []]])) [0..<n])\<rparr>) \<and>
      (\<exists>x y. sp = [x, y] \<and> ioc_tx_buf x \<noteq> Null \<and> ioc_tx_buf y = Null \<and> ioc_rx_buf y \<noteq> Null)"
proof -
  have good: "os_good os" using rdy by (simp add: spi_ready_def)
  have pv: "private_ptr p w" using rdy p(1) by (intro priv_private_ptr) (simp_all add: spi_ready_def)
  then have none: "find (\<lambda>u. ptr_in p (fb_map u) (fb_map_size u)) (fbs w) = None"
    by (auto simp: private_ptr_def find_None_iff)
  have nn: "p \<noteq> Null" using p(1) by auto
  have m: "spi_message_init_with_transfers [t1, t2] = [t1, t2]"
    by (simp add: spi_message_init_with_transfers_def)
  obtain r where r: "spi_sync_send os (spi_ioc_first t1) [t2] w = r" by simp
  have "spi_sync os [t1, t2] w = map_option (\<lambda>(r, w). ((r, [t1, t2]), w)) r"
    using none pv rdy r t(1)
    by (auto simp: spi_sync_def spi_ready_def private_ptr_def map_option_case split: errptr.splits option.splits)
  then show ?thesis
    using spi_sync_send_read [OF good _ nn _ _ p(2) t(4,5) b, of "spi_ioc_first t1"] r t(1,3)
    by (auto simp: m spi_ioc_first_def)
qed

lemma length_shift_reply [simp]: "length (shift_reply bs) = length bs - 1"
  by (induction bs rule: shift_reply.induct) simp_all

definition dummy_cmd :: "u8 \<Rightarrow> bool" where
  "dummy_cmd c \<longleftrightarrow> (ucast c :: u32) = MIPI_DCS_GET_DISPLAY_ID \<or> (ucast c :: u32) = MIPI_DCS_GET_DISPLAY_STATUS"

text \<open>The bytes received and the value made of them.\<close>

definition reply_value :: "u8 \<Rightarrow> nat \<Rightarrow> (nat \<Rightarrow> u8) \<Rightarrow> bytes" where
  "reply_value c n rx =
     (if dummy_cmd c then shift_reply (map rx [0..<n + 1]) else map rx [0..<n])"

lemma length_reply_value [simp]: "length (reply_value c n rx) = n"
  by (simp add: reply_value_def)

lemma spi3_read_ok:
  assumes i: "inv3 os fd w" and wo: "\<not> write_only (mspi w)"
    and p: "priv p w" "load w p 1 = Some [c]"
    and v: "mem w v = Some vs" "n \<le> length vs" "v < nblk w"
    and n: "dummy_cmd c \<longrightarrow> n = 3 \<or> n = 4"
  shows "\<exists>h w'. mipi_dbi_spi3_read os p 1 (Ptr v 0) n w = Some (0, w') \<and>
    mem w' v = Some (reply_value c n (os_rx os h) @ drop n vs) \<and> inv3 os fd w' \<and> evolves {v} w w' \<and>
    shows3 fd w w' [Cmd c]"
proof -
  let ?b = "nblk w" and ?k = "if dummy_cmd c then n + 1 else n"
  have good: "os_good os" using i by (simp add: inv3_def spi_ready_def)
  obtain bs where bs: "length bs = ?k" "kmalloc os ?k w = Some (Ptr ?b 0, allocated ?k bs w)"
    using kmalloc_ok [OF good] .
  let ?d0 = "Ev_write fd ''0''"
  let ?w1 = "log_ev ?d0 (allocated ?k bs w)"
  have i1: "inv3 os fd (allocated ?k bs w)"
    using i by (intro inv3_evolves [OF i evolves_allocated]) (auto simp: inv3_def spi_ready_def)
  have dc: "set_dc os 0 (allocated ?k bs w) = Some ((), ?w1)"
    using set_dc_ok [OF i1, of 0] by simp
  have p1: "priv p ?w1" "load ?w1 p 1 = Some [c]"
    using priv_evolves [OF p(1) evolves_allocated [of "{}"]]
      load_evolves [OF p(2) evolves_allocated [of "{}"] p(1)] by simp_all
  have rdy: "spi_ready os ?w1" using i1 by (simp add: inv3_def)
  define sp where "sp = kmin 2000000 (max_speed_hz (spi w) div 2)"
  let ?t1 = "zero_transfer\<lparr>tr_speed_hz := sp, tr_tx_buf := p, tr_len := 1\<rparr>"
  let ?t2 = "zero_transfer\<lparr>tr_speed_hz := sp, tr_len := ?k, tr_rx_buf := Ptr ?b 0\<rparr>"
  let ?m = "spi_message_init_with_transfers [?t1, ?t2]"
  have b1: "mem ?w1 ?b = Some bs" by simp
  obtain f x y where sync: "spi_sync os ?m ?w1 = Some ((0, [?t1, ?t2]),
      (log_evs [Ev_open spidev, Ev_spi f [x, y] [[c], []], Ev_close f] ?w1)\<lparr>mem := (mem ?w1)(?b \<mapsto>
          map (os_rx os (trace ?w1 @ [Ev_open spidev, Ev_spi f [x, y] [[c], []]])) [0..<?k])\<rparr>)"
    and xy: "ioc_tx_buf x \<noteq> Null" "ioc_tx_buf y = Null" "ioc_rx_buf y \<noteq> Null"
    using spi_sync_read [OF rdy p1 b1 bs(1), of ?t1 ?t2] by auto
  define rx where "rx = os_rx os (trace ?w1 @ [Ev_open spidev, Ev_spi f [x, y] [[c], []]])"
  define es where "es = [Ev_open spidev, Ev_spi f [x, y] [[c], []], Ev_close f]"
  let ?w2 = "(log_evs es ?w1)\<lparr>mem := (mem ?w1)(?b \<mapsto> map rx [0..<?k])\<rparr>"
  let ?y = "reply_value c n rx"
  let ?w3 = "?w2\<lparr>mem := (mem ?w2)(v \<mapsto> ?y @ drop n vs)\<rparr>"
  have ld: "load ?w2 (Ptr ?b 0) ?k = Some (map rx [0..<?k])" by simp
  have yv: "(if dummy_cmd c then shift_reply (map rx [0..<?k]) else map rx [0..<?k]) = ?y"
    by (simp add: reply_value_def)
  have vb: "v \<noteq> ?b" using v(3) by simp
  have st: "store (Ptr v 0) ?y ?w2 = Some ((), ?w3)"
    using v vb by simp
  have fr: "kfree (Ptr ?b 0) ?w3 = Some ((), freed ?b ?w3)"
    using vb by (intro kfree_ok) simp
  have "mipi_dbi_spi3_read os p 1 (Ptr v 0) n w = Some (0, freed ?b ?w3)"
    unfolding mipi_dbi_spi3_read_def dummy_cmd_def [symmetric] sp_def [symmetric] Let_def
    using p(2) wo n bs(2) dc sync [folded es_def rx_def] ld st fr yv
    by (simp del: load.simps store.simps kfree.simps kmin_eq_min)
  moreover have "mem (freed ?b ?w3) v = Some (?y @ drop n vs)" using vb by simp
  moreover have ev: "evolves {v} w (freed ?b ?w3)"
    and ne: "new_evs w (freed ?b ?w3) = [Ev_alloc ?k] @ [?d0] @ es @ [Ev_free ?b]"
  proof -
    have e1: "evolves ({v} \<union> {?b}) w (log_evs es ?w1)" "new_evs w (log_evs es ?w1) = [Ev_alloc ?k] @ [?d0] @ es"
      using evolves_trans [OF evolves_allocated evolves_log [of "{v} \<union> {?b}" _ "?d0 # es"]] by simp_all
    have e2: "evolves ({v} \<union> {?b}) (log_evs es ?w1) ?w3" "new_evs (log_evs es ?w1) ?w3 = []"
      by (auto simp: evolves_def new_evs_def same_dev_def)
    have e3: "evolves ({v} \<union> {?b}) ?w3 (freed ?b ?w3)" by (rule evolves_freed) simp
    note t = evolves_trans [OF evolves_trans(1) [OF e1(1) e2(1)] e3]
    show "evolves {v} w (freed ?b ?w3)" by (rule evolves_fresh_drop [OF t(1)]) simp
    show "new_evs w (freed ?b ?w3) = [Ev_alloc ?k] @ [?d0] @ es @ [Ev_free ?b]"
      using t(2) evolves_trans(2) [OF e1(1) e2(1)] e1(2) e2(2) by simp
  qed
  moreover have "inv3 os fd (freed ?b ?w3)"
    by (rule inv3_evolves [OF i ev]) (use i in \<open>auto simp: inv3_def spi_ready_def freed_def dma_blk_def\<close>)
  moreover have "shows3 fd w (freed ?b ?w3) [Cmd c]"
    unfolding shows3_def ne using xy by (simp add: es_def xfer_items_def)
  ultimately show ?thesis unfolding rx_def by blast
qed

section \<open>Is the display on?\<close>

definition power_mode_on :: "u8 \<Rightarrow> bool" where
  "power_mode_on v \<longleftrightarrow> v AND NOT DCS_POWER_MODE_RESERVED_MASK = DCS_POWER_MODE_ON"

lemma reg_read_ok:
  assumes r: "bus3_ready os fd m wb w" and v: "mem w v = Some vs" "n \<le> length vs" "v < nblk w" "v \<noteq> wb"
    and c: "0 < n" "dummy_cmd c \<longrightarrow> n = 3 \<or> n = 4"
  shows "\<exists>h w'. regmap_raw_read m (ucast c) (Ptr v 0) n w = Some (0, w') \<and>
    mem w' v = Some (reply_value c n (os_rx os h) @ drop n vs) \<and> bus3_ready os fd m wb w' \<and> evolves {wb, v} w w' \<and>
    shows3 fd w w' [Cmd c]"
proof -
  from r obtain a b where m: "rm_shape (mipi_dbi_spi3_write os) (mipi_dbi_spi3_gather_write os) m"
    "work_buf m = Ptr wb 0" "mem w wb = Some [a, b]" "wb < nblk w" "\<not> dma_blk wb w"
    by (auto simp: bus3_ready_def rm_buf_def)
  let ?w1 = "w\<lparr>mem := (mem w)(wb \<mapsto> [c, b])\<rparr>"
  have fmt: "call_format (format_reg m) (Ptr wb 0) (ucast c) 0 w = Some ((), ?w1)"
    using m by (simp add: call_format_def rm_shape_def regmap_format_8_def)
  have i1: "inv3 os fd ?w1" using r by (simp add: bus3_ready_def inv3_def spi_ready_def)
  have "\<not> write_only (mspi ?w1)" using r by (simp add: bus3_ready_def)
  moreover have "priv (Ptr wb 0) ?w1" using m by (simp add: priv_def)
  moreover have "load ?w1 (Ptr wb 0) 1 = Some [c]" by simp
  moreover have "mem ?w1 v = Some vs" using v by simp
  ultimately obtain h w2 where w2: "mipi_dbi_spi3_read os (Ptr wb 0) 1 (Ptr v 0) n ?w1 = Some (0, w2)"
    "mem w2 v = Some (reply_value c n (os_rx os h) @ drop n vs)" "inv3 os fd w2" "evolves {v} ?w1 w2"
    "shows3 fd ?w1 w2 [Cmd c]"
    using spi3_read_ok [OF i1, of "Ptr wb 0" c v vs n] v c by auto
  have e1: "evolves {wb, v} w ?w1" "new_evs w ?w1 = []"
    using evolves_mem_upd [of wb "{wb, v}" w "Some [c, b]"] by simp_all
  note t = evolves_trans [OF e1(1) evolves_mono [OF w2(4)]]
  have ev: "evolves {wb, v} w w2" and ne: "new_evs w w2 = new_evs ?w1 w2" using t e1(2) by simp_all
  have "mem w2 wb = Some [c, b]" using evolves_mem [OF w2(4), of wb] m v by simp
  moreover have "wb < nblk w2" using m(4) evolves_nblk [OF ev] by simp
  moreover have "\<not> dma_blk wb w2" using evolves_dma [OF ev] m by blast
  ultimately have "rm_buf m wb w2" using m by (simp add: rm_buf_def)
  then have "bus3_ready os fd m wb w2"
    using r w2(3) same_devD [OF evolves_same_dev [OF ev]] by (simp add: bus3_ready_def)
  moreover have "regmap_raw_read m (ucast c) (Ptr v 0) n w = Some (0, w2)"
    using r m fmt w2(1) c(1)
    by (auto simp: regmap_raw_read_def regmap_raw_read_bus_def bus3_ready_def rm_shape_def
        mipi_dbi_regmap_bus3_def regmap_set_work_buf_flag_mask_def IS_ALIGNED_def Let_def)
  moreover have "shows3 fd w w2 [Cmd c]" using w2(5) ne by (simp add: shows3_def)
  ultimately show ?thesis
    using w2(2) ev c by (intro exI [of _ h] exI [of _ w2]) simp
qed

lemma display_is_on_ok:
  assumes r: "bus3_ready os fd m wb w"
  shows "\<exists>h w'. mipi_dbi_display_is_on os m w = Some (power_mode_on (os_rx os h 0), w') \<and>
    panel_step os fd m wb [Cmd 0x0A] w w'"
proof -
  let ?d = "nblk w"
  let ?j = "os_junk os (trace w) 0"
  let ?w1 = "w\<lparr>mem := (mem w)(?d \<mapsto> [?j]), nblk := Suc ?d\<rparr>"
  have wb: "wb < ?d" using r by (simp add: bus3_ready_def rm_buf_def)
  have "inv3 os fd ?w1"
    using r by (auto simp: bus3_ready_def inv3_def spi_ready_def intro: less_SucI)
  then have r1: "bus3_ready os fd m wb ?w1"
    using r by (simp add: bus3_ready_def rm_buf_def)
  have e1: "evolves {wb, ?d} w ?w1" "new_evs w ?w1 = []" by (simp_all add: evolves_new_block)
  have "\<not> dummy_cmd 0x0A" by (simp add: dummy_cmd_def)
  then obtain h w2 where w2: "regmap_raw_read m (ucast (0x0A :: u8)) (Ptr ?d 0) 1 ?w1 = Some (0, w2)"
    "mem w2 ?d = Some [os_rx os h 0]" "bus3_ready os fd m wb w2" "evolves {wb, ?d} ?w1 w2"
    "shows3 fd ?w1 w2 [Cmd 0x0A]"
    using reg_read_ok [OF r1, of ?d "[?j]" 1 "0x0A"] wb by (auto simp: reply_value_def)
  let ?w3 = "w2\<lparr>mem := (mem w2)(?d := None)\<rparr>"
  have e3: "evolves {wb, ?d} w2 ?w3" "new_evs w2 ?w3 = []"
    by (simp_all add: evolves_mem_upd)
  note t1 = evolves_trans [OF e1(1) w2(4)]
  note t2 = evolves_trans [OF t1(1) e3(1)]
  have "evolves ({wb} \<union> {?d}) w ?w3" using t2(1) by (simp add: insert_commute)
  then have ev: "evolves {wb} w ?w3" by (rule evolves_fresh_drop) simp
  have "shows3 fd w ?w3 [Cmd 0x0A]"
    using w2(5) unfolding shows3_def t2(2) t1(2) e1(2) e3(2) by simp
  moreover have "bus3_ready os fd m wb ?w3"
    using w2(3) wb by (simp add: bus3_ready_def rm_buf_def inv3_def spi_ready_def)
  moreover have "mipi_dbi_display_is_on os m w = Some (power_mode_on (os_rx os h 0), ?w3)"
    using w2(1,2) by (simp add: mipi_dbi_display_is_on_def new_block_def power_mode_on_def)
  ultimately show ?thesis
    using ev by (intro exI [of _ h] exI [of _ ?w3]) (simp add: panel_step_def)
qed

section \<open>Turning the panel on\<close>

lemma hw_reset_ok:
  assumes r: "bus3_ready os fd m wb w"
  shows "\<exists>w'. mipi_dbi_hw_reset os w = Some ((), w') \<and> panel_step os fd m wb [] w w'"
proof (cases "reset_gpio (mipi w)")
  case None
  then show ?thesis
    using panel_step_log [OF r, of "[]"] by (simp add: mipi_dbi_hw_reset_def)
next
  case (Some d)
  have "os_good os" using r by (simp add: bus3_ready_def inv3_def spi_ready_def)
  then have "mipi_dbi_hw_reset os w = Some ((), log_evs [Ev_write (gpio_fd d) ''0'', Ev_usleep 20000,
      Ev_write (gpio_fd d) ''1'', Ev_usleep 120000] w)"
    using Some by (simp add: mipi_dbi_hw_reset_def gpiod_set_value_ok msleep_def usleep_def)
  moreover have "gpio_fd d \<noteq> fd" using r Some by (simp add: bus3_ready_def)
  ultimately show ?thesis
    using panel_step_log [OF r, of "[Ev_write (gpio_fd d) ''0'', Ev_usleep 20000,
      Ev_write (gpio_fd d) ''1'', Ev_usleep 120000]"] by simp
qed

lemma msleep_ok:
  assumes "bus3_ready os fd m wb w"
  shows "\<exists>w'. msleep n w = Some ((), w') \<and> panel_step os fd m wb [] w w'"
  using panel_step_log [OF assms, of "[Ev_usleep (n * 1000)]"] by (simp add: msleep_def usleep_def)

text \<open>Everything the display receives when the panel is turned on.\<close>

definition panel_on_items :: "u32 \<Rightarrow> item list" where
  "panel_on_items rot = Cmd 0x0A # Cmd 0x01 # cmd_items (mi0283qt_setup_cmds rot) @ [Cmd 0x29]"

lemma setup_cmds_plain:
  "\<forall>(c, ps) \<in> set (mi0283qt_setup_cmds rot). plain_cmd (ucast c) \<and> c = ucast (ucast c :: u8)"
  by (simp add: mi0283qt_setup_cmds_def plain_cmd_def)

text \<open>The answer of the display decides whether it is reset and set up.\<close>

lemma mi0283qt_enable_ok:
  assumes r: "bus3_ready os fd m wb w" and np: "\<not> prepared w"
  shows "\<exists>h w'. mi0283qt_enable os m w = Some ((), w'\<lparr>prepared := True\<rparr>) \<and>
    panel_step os fd m wb
      (if power_mode_on (os_rx os h 0) then [Cmd 0x0A] else panel_on_items (rotation (mipi w))) w w'"
proof -
  obtain h w1 where w1: "mipi_dbi_display_is_on os m w = Some (power_mode_on (os_rx os h 0), w1)"
    "panel_step os fd m wb [Cmd 0x0A] w w1"
    using display_is_on_ok [OF r] by blast
  show ?thesis
  proof (cases "power_mode_on (os_rx os h 0)")
    case True
    then show ?thesis
      using w1 np by (intro exI [of _ h] exI [of _ w1]) (simp add: mi0283qt_enable_def)
  next
    case off: False
    obtain w2 where w2: "mipi_dbi_hw_reset os w1 = Some ((), w2)" "panel_step os fd m wb [] w1 w2"
      using hw_reset_ok [OF panel_step_ready [OF w1(2)]] by blast
    have "plain_cmd 1" by (simp add: plain_cmd_def)
    then obtain w3 where w3: "mipi_dbi_write os m 1 [] w2 = Some (0, w3)"
      "panel_step os fd m wb [Cmd 1] w2 w3"
      using panel_cmd [OF panel_step_ready [OF w2(2)], of 1 "[]"] by (auto elim!: wpE)
    obtain w4 where w4: "msleep 20 w3 = Some ((), w4)" "panel_step os fd m wb [] w3 w4"
      using msleep_ok [OF panel_step_ready [OF w3(2)]] by blast
    let ?cs = "mi0283qt_setup_cmds (rotation (mipi w4))"
    have r4: "bus3_ready os fd m wb w4" using w4(2) by (rule panel_step_ready)
    obtain w5 where w5: "write_all os m ?cs w4 = Some ((), w5)"
      "panel_step os fd m wb (cmd_items ?cs) w4 w5"
      using panel_cmds [OF r4 setup_cmds_plain] by blast
    obtain w6 where w6: "msleep 100 w5 = Some ((), w6)" "panel_step os fd m wb [] w5 w6"
      using msleep_ok [OF panel_step_ready [OF w5(2)]] by blast
    have "plain_cmd 0x29" by (simp add: plain_cmd_def)
    then obtain w7 where w7: "mipi_dbi_write os m 0x29 [] w6 = Some (0, w7)"
      "panel_step os fd m wb [Cmd 0x29] w6 w7"
      using panel_cmd [OF panel_step_ready [OF w6(2)], of "0x29" "[]"] by (auto elim!: wpE)
    obtain w8 where w8: "msleep 100 w7 = Some ((), w8)" "panel_step os fd m wb [] w7 w8"
      using msleep_ok [OF panel_step_ready [OF w7(2)]] by blast
    note t4 = panel_step_trans [OF panel_step_trans [OF panel_step_trans [OF w1(2) w2(2)] w3(2)] w4(2)]
    note t8 = panel_step_trans [OF panel_step_trans [OF panel_step_trans [OF panel_step_trans
          [OF t4 w5(2)] w6(2)] w7(2)] w8(2)]
    have "mipi w4 = mipi w" using same_devD(2) [OF panel_step_dev [OF t4]] .
    then have "panel_step os fd m wb (panel_on_items (rotation (mipi w))) w w8"
      using t8 by (simp add: panel_on_items_def)
    moreover have "mi0283qt_enable os m w = Some ((), w8\<lparr>prepared := True\<rparr>)"
      using np w1(1) w2(1) w3(1) w4(1) w5(1) w6(1) w7(1) w8(1) off
      by (simp add: mi0283qt_enable_def)
    ultimately show ?thesis using off by (intro exI [of _ h] exI [of _ w8]) simp
  qed
qed

lemma mi0283qt_enable_off:
  assumes "bus3_ready os fd m wb w" and "\<not> prepared w"
    and "\<And>h. \<not> power_mode_on (os_rx os h 0)"
  shows "\<exists>w'. mi0283qt_enable os m w = Some ((), w'\<lparr>prepared := True\<rparr>) \<and>
    panel_step os fd m wb (panel_on_items (rotation (mipi w))) w w'"
  using mi0283qt_enable_ok [OF assms(1,2)] assms(3) by auto

lemma mi0283qt_enable_on:
  assumes "bus3_ready os fd m wb w" and "\<not> prepared w"
    and "\<And>h. power_mode_on (os_rx os h 0)"
  shows "\<exists>w'. mi0283qt_enable os m w = Some ((), w'\<lparr>prepared := True\<rparr>) \<and>
    panel_step os fd m wb [Cmd 0x0A] w w'"
  using mi0283qt_enable_ok [OF assms(1,2)] assms(3) by auto

end
