(* ===== verification/Flush.thy ===== *)
theory Flush
  imports Panel_Seq Clips
begin

text \<open>
  Flushing a dirty rectangle of an RGB565 framebuffer on interface option 3: the window the
  display is given and the pixels the kernel sends from the DMA buffer of the device; and
  turning the pipe off.
\<close>

section \<open>Transfers from a framebuffer\<close>

lemma run3_dma:
  "list_all dma_ev es \<Longrightarrow>
   run3 fd l es = (l, map (\<lambda>x. Pix l (ioc_tx_dma_fd x) (ioc_dma_offset x) (ioc_len x)) (spi_xfers es))"
proof (induction es)
  case (Cons e es)
  then show ?case
    by (induction e rule: dma_ev.induct) (auto simp: xfer_items_def)
qed simp

definition pix_items :: "bool \<Rightarrow> int \<Rightarrow> nat \<Rightarrow> item list" where
  "pix_items l bfd n = map (\<lambda>(o1, k). Pix l bfd (of_nat o1) k) (pieces 0 n)"

lemma spi_sync_fb:
  assumes "spi_ready os w" and "u \<in> set (fbs w)" and "ptr_in (tr_tx_buf tr) (fb_map u) (fb_map_size u)"
    and "0 \<le> udev_buf_fd w"
  shows "\<exists>es tr'. spi_sync os [tr] w = Some ((0, [tr']), log_evs es w) \<and>
    (\<forall>l. run3 fd l es = (l, pix_items l (udev_buf_fd w) (tr_len tr)))"
proof -
  obtain v where v: "find (\<lambda>u. ptr_in (tr_tx_buf tr) (fb_map u) (fb_map_size u)) (fbs w) = Some v"
    using assms(2,3) by (metis (no_types, lifting) find_None_iff option.exhaust)
  define t where "t = (if tr_speed_hz tr = 0 then tr\<lparr>tr_speed_hz := max_speed_hz (spi w)\<rparr> else tr)"
  have len: "tr_len t = tr_len tr" by (simp add: t_def)
  have "os_good os" using assms(1) by (simp add: spi_ready_def)
  from spi_buf_loop_ok [OF this, of "udev_buf_fd w" "tr_speed_hz t" 0 "tr_len t" w]
  obtain es where es: "spi_buf_transfer os t (udev_buf_fd w) w = Some (0, log_evs es w)" "list_all dma_ev es"
    "spi_xfers es = map (\<lambda>(o1, n). buf_xfer (udev_buf_fd w) (tr_speed_hz t) (of_nat o1) n) (pieces 0 (tr_len t))"
    by (auto simp: spi_buf_transfer_def)
  have "spi_sync os [tr] w = Some ((0, [t]), log_evs es w)"
    using v assms(1,4) es(1) by (simp add: spi_sync_def spi_ready_def t_def [symmetric])
  moreover have "run3 fd l es = (l, pix_items l (udev_buf_fd w) (tr_len tr))" for l
    using run3_dma [OF es(2)] es(3) len by (simp add: pix_items_def buf_xfer_def split_def)
  ultimately show ?thesis by blast
qed

lemma spi_transfer_loop_0: "spi_transfer_loop os swap sb mc h tr buf 0 w = Some (0, w)"
  by (simp add: spi_transfer_loop.simps)

text \<open>A buffer of one chunk.\<close>

lemma tinydrm_spi_transfer_fb:
  assumes "spi_ready os w" and "u \<in> set (fbs w)" and "ptr_in buf (fb_map u) (fb_map_size u)"
    and "0 \<le> udev_buf_fd w" and "0 < len" and "len \<le> mc" and "tinydrm_spi_bpw_supported (spi w) 16"
  shows "\<exists>es. tinydrm_spi_transfer os 0 None 16 buf len sb mc w = Some (0, log_evs es w) \<and>
    (\<forall>l. run3 fd l es = (l, pix_items l (udev_buf_fd w) len))"
proof -
  let ?t = "zero_transfer\<lparr>tr_bits_per_word := 16, tr_speed_hz := 0, tr_tx_buf := buf, tr_len := len\<rparr>"
  obtain es t' where es: "spi_sync os [?t] w = Some ((0, [t']), log_evs es w)"
    "\<forall>l. run3 fd l es = (l, pix_items l (udev_buf_fd w) len)"
    using spi_sync_fb [OF assms(1,2) _ assms(4), where tr = ?t and fd = fd] assms(3) by auto
  have "spi_transfer_loop os False sb mc None (zero_transfer\<lparr>tr_bits_per_word := 16, tr_speed_hz := 0\<rparr>)
      buf len w = Some (0, log_evs es w)"
    using es(1) assms(5,6) by (subst spi_transfer_loop.simps) (simp add: spi_transfer_loop_0)
  then show ?thesis
    using es(2) assms(7) by (auto simp: tinydrm_spi_transfer_def Let_def)
qed

lemma spi3_sends_fb:
  assumes i: "inv3 os fd w" and p: "priv p w" "load w p 1 = Some [0x2C]"
    and u: "u \<in> set (fbs w)" "ptr_in q (fb_map u) (fb_map_size u)" "0 \<le> udev_buf_fd w"
    and n: "0 < n" "n \<le> unat (chunk_size (mspi w))" and sup: "tinydrm_spi_bpw_supported (spi w) 16"
  shows "\<exists>w'. mipi_dbi_spi3_gather_write os p 1 q n w = Some (0, w') \<and> inv3 os fd w' \<and>
    evolves {} w w' \<and> shows3 fd w w' (Cmd 0x2C # pix_items True (udev_buf_fd w) n)"
proof -
  obtain w1 where w1: "spi3_prep os w = Some ((), w1)" "inv3 os fd w1" "ms_tx_buf (mspi w1) \<noteq> Null"
    "evolves {} w w1" "list_all other_ev (new_evs w w1)"
    using spi3_prep_ok [OF i] by blast
  note dev = same_devD [OF evolves_same_dev [OF w1(4)]]
  have p1: "priv p w1" "load w1 p 1 = Some [0x2C]"
    using p w1(4) by (auto intro: priv_evolves load_evolves)
  have rdy: "spi_ready os w1" "0 < unat (chunk_size (mspi w1))"
    using w1(2) by (auto simp: inv3_def unat_gt_0 word_gt_0)
  let ?tx = "ms_tx_buf (mspi w1)" and ?mc = "unat (chunk_size (mspi w1))"
  let ?d0 = "Ev_write fd ''0''" and ?d1 = "Ev_write fd ''1''"
  obtain es where es: "tinydrm_spi_transfer os 0 None 8 p 1 ?tx ?mc (log_ev ?d0 w1) =
      Some (0, log_evs es (log_ev ?d0 w1))"
    "list_all plain_ev es" "spi_payloads es = chunks ?mc [0x2C]"
    using tinydrm_spi_transfer_priv [of os "log_ev ?d0 w1" p 1 "[0x2C]" ?mc 8] rdy p1 by auto
  have c1: "concat (spi_payloads es) = [0x2C]"
    using es(3) rdy(2) by (simp add: concat_chunks)
  let ?w2 = "log_evs (?d0 # es) w1"
  have "n \<le> ?mc" using n(2) dev by simp
  then obtain fs where fs: "tinydrm_spi_transfer os 0 None 16 q n ?tx ?mc (log_ev ?d1 ?w2) =
      Some (0, log_evs fs (log_ev ?d1 ?w2))"
    "\<forall>l. run3 fd l fs = (l, pix_items l (udev_buf_fd w) n)"
    using tinydrm_spi_transfer_fb [of os "log_ev ?d1 ?w2" u q n ?mc ?tx fd] rdy u n sup dev by auto
  let ?w3 = "log_evs ((?d0 # es) @ ?d1 # fs) w1"
  have "ram_reg (mspi w1) = 0x2C" using w1(2) by (simp add: inv3_def)
  moreover have "q \<noteq> Null" using u(2) by auto
  ultimately have "mipi_dbi_spi3_gather_write os p 1 q n w = Some (0, ?w3)"
    using w1(1,3) p1(2) es(1) fs(1) n(1) set_dc_ok [OF w1(2), of 0] set_dc_ok [OF inv3_log [OF w1(2)], of 1]
    by (simp add: mipi_dbi_spi3_gather_write_def spi3_prep_def reg_val_width_def)
  moreover have ev: "evolves {} w ?w3" and ne: "new_evs w ?w3 = new_evs w w1 @ (?d0 # es) @ ?d1 # fs"
    using evolves_trans [OF w1(4) evolves_log] by simp_all
  moreover have "shows3 fd w ?w3 (Cmd 0x2C # pix_items True (udev_buf_fd w) n)"
    unfolding shows3_def ne
    using run3_other [OF w1(5)] run3_plain [OF es(2)] fs(2) c1 by (simp add: run3_append)
  ultimately show ?thesis using inv3_log [OF w1(2)] by blast
qed

text \<open>
  A register write of more than one byte, when the bus delivers \<open>xs\<close> for the command byte in the
  work buffer and the value at \<open>q\<close>.
\<close>

lemma raw_write_gather:
  assumes r: "bus3_ready os fd m wb w" and n: "1 < n" and q: "q \<noteq> Ptr wb 1"
    and g: "\<And>w1. inv3 os fd w1 \<Longrightarrow> priv (Ptr wb 0) w1 \<Longrightarrow> load w1 (Ptr wb 0) 1 = Some [c] \<Longrightarrow>
      evolves {wb} w w1 \<Longrightarrow> nblk w1 = nblk w \<Longrightarrow> tx_buf w1 = tx_buf w \<Longrightarrow>
      \<exists>w'. mipi_dbi_spi3_gather_write os (Ptr wb 0) 1 q n w1 = Some (0, w') \<and> inv3 os fd w' \<and>
        evolves {} w1 w' \<and> shows3 fd w1 w' xs"
  shows "\<exists>w'. regmap_raw_write os m (ucast c) q n w = Some (0, w') \<and> panel_step os fd m wb xs w w'"
proof -
  from r obtain a b where m: "rm_shape (mipi_dbi_spi3_write os) (mipi_dbi_spi3_gather_write os) m"
    "work_buf m = Ptr wb 0" "mem w wb = Some [a, b]" "wb < nblk w" "\<not> dma_blk wb w"
    by (auto simp: bus3_ready_def rm_buf_def)
  let ?w1 = "w\<lparr>mem := (mem w)(wb \<mapsto> [c, b])\<rparr>"
  have fmt: "call_format (format_reg m) (Ptr wb 0) (ucast c) 0 w = Some ((), ?w1)"
    using m by (simp add: call_format_def rm_shape_def regmap_format_8_def)
  have i1: "inv3 os fd ?w1" using r by (simp add: bus3_ready_def inv3_def spi_ready_def)
  have p: "priv (Ptr wb 0) ?w1" "load ?w1 (Ptr wb 0) 1 = Some [c]" using m by (simp_all add: priv_def)
  have e1: "evolves {wb} w ?w1" "new_evs w ?w1 = []" by (simp_all add: evolves_mem_upd)
  obtain w2 where w2: "mipi_dbi_spi3_gather_write os (Ptr wb 0) 1 q n ?w1 = Some (0, w2)" "inv3 os fd w2"
    "evolves {} ?w1 w2" "shows3 fd ?w1 w2 xs"
    using g [OF i1 p e1(1)] by auto
  note t = evolves_trans [OF e1(1) evolves_mono [OF w2(3)]]
  have ev: "evolves {wb} w w2" and ne: "new_evs w w2 = new_evs ?w1 w2" using t e1(2) by simp_all
  have "mem w2 wb = Some [c, b]" using evolves_mem [OF w2(3), of wb] m by simp
  moreover have "wb < nblk w2" using m(4) evolves_nblk [OF ev] by simp
  moreover have "\<not> dma_blk wb w2" using evolves_dma [OF ev] m by blast
  ultimately have "rm_buf m wb w2" using m by (simp add: rm_buf_def)
  then have "bus3_ready os fd m wb w2"
    using r w2(2) same_devD [OF evolves_same_dev [OF ev]] by (simp add: bus3_ready_def)
  then have "panel_step os fd m wb xs w w2"
    using w2(4) ev ne by (simp add: panel_step_def shows3_def)
  then show ?thesis
    using m fmt w2(1) n q
    by (auto simp: regmap_raw_write_def regmap_raw_write_work_def regmap_can_raw_write_def rm_shape_def
        regmap_set_work_buf_flag_mask_def Let_def)
qed

lemma raw_write_fb:
  assumes r: "bus3_ready os fd m wb w"
    and u: "u \<in> set (fbs w)" "ptr_in q (fb_map u) (fb_map_size u)" "0 \<le> udev_buf_fd w"
    and n: "1 < n" "n \<le> unat (chunk_size (mspi w))" and sup: "tinydrm_spi_bpw_supported (spi w) 16"
  shows "\<exists>w'. regmap_raw_write os m 0x2C q n w = Some (0, w') \<and>
    panel_step os fd m wb (Cmd 0x2C # pix_items True (udev_buf_fd w) n) w w'"
proof -
  have "q \<noteq> Ptr wb 1"
  proof
    assume "q = Ptr wb 1"
    then have "blk_of (fb_map u) = Some wb" using ptr_in_blk [OF u(2)] by simp
    then show False using r u(1) by (auto simp: bus3_ready_def rm_buf_def dma_blk_def)
  qed
  moreover have "\<exists>w'. mipi_dbi_spi3_gather_write os (Ptr wb 0) 1 q n w1 = Some (0, w') \<and> inv3 os fd w' \<and>
      evolves {} w1 w' \<and> shows3 fd w1 w' (Cmd 0x2C # pix_items True (udev_buf_fd w) n)"
    if "inv3 os fd w1" "priv (Ptr wb 0) w1" "load w1 (Ptr wb 0) 1 = Some [0x2C]" "evolves {wb} w w1" for w1
    using spi3_sends_fb [OF that(1-3), of u q n] u n sup same_devD [OF evolves_same_dev [OF that(4)]] by simp
  ultimately show ?thesis
    using raw_write_gather [OF r n(1), of q "0x2C"] by simp
qed

section \<open>A dirty rectangle\<close>

text \<open>
  An RGB565 framebuffer without padding that the device knows, and that fits one chunk.
\<close>

definition rgb565_fb :: "utinydrm_fb \<Rightarrow> state \<Rightarrow> bool" where
  "rgb565_fb fb w \<longleftrightarrow>
     fb \<in> set (fbs w) \<and> fb_format fb = DRM_FORMAT_RGB565 \<and> (\<exists>b. fb_map fb = Ptr b 0) \<and>
     fb_map_size fb = int (unat (fb_width fb) * unat (fb_height fb) * 2) \<and>
     unat (fb_width fb) * unat (fb_height fb) * 2 \<le> unat (chunk_size (mspi w))"

definition clip_bytes :: "clip_rect \<Rightarrow> nat" where
  "clip_bytes c = (unat (x2 c) - unat (x1 c)) * (unat (y2 c) - unat (y1 c)) * 2"

lemma unat_ucast_u16 [simp]: "unat (ucast (x :: u16) :: u32) = unat x"
proof -
  have "unat x < 2 ^ LENGTH(16)" by (rule unsigned_less)
  then show ?thesis by (simp add: unsigned_ucast_eq take_bit_nat_eq_self)
qed

lemma unat_u32_mult:
  "unat (a :: u32) * unat b \<le> n \<Longrightarrow> n < 2 ^ 32 \<Longrightarrow> unat (a * b) = unat a * unat b"
  by (simp add: unat_word_ariths)

lemma clip_dims:
  assumes "clip_in W H c"
  shows "unat (clip_width c) = unat (x2 c) - unat (x1 c)" "unat (clip_height c) = unat (y2 c) - unat (y1 c)"
    "unat (x1 c) < unat (x2 c)" "unat (y1 c) < unat (y2 c)"
    "unat (x2 c) \<le> unat W" "unat (y2 c) \<le> unat H"
proof -
  show l: "unat (x1 c) < unat (x2 c)" "unat (y1 c) < unat (y2 c)"
    using assms by (auto simp: clip_in_def word_less_nat_alt)
  show "unat (x2 c) \<le> unat W" "unat (y2 c) \<le> unat H"
    using assms by (auto simp: clip_in_def word_le_nat_alt)
  show "unat (clip_width c) = unat (x2 c) - unat (x1 c)" "unat (clip_height c) = unat (y2 c) - unat (y1 c)"
    using l by (simp_all add: clip_width_def clip_height_def unat_sub word_le_nat_alt)
qed

lemma clip_fits:
  assumes c: "clip_in (fb_width fb) (fb_height fb) c" and f: "rgb565_fb fb w"
  shows "unat (clip_width c * clip_height c * 2) = clip_bytes c"
    and "ptr_in (padd (fb_map fb) (unat (ucast (y1 c) * clip_width c * 2))) (fb_map fb) (fb_map_size fb)"
    and "1 < clip_bytes c" and "clip_bytes c \<le> unat (chunk_size (mspi w))"
proof -
  let ?W = "unat (fb_width fb)" and ?H = "unat (fb_height fb)" and ?C = "unat (chunk_size (mspi w))"
  note d = clip_dims [OF c]
  have C: "?W * ?H * 2 \<le> ?C" using f by (simp add: rgb565_fb_def)
  have C32: "?C < 2 ^ 32" using unsigned_less [of "chunk_size (mspi w)"] by simp
  let ?w = "unat (x2 c) - unat (x1 c)" and ?h = "unat (y2 c) - unat (y1 c)"
  have w: "?w \<le> ?W" "0 < ?w" and h: "?h \<le> ?H" "0 < ?h" using d by auto
  have wh: "?w * ?h \<le> ?W * ?H" using w h by (intro mult_le_mono) simp_all
  then have wh2: "?w * ?h * 2 \<le> ?C" using C by linarith
  have a: "unat (clip_width c * clip_height c) = ?w * ?h"
    using unat_u32_mult [of "clip_width c" "clip_height c" ?C] d(1,2) wh2 C32 by simp
  then show "unat (clip_width c * clip_height c * 2) = clip_bytes c"
    using unat_u32_mult [of "clip_width c * clip_height c" 2 ?C] wh2 C32 by (simp add: clip_bytes_def)
  have "0 < ?w * ?h" using w(2) h(2) by simp
  then have "1 < ?w * ?h * 2" by linarith
  then show "1 < clip_bytes c" by (simp add: clip_bytes_def)
  show "clip_bytes c \<le> ?C" using wh2 by (simp add: clip_bytes_def)
  have "unat (y1 c) < ?H" using d by linarith
  then have y: "unat (y1 c) * ?w < ?W * ?H"
    using w by (metis mult.commute mult_less_le_imp_less zero_le order_less_le_trans)
  then have y2: "unat (y1 c) * ?w * 2 \<le> ?C" using C by linarith
  have "unat (ucast (y1 c) * clip_width c) = unat (y1 c) * ?w"
    using unat_u32_mult [of "ucast (y1 c)" "clip_width c" ?C] d(1) y2 C32 by simp
  then have "unat (ucast (y1 c) * clip_width c * 2) = unat (y1 c) * ?w * 2"
    using unat_u32_mult [of "ucast (y1 c) * clip_width c" 2 ?C] y2 C32 by simp
  moreover obtain b where "fb_map fb = Ptr b 0" "fb_map_size fb = int (?W * ?H * 2)"
    using f by (auto simp: rgb565_fb_def)
  ultimately show "ptr_in (padd (fb_map fb) (unat (ucast (y1 c) * clip_width c * 2))) (fb_map fb) (fb_map_size fb)"
    using y by (simp flip: of_nat_mult add: mult.commute)
qed

text \<open>The items of a flushed rectangle: its window, then its pixels.\<close>

definition flush_items :: "clip_rect \<Rightarrow> int \<Rightarrow> item list" where
  "flush_items c bfd =
     cmd_items [(MIPI_DCS_SET_COLUMN_ADDRESS, window_params (x1 c) (x2 c)),
                (MIPI_DCS_SET_PAGE_ADDRESS, window_params (y1 c) (y2 c))] @
     Cmd 0x2C # pix_items True bfd (clip_bytes c)"

lemma enable_output_ok:
  assumes r: "bus3_ready os fd m wb w"
  shows "\<exists>w'. mipi_dbi_enable_output os w = Some (0, w'\<lparr>enabled := True\<rparr>) \<and> panel_step os fd m wb [] w w'"
proof -
  have good: "os_good os" using r by (simp add: bus3_ready_def inv3_def spi_ready_def)
  obtain w1 where w1: "(if enable_delay_ms (mipi w) \<noteq> 0 then msleep (enable_delay_ms (mipi w)) w
      else Some ((), w)) = Some ((), w1)" "panel_step os fd m wb [] w w1"
    using msleep_ok [OF r, of "enable_delay_ms (mipi w)"] panel_step_log [OF r, of "[]"]
    by (cases "enable_delay_ms (mipi w) = 0") auto
  have dev: "mipi w1 = mipi w" using same_devD(2) [OF panel_step_dev [OF w1(2)]] .
  obtain w2 where w2: "tinydrm_enable_backlight os (backlight (mipi w1)) w1 = Some (0, w2)"
    "panel_step os fd m wb [] w1 w2"
  proof (cases "backlight (mipi w1)")
    case None
    then show ?thesis
      using that [of w1] panel_step_log [OF panel_step_ready [OF w1(2)], of "[]"]
      by (simp add: tinydrm_enable_backlight_def)
  next
    case (Some d)
    then have "gpio_fd d \<noteq> fd" using r dev by (simp add: bus3_ready_def)
    then show ?thesis
      using that panel_step_log [OF panel_step_ready [OF w1(2)], of "[Ev_write (gpio_fd d) ''1'']"] Some good
      by (simp add: tinydrm_enable_backlight_def gpiod_set_value_ok)
  qed
  have "mipi_dbi_enable_output os w = Some (0, w2\<lparr>enabled := True\<rparr>)"
    using w1(1) w2(1) by (simp add: mipi_dbi_enable_output_def)
  then show ?thesis using panel_step_trans [OF w1(2) w2(2)] by auto
qed

text \<open>
  A dirty event whose flush has a result: the window is sent first; when the flush succeeds and
  the display was dark, it is switched on.
\<close>

definition window_items :: "clip_rect \<Rightarrow> item list" where
  "window_items c =
     cmd_items [(MIPI_DCS_SET_COLUMN_ADDRESS, window_params (x1 c) (x2 c)),
                (MIPI_DCS_SET_PAGE_ADDRESS, window_params (y1 c) (y2 c))]"

lemma fb_dirty_flush:
  assumes r: "bus3_ready os fd m wb w" and pr: "prepared w"
    and mc: "tinydrm_merge_clips (if enabled w then Some clips else None)
               (if enabled w then n else 0) ann (fb_width fb) (fb_height fb) = Some c"
    and fl: "\<And>w2. panel_step os fd m wb (window_items c) w w2 \<Longrightarrow>
      \<exists>xs w3. P xs \<and> tinydrm_regmap_flush_rgb565 os m 0x2C fb (fb_map fb) c w2 = Some (ret, w3) \<and>
        panel_step os fd m wb xs w2 w3"
  shows "\<exists>xs w'. P xs \<and> mipi_dbi_fb_dirty os m fb ann color clips n w =
      Some (ret, if ret = 0 then w'\<lparr>enabled := True\<rparr> else w') \<and>
    panel_step os fd m wb (window_items c @ xs) w w'"
proof -
  let ?px = "window_params (x1 c) (x2 c)" and ?py = "window_params (y1 c) (y2 c)"
  have "plain_cmd 0x2A" "plain_cmd 0x2B" by (simp_all add: plain_cmd_def)
  then obtain w1 where w1: "mipi_dbi_write os m 0x2A ?px w = Some (0, w1)"
    "panel_step os fd m wb (Cmd 0x2A # map Dat ?px) w w1"
    using panel_cmd [OF r, of "0x2A" ?px] by (auto elim!: wpE)
  obtain w2 where w2: "mipi_dbi_write os m 0x2B ?py w1 = Some (0, w2)"
    "panel_step os fd m wb (Cmd 0x2B # map Dat ?py) w1 w2"
    using panel_cmd [OF panel_step_ready [OF w1(2)], of "0x2B" ?py] \<open>plain_cmd 0x2B\<close> by (auto elim!: wpE)
  have t2: "panel_step os fd m wb (window_items c) w w2"
    using panel_step_trans [OF w1(2) w2(2)] by (simp add: window_items_def)
  obtain xs w3 where P: "P xs" and
    w3: "tinydrm_regmap_flush_rgb565 os m 0x2C fb (fb_map fb) c w2 = Some (ret, w3)"
    "panel_step os fd m wb xs w2 w3" using fl [OF t2] by blast
  note t3 = panel_step_trans [OF t2 w3(2)]
  have en: "enabled w3 = enabled w" using same_devD(5) [OF panel_step_dev [OF t3]] .
  have ck: "tinydrm_check_dirty w (Some clips) n =
      (True, if enabled w then Some clips else None, if enabled w then n else 0)"
    using pr by (simp add: tinydrm_check_dirty_def)
  have d: "mipi_dbi_fb_dirty os m fb ann color clips n w =
      (if ret \<noteq> 0 then Some (ret, w3) else if \<not> enabled w3 then mipi_dbi_enable_output os w3 else Some (0, w3))"
    using ck mc w1(1) w2(1) w3(1) by (simp add: mipi_dbi_fb_dirty_def)
  show ?thesis
  proof (cases "enabled w \<or> ret \<noteq> 0")
    case True
    then show ?thesis using d en t3 P by (intro exI [of _ xs] exI [of _ w3]) auto
  next
    case False
    obtain w4 where w4: "mipi_dbi_enable_output os w3 = Some (0, w4\<lparr>enabled := True\<rparr>)"
      "panel_step os fd m wb [] w3 w4"
      using enable_output_ok [OF panel_step_ready [OF t3]] by blast
    have "panel_step os fd m wb (window_items c @ xs) w w4"
      using panel_step_trans [OF t3 w4(2)] by simp
    then show ?thesis using False d en w4(1) P by (intro exI [of _ xs] exI [of _ w4]) auto
  qed
qed

lemma flush_rgb565_ok:
  assumes r: "bus3_ready os fd m wb w" and f: "rgb565_fb fb w"
    and b: "0 \<le> udev_buf_fd w" and sup: "tinydrm_spi_bpw_supported (spi w) 16"
    and c: "clip_in (fb_width fb) (fb_height fb) c"
  shows "\<exists>w'. tinydrm_regmap_flush_rgb565 os m 0x2C fb (fb_map fb) c w = Some (0, w') \<and>
    panel_step os fd m wb (Cmd 0x2C # pix_items True (udev_buf_fd w) (clip_bytes c)) w w'"
proof -
  have "fb \<in> set (fbs w)" using f by (simp add: rgb565_fb_def)
  from raw_write_fb [OF r this clip_fits(2) [OF c f] b clip_fits(3,4) [OF c f] sup]
  show ?thesis
    using f clip_fits(1) [OF c f] by (simp add: tinydrm_regmap_flush_rgb565_def rgb565_fb_def Let_def)
qed

lemma fb_dirty_ok:
  assumes r: "bus3_ready os fd m wb w" and pr: "prepared w" and f: "rgb565_fb fb w"
    and b: "0 \<le> udev_buf_fd w" and sup: "tinydrm_spi_bpw_supported (spi w) 16"
    and mc: "tinydrm_merge_clips (if enabled w then Some clips else None)
               (if enabled w then n else 0) ann (fb_width fb) (fb_height fb) = Some c"
    and c: "clip_in (fb_width fb) (fb_height fb) c"
  shows "\<exists>w'. mipi_dbi_fb_dirty os m fb ann color clips n w = Some (0, w'\<lparr>enabled := True\<rparr>) \<and>
    panel_step os fd m wb (flush_items c (udev_buf_fd w)) w w'"
proof -
  let ?xs = "Cmd 0x2C # pix_items True (udev_buf_fd w) (clip_bytes c)"
  have "\<exists>xs w3. xs = ?xs \<and> tinydrm_regmap_flush_rgb565 os m 0x2C fb (fb_map fb) c w2 = Some (0, w3) \<and>
      panel_step os fd m wb xs w2 w3" if t: "panel_step os fd m wb (window_items c) w w2" for w2
  proof -
    note dev = same_devD [OF panel_step_dev [OF t]]
    have "rgb565_fb fb w2" using f dev by (simp add: rgb565_fb_def)
    from flush_rgb565_ok [OF panel_step_ready [OF t] this _ _ c] show ?thesis using b sup dev by simp
  qed
  from fb_dirty_flush [where P = "\<lambda>xs. xs = ?xs", OF r pr mc this] show ?thesis
    by (simp add: flush_items_def window_items_def)
qed

section \<open>Turning the pipe off\<close>

lemma bus3_ready_flags [simp]:
  "bus3_ready os fd m wb (w\<lparr>prepared := p\<rparr>) = bus3_ready os fd m wb w"
  "bus3_ready os fd m wb (w\<lparr>enabled := e\<rparr>) = bus3_ready os fd m wb w"
  by (simp_all add: bus3_ready_def inv3_def spi_ready_def rm_buf_def)

lemma shows3_flags [simp]:
  "shows3 fd w (w'\<lparr>prepared := p\<rparr>) xs = shows3 fd w w' xs"
  "shows3 fd w (w'\<lparr>enabled := e\<rparr>) xs = shows3 fd w w' xs"
  "shows3 fd (w\<lparr>enabled := e\<rparr>) w' xs = shows3 fd w w' xs"
  by (simp_all add: shows3_def new_evs_def)

lemma panel_step_trace: "panel_step os fd m wb xs w w' \<Longrightarrow> trace w' = trace w @ new_evs w w'"
  unfolding panel_step_def by (blast intro: evolves_trace)

lemma new_evs_append: "trace w1 = trace w @ es \<Longrightarrow> trace w2 = trace w1 @ fs \<Longrightarrow> new_evs w w2 = es @ fs"
  by (simp add: new_evs_def)

lemma prepared_same: "prepared w = p \<Longrightarrow> w\<lparr>prepared := p\<rparr> = w"
  by (cases w) simp

lemma pipe_disable_steps:
  assumes r: "bus3_ready os fd m wb w" and bl: "backlight (mipi w) = Some d"
  shows "\<exists>es w'. mipi_dbi_pipe_disable os m w = Some ((), w'\<lparr>prepared := False\<rparr>) \<and>
    (\<forall>l. run3 fd l es = (l, [])) \<and>
    panel_step os fd m wb (if prepared w then [Cmd 0x28, Cmd 0x10] else [])
      ((log_evs es w)\<lparr>enabled := False\<rparr>) w'"
proof -
  let ?es = "if enabled w then [Ev_write (gpio_fd d) ''0''] else []"
  let ?w1 = "log_evs ?es w"
  have good: "os_good os" using r by (simp add: bus3_ready_def inv3_def spi_ready_def)
  have "gpio_fd d \<noteq> fd" using r bl by (simp add: bus3_ready_def)
  then have q: "run3 fd l ?es = (l, [])" for l by simp
  have s1: "panel_step os fd m wb [] w ?w1" by (rule panel_step_log [OF r q])
  have w1: "(if enabled w then (if backlight (mipi w) \<noteq> None
        then tinydrm_disable_backlight os (backlight (mipi w)) w
        else if \<not> regulator (mipi w) then mipi_dbi_blank os m w else Some ((), w))
      else Some ((), w)) = Some ((), ?w1)"
    using bl good by (simp add: tinydrm_disable_backlight_def gpiod_set_value_ok)
  let ?w2 = "?w1\<lparr>enabled := False\<rparr>"
  have r2: "bus3_ready os fd m wb ?w2" using panel_step_ready [OF s1] by simp
  have bl2: "backlight (mipi ?w2) = Some d" using bl by simp
  show ?thesis
  proof (cases "prepared w")
    case False
    have "mipi_dbi_pipe_disable os m w = Some ((), ?w2\<lparr>prepared := False\<rparr>)"
      using w1 False unfolding mipi_dbi_pipe_disable_def by (simp add: prepared_same)
    moreover have "panel_step os fd m wb [] ?w2 ?w2" using panel_step_log [OF r2, of "[]"] by simp
    ultimately show ?thesis using q False by (intro exI [of _ ?es] exI [of _ ?w2]) simp
  next
    case True
    have "plain_cmd 0x28" "plain_cmd 0x10" by (simp_all add: plain_cmd_def)
    then obtain w3 where w3: "mipi_dbi_write os m 0x28 [] ?w2 = Some (0, w3)"
      "panel_step os fd m wb [Cmd 0x28] ?w2 w3"
      using panel_cmd [OF r2, of "0x28" "[]"] by (auto elim!: wpE)
    obtain w4 where w4: "mipi_dbi_write os m 0x10 [] w3 = Some (0, w4)"
      "panel_step os fd m wb [Cmd 0x10] w3 w4"
      using panel_cmd [OF panel_step_ready [OF w3(2)], of "0x10" "[]"] \<open>plain_cmd 0x10\<close> by (auto elim!: wpE)
    have "mipi_dbi_pipe_disable os m w = Some ((), w4\<lparr>prepared := False\<rparr>)"
      using w1 True bl2 w3(1) w4(1) unfolding mipi_dbi_pipe_disable_def by simp
    then show ?thesis
      using q True panel_step_trans [OF w3(2) w4(2)] by (intro exI [of _ ?es] exI [of _ w4]) simp
  qed
qed

lemma pipe_disable_ok:
  assumes r: "bus3_ready os fd m wb w" and bl: "backlight (mipi w) = Some d"
  shows "\<exists>w'. mipi_dbi_pipe_disable os m w = Some ((), w') \<and> bus3_ready os fd m wb w' \<and>
    \<not> enabled w' \<and> \<not> prepared w' \<and> trace w' = trace w @ new_evs w w' \<and>
    shows3 fd w w' (if prepared w then [Cmd 0x28, Cmd 0x10] else [])"
proof -
  let ?xs = "if prepared w then [Cmd 0x28, Cmd 0x10] else []"
  obtain es w2 where d: "mipi_dbi_pipe_disable os m w = Some ((), w2\<lparr>prepared := False\<rparr>)"
    and q: "\<And>l. run3 fd l es = (l, [])"
    and t: "panel_step os fd m wb ?xs ((log_evs es w)\<lparr>enabled := False\<rparr>) w2" (is "panel_step _ _ _ _ _ ?w1 _")
    using pipe_disable_steps [OF assms] by blast
  have ev: "trace w2 = trace ?w1 @ new_evs ?w1 w2" by (rule panel_step_trace [OF t])
  have n: "new_evs w w2 = es @ new_evs ?w1 w2" by (rule new_evs_append [OF _ ev]) simp
  have "shows3 fd ?w1 w2 ?xs" using t by (simp add: panel_step_def)
  then have "shows3 fd w w2 ?xs"
    unfolding shows3_def n run3_append q
    by (simp only: case_prod_beta fst_conv snd_conv append_Nil simp_thms)
  moreover have "trace w2 = trace w @ new_evs w w2" unfolding n using ev by simp
  moreover have "\<not> enabled w2" using same_devD(5) [OF panel_step_dev [OF t]] by simp
  ultimately show ?thesis
    using d panel_step_ready [OF t] by (intro exI [of _ "w2\<lparr>prepared := False\<rparr>"]) (simp add: new_evs_def)
qed

end
