(* ===== verification/Probe.thy ===== *)
theory Probe
  imports Flush Loop_Inv
begin

text \<open>
  \<open>mi0283qt_probe\<close> from the state \<open>main\<close> starts in: with an operating system whose calls
  succeed, it ends with a panel set up for interface option 3.
\<close>

section \<open>The register map\<close>

definition dbi_regmap :: "regmap_bus \<Rightarrow> ptr \<Rightarrow> regmap" where
  "dbi_regmap b p =
     \<lparr>work_buf = p, buf_size = 2, reg_bytes = 1, pad_bytes = 0, val_bytes = 1, format_write = None,
      format_reg = Some regmap_format_8, format_val = Some regmap_format_8,
      parse_val = Some regmap_parse_8, parse_inplace = True, bus = Some b, reg_write = Bus_raw_write,
      read_flag_mask = 0, write_flag_mask = 0, reg_shift = 0, reg_stride = 1,
      reg_stride_order = 0, cache_type = REGCACHE_NONE, use_single_read = (bus_read b = None),
      use_single_write = (bus_write b = None), can_multi_write = False,
      max_raw_read = bus_max_raw_read b, max_raw_write = bus_max_raw_write b\<rparr>"

lemma regmap_init_eq:
  assumes "os_good os"
  shows "regmap_init os junk (Some b) (Some mipi_dbi_regmap_config) w =
    Some (PObj (dbi_regmap b (Ptr (Suc (nblk w)) 0)),
          allocated 2 [0, 0] (allocated 96 (replicate 96 0) w))"
proof -
  have two: "replicate 2 (0 :: u8) = [0, 0]" by (simp add: numeral_2_eq_2)
  have o: "ilog2 1 = 0" "is_power_of_2 1" by (simp_all add: ilog2_def fls_def fls_step_def is_power_of_2_def)
  show ?thesis
    using kzalloc_ok [OF assms, of 96 w] kzalloc_ok [OF assms, of 2 "allocated 96 (replicate 96 0) w"] two o
    by (simp add: regmap_init_def div_round_up_def regmap_reg_format_def dbi_regmap_def Let_def)
qed

lemma mipi_dbi_spi_init_eq:
  assumes "os_good os"
  shows "mipi_dbi_spi_init os junk d wo w =
    (let w1 = (allocated 24 (replicate 24 0) w)\<lparr>mspi := \<lparr>ram_reg = MIPI_DCS_WRITE_MEMORY_START, ms_dc = d,
           write_only = wo, ms_tx_buf = Null, chunk_size = tinydrm_spi_max_transfer_size 0 (spi w) 0\<rparr>\<rparr>
     in Some (PObj (dbi_regmap (if d \<noteq> None then mipi_dbi_regmap_bus3 os else mipi_dbi_regmap_bus1 os)
                      (Ptr (Suc (nblk w1)) 0)),
              allocated 2 [0, 0] (allocated 96 (replicate 96 0) w1)))"
  using kzalloc_ok [OF assms, of 24 w] regmap_init_eq [OF assms]
  by (simp add: mipi_dbi_spi_init_def Let_def)

lemma dbi_regmap_driver:
  "on_bus b (dbi_regmap b p)"
  by (simp add: on_bus_def dbi_regmap_def)

section \<open>GPIO lines\<close>

lemma gpio_get_ok:
  assumes "os_good os" and "gpio_number con = Some n"
  shows "\<exists>fd h w'. devm_gpiod_get_optional os con flags w =
      Some (PObj \<lparr>gpio_fd = fd, gpio_nr = n, gpio_name = con\<rparr>, w') \<and>
    fd = os_ret os (h @ [Ev_open (gpio_dir n @ ''/value'')]) \<and> 0 \<le> fd \<and>
    (\<exists>es. h = trace w @ es) \<and> (\<exists>es. trace w' = h @ [Ev_open (gpio_dir n @ ''/value'')] @ es) \<and>
    evolves {} w w' \<and> mspi w' = mspi w \<and> tx_buf w' = tx_buf w"
proof -
  define v where "v = gpio_dir n @ ''/value''"
  let ?w1 = "allocated 12 (replicate 12 0) w"
  let ?w2 = "log_ev (Ev_access v) ?w1"
  let ?w3 = "log_ev (Ev_open v) ?w2"
  let ?fd = "os_ret os (trace ?w2 @ [Ev_open v])"
  let ?d = "\<lparr>gpio_fd = ?fd, gpio_nr = n, gpio_name = con\<rparr>"
  have a: "syscall os (Ev_access v) ?w1 = Some (os_ret os (trace ?w1 @ [Ev_access v]), ?w2)"
    "os_ret os (trace ?w1 @ [Ev_access v]) \<noteq> - 1"
    by (rule syscall_nonneg [OF assms(1)]; simp add: ret_ok_def)+
  then have ex: "gpio_export os n ?w1 = Some (0, ?w2)"
    unfolding gpio_export_def v_def [symmetric] by simp
  have o: "syscall os (Ev_open v) ?w2 = Some (?fd, ?w3)" "?fd \<noteq> - 1"
    by (rule syscall_nonneg [OF assms(1)]; simp add: ret_ok_def)+
  have nn: "0 \<le> ?fd" using os_goodD(2) [OF assms(1), of "Ev_open v" "trace ?w2"] by (simp add: ret_ok_def)
  define es where "es = (if flags = GPIOD_OUT_HIGH then [Ev_write ?fd ''1'']
    else if flags = GPIOD_OUT_LOW then [Ev_write ?fd ''0''] else [])"
  have "devm_gpiod_get_optional os con flags w = Some (PObj ?d, log_evs es ?w3)"
    unfolding devm_gpiod_get_optional_def assms(2) option.case v_def [symmetric] Let_def
    using kzalloc_ok [OF assms(1), of 12 w] ex o gpiod_set_value_ok [OF assms(1), of ?d]
    by (cases flags) (simp_all add: es_def)
  moreover have "evolves {} w (log_evs es ?w3)"
    using evolves_trans(1) [OF evolves_allocated evolves_log] by simp
  ultimately show ?thesis
    unfolding v_def [symmetric]
    using nn by (intro exI [of _ ?fd] exI [of _ "trace ?w2"] exI [of _ "log_evs es ?w3"]) simp
qed

text \<open>
  Lines that are open at the same time have different descriptors (the program never closes
  one).
\<close>

definition gpio_fds_distinct :: "os \<Rightarrow> bool" where
  "gpio_fds_distinct os \<longleftrightarrow>
     (\<forall>h n es k. n \<noteq> k \<longrightarrow>
        os_ret os (h @ [Ev_open (gpio_dir n @ ''/value'')]) \<noteq>
        os_ret os ((h @ [Ev_open (gpio_dir n @ ''/value'')] @ es) @ [Ev_open (gpio_dir k @ ''/value'')]))"

lemma gpio_fds_distinctD:
  assumes "gpio_fds_distinct os" and "n \<noteq> k"
    and "\<exists>es. trace w' = h @ [Ev_open (gpio_dir n @ ''/value'')] @ es" and "\<exists>fs. h' = trace w' @ fs"
    and "a = os_ret os (h @ [Ev_open (gpio_dir n @ ''/value'')])"
    and "b = os_ret os (h' @ [Ev_open (gpio_dir k @ ''/value'')])"
  shows "a \<noteq> b"
proof -
  obtain es where h': "h' = h @ [Ev_open (gpio_dir n @ ''/value'')] @ es"
    using assms(3,4) by auto
  show ?thesis
    using assms(1,2) unfolding assms(5,6) h' gpio_fds_distinct_def by blast
qed

section \<open>Registration\<close>

lemma register_ok:
  assumes "os_good os"
  shows "\<exists>es fd cfd bfd. devm_tinydrm_register os nm w =
    Some (0, (log_evs es w)\<lparr>udev_fd := fd, udev_control_fd := cfd, spi := (spi w)\<lparr>utinydrm := True\<rparr>,
      udev_buf_fd := bfd\<rparr>) \<and> (\<exists>h. bfd = snd (os_dev os h))"
proof -
  let ?o = "Ev_open ''/dev/udrm''"
  let ?fd = "os_ret os (trace w @ [?o])"
  let ?w1 = "(log_ev ?o w)\<lparr>udev_fd := ?fd\<rparr>"
  let ?c = "Ev_dev_create ?fd (udev_mode w) udrm_formats UDRM_BUF_MODE_SWAP_BYTES nm"
  let ?w2 = "log_ev ?c ?w1"
  obtain ix bfd where d: "os_dev os (trace ?w2) = (ix, bfd)" by fastforce
  define ctl where "ctl = ''/dev/dri/controlD'' @ int_string (ix + 64)"
  let ?w3 = "log_ev (Ev_open ctl) ?w2"
  let ?cfd = "os_ret os (trace ?w2 @ [Ev_open ctl])"
  have a: "syscall os ?o w = Some (?fd, log_ev ?o w)" "?fd \<noteq> - 1"
    by (rule syscall_nonneg [OF assms]; simp add: ret_ok_def)+
  have b: "syscall os ?c ?w1 = Some (os_ret os (trace ?w1 @ [?c]), ?w2)" "os_ret os (trace ?w1 @ [?c]) \<noteq> - 1"
    by (rule syscall_nonneg [OF assms]; simp add: ret_ok_def)+
  have c: "syscall os (Ev_open ctl) ?w2 = Some (?cfd, ?w3)" "?cfd \<noteq> - 1"
    by (rule syscall_nonneg [OF assms]; simp add: ret_ok_def)+
  have ctl': "''/dev/dri/controlD'' @ int_string (ix + 64) = ctl" by (simp add: ctl_def)
  have dm: "udev_mode (log_ev ?o w) = udev_mode w" by simp
  have "devm_tinydrm_register os nm w = Some (0, ?w3\<lparr>udev_control_fd := ?cfd,
      spi := (spi ?w3)\<lparr>utinydrm := True\<rparr>, udev_buf_fd := bfd\<rparr>)"
    unfolding devm_tinydrm_register_def using a b c d
    by (simp add: ctl' del: append_Cons)
  moreover have "?w3\<lparr>udev_control_fd := ?cfd, spi := (spi ?w3)\<lparr>utinydrm := True\<rparr>, udev_buf_fd := bfd\<rparr> =
      (log_evs [?o, ?c, Ev_open ctl] w)\<lparr>udev_fd := ?fd, udev_control_fd := ?cfd,
        spi := (spi w)\<lparr>utinydrm := True\<rparr>, udev_buf_fd := bfd\<rparr>"
    by (simp add: log_evs_def)
  moreover have "bfd = snd (os_dev os (trace ?w2))" using d by simp
  ultimately show ?thesis by metis
qed

section \<open>Probing\<close>

text \<open>The state before the device is probed, as far as probing looks at it.\<close>

definition unprobed :: "state \<Rightarrow> bool" where
  "unprobed w \<longleftrightarrow> fbs w = [] \<and> tx_buf w = PNull \<and> spi w = main_spi \<and> \<not> prepared w \<and> \<not> enabled w"

lemma main_spi_chunk: "tinydrm_spi_max_transfer_size 0 main_spi 0 = 153600"
  by (simp add: tinydrm_spi_max_transfer_size_def spi_max_transfer_size_def main_spi_def Let_def)

lemma main_spi_bpw: "tinydrm_spi_bpw_supported main_spi 16" "tinydrm_spi_bpw_supported main_spi 8"
  "\<not> tinydrm_spi_bpw_supported main_spi 9"
  by (simp_all add: tinydrm_spi_bpw_supported_def main_spi_def SPI_BPW_MASK_def BIT_def)

text \<open>What a probed device looks like.\<close>

definition probed :: "os \<Rightarrow> int \<Rightarrow> regmap \<Rightarrow> nat \<Rightarrow> state \<Rightarrow> bool" where
  "probed os fd m wb w \<longleftrightarrow>
     bus3_ready os fd m wb w \<and> on_bus (mipi_dbi_regmap_bus3 os) m \<and>
     \<not> prepared w \<and> \<not> enabled w \<and> pipe_funcs w \<and> udev_fb_funcs w \<and> fbs w = [] \<and>
     rotation (mipi w) = 0 \<and> (\<exists>d. backlight (mipi w) = Some d) \<and>
     um_hdisplay (udev_mode w) = 320 \<and> um_vdisplay (udev_mode w) = 240 \<and>
     chunk_size (mspi w) = 153600 \<and> tinydrm_spi_bpw_supported (spi w) 16 \<and>
     (\<exists>h. udev_buf_fd w = snd (os_dev os h))"

lemma mi0283qt_probe_ok:
  assumes good: "os_good os" and fds: "gpio_fds_distinct os" and u: "unprobed w"
  shows "\<exists>m wb fd w'. mi0283qt_probe os junk w = Some ((0, Some m), w') \<and> probed os fd m wb w'"
proof -
  let ?w1 = "allocated 400 (replicate 400 0) w"
  obtain rf rh w2 where r: "devm_gpiod_get_optional os ''reset'' GPIOD_OUT_HIGH ?w1 =
      Some (PObj \<lparr>gpio_fd = rf, gpio_nr = 23, gpio_name = ''reset''\<rparr>, w2)"
    "rf = os_ret os (rh @ [Ev_open (gpio_dir 23 @ ''/value'')])"
    "\<exists>es. trace w2 = rh @ [Ev_open (gpio_dir 23 @ ''/value'')] @ es"
    "evolves {} ?w1 w2" "tx_buf w2 = tx_buf ?w1"
    using gpio_get_ok [OF good, of "''reset''" 23 GPIOD_OUT_HIGH ?w1] by (auto simp: gpio_number_def)
  obtain df dh w3 where d: "devm_gpiod_get_optional os ''dc'' GPIOD_OUT_LOW w2 =
      Some (PObj \<lparr>gpio_fd = df, gpio_nr = 24, gpio_name = ''dc''\<rparr>, w3)"
    "df = os_ret os (dh @ [Ev_open (gpio_dir 24 @ ''/value'')])" "\<exists>es. dh = trace w2 @ es"
    "\<exists>es. trace w3 = dh @ [Ev_open (gpio_dir 24 @ ''/value'')] @ es"
    "evolves {} w2 w3" "tx_buf w3 = tx_buf w2"
    using gpio_get_ok [OF good, of "''dc''" 24 GPIOD_OUT_LOW w2] by (auto simp: gpio_number_def)
  obtain lf lh w4 where l: "devm_gpiod_get_optional os ''led'' GPIOD_OUT_LOW w3 =
      Some (PObj \<lparr>gpio_fd = lf, gpio_nr = 18, gpio_name = ''led''\<rparr>, w4)"
    "lf = os_ret os (lh @ [Ev_open (gpio_dir 18 @ ''/value'')])" "\<exists>es. lh = trace w3 @ es"
    "evolves {} w3 w4" "tx_buf w4 = tx_buf w3"
    using gpio_get_ok [OF good, of "''led''" 18 GPIOD_OUT_LOW w3] by (auto simp: gpio_number_def)
  have "rf \<noteq> df"
    by (rule gpio_fds_distinctD [OF fds _ r(3) d(3) r(2) d(2)]) simp
  moreover have "df \<noteq> lf"
    by (rule gpio_fds_distinctD [OF fds _ d(4) l(3) d(2) l(2)]) simp
  ultimately have ne: "rf \<noteq> df" "lf \<noteq> df" by simp_all
  have dev: "same_dev w w4"
    using evolves_same_dev [OF r(4)] evolves_same_dev [OF d(5)] evolves_same_dev [OF l(4)]
      evolves_same_dev [OF evolves_allocated [of "{}"]] same_dev_trans by blast
  have tx: "tx_buf w4 = PNull" using u r(5) d(6) l(5) by (simp add: unprobed_def)
  let ?d = "\<lparr>gpio_fd = df, gpio_nr = 24, gpio_name = ''dc''\<rparr>"
  let ?r = "\<lparr>gpio_fd = rf, gpio_nr = 23, gpio_name = ''reset''\<rparr>"
  let ?l = "\<lparr>gpio_fd = lf, gpio_nr = 18, gpio_name = ''led''\<rparr>"
  define w5 where "w5 = w4\<lparr>mipi := \<lparr>reset_gpio = Some ?r, rotation = 0, backlight = Some ?l,
    enable_delay_ms = 50, regulator = False\<rparr>\<rparr>"
  define w6 where "w6 = (allocated 24 (replicate 24 0) w5)\<lparr>mspi := \<lparr>ram_reg = MIPI_DCS_WRITE_MEMORY_START,
    ms_dc = Some ?d, write_only = False, ms_tx_buf = Null,
    chunk_size = tinydrm_spi_max_transfer_size 0 (spi w5) 0\<rparr>\<rparr>"
  define w7 where "w7 = allocated 2 [0, 0] (allocated 96 (replicate 96 0) w6)"
  let ?m = "dbi_regmap (mipi_dbi_regmap_bus3 os) (Ptr (Suc (nblk w6)) 0)"
  have init: "mipi_dbi_spi_init os junk (Some ?d) False w5 = Some (PObj ?m, w7)"
    using mipi_dbi_spi_init_eq [OF good, of junk "Some ?d" False w5]
    by (simp add: w7_def w6_def Let_def)
  have rot: "tinydrm_rotate_mode mi0283qt_mode 0 = (0, mi0283qt_mode)"
    by (simp add: tinydrm_rotate_mode_def)
  define w8 where "w8 = w7\<lparr>udev_fb_funcs := True, udev_mode := drm_mode_convert_to_umode mi0283qt_mode,
    pipe_funcs := True, mipi := (mipi w7)\<lparr>rotation := 0\<rparr>\<rparr>"
  have dbi: "mipi_dbi_init mi0283qt_mode 0 w7 = Some (0, w8)"
    by (simp add: mipi_dbi_init_def devm_tinydrm_init_def tinydrm_display_pipe_init_def rot w8_def)
  obtain es fd cfd bfd where reg: "devm_tinydrm_register os ''mi0283qt'' w8 =
    Some (0, (log_evs es w8)\<lparr>udev_fd := fd, udev_control_fd := cfd, spi := (spi w8)\<lparr>utinydrm := True\<rparr>,
      udev_buf_fd := bfd\<rparr>)" and bfd: "\<exists>h. bfd = snd (os_dev os h)"
    using register_ok [OF good] by blast
  define w9 where "w9 = (log_evs es w8)\<lparr>udev_fd := fd, udev_control_fd := cfd,
      spi := (spi w8)\<lparr>utinydrm := True, drvdata := True\<rparr>, udev_buf_fd := bfd\<rparr>"
  have pr: "mi0283qt_probe os junk w = Some ((0, Some ?m), w9)"
    using kzalloc_ok [OF good, of 400 w] r(1) d(1) l(1) init dbi reg
    by (simp add: mi0283qt_probe_def tinydrm_of_find_backlight_def w5_def w9_def)
  have dev5: "fbs w5 = []" "spi w5 = main_spi" "tx_buf w5 = PNull" "prepared w5 = prepared w"
    "enabled w5 = enabled w"
    using same_devD [OF dev] tx u by (simp_all add: w5_def unprobed_def)
  have b9: "\<exists>h. udev_buf_fd w9 = snd (os_dev os h)" using bfd by (simp add: w9_def)
  have k: "chunk_size (mspi w9) = 153600"
    by (simp add: w9_def w8_def w7_def w6_def dev5 main_spi_chunk)
  have "inv3 os df w9"
    using good k
    by (simp add: inv3_def spi_ready_def dma_blk_def w9_def w8_def w7_def w6_def dev5)
  moreover have "rm_buf ?m (Suc (nblk w6)) w9"
    by (simp add: rm_buf_def dma_blk_def w9_def w8_def w7_def dbi_regmap_def) (simp add: w6_def dev5)
  ultimately have "bus3_ready os df ?m (Suc (nblk w6)) w9"
    using ne
    by (simp add: bus3_ready_def rm_shape_def dbi_regmap_def mipi_dbi_regmap_bus3_def)
      (simp add: w9_def w8_def w7_def w6_def w5_def)
  moreover have "\<not> prepared w9" "\<not> enabled w9"
    using dev5(4,5) u by (simp_all add: w9_def w8_def w7_def w6_def allocated_def log_evs_def unprobed_def)
  ultimately have "probed os df ?m (Suc (nblk w6)) w9"
    using k b9 dbi_regmap_driver main_spi_bpw
    by (simp add: probed_def)
      (simp add: w9_def w8_def w7_def w6_def w5_def dev5 [unfolded w5_def] drm_mode_convert_to_umode_def mi0283qt_mode_def
        TINYDRM_MODE_def tinydrm_spi_bpw_supported_def)
  with pr show ?thesis by blast
qed

section \<open>Probing, whatever the operating system answers\<close>

text \<open>\<open>returns Q c\<close>: every result of \<open>c\<close> has \<open>Q\<close>; the rules walk down the code.\<close>

definition returns :: "('a \<Rightarrow> bool) \<Rightarrow> 'a option \<Rightarrow> bool" where
  "returns Q c \<longleftrightarrow> (\<forall>x. c = Some x \<longrightarrow> Q x)"

lemma returns_intros:
  "(\<And>y. k = Some y \<Longrightarrow> returns Q (g y)) \<Longrightarrow> returns Q (k \<bind> g)"
  "(p \<Longrightarrow> returns Q c) \<Longrightarrow> (\<not> p \<Longrightarrow> returns Q d) \<Longrightarrow> returns Q (if p then c else d)"
  "(\<And>z. z = v \<Longrightarrow> returns Q (f z)) \<Longrightarrow> returns Q (Let v f)"
  "(\<And>a b. u = (a, b) \<Longrightarrow> returns Q (j a b)) \<Longrightarrow> returns Q (case u of (a, b) \<Rightarrow> j a b)"
  "(\<And>e. returns Q (h e)) \<Longrightarrow> returns Q c \<Longrightarrow>
    returns Q (case r of PNull \<Rightarrow> c | PErr e \<Rightarrow> h e | PObj _ \<Rightarrow> c)"
  by (auto simp: returns_def bind_eq_Some_conv split: prod.splits errptr.splits)

lemma returns_reg:
  assumes "\<And>m. r = PObj m \<Longrightarrow> returns Q (f m)" and "\<And>e. Q ((e, None), w)"
  shows "returns Q (case r of PNull \<Rightarrow> None | PErr e \<Rightarrow> Some ((e, None), w) | PObj m \<Rightarrow> f m)"
  using assms by (cases r) (simp_all add: returns_def)

lemma returns_Some: "Q x \<Longrightarrow> returns Q (Some x)"
  by (simp add: returns_def)

lemma keeps_file_write_string: "calm w0 w \<Longrightarrow> keeps calm w0 (file_write_string os f s w)"
  unfolding file_write_string_def
  by (rule frame_intros calm_syscall calm_files frame_ops | assumption | simp add: calm_ev_def)+

lemma keeps_gpio_export: "calm w0 w \<Longrightarrow> keeps calm w0 (gpio_export os n w)"
  unfolding gpio_export_def
  by (rule frame_intros frame_ops keeps_file_write_string | assumption)+

lemma keeps_gpiod_get: "calm w0 w \<Longrightarrow> keeps calm w0 (devm_gpiod_get_optional os con fl w)"
  unfolding devm_gpiod_get_optional_def
  by (rule frame_intros keeps_gpio_export c0.keeps_kzalloc cf.keeps_gpiod_set_value_cansleep calm_syscall calm_files
      | assumption | hypsubst)+

lemma keeps_regmap_init: "calm w0 w \<Longrightarrow> keeps calm w0 (regmap_init os junk b c w)"
  unfolding regmap_init_def by (rule frame_intros frame_ops | assumption | hypsubst)+

lemma regmap_init_on_bus:
  assumes "regmap_init os junk (Some b) (Some mipi_dbi_regmap_config) w = Some (PObj m, w')"
  shows "on_bus b m"
  using assms
  by (auto simp: regmap_init_def on_bus_def regmap_reg_format_def Let_def bind_eq_Some_conv
      split: if_splits)

lemma register_flags:
  assumes "devm_tinydrm_register os nm w = Some (r, w')"
  shows "prepared w' = prepared w \<and> enabled w' = enabled w"
  using assms
  by (auto simp: devm_tinydrm_register_def syscall_eq Let_def bind_eq_Some_conv
      split: if_splits prod.splits)

lemma mipi_dbi_spi_init_any:
  assumes "mipi_dbi_spi_init os junk d wo w = Some (PObj m, w')"
  shows "driver_map os m \<and> prepared w' = prepared w \<and> enabled w' = enabled w"
proof -
  let ?b = "if d \<noteq> None then mipi_dbi_regmap_bus3 os else mipi_dbi_regmap_bus1 os"
  obtain p w1 ms where w1: "kzalloc os 24 w = Some (p, w1)"
    "regmap_init os junk (Some ?b) (Some mipi_dbi_regmap_config) (w1\<lparr>mspi := ms\<rparr>) = Some (PObj m, w')"
    using assms unfolding mipi_dbi_spi_init_def
    by (auto simp: bind_eq_Some_conv Let_def split: if_splits)
  have "on_bus ?b m" using w1(2) by (rule regmap_init_on_bus)
  then have "driver_map os m" unfolding driver_map_def by (auto split: if_splits)
  moreover have "calm w w1" using keepsD [OF c0.keeps_kzalloc [OF calm_refl] w1(1)] .
  moreover have "calm (w1\<lparr>mspi := ms\<rparr>) w'" using keepsD [OF keeps_regmap_init [OF calm_refl] w1(2)] .
  ultimately show ?thesis using calm_flags by fastforce
qed

definition probe_result :: "os \<Rightarrow> state \<Rightarrow> (int \<times> regmap option) \<times> state \<Rightarrow> bool" where
  "probe_result os w = (\<lambda>((ret, reg), w'). \<forall>m. ret = 0 \<longrightarrow> reg = Some m \<longrightarrow>
     driver_map os m \<and> prepared w' = prepared w \<and> enabled w' = enabled w)"

lemma mipi_dbi_init_flags:
  "mipi_dbi_init mode rot w = Some (r, w') \<Longrightarrow> prepared w' = prepared w \<and> enabled w' = enabled w"
  by (auto simp: mipi_dbi_init_def devm_tinydrm_init_def tinydrm_display_pipe_init_def
      Let_def split: if_splits prod.splits)

lemma probe_setup:
  assumes w4: "prepared w4 = prepared w" "enabled w4 = enabled w"
    and i: "mipi_dbi_spi_init os junk d False (w4\<lparr>mipi := mi\<rparr>) = Some (PObj m, w5)"
    and j: "mipi_dbi_init mi0283qt_mode 0 w5 = Some (r, w6)"
    and k: "devm_tinydrm_register os nm w6 = Some (r', w7)"
  shows "driver_map os m \<and> prepared w7 = prepared w \<and> enabled w7 = enabled w"
  using mipi_dbi_spi_init_any [OF i] mipi_dbi_init_flags [OF j] register_flags [OF k] w4 by simp

lemma probe_lines:
  assumes "kzalloc os n w = Some (p, w1)" and "devm_gpiod_get_optional os c1 f1 w1 = Some (r, w2)"
    and "devm_gpiod_get_optional os c2 f2 w2 = Some (d, w3)"
    and "tinydrm_of_find_backlight os w3 = Some (b, w4)"
  shows "prepared w4 = prepared w" "enabled w4 = enabled w"
proof -
  have "calm w w1" using keepsD [OF c0.keeps_kzalloc [OF calm_refl] assms(1)] .
  moreover have "calm w1 w2" using keepsD [OF keeps_gpiod_get [OF calm_refl] assms(2)] .
  moreover have "calm w2 w3" using keepsD [OF keeps_gpiod_get [OF calm_refl] assms(3)] .
  moreover have "calm w3 w4"
    using keepsD [OF keeps_gpiod_get [OF calm_refl]] assms(4) by (simp add: tinydrm_of_find_backlight_def)
  ultimately have "calm w w4" using calm_trans by blast
  then show "prepared w4 = prepared w" "enabled w4 = enabled w" by (rule calm_flags)+
qed

lemma probe_error: "probe_result os w ((r, None), w')"
  by (simp add: probe_result_def)

lemma probe_fails: "r \<noteq> 0 \<Longrightarrow> probe_result os w ((r, x), w')"
  by (simp add: probe_result_def)

lemma probe_done:
  assumes "driver_map os m \<and> prepared w7 = prepared w \<and> enabled w7 = enabled w"
  shows "probe_result os w ((r, Some m), w7\<lparr>spi := (spi w7)\<lparr>drvdata := x\<rparr>\<rparr>)"
  using assms by (simp add: probe_result_def)

lemma probe_returns: "returns (probe_result os w) (mi0283qt_probe os junk w)"
  unfolding mi0283qt_probe_def
  by (rule returns_intros returns_reg returns_Some probe_error probe_done probe_fails | hypsubst
      | assumption | (rule probe_setup, (rule probe_lines; assumption), (rule probe_lines; assumption)))+

lemma probe_any:
  "mi0283qt_probe os junk w = Some ((0, Some m), w') \<Longrightarrow>
   driver_map os m \<and> prepared w' = prepared w \<and> enabled w' = enabled w"
  using probe_returns [of os w junk] by (simp add: returns_def probe_result_def)

end
