(* ===== verification/Session.thy ===== *)
theory Session
  imports Probe
begin

text \<open>
  The events of \<open>/dev/udrm\<close> on a probed panel with interface option 3: creating a framebuffer,
  turning the pipe on, flushing and turning it off, and what the display has received after
  the first frame.
\<close>

section \<open>What the display receives\<close>

definition saw :: "int \<Rightarrow> state \<Rightarrow> state \<Rightarrow> item list \<Rightarrow> bool" where
  "saw fd w w' xs \<longleftrightarrow> (\<exists>es. trace w' = trace w @ es \<and> (\<forall>l. snd (run3 fd l es) = xs))"

lemma saw_trans: "saw fd w w' xs \<Longrightarrow> saw fd w' w'' ys \<Longrightarrow> saw fd w w'' (xs @ ys)"
proof -
  assume a: "saw fd w w' xs" and b: "saw fd w' w'' ys"
  from a obtain es where es: "trace w' = trace w @ es" "\<And>l. snd (run3 fd l es) = xs"
    by (auto simp: saw_def)
  from b obtain fs where fs: "trace w'' = trace w' @ fs" "\<And>l. snd (run3 fd l fs) = ys"
    by (auto simp: saw_def)
  have "snd (run3 fd l (es @ fs)) = xs @ ys" for l
    using es(2) [of l] fs(2) by (auto simp: run3_append split: prod.split) (metis snd_conv)
  then show ?thesis
    using es(1) fs(1) unfolding saw_def by (intro exI [of _ "es @ fs"]) simp
qed

lemma saw_upd [simp]:
  "saw fd w (w'\<lparr>prepared := p\<rparr>) xs = saw fd w w' xs" "saw fd w (w'\<lparr>enabled := p\<rparr>) xs = saw fd w w' xs"
  "saw fd w (w'\<lparr>fbs := f\<rparr>) xs = saw fd w w' xs" "saw fd (w\<lparr>plane_fb := q\<rparr>) w' xs = saw fd w w' xs"
  by (simp_all add: saw_def)

lemma panel_step_saw: "panel_step os fd m wb xs w w' \<Longrightarrow> saw fd w w' xs"
  unfolding saw_def using panel_step_trace [of os fd m wb xs w w']
  by (auto simp: panel_step_def shows3_def)

section \<open>Creating a framebuffer\<close>

definition made_fb :: "u32 \<Rightarrow> fb_cmd \<Rightarrow> int \<Rightarrow> ptr \<Rightarrow> bool \<Rightarrow> utinydrm_fb" where
  "made_fb id1 info fd p dirty =
     \<lparr>fb_id = id1, fb_handle = info_handle info, fb_buf_fd = fd,
      fb_map_size = sint (info_height info * info_pitch info), fb_map = p,
      fb_pitch = info_pitch info, fb_width = info_width info, fb_height = info_height info,
      fb_format = drm_mode_legacy_fb_format (info_bpp info) (info_depth info), fb_dirty_set = dirty\<rparr>"

lemma fb_create_ok:
  assumes good: "os_good os"
  shows "\<exists>h fd b w1. utinydrm_fb_create os id1 w =
      Some (0, w1\<lparr>fbs := made_fb id1 (os_fb os h) fd (Ptr b 0) (udev_fb_funcs w) # fbs w\<rparr>) \<and>
    evolves {} w w1 \<and> nblk w \<le> b \<and> b < nblk w1 \<and> list_all other_ev (new_evs w w1) \<and>
    mspi w1 = mspi w \<and> tx_buf w1 = tx_buf w \<and>
    (\<exists>bs. mem w1 b = Some bs \<and> length bs = unat (info_height (os_fb os h) * info_pitch (os_fb os h)))"
proof -
  let ?w1 = "allocated 144 (replicate 144 0) w"
  let ?g = "Ev_getfb (udev_control_fd w) id1"
  let ?w2 = "log_ev ?g ?w1"
  let ?i = "os_fb os (trace ?w2)"
  let ?p = "Ev_prime_to_fd (udev_control_fd w) (info_handle ?i) 0"
  let ?w3 = "log_ev ?p ?w2"
  let ?fd = "os_prime_fd os (trace ?w3)"
  let ?n = "info_height ?i * info_pitch ?i"
  let ?m = "Ev_mmap ?fd (unat ?n) 1"
  let ?w4 = "log_ev ?m ?w3"
  let ?b = "nblk ?w4"
  let ?bs = "map (os_map os (trace ?w4)) [0..<unat ?n]"
  let ?w5 = "?w4\<lparr>mem := (mem ?w4)(?b \<mapsto> ?bs), nblk := Suc ?b\<rparr>"
  have cf: "udev_control_fd ?w1 = udev_control_fd w" "udev_fb_funcs ?w1 = udev_fb_funcs w"
    by (simp_all add: allocated_def)
  have s: "syscall os ?g ?w1 = Some (os_ret os (trace ?w1 @ [?g]), ?w2)"
    "os_ret os (trace ?w1 @ [?g]) \<noteq> - 1"
    "syscall os ?p ?w2 = Some (os_ret os (trace ?w2 @ [?p]), ?w3)"
    "os_ret os (trace ?w2 @ [?p]) \<noteq> - 1"
    "syscall os ?m ?w3 = Some (os_ret os (trace ?w3 @ [?m]), ?w4)"
    "os_ret os (trace ?w3 @ [?m]) \<noteq> - 1"
    by (rule syscall_nonneg [OF good]; simp add: ret_ok_def)+
  have mm: "sys_mmap os ?fd (unat ?n) 1 ?w3 = Some (Ptr ?b 0, ?w5)"
    using s(5,6) by (simp add: sys_mmap_def new_block_def)
  have "utinydrm_fb_create os id1 w =
      Some (0, ?w5\<lparr>fbs := made_fb id1 ?i ?fd (Ptr ?b 0) (udev_fb_funcs w) # fbs w\<rparr>)"
    unfolding utinydrm_fb_create_def
    using kzalloc_ok [OF good, of 144 w] s(1-4) mm cf
    by (simp add: made_fb_def Let_def del: of_nat_mult)
  moreover have e: "evolves {} w ?w4" "new_evs w ?w4 = [Ev_alloc 144, ?g, ?p, ?m]"
    using evolves_trans [OF evolves_allocated evolves_log [of "{}" _ "[?g, ?p, ?m]"]] by simp_all
  moreover have "evolves {} ?w4 ?w5" "new_evs ?w4 ?w5 = []"
    using evolves_new_block [of "{}" ?w4 "Some ?bs"] by (simp_all add: new_evs_def)
  ultimately show ?thesis
    using evolves_trans [of "{}" w ?w4 ?w5]
    by (intro exI [of _ "trace ?w2"] exI [of _ ?fd] exI [of _ ?b] exI [of _ ?w5]) (simp add: other_ev_def)
qed

text \<open>The panel stays set up: the new block is the only one the kernel can read by DMA now.\<close>

lemma inv3_new_fb:
  assumes "inv3 os fd w" and "evolves {} w w1" and "mspi w1 = mspi w" and "tx_buf w1 = tx_buf w"
    and "b < nblk w1" and "fb_map u = Ptr b 0"
  shows "inv3 os fd (w1\<lparr>fbs := u # fbs w\<rparr>)"
proof -
  have "c < nblk w1" if "dma_blk c (w1\<lparr>fbs := u # fbs w\<rparr>)" for c
  proof (cases "c = b")
    case False
    then have "dma_blk c w" using that assms(4,6) by (auto simp: dma_blk_def)
    then have "c < nblk w" using assms(1) by (simp add: inv3_def)
    then show ?thesis using evolves_nblk [OF assms(2)] by simp
  qed (use assms(5) in simp)
  then show ?thesis
    using assms(1,3,4) same_devD(1) [OF evolves_same_dev [OF assms(2)]]
    by (auto simp: inv3_def spi_ready_def)
qed

lemma bus3_ready_new_fb:
  assumes r: "bus3_ready os fd m wb w" and ev: "evolves {} w w1" and eq: "mspi w1 = mspi w" "tx_buf w1 = tx_buf w"
    and b: "nblk w \<le> b" "b < nblk w1" "fb_map u = Ptr b 0"
  shows "bus3_ready os fd m wb (w1\<lparr>fbs := u # fbs w\<rparr>)"
proof -
  from r obtain x y where wb: "work_buf m = Ptr wb 0" "wb < nblk w" "\<not> dma_blk wb w" "mem w wb = Some [x, y]"
    by (auto simp: bus3_ready_def rm_buf_def)
  have "\<not> dma_blk wb (w1\<lparr>fbs := u # fbs w\<rparr>)"
    using wb(2,3) b(1,3) eq(2) by (auto simp: dma_blk_def)
  moreover have "mem w1 wb = Some [x, y]" using evolves_mem [OF ev wb(2)] wb(4) by simp
  ultimately have "rm_buf m wb (w1\<lparr>fbs := u # fbs w\<rparr>)"
    using wb(1,2) evolves_nblk [OF ev] by (simp add: rm_buf_def)
  then show ?thesis
    using r inv3_new_fb [OF _ ev eq b(2,3)] eq same_devD(2) [OF evolves_same_dev [OF ev]]
    by (simp add: bus3_ready_def)
qed

section \<open>The events\<close>

text \<open>A panel between two events: set up, and with the state the handlers rely on.\<close>

definition session :: "os \<Rightarrow> int \<Rightarrow> regmap \<Rightarrow> nat \<Rightarrow> state \<Rightarrow> bool" where
  "session os fd m wb w \<longleftrightarrow>
     bus3_ready os fd m wb w \<and> pipe_funcs w \<and> udev_fb_funcs w \<and> 0 \<le> udev_buf_fd w \<and>
     chunk_size (mspi w) = 153600 \<and> tinydrm_spi_bpw_supported (spi w) 16 \<and>
     (\<exists>d. backlight (mipi w) = Some d)"

lemma session_step:
  assumes "session os fd m wb w" and "panel_step os fd m wb xs w w'"
  shows "session os fd m wb w'"
  using assms panel_step_ready [OF assms(2)] same_devD [OF panel_step_dev [OF assms(2)]]
  by (simp add: session_def)

lemma session_upd [simp]:
  "session os fd m wb (w\<lparr>prepared := p\<rparr>) = session os fd m wb w"
  "session os fd m wb (w\<lparr>enabled := p\<rparr>) = session os fd m wb w"
  "session os fd m wb (w\<lparr>plane_fb := q\<rparr>) = session os fd m wb w"
  by (simp_all add: session_def)
    (simp add: bus3_ready_def inv3_def spi_ready_def rm_buf_def dma_blk_def)

lemma enable_event:
  assumes s: "session os fd m wb w" and "\<not> prepared w" and "\<And>h. \<not> power_mode_on (os_rx os h 0)"
  shows "\<exists>w'. utinydrm_event os m UDRM_EVENT_PIPE_ENABLE w = Some (0, w'\<lparr>prepared := True\<rparr>) \<and>
    panel_step os fd m wb (panel_on_items (rotation (mipi w))) w w'"
proof -
  have r: "bus3_ready os fd m wb w" and pf: "pipe_funcs w" using s by (simp_all add: session_def)
  show ?thesis
    using mi0283qt_enable_off [OF r assms(2,3)] pf by (auto simp: utinydrm_pipe_enable_def)
qed

lemma create_event:
  assumes s: "session os fd m wb w"
  shows "\<exists>h f b w'. utinydrm_event os m (UDRM_EVENT_FB_CREATE id1) w = Some (0, w') \<and>
    session os fd m wb w' \<and> saw fd w w' [] \<and>
    fbs w' = made_fb id1 (os_fb os h) f (Ptr b 0) True # fbs w \<and>
    prepared w' = prepared w \<and> enabled w' = enabled w \<and> udev_buf_fd w' = udev_buf_fd w"
proof -
  have r: "bus3_ready os fd m wb w" and good: "os_good os" and ff: "udev_fb_funcs w"
    using s by (simp_all add: session_def bus3_ready_def inv3_def spi_ready_def)
  obtain h f b w1 where w1: "utinydrm_fb_create os id1 w =
      Some (0, w1\<lparr>fbs := made_fb id1 (os_fb os h) f (Ptr b 0) (udev_fb_funcs w) # fbs w\<rparr>)"
    "evolves {} w w1" "nblk w \<le> b" "b < nblk w1" "list_all other_ev (new_evs w w1)"
    "mspi w1 = mspi w" "tx_buf w1 = tx_buf w"
    using fb_create_ok [OF good, of id1 w] by blast
  let ?u = "made_fb id1 (os_fb os h) f (Ptr b 0) True"
  let ?w = "w1\<lparr>fbs := ?u # fbs w\<rparr>"
  note dev = same_devD [OF evolves_same_dev [OF w1(2)]]
  have m: "fb_map ?u = Ptr b 0" by (simp add: made_fb_def)
  have "session os fd m wb ?w"
    using s bus3_ready_new_fb [OF r w1(2,6,7,3,4) m] dev by (simp add: session_def)
  moreover have "saw fd w ?w []"
    unfolding saw_def using run3_other [OF w1(5)] evolves_trace [OF w1(2)]
    by (intro exI [of _ "new_evs w w1"]) simp
  ultimately show ?thesis
    using w1(1) ff dev
    by (intro exI [of _ h] exI [of _ f] exI [of _ b] exI [of _ ?w]) simp
qed

lemma dirty_event:
  assumes s: "session os fd m wb w" and p: "prepared w"
    and u: "fbs w = u # us" "fb_id u = id1" "fb_dirty_set u" "rgb565_fb u w"
    and c: "tinydrm_merge_clips (if enabled w then Some clips else None)
              (if enabled w then n else 0) ann (fb_width u) (fb_height u) = Some c"
    and ci: "clip_in (fb_width u) (fb_height u) c"
  shows "\<exists>w'. utinydrm_event os m (UDRM_EVENT_FB_DIRTY id1 ann color n clips) w =
      Some (0, w'\<lparr>enabled := True\<rparr>) \<and> session os fd m wb w' \<and>
    saw fd w w' (flush_items c (udev_buf_fd w)) \<and> prepared w' \<and> fbs w' = fbs w"
proof -
  let ?w = "w\<lparr>plane_fb := Some id1\<rparr>"
  have s1: "session os fd m wb ?w" using s by simp
  then have r: "bus3_ready os fd m wb ?w" by (simp add: session_def)
  have "rgb565_fb u ?w" "0 \<le> udev_buf_fd ?w" "tinydrm_spi_bpw_supported (spi ?w) 16"
    using u(4) s by (simp_all add: rgb565_fb_def session_def)
  then obtain w' where w': "mipi_dbi_fb_dirty os m u ann color clips n ?w = Some (0, w'\<lparr>enabled := True\<rparr>)"
    "panel_step os fd m wb (flush_items c (udev_buf_fd ?w)) ?w w'"
    using fb_dirty_ok [OF r, where fb = u and ann = ann and color = color and clips = clips and n = n and c = c] p c ci
    by auto
  have "saw fd w w' (flush_items c (udev_buf_fd w))" using panel_step_saw [OF w'(2)] by simp
  then show ?thesis
    using w' u session_step [OF s1 w'(2)] same_devD [OF panel_step_dev [OF w'(2)]] p
    by (intro exI [of _ w']) (simp add: utinydrm_fb_dirty_def)
qed

section \<open>The first frame\<close>

lemma probed_session:
  "probed os fd m wb w \<Longrightarrow> (\<And>h. 0 \<le> snd (os_dev os h)) \<Longrightarrow> session os fd m wb w"
  by (auto simp: probed_def session_def)

text \<open>A framebuffer of the size of the panel, 16 bits per pixel and no padding.\<close>

definition panel_fb :: "fb_cmd \<Rightarrow> bool" where
  "panel_fb i \<longleftrightarrow> info_width i = 320 \<and> info_height i = 240 \<and> info_pitch i = 640 \<and>
     info_bpp i = 16 \<and> info_depth i = 16"

lemma made_panel_fb:
  assumes "panel_fb i" and "u = made_fb id1 i f (Ptr b 0) True"
  shows "fb_id u = id1" "fb_dirty_set u" "fb_width u = 320" "fb_height u = 240"
    "u \<in> set (fbs w) \<Longrightarrow> chunk_size (mspi w) = 153600 \<Longrightarrow> rgb565_fb u w"
  using assms by (simp_all add: made_fb_def panel_fb_def rgb565_fb_def drm_mode_legacy_fb_format_def)

lemma full_clip_panel: "clip_in 320 240 (full_clip 320 240)"
  by (rule clip_in_full) simp_all

lemma first_frame_ok:
  assumes s: "session os fd m wb w1" and np: "\<not> prepared w1" and ne: "\<not> enabled w1"
    and off: "\<And>h. \<not> power_mode_on (os_rx os h 0)" and fb: "\<And>h. panel_fb (os_fb os h)"
  shows "\<exists>w2 w3 w4. utinydrm_event os m UDRM_EVENT_PIPE_ENABLE w1 = Some (0, w2) \<and>
    utinydrm_event os m (UDRM_EVENT_FB_CREATE id1) w2 = Some (0, w3) \<and>
    utinydrm_event os m (UDRM_EVENT_FB_DIRTY id1 ann color n clips) w3 = Some (0, w4) \<and>
    saw fd w1 w4 (panel_on_items (rotation (mipi w1)) @
      flush_items (full_clip 320 240) (udev_buf_fd w1)) \<and> prepared w4 \<and> enabled w4 \<and>
    session os fd m wb w3 \<and> prepared w3 \<and>
    (\<exists>u us. fbs w3 = u # us \<and> rgb565_fb u w3 \<and> fb_width u = 320 \<and> fb_height u = 240)"
proof -
  obtain w2 where w2: "utinydrm_event os m UDRM_EVENT_PIPE_ENABLE w1 = Some (0, w2\<lparr>prepared := True\<rparr>)"
    "panel_step os fd m wb (panel_on_items (rotation (mipi w1))) w1 w2"
    using enable_event [OF s np off] by blast
  note dev2 = same_devD [OF panel_step_dev [OF w2(2)]]
  have s2: "session os fd m wb (w2\<lparr>prepared := True\<rparr>)" using session_step [OF s w2(2)] by simp
  obtain h f b w3 where w3: "utinydrm_event os m (UDRM_EVENT_FB_CREATE id1) (w2\<lparr>prepared := True\<rparr>) = Some (0, w3)"
    "session os fd m wb w3" "saw fd (w2\<lparr>prepared := True\<rparr>) w3 []"
    "fbs w3 = made_fb id1 (os_fb os h) f (Ptr b 0) True # fbs (w2\<lparr>prepared := True\<rparr>)"
    "prepared w3" "enabled w3 = enabled w2" "udev_buf_fd w3 = udev_buf_fd w2"
    using create_event [OF s2, of id1] by auto
  let ?u = "made_fb id1 (os_fb os h) f (Ptr b 0) True"
  note u = made_panel_fb [OF fb refl, of id1 h f b]
  have rf: "rgb565_fb ?u w3" using w3(2,4) by (intro u(5)) (simp_all add: session_def)
  have "\<not> enabled w3" using w3(6) dev2(5) ne by simp
  then have mc: "tinydrm_merge_clips (if enabled w3 then Some clips else None) (if enabled w3 then n else 0)
      ann (fb_width ?u) (fb_height ?u) = Some (full_clip 320 240)"
    using u(3,4) by (simp add: tinydrm_merge_clips_def)
  have ci: "clip_in (fb_width ?u) (fb_height ?u) (full_clip 320 240)"
    using u(3,4) full_clip_panel by simp
  obtain w4 where w4: "utinydrm_event os m (UDRM_EVENT_FB_DIRTY id1 ann color n clips) w3 =
      Some (0, w4\<lparr>enabled := True\<rparr>)"
    "saw fd w3 w4 (flush_items (full_clip 320 240) (udev_buf_fd w3))" "prepared w4"
    using dirty_event [OF w3(2,5,4) u(1,2) rf mc ci] by blast
  have "saw fd w1 (w2\<lparr>prepared := True\<rparr>) (panel_on_items (rotation (mipi w1)))"
    using panel_step_saw [OF w2(2)] by simp
  from saw_trans [OF saw_trans [OF this w3(3)] w4(2)]
  have "saw fd w1 w4 (panel_on_items (rotation (mipi w1)) @
      flush_items (full_clip 320 240) (udev_buf_fd w1))"
    using w3(7) dev2(8) by simp
  then show ?thesis
    using w2(1) w3(1) w4(1,3)
    by (intro exI [of _ "w2\<lparr>prepared := True\<rparr>"] exI [of _ w3] exI [of _ "w4\<lparr>enabled := True\<rparr>"])
      (use w3(2,4,5) rf u(3,4) in \<open>simp del: utinydrm_event.simps\<close>)
qed

section \<open>A round of the main loop\<close>

lemma main_round_runs:
  assumes good: "os_good os" and m: "driver_map os m"
    and e: "utinydrm_event os m (os_event os (trace w @ [Ev_read (udev_fd w)])) (log_ev (Ev_read (udev_fd w)) w) =
      Some (r, w2)"
  shows "\<exists>es. main_round os m w = Some ((None, os_hangup os (trace (log_evs es w2))), log_evs es w2) \<and>
    list_all other_ev es"
proof -
  have s: "syscall os (Ev_read (udev_fd w)) w = Some (os_ret os (trace w @ [Ev_read (udev_fd w)]), log_ev (Ev_read (udev_fd w)) w)"
    "os_ret os (trace w @ [Ev_read (udev_fd w)]) \<noteq> - 1"
    by (rule syscall_nonneg [OF good]; simp add: ret_ok_def)+
  have f: "udev_fd w2 = udev_fd w"
    using utinydrm_event_handler [OF m e] by (simp add: handler_ok_def same_setup_def)
  let ?r = "Ev_reply (udev_fd w) r" and ?p = "Ev_poll (udev_fd w)"
  have t: "syscall os ?r w2 = Some (os_ret os (trace w2 @ [?r]), log_ev ?r w2)"
    "os_ret os (trace w2 @ [?r]) \<noteq> - 1"
    "syscall os ?p (log_ev ?r w2) = Some (os_ret os (trace (log_ev ?r w2) @ [?p]), log_ev ?p (log_ev ?r w2))"
    by (rule syscall_nonneg [OF good]; simp add: ret_ok_def)+
  have "0 \<le> os_ret os ((trace w2 @ [?r]) @ [?p])"
    using os_goodD(2) [OF good, of ?p "trace w2 @ [?r]"] by (simp add: ret_ok_def)
  then show ?thesis
    using s t e f by (intro exI [of _ "[?r, ?p]"]) (simp add: main_round_def other_ev_def)
qed

end
