(* ===== verification/Samples.thy ===== *)
theory Samples
  imports Session Bus1
begin

text \<open>
  Concrete inputs for the witnesses: an operating system whose calls succeed and number the
  descriptors they open, and the states of a panel on it, obtained by running the probe
  function and the event handlers.
\<close>

section \<open>An operating system\<close>

text \<open>The result of a call is the number of calls so far, except where 0 is the success value.\<close>

definition os1 :: os where
  "os1 = os0\<lparr>os_ret := \<lambda>h. (case last h of Ev_create_dumb _ _ _ _ \<Rightarrow> 0 | _ \<Rightarrow> int (length h))\<rparr>"

lemma os1_good: "os_good os1"
  by (auto simp: os_good_def os1_def os0_def ret_ok_def split: sysev.split)

lemma os1_gpio: "gpio_fds_distinct os1"
  by (simp add: gpio_fds_distinct_def os1_def)

lemma os1_dev: "0 \<le> snd (os_dev os1 h)"
  by (simp add: os1_def os0_def)

lemma os1_off: "\<not> power_mode_on (os_rx os1 h 0)"
  by (simp add: os1_def os0_def power_mode_on_def DCS_POWER_MODE_ON_def BIT_def)

lemma os1_fb: "panel_fb (os_fb os1 h)"
  by (simp add: os1_def os0_def panel_fb_def)

lemma os1_hangup: "os_hangup os1 h"
  by (simp add: os1_def os0_def)

lemma os1_event: "os_event os1 h = UDRM_EVENT_PIPE_ENABLE"
  by (simp add: os1_def os0_def)

text \<open>The same system with a display that reports that it is on.\<close>

definition os2 :: os where
  "os2 = os1\<lparr>os_rx := \<lambda>_ _. 0x9C\<rparr>"

lemma os2_good: "os_good os2"
  using os1_good by (simp add: os_good_def os2_def)

lemma os2_gpio: "gpio_fds_distinct os2"
  using os1_gpio by (simp add: gpio_fds_distinct_def os2_def)

lemma os2_on: "power_mode_on (os_rx os2 h 0)"
  by (simp add: os2_def power_mode_on_def DCS_POWER_MODE_ON_def DCS_POWER_MODE_RESERVED_MASK_def BIT_def)

section \<open>Panels\<close>

lemma init_unprobed: "unprobed init_state"
  by (simp add: unprobed_def init_state_def)

lemma panel1:
  "\<exists>m wb fd w. mi0283qt_probe os1 REGMAP_ENDIAN_DEFAULT init_state = Some ((0, Some m), w) \<and>
    probed os1 fd m wb w"
  using mi0283qt_probe_ok [OF os1_good os1_gpio init_unprobed, of REGMAP_ENDIAN_DEFAULT] by blast

lemma panel2:
  "\<exists>m wb fd w. mi0283qt_probe os2 REGMAP_ENDIAN_DEFAULT init_state = Some ((0, Some m), w) \<and>
    probed os2 fd m wb w"
  using mi0283qt_probe_ok [OF os2_good os2_gpio init_unprobed, of REGMAP_ENDIAN_DEFAULT] by blast

text \<open>A panel with a framebuffer, after the pipe was turned on.\<close>

lemma panel_fb1:
  "\<exists>m wb fd w u us. session os1 fd m wb w \<and> prepared w \<and> fbs w = u # us \<and> rgb565_fb u w \<and>
    fb_width u = 320 \<and> fb_height u = 240"
proof -
  obtain m wb fd w where w: "probed os1 fd m wb w" using panel1 by blast
  then have s: "session os1 fd m wb w" "\<not> prepared w" "\<not> enabled w"
    using probed_session [OF w os1_dev] by (simp_all add: probed_def)
  show ?thesis
    using first_frame_ok [OF s os1_off os1_fb, where ann = False and color = 0 and n = 0 and clips = "[]"]
    by blast
qed

text \<open>The first round of the main loop on a probed panel.\<close>

lemma round1:
  assumes "session os1 fd m wb w" and "\<not> prepared w" and "driver_map os1 m"
  shows "\<exists>w'. main_round os1 m w = Some ((None, True), w')"
proof -
  let ?w = "log_ev (Ev_read (udev_fd w)) w"
  have s: "session os1 fd m wb ?w" "\<not> prepared ?w"
    using assms(1,2) panel_step_log [of os1 fd m wb w "[Ev_read (udev_fd w)]"]
    by (auto simp: session_def intro: panel_step_ready)
  obtain w2 where "utinydrm_event os1 m UDRM_EVENT_PIPE_ENABLE ?w = Some (0, w2)"
    using enable_event [OF s os1_off] by blast
  then show ?thesis
    using main_round_runs [OF os1_good assms(3), of w 0 w2] by (auto simp: os1_event os1_hangup)
qed

section \<open>A device on interface option 1\<close>

definition dev1 :: state where
  "dev1 = init_state\<lparr>spi := main_spi\<lparr>drvdata := True\<rparr>\<rparr>"

lemma map1:
  "\<exists>m wb w. mipi_dbi_spi_init os1 REGMAP_ENDIAN_DEFAULT None False dev1 = Some (PObj m, w) \<and>
    inv1e os1 w \<and> rm_shape (mipi_dbi_spi1_write os1) (mipi_dbi_spi1_gather_write os1) m \<and> rm_buf m wb w"
proof -
  obtain m w where i: "mipi_dbi_spi_init os1 REGMAP_ENDIAN_DEFAULT None False dev1 = Some (PObj m, w)"
    and m: "m = dbi_regmap (mipi_dbi_regmap_bus1 os1) (Ptr 2 0)"
    and w: "spi w = main_spi\<lparr>drvdata := True\<rparr>" "tx_buf w = PNull" "fbs w = []" "nblk w = 3"
      "mem w 2 = Some [0, 0]" "ram_reg (mspi w) = MIPI_DCS_WRITE_MEMORY_START"
    using mipi_dbi_spi_init_eq [OF os1_good, of REGMAP_ENDIAN_DEFAULT None False dev1]
    by (simp add: Let_def dev1_def init_state_def numeral_2_eq_2)
  have "tinydrm_spi_bpw_supported (spi w) 9 = False" "mipi_dbi_spi_clamp_size (spi w) 4096 = 4096"
    using w(1) main_spi_bpw(3)
    by (simp_all add: tinydrm_spi_bpw_supported_def mipi_dbi_spi_clamp_size_def spi_max_transfer_size_def
        main_spi_def Let_def clamp_val_def)
  then have "inv1e os1 w"
    using os1_good w by (simp add: inv1e_def spi_ready_def dma_blk_def main_spi_def)
  moreover have "rm_buf m 2 w" using w m by (simp add: rm_buf_def dbi_regmap_def dma_blk_def)
  moreover have "rm_shape (mipi_dbi_spi1_write os1) (mipi_dbi_spi1_gather_write os1) m"
    using m by (simp add: rm_shape_def dbi_regmap_def mipi_dbi_regmap_bus1_def)
  ultimately show ?thesis using i by blast
qed

end
