(* ===== verification/Wire_Props.thy ===== *)
theory Wire_Props
  imports Samples Limits
begin

text \<open>
  Properties of the transfers: how buffers are cut, swapped and sent from DMA memory, what is
  sent when the system refuses, the reply of the display, and the cases in which the code writes
  outside its buffers or sends the wrong window.
\<close>

section \<open>Chunks\<close>

text \<open>
  C29. A private buffer goes out as it is: the payloads of the messages, none of them empty or
  longer than the chunk size, make up the bytes of the buffer in order.
\<close>

theorem transfer_sends_buffer:
  assumes "spi_ready os w" and "priv buf w" and "load w buf len = Some bs" and "0 < max_chunk"
  shows "\<exists>es. tinydrm_spi_transfer os speed None 8 buf len sb max_chunk w = Some (0, log_evs es w) \<and>
    concat (spi_payloads es) = bs \<and> (\<forall>p \<in> set (spi_payloads es). p \<noteq> [] \<and> length p \<le> max_chunk)"
proof -
  obtain es where es: "tinydrm_spi_transfer os speed None 8 buf len sb max_chunk w = Some (0, log_evs es w)"
    "spi_payloads es = chunks max_chunk bs"
    using tinydrm_spi_transfer_priv [OF assms, of 8] by auto
  have "\<forall>p \<in> set (chunks max_chunk bs). p \<noteq> [] \<and> length p \<le> max_chunk"
    using chunks_length by fastforce
  then show ?thesis using es concat_chunks [OF assms(4)] by metis
qed

text \<open>A device with a buffer of five bytes and one of four.\<close>

definition dev2 :: state where
  "dev2 = dev1\<lparr>mem := [0 \<mapsto> [1, 2, 3, 4, 5], 1 \<mapsto> [0, 0, 0, 0]], nblk := 2\<rparr>"

lemma dev2_ready: "spi_ready os1 dev2" "priv (Ptr 0 i) dev2" "priv (Ptr 1 i) dev2"
  using os1_good by (simp_all add: spi_ready_def dev2_def dev1_def init_state_def main_spi_def priv_def dma_blk_def)

lemma dev2_mem: "load dev2 (Ptr 0 0) 5 = Some [1, 2, 3, 4, 5]" "load dev2 (Ptr 0 1) 4 = Some [2, 3, 4, 5]"
  "mem dev2 1 = Some [0, 0, 0, 0]"
  by (simp_all add: dev2_def)

theorem transfer_sends_buffer_witness:
  "\<exists>es. tinydrm_spi_transfer os1 0 None 8 (Ptr 0 0) 5 Null 4 dev2 = Some (0, log_evs es dev2) \<and>
    concat (spi_payloads es) = [1, 2, 3, 4, 5]"
  using transfer_sends_buffer [OF dev2_ready(1,2) dev2_mem(1), of 4 0 Null] by auto

lemma swap16_chunks: "even n \<Longrightarrow> 0 < n \<Longrightarrow> concat (map swap16 (chunks n bs)) = swap16 bs"
proof (induction n bs rule: chunks.induct)
  case (1 n bs)
  have app: "even (length xs) \<Longrightarrow> swap16 (xs @ ys) = swap16 xs @ swap16 ys" for xs ys
    by (induction xs rule: swap16.induct) simp_all
  show ?case
  proof (cases "bs = [] \<or> length bs \<le> n")
    case True
    then show ?thesis using 1 by (cases "bs = []") (simp_all add: chunks_step)
  next
    case False
    then have "swap16 (take n bs @ drop n bs) = swap16 (take n bs) @ swap16 (drop n bs)"
      using 1 by (intro app) simp
    then show ?thesis using False 1 by (simp add: chunks_step)
  qed
qed

text \<open>
  C30. Pixels for a controller without 16-bit words: the two bytes of every pixel are exchanged on
  the wire, whatever the chunk size.
\<close>

theorem transfer_swaps_pixels:
  assumes "spi_ready os w" and "priv (Ptr d 0) w" and "mem w d = Some ds" and "s \<noteq> d"
    and "load w (Ptr s i) len = Some bs" and "even len" and "even mc" and "0 < mc" and "mc \<le> length ds"
    and "\<not> tinydrm_spi_bpw_supported (spi w) 16"
  shows "\<exists>es w'. tinydrm_spi_transfer os speed None 16 (Ptr s i) len (Ptr d 0) mc w = Some (0, w') \<and>
    trace w' = trace w @ es \<and> concat (spi_payloads es) = swap16 bs"
  using tinydrm_spi_transfer_swap [OF assms, of speed] swap16_chunks [OF assms(7,8), of bs] by force

theorem transfer_swaps_pixels_witness:
  "\<exists>es w'. tinydrm_spi_transfer os1 0 None 16 (Ptr 0 1) 4 (Ptr 1 0) 2
      (dev2\<lparr>spi := (spi dev2)\<lparr>bits_per_word_mask := 0\<rparr>\<rparr>) = Some (0, w') \<and>
    trace w' = trace dev2 @ es \<and> concat (spi_payloads es) = [3, 2, 5, 4]"
proof -
  let ?w = "dev2\<lparr>spi := (spi dev2)\<lparr>bits_per_word_mask := 0\<rparr>\<rparr>"
  have r: "spi_ready os1 ?w" "priv (Ptr 1 0) ?w"
    using dev2_ready by (simp_all add: spi_ready_def priv_def dma_blk_def)
  have m: "mem ?w 1 = Some [0, 0, 0, 0]" "load ?w (Ptr 0 1) 4 = Some [2, 3, 4, 5]"
    using dev2_mem by (simp_all add: dev2_def)
  have b: "\<not> tinydrm_spi_bpw_supported (spi ?w) 16" by (simp add: tinydrm_spi_bpw_supported_def)
  have n: "(0::nat) \<noteq> 1" "even (4::nat)" "even (2::nat)" "0 < (2::nat)" "2 \<le> length [0, 0, 0, 0 :: u8]" by simp_all
  show ?thesis using transfer_swaps_pixels [OF r m(1) n(1) m(2) n(2-5) b, of 0] by simp
qed

section \<open>Transfers from DMA memory\<close>

lemma pieces_offset: "(o1, k) \<in> set (pieces off n) \<Longrightarrow> o1 < off + n"
proof -
  assume p: "(o1, k) \<in> set (pieces off n)"
  then have "0 < k" using pieces_bound by blast
  then have "o1 \<in> set [o1..<o1 + k]" by simp
  then have "o1 \<in> set (concat (map (\<lambda>(o1, n). [o1..<o1 + n]) (pieces off n)))" using p by force
  then show ?thesis unfolding pieces_cover by simp
qed

text \<open>
  C31. Sending a framebuffer from its DMA buffer: consecutive pieces of at most 30720 bytes cover
  the length exactly, each byte once. The first piece starts at offset 0 of the buffer, whatever
  the pointer of the transfer.
\<close>

theorem dma_pieces_cover:
  assumes "os_good os" and "tr_len tr < 2 ^ 32"
  shows "\<exists>es. spi_buf_transfer os tr fd w = Some (0, log_evs es w) \<and>
    concat (map (\<lambda>x. [unat (ioc_dma_offset x)..<unat (ioc_dma_offset x) + ioc_len x]) (spi_xfers es)) = [0..<tr_len tr] \<and>
    (\<forall>x \<in> set (spi_xfers es). ioc_tx_dma_fd x = fd \<and> 0 < ioc_len x \<and> ioc_len x \<le> 30720)"
proof -
  let ?ps = "pieces 0 (tr_len tr)" and ?x = "\<lambda>(o1, n). buf_xfer fd (tr_speed_hz tr) (of_nat o1) n"
  obtain es where es: "spi_buf_transfer os tr fd w = Some (0, log_evs es w)" "spi_xfers es = map ?x ?ps"
    using spi_buf_loop_ok [OF assms(1), of fd "tr_speed_hz tr" 0 "tr_len tr" w]
    by (auto simp: spi_buf_transfer_def)
  have u: "unat (of_nat o1 :: u32) = o1" if "(o1, k) \<in> set ?ps" for o1 k
    using pieces_offset [OF that] assms(2) by (simp add: unat_of_nat take_bit_nat_eq_self)
  have e: "map ((\<lambda>x. [unat (ioc_dma_offset x)..<unat (ioc_dma_offset x) + ioc_len x]) \<circ> ?x) ?ps =
      map (\<lambda>(o1, n). [o1..<o1 + n]) ?ps"
    using u by (intro map_cong) (auto simp: buf_xfer_def)
  have "concat (map (\<lambda>x. [unat (ioc_dma_offset x)..<unat (ioc_dma_offset x) + ioc_len x]) (spi_xfers es)) = [0..<tr_len tr]"
    unfolding es(2) map_map e pieces_cover by simp
  moreover have "\<forall>x \<in> set (spi_xfers es). ioc_tx_dma_fd x = fd \<and> 0 < ioc_len x \<and> ioc_len x \<le> 30720"
    unfolding es(2) using pieces_bound by (fastforce simp: buf_xfer_def)
  ultimately show ?thesis using es(1) by blast
qed

theorem dma_pieces_cover_witness:
  "\<exists>es. spi_buf_transfer os1 (zero_transfer\<lparr>tr_tx_buf := Ptr 3 640, tr_len := 153600\<rparr>) 9 init_state =
      Some (0, log_evs es init_state) \<and>
    concat (map (\<lambda>x. [unat (ioc_dma_offset x)..<unat (ioc_dma_offset x) + ioc_len x]) (spi_xfers es)) = [0..<153600]"
  using dma_pieces_cover [OF os1_good, of "zero_transfer\<lparr>tr_tx_buf := Ptr 3 640, tr_len := 153600\<rparr>" 9 init_state]
  by (auto simp del: upt_rec_numeral)

section \<open>A system that refuses\<close>

text \<open>A failed call leaves a positive number in \<open>errno\<close>.\<close>

definition errno_set :: "os \<Rightarrow> bool" where
  "errno_set os \<longleftrightarrow> (\<forall>h. os_ret os h < 0 \<longrightarrow> 0 < os_errno os h)"

lemma errno_setD: "errno_set os \<Longrightarrow> os_ret os h < 0 \<Longrightarrow> os_errno os h \<noteq> 0"
  unfolding errno_set_def by (metis less_irrefl)

text \<open>The state after some calls, whatever their results.\<close>

definition called :: "sysev list \<Rightarrow> int \<Rightarrow> state \<Rightarrow> state" where
  "called es e w = (log_evs es w)\<lparr>errno := e\<rparr>"

lemma called_called [simp]: "called fs e (called es e' w) = called (es @ fs) e w"
  by (simp add: called_def log_evs_def)

lemma syscall_called: "\<exists>r e. syscall os ev w = Some (r, called [ev] e w) \<and> r = os_ret os (trace w @ [ev]) \<and>
    e = (if r < 0 then os_errno os (trace w @ [ev]) else errno w)"
  by (simp add: syscall_def Let_def called_def log_evs_def)

lemma load_called [simp]: "load (called es e w) p n = load w p n"
  by (cases p) (simp_all add: called_def)

lemma called_simps [simp]:
  "spi (called es e w) = spi w" "tx_buf (called es e w) = tx_buf w" "fbs (called es e w) = fbs w"
  "priv p (called es e w) = priv p w" "errno (called es e w) = e" "trace (called es e w) = trace w @ es"
  by (simp_all add: called_def priv_def dma_blk_def)

lemma ioctl_called:
  assumes "load w (ioc_tx_buf u) (ioc_len u) = Some bs" and "ioc_tx_buf u \<noteq> Null" and "ioc_rx_buf u = Null"
  shows "\<exists>r e. spi_ioctl os fd [u] w = Some (r, called [Ev_spi fd [u] [bs]] e w)"
proof -
  obtain r e where "syscall os (Ev_spi fd [u] [bs]) w = Some (r, called [Ev_spi fd [u] [bs]] e w)"
    using syscall_called by metis
  then show ?thesis
    using assms by (intro exI [of _ r] exI [of _ e]) (simp add: spi_ioctl_def)
qed

text \<open>One message: its payload is sent, or the device did not open and the result is an error.\<close>

lemma send_refused:
  assumes "errno_set os" and "load w (ioc_tx_buf u) (ioc_len u) = Some bs" and "ioc_tx_buf u \<noteq> Null"
    and "ioc_rx_buf u = Null"
  shows "\<exists>r es e. spi_sync_send os u [] w = Some (r, called es e w) \<and>
    (spi_payloads es = [bs] \<or> spi_payloads es = [] \<and> r \<noteq> 0)"
proof -
  define u' where "u' = (if ioc_speed_hz u = 0 then u\<lparr>ioc_speed_hz := max_speed_hz (spi w)\<rparr> else u)"
  have u: "load w (ioc_tx_buf u') (ioc_len u') = Some bs" "ioc_tx_buf u' \<noteq> Null" "ioc_rx_buf u' = Null"
    using assms(2-4) by (simp_all add: u'_def)
  obtain fd e where o: "syscall os (Ev_open spidev) w = Some (fd, called [Ev_open spidev] e w)"
    "fd < 0 \<Longrightarrow> e \<noteq> 0"
    using syscall_called [of os "Ev_open spidev" w] errno_setD [OF assms(1)] by (auto split: if_splits)
  show ?thesis
  proof (cases "fd < 0")
    case True
    then show ?thesis
      using o by (intro exI [of _ "- e"] exI [of _ "[Ev_open spidev]"] exI [of _ e])
        (simp add: spi_sync_send_def Let_def)
  next
    case False
    let ?w = "called [Ev_open spidev] e w"
    obtain r2 e2 where i: "spi_ioctl os fd [u'] ?w = Some (r2, called [Ev_spi fd [u'] [bs]] e2 ?w)"
      using ioctl_called [of ?w u' bs os fd] u by auto
    let ?es = "[Ev_open spidev, Ev_spi fd [u'] [bs], Ev_close fd]"
    obtain r3 e3 where c: "syscall os (Ev_close fd) (called [Ev_spi fd [u'] [bs]] e2 ?w) =
        Some (r3, called [Ev_close fd] e3 (called [Ev_spi fd [u'] [bs]] e2 ?w))"
      using syscall_called by metis
    have "\<exists>r. spi_sync_send os u [] w = Some (r, called ?es e3 w)"
      using o(1) False i c unfolding spi_sync_send_def u'_def [symmetric] Let_def by simp
    moreover have "spi_payloads ?es = [bs]" by simp
    ultimately show ?thesis by blast
  qed
qed

lemma sync_refused:
  assumes "errno_set os" and "drvdata (spi w)" and "\<forall>e. tx_buf w \<noteq> PErr e" and "priv (tr_tx_buf tr) w"
    and "load w (tr_tx_buf tr) (tr_len tr) = Some bs"
  shows "\<exists>r es e. spi_sync os [tr] w = Some ((r, [tr]), called es e w) \<and>
    (spi_payloads es = [bs] \<or> spi_payloads es = [] \<and> r \<noteq> 0)"
proof -
  have p: "private_ptr (tr_tx_buf tr) w" using priv_private_ptr assms(3,4) by blast
  have n: "tr_tx_buf tr \<noteq> Null" using assms(4) by auto
  have none: "find (\<lambda>u. ptr_in (tr_tx_buf tr) (fb_map u) (fb_map_size u)) (fbs w) = None"
    using p by (auto simp: private_ptr_def find_None_iff)
  obtain r es e where s: "spi_sync_send os (spi_ioc_first tr) [] w = Some (r, called es e w)"
    "spi_payloads es = [bs] \<or> spi_payloads es = [] \<and> r \<noteq> 0"
    using send_refused [OF assms(1), of w "spi_ioc_first tr" bs] assms(5) n by (auto simp: spi_ioc_first_def)
  then show ?thesis
    using none p assms(2) by (auto simp: spi_sync_def private_ptr_def split: errptr.splits)
qed

lemma concat_take_chunks: "0 < n \<Longrightarrow> concat (take k (chunks n xs)) = take (k * n) xs"
proof (induction n xs arbitrary: k rule: chunks.induct)
  case (1 n xs)
  then show ?case by (cases "xs = []"; cases k) (simp_all add: chunks_step take_add)
qed

lemma loop_refused:
  assumes "errno_set os" and "drvdata (spi w)" and "\<forall>e. tx_buf w \<noteq> PErr e" and "priv buf w"
    and "load w buf len = Some bs" and "0 < mc"
  shows "\<exists>r es e. spi_transfer_loop os False sb mc None tr buf len w = Some (r, called es e w) \<and>
    (\<exists>k. spi_payloads es = take k (chunks mc bs)) \<and> (r = 0 \<longrightarrow> spi_payloads es = chunks mc bs)"
  using assms
proof (induction len arbitrary: tr buf bs w rule: less_induct)
  case (less len)
  note pr = less.prems
  have bs: "length bs = len" using pr(5) by (rule load_0_len)
  show ?case
  proof (cases "len = 0")
    case True
    with bs show ?thesis
      by (intro exI [of _ 0] exI [of _ "[]"] exI [of _ "errno w"])
        (simp add: spi_transfer_loop.simps called_def)
  next
    case False
    let ?c = "min len mc"
    let ?tr = "tr\<lparr>tr_tx_buf := buf, tr_len := ?c\<rparr>"
    have "load w buf (?c + (len - ?c)) = Some bs" using pr(5) by simp
    then have ld: "load w buf ?c = Some (take ?c bs)" "load w (padd buf ?c) (len - ?c) = Some (drop ?c bs)"
      using load_Some_append by blast+
    have ch: "chunks mc bs = take ?c bs # chunks mc (drop ?c bs)"
    proof -
      have "bs \<noteq> []" using False bs by auto
      moreover have "take ?c bs = take mc bs" "drop ?c bs = drop mc bs"
        using bs by (cases "len \<le> mc"; simp add: min_def)+
      ultimately show ?thesis using pr(6) by (simp add: chunks_step)
    qed
    obtain r es e where es: "spi_sync os [?tr] w = Some ((r, [?tr]), called es e w)"
      "spi_payloads es = [take ?c bs] \<or> spi_payloads es = [] \<and> r \<noteq> 0"
      using sync_refused [OF pr(1-3), of ?tr "take ?c bs"] pr(4) ld(1) by auto
    show ?thesis
    proof (cases "r = 0")
      case False
      have "spi_transfer_loop os False sb mc None tr buf len w = Some (r, called es e w)"
        using False \<open>len \<noteq> 0\<close> es(1) by (subst spi_transfer_loop.simps) simp
      moreover have "\<exists>k. spi_payloads es = take k (chunks mc bs)"
        using es(2) ch by (metis take0 take_Suc_Cons)
      ultimately show ?thesis using False by blast
    next
      case True
      have lt: "len - ?c < len" using False pr(6) by simp
      let ?w = "called es e w"
      have w: "drvdata (spi ?w)" "\<forall>e. tx_buf ?w \<noteq> PErr e" "priv (padd buf ?c) ?w"
        "load ?w (padd buf ?c) (len - ?c) = Some (drop ?c bs)"
        using pr(2-4) ld(2) by simp_all
      obtain r2 fs e2 where fs: "spi_transfer_loop os False sb mc None ?tr (padd buf ?c) (len - ?c) ?w =
          Some (r2, called fs e2 ?w)" "\<exists>k. spi_payloads fs = take k (chunks mc (drop ?c bs))"
        "r2 = 0 \<longrightarrow> spi_payloads fs = chunks mc (drop ?c bs)"
        using less.IH [OF lt pr(1) w pr(6)] by blast
      have "spi_transfer_loop os False sb mc None tr buf len w = Some (r2, called (es @ fs) e2 w)"
        using False True es(1) fs(1) by (subst spi_transfer_loop.simps) simp
      moreover have p: "spi_payloads (es @ fs) = take ?c bs # spi_payloads fs" using es(2) True by simp
      moreover have "\<exists>k. spi_payloads (es @ fs) = take k (chunks mc bs)"
        using fs(2) unfolding p ch by (metis take_Suc_Cons)
      moreover have "r2 = 0 \<longrightarrow> spi_payloads (es @ fs) = chunks mc bs" using fs(3) unfolding p ch by simp
      ultimately show ?thesis by blast
    qed
  qed
qed

text \<open>
  C32. A transfer on any operating system, calls that fail included, returns; what was sent is a
  beginning of the buffer, in order, and when the result is 0 it is the whole buffer: no chunk is
  skipped and none is sent after an error.
\<close>

theorem failed_transfer_stops:
  assumes "errno_set os" and "drvdata (spi w)" and "\<forall>e. tx_buf w \<noteq> PErr e" and "priv buf w"
    and "load w buf len = Some bs" and "0 < mc"
  shows "\<exists>r w' es k. tinydrm_spi_transfer os speed None 8 buf len sb mc w = Some (r, w') \<and>
    trace w' = trace w @ es \<and> concat (spi_payloads es) = take k bs \<and> (r = 0 \<longrightarrow> concat (spi_payloads es) = bs)"
proof -
  obtain r es e where l: "tinydrm_spi_transfer os speed None 8 buf len sb mc w = Some (r, called es e w)"
    "\<exists>k. spi_payloads es = take k (chunks mc bs)" "r = 0 \<longrightarrow> spi_payloads es = chunks mc bs"
    using loop_refused [OF assms, of sb "zero_transfer\<lparr>tr_bits_per_word := 8, tr_speed_hz := speed\<rparr>"]
    by (auto simp: tinydrm_spi_transfer_def Let_def)
  moreover obtain k where "concat (spi_payloads es) = take (k * mc) bs"
    using l(2) concat_take_chunks [OF assms(6)] by metis
  moreover have "r = 0 \<longrightarrow> concat (spi_payloads es) = bs" using l(3) concat_chunks [OF assms(6)] by auto
  ultimately show ?thesis by fastforce
qed

text \<open>A system that opens nothing.\<close>

definition os_closed :: os where
  "os_closed = os0\<lparr>os_ret := \<lambda>h. (case last h of Ev_open _ \<Rightarrow> - 1 | _ \<Rightarrow> 1)\<rparr>"

theorem failed_transfer_stops_witness:
  "\<exists>r w' es k. tinydrm_spi_transfer os_closed 0 None 8 (Ptr 0 0) 5 Null 4 dev2 = Some (r, w') \<and>
    trace w' = trace dev2 @ es \<and> concat (spi_payloads es) = take k [1, 2, 3, 4, 5] \<and>
    (r = 0 \<longrightarrow> concat (spi_payloads es) = [1, 2, 3, 4, 5])"
proof -
  have e: "errno_set os_closed" by (simp add: errno_set_def os_closed_def os0_def)
  have d: "drvdata (spi dev2)" "\<forall>e. tx_buf dev2 \<noteq> PErr e" using dev2_ready(1) by (simp_all add: spi_ready_def)
  show ?thesis by (rule failed_transfer_stops [OF e d dev2_ready(2) dev2_mem(1)]) simp
qed

section \<open>Reading the display\<close>

lemma bit_0x80: "bit (0x80 :: u8) n \<longleftrightarrow> n = 7"
  using bit_exp_iff [of 7 n, where 'a = "8 word"] by auto

lemma and_0x80: "(b AND 0x80 \<noteq> 0) = bit b 7" for b :: u8
proof -
  have "b AND 0x80 = (if bit b 7 then 0x80 else 0)"
    by (rule bit_word_eqI) (simp only: bit_and_iff if_distrib [of "\<lambda>x. bit x _"] bit_0x80, auto)
  then show ?thesis by auto
qed

lemma shift_reply_bits:
  "stream_bits (shift_reply bs) = take (8 * (length bs - 1)) (drop 1 (stream_bits bs))"
proof (induction bs rule: shift_reply.induct)
  case (1 a b bs)
  note m = and_0x80
  have h: "byte_bits (push_bit 1 a OR (if b AND 0x80 \<noteq> 0 then 1 else 0)) = tl (byte_bits a) @ [bit b 7]"
    unfolding m byte_bits_def list.map bit_or_iff bit_push_bit_iff by (auto simp: bit_1_iff)
  have c: "stream_bits (x # xs) = byte_bits x @ stream_bits xs" for x xs by (simp add: stream_bits_def)
  obtain B where b: "byte_bits b = bit b 7 # B" "length B = 7" by (simp add: byte_bits_def)
  obtain A where a: "byte_bits a = bit a 7 # A" "length A = 7" by (simp add: byte_bits_def)
  have d: "drop 1 (stream_bits (b # bs)) = B @ stream_bits bs" by (simp add: c b(1))
  have "stream_bits (shift_reply (a # b # bs)) = A @ [bit b 7] @ take (8 * length bs) (B @ stream_bits bs)"
    using 1 h a unfolding d by (simp add: c)
  also have "\<dots> = take (8 * (length (a # b # bs) - 1)) (drop 1 (stream_bits (a # b # bs)))"
    using a(2) by (simp add: c a(1) b(1))
  finally show ?case .
qed (simp_all add: stream_bits_def)

text \<open>
  C33. Reading a register over option 3: the display receives the command byte with the D/C line
  low; the value is the bytes it answers or, for the two commands with a dummy clock cycle, the
  bits after that cycle.
\<close>

theorem read_option3:
  assumes "inv3 os fd w" and "\<not> write_only (mspi w)" and "priv p w" and "load w p 1 = Some [c]"
    and "mem w v = Some vs" and "length vs = n" and "v < nblk w" and "dummy_cmd c \<longrightarrow> n = 3 \<or> n = 4"
  shows "\<exists>h w' vs'. mipi_dbi_spi3_read os p 1 (Ptr v 0) n w = Some (0, w') \<and> mem w' v = Some vs' \<and>
    stream_bits vs' = (if dummy_cmd c then take (8 * n) (drop 1 (stream_bits (map (os_rx os h) [0..<n + 1])))
                       else stream_bits (map (os_rx os h) [0..<n])) \<and>
    shows3 fd w w' [Cmd c]"
proof -
  obtain h w' where r: "mipi_dbi_spi3_read os p 1 (Ptr v 0) n w = Some (0, w')"
    "mem w' v = Some (reply_value c n (os_rx os h))" "shows3 fd w w' [Cmd c]"
    using spi3_read_ok [OF assms(1-5) _ assms(7,8)] assms(6) by auto
  have "stream_bits (reply_value c n (os_rx os h)) =
      (if dummy_cmd c then take (8 * n) (drop 1 (stream_bits (map (os_rx os h) [0..<n + 1])))
       else stream_bits (map (os_rx os h) [0..<n]))"
    using shift_reply_bits [of "map (os_rx os h) [0..<n + 1]"] by (simp add: reply_value_def)
  with r show ?thesis by blast
qed

text \<open>A device on interface option 3 with a command byte in memory and room for a value.\<close>

definition dev3 :: state where
  "dev3 = dev1\<lparr>spi := main_spi\<lparr>drvdata := True, utinydrm := True\<rparr>,
     mspi := \<lparr>ram_reg = MIPI_DCS_WRITE_MEMORY_START, ms_dc = Some \<lparr>gpio_fd = 5, gpio_nr = 24, gpio_name = ''dc''\<rparr>,
              write_only = False, ms_tx_buf = Null, chunk_size = 4096\<rparr>,
     mem := [0 \<mapsto> [0x04], 1 \<mapsto> [0, 0, 0]], nblk := 2\<rparr>"

theorem read_option3_witness:
  "\<exists>w' vs'. mipi_dbi_spi3_read os2 (Ptr 0 0) 1 (Ptr 1 0) 3 dev3 = Some (0, w') \<and> mem w' 1 = Some vs' \<and>
    stream_bits vs' = take 24 (drop 1 (stream_bits [0x9C, 0x9C, 0x9C, 0x9C])) \<and> shows3 5 dev3 w' [Cmd 0x04]"
proof -
  have i: "inv3 os2 5 dev3"
    using os2_good by (simp add: inv3_def spi_ready_def dev3_def dev1_def init_state_def dma_blk_def)
  have p: "priv (Ptr 0 0) dev3" "load dev3 (Ptr 0 0) 1 = Some [0x04]" "mem dev3 1 = Some [0, 0, 0]"
    "length [0, 0, 0 :: u8] = 3" "1 < nblk dev3" "\<not> write_only (mspi dev3)"
    by (simp_all add: priv_def dev3_def dev1_def init_state_def dma_blk_def)
  have d: "dummy_cmd 0x04" by (simp add: dummy_cmd_def)
  have r: "map (os_rx os2 h) [0..<3 + 1] = [0x9C, 0x9C, 0x9C, 0x9C]" for h
    by (simp add: os2_def upt_rec)
  obtain h w' vs' where "mipi_dbi_spi3_read os2 (Ptr 0 0) 1 (Ptr 1 0) 3 dev3 = Some (0, w')"
    "mem w' 1 = Some vs'" "stream_bits vs' = take (8 * 3) (drop 1 (stream_bits (map (os_rx os2 h) [0..<3 + 1])))"
    "shows3 5 dev3 w' [Cmd 0x04]"
    using read_option3 [OF i p(6,1-5)] d by auto
  then show ?thesis unfolding r by auto
qed

section \<open>Outside the buffer\<close>

lemma fill16_overflow:
  assumes "mem w b = Some ds" and "length ds < i + 4 * k" and "0 < k"
  shows "spi1_fill16 dc src (Ptr b i) k w = None"
  using assms
proof (induction k arbitrary: src i ds w)
  case (Suc k)
  show ?case
  proof (cases "load w src 2")
    case None
    then show ?thesis by simp
  next
    case (Some s)
    let ?a = "le16 (dc_word dc (drop_bit 8 (get_unaligned_le16 s)))"
    let ?b = "le16 (dc_word dc (get_unaligned_le16 s AND 0xFF))"
    show ?thesis
    proof (cases "i + 4 \<le> length ds")
      case False
      then show ?thesis using Some Suc.prems(1) by (auto simp: Let_def split: option.splits)
    next
      case True
      let ?ds = "take (i + 2) (take i ds @ ?a @ drop (i + 2) ds) @ ?b @ drop (i + 2 + 2) (take i ds @ ?a @ drop (i + 2) ds)"
      have l: "length ?ds = length ds" using True by simp
      have "0 < k" using Suc.prems(2) True by (cases k) simp_all
      then have "spi1_fill16 dc (padd src 2) (Ptr b (i + 4)) k (w'\<lparr>mem := (mem w')(b \<mapsto> ?ds)\<rparr>) = None" for w'
        using Suc.prems(2) l by (intro Suc.IH [of _ ?ds]) simp_all
      then show ?thesis
        using Some Suc.prems(1) True by (simp add: Let_def)
    qed
  qed
qed simp

text \<open>
  C34. Pixels on a controller with 9-bit words: the loop over 16-bit words writes two 9-bit words
  for each of \<open>chunk\<close> pixels into a buffer made for \<open>chunk\<close> words, outside the buffer from the
  middle of the chunk on, for every length and chunk size.
\<close>

theorem option1_pixels_overflow:
  assumes "os_good os" and "tinydrm_spi_bpw_supported (spi w) 9" and "even len" and "0 < len"
    and "2 \<le> unat (mipi_dbi_spi_clamp_size (spi w) mc)"
  shows "mipi_dbi_spi1_transfer os 16 dc buf len mc w = None"
proof -
  let ?m = "min (unat (mipi_dbi_spi_clamp_size (spi w) mc) div 2) len"
  have m: "0 < ?m" using assms(4,5) by simp
  obtain bs where bs: "length bs = ?m * 2"
    "kmalloc os (?m * 2) w = Some (Ptr (nblk w) 0, allocated (?m * 2) bs w)"
    using kmalloc_ok [OF assms(1)] .
  let ?w = "allocated (?m * 2) bs w"
  have l: "length bs < 0 + 4 * ?m" using bs(1) m by linarith
  have "mem ?w (nblk w) = Some bs" by simp
  then have "spi1_fill16 dc buf (Ptr (nblk w) 0) ?m ?w = None" by (rule fill16_overflow [OF _ l m])
  then have "spi1_loop os 16 dc ?m (Ptr (nblk w) 0) tr buf len ?w = None" for tr
    using assms(4) by (subst spi1_loop.simps) (simp add: min_absorb2)
  then show ?thesis
    using assms(2-4) bs(2) by (simp add: mipi_dbi_spi1_transfer_def Let_def)
qed

theorem option1_pixels_overflow_witness:
  "mipi_dbi_spi1_transfer os1 16 True (Ptr 0 0) 4 4096
    (dev2\<lparr>spi := (spi dev2)\<lparr>bits_per_word_mask := SPI_BPW_MASK 9\<rparr>\<rparr>) = None"
  by (rule option1_pixels_overflow [OF os1_good])
    (simp_all add: tinydrm_spi_bpw_supported_def SPI_BPW_MASK_def BIT_def clamp_size_eq dev2_def dev1_def main_spi_def Let_def)

section \<open>The window\<close>

lemma unat_low_byte: "unat (ucast (x AND 0xFF :: u16) :: u8) = unat x mod 256"
proof -
  have "(0xFF :: u16) = mask 8" by (simp add: mask_numeral)
  then have "x AND 0xFF = take_bit 8 x" by (simp add: take_bit_eq_mask)
  then show ?thesis by (simp add: unsigned_ucast_eq unsigned_take_bit_eq take_bit_eq_mod unat_mod_distrib)
qed

lemma low_byte_pred:
  assumes "0 < (n::nat)"
  shows "256 * (n div 256) + (n - 1) mod 256 = (if n mod 256 = 0 then n + 255 else n - 1)"
proof -
  obtain q r where n: "n = 256 * q + r" "r < 256"
    using that [of "n div 256" "n mod 256"] by simp
  show ?thesis
  proof (cases r)
    case 0
    then obtain p where "q = Suc p" using n assms by (cases q) auto
    then have "n - 1 = 255 + 256 * p" using n 0 by simp
    then show ?thesis using n 0 by simp
  next
    case (Suc r')
    then have "n - 1 = r' + 256 * q" "r' < 256" using n by simp_all
    then show ?thesis using n Suc by simp
  qed
qed

text \<open>
  C35. The end of a window, read as the display reads it: the last column or row, except for an
  end whose low byte is zero, where the display gets 256 too much.
\<close>

theorem window_end_decoded:
  assumes "0 < b"
  shows "\<exists>e1 e0. drop 2 (window_params a b) = [e1, e0] \<and>
    256 * unat e1 + unat e0 = (if unat b mod 256 = 0 then unat b + 255 else unat b - 1)"
proof -
  have p: "0 < unat b" using assms by (simp add: unat_gt_0)
  have "unat b < 256 * 256" using unsigned_less [of b] by simp
  then have d: "unat (drop_bit 8 b) mod 256 = unat b div 256"
    by (simp add: drop_bit_eq_div unat_div_distrib)
  have m: "unat (b - 1) = unat b - 1" using assms by (intro unat_minus_one) auto
  have "256 * (unat b div 256) + (unat b - 1) mod 256 =
      (if unat b mod 256 = 0 then unat b + 255 else unat b - 1)"
    using p by (rule low_byte_pred)
  then show ?thesis by (simp add: window_params_def unat_low_byte d m)
qed

theorem window_end_decoded_witness:
  "drop 2 (window_params 0 256) = [1, 255] \<and> (256::nat) * 1 + 255 = 256 + 255"
  using window_end_decoded [of 256 0] by (auto simp: window_params_def)

section \<open>Sizes and register maps\<close>

text \<open>
  The largest transfer: the smallest of the controller's DMA limit, the caller's limit and
  the module parameter, zeros not counted, rounded down to a multiple of 4, but never below 4.
\<close>

theorem max_transfer_size:
  "unat (tinydrm_spi_max_transfer_size par s max_len) =
    (let dma = unat (max_dma_len s);
         l = min dma (min (if max_len = 0 then dma else unat max_len) (if par = 0 then dma else unat par))
     in max 4 (l - l mod 4))"
  by (simp only: spi_max_eq spi_limit_def Let_def unat_eq_0)

lemma set_inplace:
  "(if c then m\<lparr>parse_inplace := True\<rparr> else m)\<lparr>format_val := f, parse_val := p, parse_inplace := True\<rparr> =
   m\<lparr>format_val := f, parse_val := p, parse_inplace := True\<rparr>"
  by simp

text \<open>
  The value the bus leaves uninitialised for the byte order does not matter to a register map
  with values of 8 bits: whatever it is, the initialisation gives the same map, errors included.
\<close>

theorem regmap_init_any_endian:
  assumes "cfg_val_bits c = 8"
  shows "regmap_init os junk1 b (Some c) w = regmap_init os junk2 b (Some c) w"
  by (simp only: regmap_init_def option.case Let_def assms set_inplace regmap.select_convs
      regmap.update_convs simp_thms if_True if_False)

theorem regmap_init_any_endian_witness:
  "regmap_init os1 REGMAP_ENDIAN_BIG (Some (mipi_dbi_regmap_bus1 os1)) (Some mipi_dbi_regmap_config) dev1 =
   regmap_init os1 REGMAP_ENDIAN_NATIVE (Some (mipi_dbi_regmap_bus1 os1)) (Some mipi_dbi_regmap_config) dev1"
  by (rule regmap_init_any_endian) simp

text \<open>Every map that the initialisation makes has one byte for the register and one for the value.\<close>

lemmas init_steps = regmap_init_def option.case Option.bind.simps prod.case Let_def if_True if_False simp_thms
  regmap.select_convs regmap.update_convs option.distinct

lemma regmap_init_shape:
  assumes a: "regmap_init os junk (Some bu) cfg w = Some (PObj m, w')"
  shows "bus m = Some bu \<and> reg_bytes m = 1 \<and> val_bytes m = 1 \<and> format_reg m = Some regmap_format_8 \<and>
    format_val m = Some regmap_format_8 \<and> write_flag_mask m = 0 \<and> buf_size m = 2 + pad_bytes m \<and>
    reg_write m = Bus_raw_write \<and> work_buf m \<noteq> Null"
proof -
  obtain c where c: "cfg = Some c" using a by (cases cfg) (simp_all add: regmap_init_def)
  have tot: "\<exists>p w'. kzalloc os n w = Some (p, w')" for n w
    by (simp add: kzalloc_def alloc_def new_block_def Let_def)
  obtain p w1 where k: "kzalloc os 96 w = Some (p, w1)" using tot by blast
  then have k': "(p = Null) = False" using a c by (auto simp: regmap_init_def)
  have fr: "kfree p v \<bind> (\<lambda>(_, w). Some (PErr e, w)) \<noteq> Some (PObj m, w')" for e v
    by (cases "kfree p v") auto
  have b: "cfg_reg_bits c + cfg_pad_bits c mod 8 = 8"
  proof (rule ccontr)
    assume "\<not> ?thesis"
    then have f: "regmap_reg_format (cfg_reg_bits c + cfg_pad_bits c mod 8) = None" by (simp add: regmap_reg_format_def)
    show False using a fr unfolding c by (simp only: init_steps k k' f)
  qed
  then have f: "regmap_reg_format (cfg_reg_bits c + cfg_pad_bits c mod 8) = Some regmap_format_8"
    by (simp add: regmap_reg_format_def)
  have iv: "format_write (if z then x else y) = (if z then format_write x else format_write y)"
    "format_val (if z then x else y) = (if z then format_val x else format_val y)" for x y :: regmap and z
    by simp_all
  have v: "cfg_val_bits c = 8"
  proof (rule ccontr)
    assume "\<not> ?thesis"
    then have n: "(cfg_val_bits c = 8) = False" by simp
    show False using a fr unfolding c by (simp only: init_steps k k' f n iv if_cancel)
  qed
  have bits: "(r + 8 - 1) div 8 = 1 \<and> (r + 8 + p + 8 - 1) div 8 = 2 + p div 8" if "r + p mod 8 = 8" for r p :: nat
  proof -
    obtain q s where qs: "q = p div 8" "s = p mod 8" "s < 8" by simp
    have "8 * q + s = p" unfolding qs by simp
    then have "1 \<le> r" "r \<le> 8" "r + 8 + p + 8 - 1 = 7 + (2 + p div 8) * 8"
      using that qs(3) unfolding qs(1,2) [symmetric] by auto
    then show ?thesis by (intro conjI) (rule div_nat_eqI, simp_all)
  qed
  have n: "div_round_up (cfg_reg_bits c) 8 = 1" "div_round_up 8 8 = 1"
    "div_round_up (cfg_reg_bits c + 8 + cfg_pad_bits c) 8 = 2 + cfg_pad_bits c div 8"
    using bits [OF b] by (simp_all add: div_round_up_def)
  obtain q w2 where q: "kzalloc os (2 + cfg_pad_bits c div 8) w1 = Some (q, w2)" using tot by blast
  have q': "(q = Null) = False"
  proof (rule ccontr)
    assume "\<not> ?thesis"
    then have "(q = Null) = True" by simp
    then show False using a fr unfolding c by (simp only: init_steps k k' f v n q set_inplace)
  qed
  show ?thesis
    using a q' unfolding c by (simp only: init_steps k k' f v n q set_inplace) auto
qed

lemma store_byte:
  "mem w b = Some bs \<Longrightarrow> i < length bs \<Longrightarrow>
   store (Ptr b i) [x] w = Some ((), w\<lparr>mem := (mem w)(b \<mapsto> bs[i := x])\<rparr>)"
  by (simp add: upd_conv_take_nth_drop)

text \<open>
  C37. On every bus with a write function, whether it has a gather write or not, and for every
  configuration the initialisation of a register map accepts, padding included: the write function
  that the map keeps for single registers is the raw write, and from every state in which the work
  buffer is in memory it has the result and the effects of the raw write of a one-byte value that
  lies elsewhere, whatever the functions of the bus answer; the fallback for a bus that does not support
  the write is part of it.
\<close>

theorem bus_raw_write_is_raw_write:
  assumes "regmap_init os junk (Some bu) cfg w0 = Some (PObj m, w1)" and "bus_write bu \<noteq> None"
    and "load w (work_buf m) (buf_size m) \<noteq> None"
    and "load w (Ptr d i) 1 = Some [ucast v]" and "blk_of (work_buf m) \<noteq> Some d"
  shows "reg_write m = Bus_raw_write \<and>
    regmap_bus_raw_write os m reg v w = regmap_raw_write os m reg (Ptr d i) 1 w"
proof -
  note m = regmap_init_shape [OF assms(1)]
  obtain wb o1 where wb: "work_buf m = Ptr wb o1" using m by (cases "work_buf m") auto
  let ?k = "Suc (o1 + pad_bytes m)" and ?c = "ucast (push_bit (reg_shift m) reg) :: u8" and ?x = "ucast v :: u8"
  obtain bs where bs: "mem w wb = Some bs" "?k < length bs"
    using assms(3) m wb by (auto split: option.splits if_splits)
  have d: "d \<noteq> wb" using assms(5) wb by simp
  have dm: "\<exists>ds. mem w d = Some ds \<and> i < length ds \<and> take 1 (drop i ds) = [?x]"
    using assms(4) by (auto split: option.splits if_splits)
  let ?v = "w\<lparr>mem := (mem w)(wb \<mapsto> bs[o1 := ?c])\<rparr>" and ?y = "w\<lparr>mem := (mem w)(wb \<mapsto> bs[?k := ?x])\<rparr>"
  let ?w = "w\<lparr>mem := (mem w)(wb \<mapsto> bs[o1 := ?c, ?k := ?x])\<rparr>"
  have sw: "bs[?k := ?x, o1 := ?c] = bs[o1 := ?c, ?k := ?x]" by (rule list_update_swap) simp
  have f: "call_format (Some regmap_format_8) (Ptr wb ?k) v 0 w = Some ((), ?y)"
    "call_format (Some regmap_format_8) (Ptr wb o1) reg (reg_shift m) w = Some ((), ?v)"
    "call_format (Some regmap_format_8) (Ptr wb o1) reg (reg_shift m) ?y = Some ((), ?w)"
    using bs store_byte [of _ wb _ ?k ?x] store_byte [of _ wb _ o1 ?c]
    by (simp_all add: call_format_def regmap_format_8_def sw del: store.simps)
  have c: "memcpy (Ptr wb ?k) (Ptr d i) 1 ?v = Some ((), ?w)"
    using dm d bs store_byte [of ?v wb "bs[o1 := ?c]" ?k ?x] by (auto simp: memcpy_def simp del: store.simps)
  have can: "regmap_can_raw_write m" using m assms(2) by (auto simp: regmap_can_raw_write_def)
  have mask: "regmap_set_work_buf_flag_mask m n 0 x = Some ((), x)" for n x
    by (simp add: regmap_set_work_buf_flag_mask_def)
  have pd: "padd (Ptr wb o1) (1 + pad_bytes m) = Ptr wb ?k" by simp
  show ?thesis
    using d can f c m wb
    by (simp add: regmap_bus_raw_write_def regmap_raw_write_def regmap_raw_write_work_def Let_def
        mask pd cong: if_cong del: load.simps store.simps)
qed

text \<open>A bus without gather write, and a map on it with 16 bits of padding.\<close>

definition plain_bus :: regmap_bus where
  "plain_bus = (mipi_dbi_regmap_bus1 os1)\<lparr>bus_gather_write := None\<rparr>"

definition padded_config :: regmap_config where
  "padded_config = \<lparr>cfg_reg_bits = 8, cfg_reg_stride = 1, cfg_pad_bits = 16, cfg_val_bits = 8,
     cfg_cache_type = REGCACHE_NONE, cfg_use_single_rw = False, cfg_can_multi_write = False\<rparr>"

theorem bus_raw_write_is_raw_write_witness:
  "\<exists>m w1 w. regmap_init os1 REGMAP_ENDIAN_BIG (Some plain_bus) (Some padded_config) init_state = Some (PObj m, w1) \<and>
    reg_write m = Bus_raw_write \<and>
    regmap_bus_raw_write os1 m 0x36 0x5A w = regmap_raw_write os1 m 0x36 (Ptr 2 0) 1 w"
proof -
  have o: "ilog2 1 = 0" "is_power_of_2 1" by (simp_all add: ilog2_def fls_def fls_step_def is_power_of_2_def)
  have z: "replicate 4 (0 :: u8) = [0, 0, 0, 0]" by (simp add: numeral_eq_Suc)
  obtain m w1 where m: "regmap_init os1 REGMAP_ENDIAN_BIG (Some plain_bus) (Some padded_config) init_state = Some (PObj m, w1)"
    "work_buf m = Ptr 1 0" "mem w1 1 = Some [0, 0, 0, 0]" "buf_size m = 4"
    by (simp add: regmap_init_def padded_config_def regmap_reg_format_def kzalloc_def alloc_def o z
        new_block_def os1_def os0_def init_state_def div_round_up_def Let_def plain_bus_def
        mipi_dbi_regmap_bus1_def regmap_get_val_endian_def regmap_get_reg_endian_def)
  let ?w = "w1\<lparr>mem := (mem w1)(2 \<mapsto> [0x5A])\<rparr>"
  have "bus_write plain_bus \<noteq> None" "load ?w (work_buf m) (buf_size m) \<noteq> None"
    "load ?w (Ptr 2 0) 1 = Some [ucast (0x5A :: u32)]" "blk_of (work_buf m) \<noteq> Some 2"
    using m by (simp_all add: plain_bus_def mipi_dbi_regmap_bus1_def)
  from bus_raw_write_is_raw_write [OF m(1) this] m(1) show ?thesis by blast
qed

end
