(* ===== verification/Debugfs.thy ===== *)
theory Debugfs
  imports Panel_Seq
begin

text \<open>
  The debugfs file of \<open>mipi-dbi.c\<close>, under \<open>CONFIG_DEBUG_FS\<close>: \<open>mipi_dbi_debugfs_show\<close> reads eight
  registers of the controller and prints every bit of them. A function that prints into the
  \<open>seq_file\<close> gives the text it appends. \<open>GENMASK\<close> and the \<open>%*phN\<close> conversion of the kernel are
  not in the repository: they are the parameters \<open>genmask\<close> and \<open>phN\<close>.

  The lemmas show that the text of a register determines it: no bit is left out and no two
  values print the same.
\<close>

section \<open>Printing bits\<close>

abbreviation NL :: string where "NL \<equiv> [CHR 0x0A]"

text \<open>\<open>%02X\<close>\<close>

definition upper_char :: "nat \<Rightarrow> char" where
  "upper_char d = char_of (if d < 10 then 48 + d else 55 + d)"

fun upper_string :: "nat \<Rightarrow> string" where
  "upper_string n = (if n < 16 then [upper_char n] else upper_string (n div 16) @ [upper_char (n mod 16)])"

declare upper_string.simps [simp del]

definition hex02 :: "u32 \<Rightarrow> string" where
  "hex02 c = (let s = upper_string (unat c) in replicate (2 - length s) (CHR ''0'') @ s)"

definition bit_string :: "u32 \<Rightarrow> nat \<Rightarrow> string" where
  "bit_string v i = dec_string (if v AND BIT i \<noteq> 0 then 1 else 0)"

definition seq_bit_val :: "string \<Rightarrow> u32 \<Rightarrow> nat \<Rightarrow> string" where
  "seq_bit_val desc v i =
     ''    D'' @ dec_string i @ ''='' @ bit_string v i @ '': '' @ desc @ NL"

text \<open>\<open>for (i = end; i >= start; i--)\<close>, with \<open>high\<close> for \<open>end\<close> and \<open>low\<close> for \<open>start\<close>.\<close>

definition seq_bit_reserved :: "u32 \<Rightarrow> nat \<Rightarrow> nat \<Rightarrow> string" where
  "seq_bit_reserved v high low =
     concat (map (seq_bit_val ''Reserved'' v) (rev [low..<Suc high]))"

definition seq_bit_array ::
  "(nat \<Rightarrow> nat \<Rightarrow> u32) \<Rightarrow> string \<Rightarrow> u32 \<Rightarrow> nat \<Rightarrow> nat \<Rightarrow> string" where
  "seq_bit_array genmask desc v high low =
     (let bits_val = drop_bit low (v AND genmask high low)
      in ''    D['' @ dec_string high @ '':'' @ dec_string low @ '']='' @ dec_string (unat bits_val) @
         '': '' @ desc @ '' '' @
         concat (map (\<lambda>i. bit_string v i @ '' '') (rev [low..<Suc high])) @ NL)"

definition seq_bit_text :: "string \<Rightarrow> u32 \<Rightarrow> nat \<Rightarrow> string \<Rightarrow> string \<Rightarrow> string" where
  "seq_bit_text desc v i on off =
     ''    D'' @ dec_string i @ ''='' @ bit_string v i @ '': '' @ desc @ '' '' @
     (if v AND BIT i \<noteq> 0 then on else off) @ NL"

definition seq_bit_on_off :: "string \<Rightarrow> u32 \<Rightarrow> nat \<Rightarrow> string" where
  "seq_bit_on_off desc v i = seq_bit_text desc v i ''On'' ''Off''"

definition mipi_pixel_format_str :: "u8 \<Rightarrow> string" where
  "mipi_pixel_format_str v =
     (if v = 0 then ''Reserved''
      else if v = 1 then ''3 bits/pixel''
      else if v = 2 then ''8 bits/pixel''
      else if v = 3 then ''12 bits/pixel''
      else if v = 4 then ''Reserved''
      else if v = 5 then ''16 bits/pixel''
      else if v = 6 then ''18 bits/pixel''
      else if v = 7 then ''24 bits/pixel''
      else ''Illegal format'')"

section \<open>The text of each register\<close>

definition display_id_text :: "bytes \<Rightarrow> string" where
  "display_id_text b =
     ''    ID1 = 0x'' @ hex_string 2 (unat (b ! 0)) @ NL @
     ''    ID2 = 0x'' @ hex_string 2 (unat (b ! 1)) @ NL @
     ''    ID3 = 0x'' @ hex_string 2 (unat (b ! 2)) @ NL"

text \<open>\<open>(buf[0] << 24) | (buf[1] << 16) | (buf[2] << 8) | buf[3]\<close>\<close>

definition display_stat :: "bytes \<Rightarrow> u32" where
  "display_stat b =
     push_bit 24 (ucast (b ! 0)) OR push_bit 16 (ucast (b ! 1)) OR push_bit 8 (ucast (b ! 2)) OR ucast (b ! 3)"

definition display_status_text :: "(nat \<Rightarrow> nat \<Rightarrow> u32) \<Rightarrow> u32 \<Rightarrow> string" where
  "display_status_text genmask stat =
     seq_bit_on_off ''Booster voltage status:'' stat 31 @
     seq_bit_val ''Row address order'' stat 30 @
     seq_bit_val ''Column address order'' stat 29 @
     seq_bit_val ''Row/column exchange'' stat 28 @
     seq_bit_text ''Vertical refresh:'' stat 27 ''Bottom to Top'' ''Top to Bottom'' @
     seq_bit_text ''RGB/BGR order:'' stat 26 ''BGR'' ''RGB'' @
     seq_bit_text ''Horizontal refresh order:'' stat 25 ''Right to Left'' ''Left to Right'' @
     seq_bit_reserved stat 24 23 @
     seq_bit_array genmask ''Interface color pixel format:'' stat 22 20 @
     seq_bit_on_off ''Idle mode:'' stat 19 @
     seq_bit_on_off ''Partial mode:'' stat 18 @
     seq_bit_text ''Sleep:'' stat 17 ''Out'' ''In'' @
     seq_bit_on_off ''Display normal mode:'' stat 16 @
     seq_bit_on_off ''Vertical scrolling status:'' stat 15 @
     seq_bit_reserved stat 14 14 @
     seq_bit_val ''Inversion status'' stat 13 @
     seq_bit_val ''All pixel ON'' stat 12 @
     seq_bit_val ''All pixel OFF'' stat 11 @
     seq_bit_on_off ''Display:'' stat 10 @
     seq_bit_on_off ''Tearing effect line:'' stat 9 @
     seq_bit_array genmask ''Gamma curve selection:'' stat 8 6 @
     seq_bit_text ''Tearing effect line mode:'' stat 5
       ''Mode 2, both H-Blanking and V-Blanking'' ''Mode 1, V-Blanking only'' @
     seq_bit_reserved stat 4 0"

definition power_mode_text :: "u8 \<Rightarrow> string" where
  "power_mode_text val8 =
     (let v = ucast val8
      in seq_bit_text ''Booster'' v 7 ''On'' ''Off or faulty'' @
         seq_bit_on_off ''Idle Mode'' v 6 @
         seq_bit_on_off ''Partial Mode'' v 5 @
         seq_bit_text ''Sleep'' v 4 ''Out Mode'' ''In Mode'' @
         seq_bit_on_off ''Display Normal Mode'' v 3 @
         seq_bit_on_off ''Display is'' v 2 @
         seq_bit_reserved v 1 0)"

definition address_mode_text :: "u8 \<Rightarrow> string" where
  "address_mode_text val8 =
     (let v = ucast val8
      in seq_bit_text ''Page Address Order:'' v 7 ''Bottom to Top'' ''Top to Bottom'' @
         seq_bit_text ''Column Address Order:'' v 6 ''Right to Left'' ''Left to Right'' @
         seq_bit_text ''Page/Column Order:'' v 5 ''Reverse Mode'' ''Normal Mode'' @
         seq_bit_text ''Line Address Order: LCD Refresh'' v 4 ''Bottom to Top'' ''Top to Bottom'' @
         seq_bit_text ''RGB/BGR Order:'' v 3 ''BGR'' ''RGB'' @
         seq_bit_text ''Display Data Latch Data Order: LCD Refresh'' v 2 ''Right to Left'' ''Left to Right'' @
         seq_bit_reserved v 1 0)"

definition pixel_format_text :: "u8 \<Rightarrow> string" where
  "pixel_format_text val8 =
     (let dpi = drop_bit 4 val8 AND 0x7;
          dbi = val8 AND 0x7
      in seq_bit_reserved (ucast val8) 7 7 @
         ''    D[6:4]='' @ dec_string (unat dpi) @ '': DPI: '' @ mipi_pixel_format_str dpi @ NL @
         seq_bit_reserved (ucast val8) 3 3 @
         ''    D[2:0]='' @ dec_string (unat dbi) @ '': DBI: '' @ mipi_pixel_format_str dbi @ NL)"

definition image_mode_text :: "u8 \<Rightarrow> string" where
  "image_mode_text val8 =
     (let gc = val8 AND 0x7; v = ucast val8
      in seq_bit_on_off ''Vertical Scrolling Status:'' v 7 @
         seq_bit_reserved v 6 6 @
         seq_bit_on_off ''Inversion:'' v 5 @
         seq_bit_reserved v 4 3 @
         ''    D[2:0]='' @ dec_string (unat gc) @ '': Gamma Curve Selection: '' @
         (if gc < 4 then ''GC'' @ dec_string (unat gc) @ NL else ''Reserved'' @ NL))"

definition signal_mode_text :: "u8 \<Rightarrow> string" where
  "signal_mode_text val8 =
     (let v = ucast val8
      in seq_bit_on_off ''Tearing Effect Line:'' v 7 @
         seq_bit_text ''Tearing Effect Line Output Mode: Mode'' v 6 ''2'' ''1'' @
         seq_bit_reserved v 5 0)"

definition diagnostic_text :: "u8 \<Rightarrow> string" where
  "diagnostic_text val8 =
     (let v = ucast val8
      in seq_bit_text ''Register Loading Detection:'' v 7 ''OK'' ''Fault or reset'' @
         seq_bit_text ''Functionality Detection:'' v 6 ''OK'' ''Fault or reset'' @
         seq_bit_text ''Chip Attachment Detection:'' v 5 ''Fault'' ''OK or unimplemented'' @
         seq_bit_text ''Display Glass Break Detection:'' v 4 ''Fault'' ''OK or unimplemented'' @
         seq_bit_reserved v 3 0)"

section \<open>Reading the registers\<close>

definition mipi_dbi_debugfs_readreg ::
  "(bytes \<Rightarrow> string) \<Rightarrow> regmap \<Rightarrow> u32 \<Rightarrow> string \<Rightarrow> ptr \<Rightarrow> nat \<Rightarrow> state \<Rightarrow> ((bool \<times> string) \<times> state) option" where
  "mipi_dbi_debugfs_readreg phN reg regnr desc buf len w = do {
     (ret, w) \<leftarrow> regmap_raw_read reg regnr buf len w;
     if ret \<noteq> 0
     then Some ((False, NL @ desc @ '': command '' @ hex02 regnr @ ''h failed: '' @ int_string ret @ NL), w)
     else do {
       bs \<leftarrow> load w buf len;
       Some ((True, NL @ desc @ '' ('' @ hex02 regnr @ ''h='' @ phN bs @ ''):'' @ NL), w) } }"

text \<open>\<open>if (mipi_dbi_debugfs_readreg(...)) { ... }\<close>: what is printed, of the \<open>len\<close> bytes read.\<close>

definition debugfs_section ::
  "(bytes \<Rightarrow> string) \<Rightarrow> regmap \<Rightarrow> u32 \<Rightarrow> string \<Rightarrow> ptr \<Rightarrow> nat \<Rightarrow> (bytes \<Rightarrow> string) \<Rightarrow> state \<Rightarrow>
     (string \<times> state) option" where
  "debugfs_section phN reg regnr desc buf len body w = do {
     ((ok, head), w) \<leftarrow> mipi_dbi_debugfs_readreg phN reg regnr desc buf len w;
     if ok then do { bs \<leftarrow> load w buf len; Some (head @ body bs, w) }
     else Some (head, w) }"

text \<open>The locals \<open>buf\<close> and \<open>val8\<close> are blocks; the return value is paired with the text.\<close>

definition mipi_dbi_debugfs_show ::
  "os \<Rightarrow> (nat \<Rightarrow> nat \<Rightarrow> u32) \<Rightarrow> (bytes \<Rightarrow> string) \<Rightarrow> regmap \<Rightarrow> state \<Rightarrow> ((int \<times> string) \<times> state) option" where
  "mipi_dbi_debugfs_show os genmask phN reg w = do {
     (buf, w) \<leftarrow> new_block (map (os_junk os (trace w)) [0..<4]) w;
     (val8, w) \<leftarrow> new_block [os_junk os (trace w) 4] w;
     (ret, w) \<leftarrow> regmap_raw_read reg MIPI_DCS_GET_POWER_MODE buf 1 w;
     (t, w) \<leftarrow> (if ret = - EACCES \<or> ret = - ENOTSUPP
       then Some (''Controller is write-only'' @ NL, w)
       else do {
         (t1, w) \<leftarrow> debugfs_section phN reg MIPI_DCS_GET_DISPLAY_ID ''Display ID'' buf 3
           display_id_text w;
         (t2, w) \<leftarrow> debugfs_section phN reg MIPI_DCS_GET_DISPLAY_STATUS ''Display status'' buf 4
           (\<lambda>b. display_status_text genmask (display_stat b)) w;
         (t3, w) \<leftarrow> debugfs_section phN reg MIPI_DCS_GET_POWER_MODE ''Power mode'' val8 1
           (power_mode_text \<circ> hd) w;
         (t4, w) \<leftarrow> debugfs_section phN reg MIPI_DCS_GET_ADDRESS_MODE ''Address mode'' val8 1
           (address_mode_text \<circ> hd) w;
         (t5, w) \<leftarrow> debugfs_section phN reg MIPI_DCS_GET_PIXEL_FORMAT ''Pixel format'' val8 1
           (pixel_format_text \<circ> hd) w;
         (t6, w) \<leftarrow> debugfs_section phN reg MIPI_DCS_GET_DISPLAY_MODE ''Image Mode'' val8 1
           (image_mode_text \<circ> hd) w;
         (t7, w) \<leftarrow> debugfs_section phN reg MIPI_DCS_GET_SIGNAL_MODE ''Signal Mode'' val8 1
           (signal_mode_text \<circ> hd) w;
         (t8, w) \<leftarrow> debugfs_section phN reg MIPI_DCS_GET_DIAGNOSTIC_RESULT ''Diagnostic result'' val8 1
           (diagnostic_text \<circ> hd) w;
         Some (t1 @ t2 @ t3 @ t4 @ t5 @ t6 @ t7 @ t8, w) });
     (_, w) \<leftarrow> drop_block val8 w;
     (_, w) \<leftarrow> drop_block buf w;
     Some ((0, t), w) }"

text \<open>
  The registration: both functions hand the table with the one entry \<open>mipi\<close> to functions of the
  kernel, which are parameters (\<open>tinydrm_debugfs_init\<close> and \<open>_cleanup\<close> are not in the repository either).
\<close>

type_synonym debugfs_list = "(string \<times> (regmap \<Rightarrow> state \<Rightarrow> ((int \<times> string) \<times> state) option)) list"

definition mipi_dbi_debugfs_list ::
  "os \<Rightarrow> (nat \<Rightarrow> nat \<Rightarrow> u32) \<Rightarrow> (bytes \<Rightarrow> string) \<Rightarrow> debugfs_list" where
  "mipi_dbi_debugfs_list os genmask phN = [(''mipi'', mipi_dbi_debugfs_show os genmask phN)]"

definition mipi_dbi_debugfs_init ::
  "(state \<Rightarrow> (int \<times> state) option) \<Rightarrow> (debugfs_list \<Rightarrow> state \<Rightarrow> (int \<times> state) option) \<Rightarrow>
     debugfs_list \<Rightarrow> state \<Rightarrow> (int \<times> state) option" where
  "mipi_dbi_debugfs_init tinydrm_debugfs_init drm_debugfs_create_files files w = do {
     (ret, w) \<leftarrow> tinydrm_debugfs_init w;
     if ret \<noteq> 0 then Some (ret, w) else drm_debugfs_create_files files w }"

definition mipi_dbi_debugfs_cleanup ::
  "(state \<Rightarrow> (unit \<times> state) option) \<Rightarrow> (debugfs_list \<Rightarrow> state \<Rightarrow> (unit \<times> state) option) \<Rightarrow>
     debugfs_list \<Rightarrow> state \<Rightarrow> (unit \<times> state) option" where
  "mipi_dbi_debugfs_cleanup tinydrm_debugfs_cleanup drm_debugfs_remove_files files w = do {
     (_, w) \<leftarrow> tinydrm_debugfs_cleanup w;
     drm_debugfs_remove_files files w }"

section \<open>The text determines the registers\<close>

text \<open>
  \<open>reads D f\<close>: whatever text follows, the text \<open>f v\<close> tells the bits \<open>D\<close> of \<open>v\<close> and where it ends.
\<close>

definition reads :: "nat set \<Rightarrow> ('a::len word \<Rightarrow> string) \<Rightarrow> bool" where
  "reads D f \<longleftrightarrow> (\<forall>v u s t. f v @ s = f u @ t \<longrightarrow> s = t \<and> (\<forall>i\<in>D. bit v i = bit u i))"

lemma readsI:
  "(\<And>v u s t. f v @ s = f u @ t \<Longrightarrow> s = t \<and> (\<forall>i\<in>D. bit v i = bit u i)) \<Longrightarrow> reads D f"
  unfolding reads_def by blast

lemma readsD:
  assumes "reads D f" and "f v @ s = f u @ t"
  shows "s = t" and "i \<in> D \<Longrightarrow> bit v i = bit u i"
  using assms unfolding reads_def by blast+

lemma reads_append:
  assumes "reads D f" and "reads E g"
  shows "reads (D \<union> E) (\<lambda>v. f v @ g v)"
proof (rule readsI)
  fix v u s t
  assume "(f v @ g v) @ s = (f u @ g u) @ t"
  then have f: "f v @ (g v @ s) = f u @ (g u @ t)" by simp
  note g = readsD(1) [OF assms(1) f]
  show "s = t \<and> (\<forall>i\<in>D \<union> E. bit v i = bit u i)"
    using readsD(1) [OF assms(2) g] readsD(2) [OF assms(1) f] readsD(2) [OF assms(2) g] by auto
qed

lemma reads_nil: "reads {} (\<lambda>v. [])"
  by (simp add: reads_def)

lemma reads_prefix: "reads D f \<Longrightarrow> reads D (\<lambda>v. s @ f v)"
  unfolding reads_def append_assoc same_append_eq .

lemma reads_word:
  fixes f :: "'a::len word \<Rightarrow> string"
  assumes "reads D f" and "\<And>i. i < LENGTH('a) \<Longrightarrow> i \<in> D" and "f v @ s = f u @ t"
  shows "v = u \<and> s = t"
  using readsD [OF assms(1,3)] assms(2) by (auto intro: bit_word_eqI)

text \<open>A text that starts with a character that tells the bits, and depends on nothing else.\<close>

lemma reads_char:
  assumes "\<And>v u. c v = c u \<Longrightarrow> g v = g u \<and> (\<forall>i\<in>D. bit v i = bit u i)"
  shows "reads D (\<lambda>v. [c v] @ g v)"
proof (rule readsI)
  fix v u s t
  assume a: "([c v] @ g v) @ s = ([c u] @ g u) @ t"
  then have "c v = c u" by simp
  from assms [OF this] a show "s = t \<and> (\<forall>i\<in>D. bit v i = bit u i)" by simp
qed

lemma and_BIT: "i < 32 \<Longrightarrow> v AND BIT i \<noteq> 0 \<longleftrightarrow> bit v i"
  by (simp add: BIT_def bit_iff_and_push_bit_not_eq_0)

abbreviation bit_char :: "bool \<Rightarrow> char" where
  "bit_char b \<equiv> (if b then CHR ''1'' else CHR ''0'')"

lemma bit_string_eq: "i < 32 \<Longrightarrow> bit_string v i = [bit_char (bit v i)]"
  using and_BIT [of i v] dec_string_01 by (simp add: bit_string_def)

lemma bit_char_eq: "bit_char a = bit_char b \<longleftrightarrow> a = b"
  by simp

lemma reads_text:
  assumes "i < 32"
  shows "reads {i} (\<lambda>v. seq_bit_text desc v i on off)"
  unfolding seq_bit_text_def bit_string_eq [OF assms] and_BIT [OF assms]
  by (rule reads_prefix, rule reads_prefix, rule reads_prefix, rule reads_char)
    (simp only: bit_char_eq, simp)

lemma reads_val:
  assumes "i < 32"
  shows "reads {i} (\<lambda>v. seq_bit_val desc v i)"
  unfolding seq_bit_val_def bit_string_eq [OF assms]
  by (rule reads_prefix, rule reads_prefix, rule reads_prefix, rule reads_char)
    (simp only: bit_char_eq, simp)

lemma reads_concat:
  "(\<And>i. i \<in> set is \<Longrightarrow> reads {i} (\<lambda>v. f v i)) \<Longrightarrow> reads (set is) (\<lambda>v. concat (map (f v) is))"
proof (induction "is")
  case (Cons i "is")
  then show ?case using reads_append [of "{i}" "\<lambda>v. f v i" "set is"] by simp
qed (simp add: reads_nil)

lemma reads_reserved: "high < 32 \<Longrightarrow> reads {low..high} (\<lambda>v. seq_bit_reserved v high low)"
  using reads_concat [of "rev [low..<Suc high]" "seq_bit_val ''Reserved''"]
  by (simp add: seq_bit_reserved_def reads_val atLeastLessThanSuc_atLeastAtMost del: upt_Suc)

text \<open>A register of 8 bits is printed as a \<open>u32\<close>.\<close>

lemma reads_ucast:
  assumes "reads D f" and "D \<subseteq> {..<8}"
  shows "reads D (\<lambda>v :: u8. f (ucast v :: u32))"
proof (rule readsI)
  fix v u :: u8 and s t
  assume a: "f (ucast v) @ s = f (ucast u) @ t"
  have "bit v i = bit u i" if "i \<in> D" for i
    using readsD(2) [OF assms(1) a that] that assms(2) by (auto simp: bit_ucast_iff)
  with readsD(1) [OF assms(1) a] show "s = t \<and> (\<forall>i\<in>D. bit v i = bit u i)" by simp
qed

text \<open>A field of three bits is one digit.\<close>

lemma digit_char_inj:
  assumes "a < 16" and "b < 16" and "digit_char a = digit_char b"
  shows "a = b"
  using arg_cong [OF assms(3), of "of_char :: char \<Rightarrow> nat"] assms(1,2)
  by (simp add: digit_char_def split: if_splits)

lemma take_bit_3_less: "unat (take_bit 3 (x :: 'a::len word)) < 8"
  using take_bit_nat_less_exp [of 3 "unat x"] by (simp only: unsigned_take_bit_eq) simp

lemma digit_field:
  fixes x y :: "'a::len word"
  assumes "digit_char (unat (take_bit 3 x)) = digit_char (unat (take_bit 3 y))"
  shows "take_bit 3 x = take_bit 3 y"
proof -
  have "unat (take_bit 3 x) < 16" "unat (take_bit 3 y) < 16"
    using take_bit_3_less [of x] take_bit_3_less [of y] by linarith+
  from digit_char_inj [OF this assms] show ?thesis unfolding word_unat_eq_iff .
qed

lemma field_bit:
  fixes v u :: "'a::len word"
  assumes "take_bit 3 (drop_bit n v) = take_bit 3 (drop_bit n u)" and "i \<in> {n..n + 2}"
  shows "bit v i = bit u i"
proof -
  have "bit (take_bit 3 (drop_bit n v)) (i - n) = bit (take_bit 3 (drop_bit n u)) (i - n)"
    by (simp only: assms(1))
  moreover have "i - n < 3" "n + (i - n) = i" using assms(2) by auto
  ultimately show ?thesis by (simp add: bit_take_bit_iff bit_drop_bit_eq)
qed

lemma dec_string_field: "dec_string (unat (take_bit 3 x)) = [digit_char (unat (take_bit 3 x))]"
  using take_bit_3_less [of x] by (subst dec_string.simps) simp

lemma reads_field:
  assumes "\<And>v u. take_bit 3 (drop_bit n v) = take_bit 3 (drop_bit n u) \<Longrightarrow> g v = g u"
  shows "reads {n..n + 2} (\<lambda>v. dec_string (unat (take_bit 3 (drop_bit n v))) @ g v)"
  unfolding dec_string_field
  by (rule reads_char) (auto dest!: digit_field dest: field_bit assms)

text \<open>The documented meaning of \<open>GENMASK\<close>, for masks of 32 bits.\<close>

definition genmask_ok :: "(nat \<Rightarrow> nat \<Rightarrow> u32) \<Rightarrow> bool" where
  "genmask_ok genmask \<longleftrightarrow>
     (\<forall>high low i. low \<le> high \<longrightarrow> high < 32 \<longrightarrow> bit (genmask high low) i = (low \<le> i \<and> i \<le> high))"

lemma genmask_field:
  assumes "genmask_ok genmask" and "n + 2 < 32"
  shows "drop_bit n (v AND genmask (n + 2) n) = take_bit 3 (drop_bit n v)"
proof (rule bit_word_eqI)
  fix i
  have "bit (genmask (n + 2) n) (n + i) = (n + i \<le> n + 2)"
    using assms unfolding genmask_ok_def by (metis le_add1)
  then show "bit (drop_bit n (v AND genmask (n + 2) n)) i = bit (take_bit 3 (drop_bit n v)) i"
    by (auto simp: bit_take_bit_iff bit_drop_bit_eq bit_and_iff)
qed

lemma reads_array:
  assumes "genmask_ok genmask" and "n + 2 < 32"
  shows "reads {n..n + 2} (\<lambda>v. seq_bit_array genmask desc v (n + 2) n)"
  unfolding seq_bit_array_def Let_def genmask_field [OF assms]
proof (intro reads_prefix, rule reads_field)
  fix v u :: u32
  assume f: "take_bit 3 (drop_bit n v) = take_bit 3 (drop_bit n u)"
  have "bit v i = bit u i" if "i \<in> {n..n + 2}" for i
    using f that by (rule field_bit)
  then have "map (\<lambda>i. bit_string v i @ '' '') (rev [n..<Suc (n + 2)]) =
      map (\<lambda>i. bit_string u i @ '' '') (rev [n..<Suc (n + 2)])"
    using assms(2) by (intro map_cong refl) (simp add: bit_string_eq del: upt_Suc)
  then show "'': '' @ desc @ '' '' @ concat (map (\<lambda>i. bit_string v i @ '' '') (rev [n..<Suc (n + 2)])) @ NL =
      '': '' @ desc @ '' '' @ concat (map (\<lambda>i. bit_string u i @ '' '') (rev [n..<Suc (n + 2)])) @ NL"
    by (simp only:)
qed

lemmas reads_lines = reads_append reads_text reads_val reads_reserved

lemma reads_status:
  assumes "genmask_ok genmask" and "display_status_text genmask v @ s = display_status_text genmask u @ t"
  shows "v = u \<and> s = t"
proof (rule reads_word [OF _ _ assms(2)])
  show "reads ({31} \<union> ({30} \<union> ({29} \<union> ({28} \<union> ({27} \<union> ({26} \<union> ({25} \<union> ({23..24} \<union> ({20..20+2} \<union>
      ({19} \<union> ({18} \<union> ({17} \<union> ({16} \<union> ({15} \<union> ({14..14} \<union> ({13} \<union> ({12} \<union> ({11} \<union> ({10} \<union> ({9} \<union>
      ({6..6+2} \<union> ({5} \<union> {0..4})))))))))))))))))))))) (display_status_text genmask)"
    (is "reads ?D _")
    unfolding display_status_text_def seq_bit_on_off_def
    using reads_array [OF assms(1), of 20] reads_array [OF assms(1), of 6]
    by (intro reads_lines) simp_all
  have "\<forall>i\<in>set [0..<32]. i \<in> ?D" by code_simp
  then show "i \<in> ?D" if "i < LENGTH(32)" for i
    using that by simp
qed

text \<open>The registers of 8 bits.\<close>

lemma reads_text8: "i < 8 \<Longrightarrow> reads {i} (\<lambda>v :: u8. seq_bit_text desc (ucast v) i on off)"
  by (rule reads_ucast [OF reads_text]) auto

lemma reads_reserved8: "high < 8 \<Longrightarrow> reads {low..high} (\<lambda>v :: u8. seq_bit_reserved (ucast v) high low)"
  by (rule reads_ucast [OF reads_reserved]) auto

lemmas reads_lines8 = reads_append reads_text8 reads_reserved8

lemma reads_power: "reads ({7} \<union> ({6} \<union> ({5} \<union> ({4} \<union> ({3} \<union> ({2} \<union> {0..1})))))) power_mode_text"
  unfolding power_mode_text_def seq_bit_on_off_def Let_def by (intro reads_lines8) simp_all

lemma reads_address: "reads ({7} \<union> ({6} \<union> ({5} \<union> ({4} \<union> ({3} \<union> ({2} \<union> {0..1})))))) address_mode_text"
  unfolding address_mode_text_def Let_def by (intro reads_lines8) simp_all

lemma reads_signal: "reads ({7} \<union> ({6} \<union> {0..5})) signal_mode_text"
  unfolding signal_mode_text_def seq_bit_on_off_def Let_def by (intro reads_lines8) simp_all

lemma reads_diagnostic: "reads ({7} \<union> ({6} \<union> ({5} \<union> ({4} \<union> {0..3})))) diagnostic_text"
  unfolding diagnostic_text_def Let_def by (intro reads_lines8) simp_all

lemma and_7: "v AND 7 = take_bit 3 (v :: u8)"
  by (simp add: take_bit_eq_mask mask_eq_exp_minus_1)

lemma reads_image: "reads ({7} \<union> ({6..6} \<union> ({5} \<union> ({3..4} \<union> {0..0+2})))) image_mode_text"
proof -
  have "reads {0..0+2} (\<lambda>v :: u8. dec_string (unat (take_bit 3 (drop_bit 0 v))) @ '': Gamma Curve Selection: '' @
      (if take_bit 3 v < 4 then ''GC'' @ dec_string (unat (take_bit 3 v)) @ NL else ''Reserved'' @ NL))"
    by (rule reads_field) simp
  then show ?thesis
    unfolding image_mode_text_def seq_bit_on_off_def Let_def and_7 drop_bit_0 id_apply
    by (intro reads_lines8 reads_prefix) simp_all
qed

lemma reads_pixel: "reads ({7..7} \<union> ({4..4+2} \<union> ({3..3} \<union> {0..0+2}))) pixel_format_text"
proof -
  let ?f = "\<lambda>n s (v :: u8). dec_string (unat (take_bit 3 (drop_bit n v))) @ s @
    mipi_pixel_format_str (take_bit 3 (drop_bit n v)) @ NL"
  have f: "reads {n..n + 2} (?f n s)" for n s
    by (rule reads_field) simp
  have e: "pixel_format_text = (\<lambda>v. seq_bit_reserved (ucast v) 7 7 @ (''    D[6:4]='' @ ?f 4 '': DPI: '' v) @
      seq_bit_reserved (ucast v) 3 3 @ ''    D[2:0]='' @ ?f 0 '': DBI: '' v)"
    by (rule ext) (simp only: pixel_format_text_def Let_def and_7 append_assoc drop_bit_0 id_apply)
  show ?thesis unfolding e by (intro reads_lines8 reads_prefix f) simp_all
qed

end
