(* ===== verification/Debug_File.thy ===== *)
theory Debug_File
  imports Debugfs Samples
begin

text \<open>
  The debugfs file as a whole, on interface option 3: it is a concatenation of eight sections,
  each read from the display, and it determines the bytes of all of them.
\<close>

section \<open>The sections of the file\<close>

text \<open>
  A section is the command, its name, the number of bytes and the text of their bits. The
  file is the concatenation of eight of them.
\<close>

type_synonym dbi_section = "u8 \<times> string \<times> nat \<times> (bytes \<Rightarrow> string)"

definition debugfs_sections :: "(nat \<Rightarrow> nat \<Rightarrow> u32) \<Rightarrow> dbi_section list" where
  "debugfs_sections genmask =
     [(0x04, ''Display ID'', 3, display_id_text),
      (0x09, ''Display status'', 4, \<lambda>b. display_status_text genmask (display_stat b)),
      (0x0A, ''Power mode'', 1, power_mode_text \<circ> hd),
      (0x0B, ''Address mode'', 1, address_mode_text \<circ> hd),
      (0x0C, ''Pixel format'', 1, pixel_format_text \<circ> hd),
      (0x0D, ''Image Mode'', 1, image_mode_text \<circ> hd),
      (0x0E, ''Signal Mode'', 1, signal_mode_text \<circ> hd),
      (0x0F, ''Diagnostic result'', 1, diagnostic_text \<circ> hd)]"

fun section_text :: "(bytes \<Rightarrow> string) \<Rightarrow> dbi_section \<Rightarrow> bytes \<Rightarrow> string" where
  "section_text phN (c, desc, n, body) bs =
     NL @ desc @ '' ('' @ hex02 (ucast c) @ ''h='' @ phN bs @ ''):'' @ NL @ body bs"

fun sections_text :: "(bytes \<Rightarrow> string) \<Rightarrow> dbi_section list \<Rightarrow> bytes list \<Rightarrow> string" where
  "sections_text phN (s # ss) (bs # rs) = section_text phN s bs @ sections_text phN ss rs"
| "sections_text phN ss rs = []"

definition debugfs_text :: "(nat \<Rightarrow> nat \<Rightarrow> u32) \<Rightarrow> (bytes \<Rightarrow> string) \<Rightarrow> bytes list \<Rightarrow> string" where
  "debugfs_text genmask phN = sections_text phN (debugfs_sections genmask)"

definition section_len :: "dbi_section \<Rightarrow> nat" where
  "section_len s = fst (snd (snd s))"

text \<open>A body tells the bytes and where it ends.\<close>

definition clear_body :: "nat \<Rightarrow> (bytes \<Rightarrow> string) \<Rightarrow> bool" where
  "clear_body n body \<longleftrightarrow>
     (\<forall>x y s t. length x = n \<longrightarrow> length y = n \<longrightarrow> body x @ s = body y @ t \<longrightarrow> x = y \<and> s = t)"

lemma sections_text_inj:
  assumes phN: "\<And>bs. length (phN bs) = 2 * length bs"
    and "\<forall>(c, desc, n, body) \<in> set ss. clear_body n body"
    and "map length rs = map section_len ss" and "map length qs = map section_len ss"
    and "sections_text phN ss rs = sections_text phN ss qs"
  shows "rs = qs"
  using assms(2-)
proof (induction ss arbitrary: rs qs)
  case (Cons s ss)
  obtain c desc n body where s: "s = (c, desc, n, body)" by (cases s)
  from Cons.prems obtain b rs' d qs' where r: "rs = b # rs'" "qs = d # qs'"
    "length b = n" "length d = n" by (cases rs; cases qs) (auto simp: s section_len_def)
  have "phN b @ ''):'' @ NL @ body b @ sections_text phN ss rs' =
      phN d @ ''):'' @ NL @ body d @ sections_text phN ss qs'"
    using Cons.prems(4) by (simp add: r s)
  then have "body b @ sections_text phN ss rs' = body d @ sections_text phN ss qs'"
    using phN [of b] phN [of d] r by simp
  moreover have "clear_body n body" using Cons.prems(1) by (simp add: s)
  ultimately have "b = d \<and> sections_text phN ss rs' = sections_text phN ss qs'"
    using r unfolding clear_body_def by blast
  with Cons r show ?case by (simp add: s)
qed simp

lemma clear_hd:
  fixes f :: "u8 \<Rightarrow> string"
  assumes "reads D f" and "\<forall>i\<in>set [0..<8]. i \<in> D"
  shows "clear_body 1 (f \<circ> hd)"
  unfolding clear_body_def
proof (intro allI impI)
  fix x y :: bytes and s t
  assume l: "length x = 1" "length y = 1" and a: "(f \<circ> hd) x @ s = (f \<circ> hd) y @ t"
  have "hd x = hd y \<and> s = t"
    using a assms(2) by (intro reads_word [OF assms(1)]) simp_all
  with l show "x = y \<and> s = t" by (cases x; cases y) auto
qed

lemma hex_string_inj:
  "hex_string k n = hex_string k m \<Longrightarrow> n < 16 ^ k \<Longrightarrow> m < 16 ^ k \<Longrightarrow> n = m"
proof (induction k arbitrary: n m)
  case (Suc k)
  then have "n div 16 = m div 16" by (intro Suc.IH) (auto simp: less_mult_imp_div_less mult.commute)
  moreover have "n mod 16 = m mod 16"
    using Suc.prems(1) by (intro digit_char_inj) simp_all
  ultimately show ?case by (metis div_mult_mod_eq)
qed simp

lemma hex_byte_inj: "hex_string 2 (unat a) = hex_string 2 (unat (b :: u8)) \<Longrightarrow> a = b"
proof -
  assume h: "hex_string 2 (unat a) = hex_string 2 (unat b)"
  have "unat a < 2 ^ LENGTH(8)" "unat b < 2 ^ LENGTH(8)" by (rule unsigned_less)+
  with hex_string_inj [OF h] show "a = b" by (simp add: word_unat_eq_iff)
qed

lemma clear_id: "clear_body 3 display_id_text"
  unfolding clear_body_def
proof (intro allI impI)
  fix x y :: bytes and s t
  assume l: "length x = 3" "length y = 3" and a: "display_id_text x @ s = display_id_text y @ t"
  have "x ! 0 = y ! 0 \<and> x ! 1 = y ! 1 \<and> x ! 2 = y ! 2 \<and> s = t"
    using a by (auto simp: display_id_text_def dest: hex_byte_inj)
  with l show "x = y \<and> s = t" by (auto simp: list_eq_iff_nth_eq less_Suc_eq eval_nat_numeral)
qed

lemma bit_byte:
  "bit (push_bit m (ucast (p :: u8)) :: u32) k \<longleftrightarrow> k < 32 \<and> m \<le> k \<and> k < m + 8 \<and> bit p (k - m)"
  by (auto simp: bit_push_bit_iff bit_ucast_iff dest: bit_imp_le_length)

lemma bit_display_stat:
  "bit (display_stat [p, q, r, s]) k \<longleftrightarrow> k < 32 \<and>
     (if k < 8 then bit s k else if k < 16 then bit r (k - 8) else if k < 24 then bit q (k - 16)
      else bit p (k - 24))"
proof -
  have e: "display_stat [p, q, r, s] =
      push_bit 24 (ucast p) OR push_bit 16 (ucast q) OR push_bit 8 (ucast r) OR push_bit 0 (ucast s)"
    by (simp add: display_stat_def)
  show ?thesis unfolding e bit_or_iff bit_byte by auto
qed

lemma display_stat_bytes:
  assumes "length b = 4"
  shows "b = [ucast (drop_bit 24 (display_stat b)), ucast (drop_bit 16 (display_stat b)),
    ucast (drop_bit 8 (display_stat b)), ucast (display_stat b)]"
proof -
  obtain p q r s where b: "b = [p, q, r, s]"
    using assms by (auto simp: length_Suc_conv numeral_eq_Suc)
  show ?thesis
    unfolding b list.inject
    by (intro conjI refl bit_word_eqI) (simp_all add: bit_ucast_iff bit_drop_bit_eq bit_display_stat)
qed

lemma clear_status:
  assumes "genmask_ok genmask"
  shows "clear_body 4 (\<lambda>b. display_status_text genmask (display_stat b))"
  unfolding clear_body_def
  using reads_status [OF assms] display_stat_bytes by (metis (no_types, lifting))

lemma clear_sections:
  assumes "genmask_ok genmask"
  shows "\<forall>(c, desc, n, body) \<in> set (debugfs_sections genmask). clear_body n body"
  using clear_id clear_status [OF assms] clear_hd [OF reads_power] clear_hd [OF reads_address]
    clear_hd [OF reads_pixel] clear_hd [OF reads_image] clear_hd [OF reads_signal]
    clear_hd [OF reads_diagnostic]
  by (auto simp: debugfs_sections_def upt_rec)

lemma debugfs_text_inj:
  assumes "genmask_ok genmask" and "\<And>bs. length (phN bs) = 2 * length bs"
  shows "inj_on (debugfs_text genmask phN) {rs. map length rs = [3, 4, 1, 1, 1, 1, 1, 1]}"
proof (rule inj_onI)
  fix rs qs
  assume "rs \<in> {rs. map length rs = [3, 4, 1, 1, 1, 1, 1, 1]}" "qs \<in> {rs. map length rs = [3, 4, 1, 1, 1, 1, 1, 1]}"
    "debugfs_text genmask phN rs = debugfs_text genmask phN qs"
  then show "rs = qs"
    unfolding debugfs_text_def
    by (intro sections_text_inj [OF assms(2) clear_sections [OF assms(1)]])
      (simp_all add: debugfs_sections_def section_len_def)
qed

section \<open>Reading the sections from the display\<close>

definition show_ready :: "os \<Rightarrow> int \<Rightarrow> regmap \<Rightarrow> nat \<Rightarrow> nat \<Rightarrow> nat \<Rightarrow> state \<Rightarrow> bool" where
  "show_ready os fd m wb b v w \<longleftrightarrow>
     bus3_ready os fd m wb w \<and> map_option length (mem w b) = Some 4 \<and>
     map_option length (mem w v) = Some 1 \<and> b < nblk w \<and> v < nblk w \<and> wb \<noteq> b \<and> wb \<noteq> v \<and> b \<noteq> v"

definition show_step :: "os \<Rightarrow> int \<Rightarrow> regmap \<Rightarrow> nat \<Rightarrow> nat \<Rightarrow> nat \<Rightarrow> item list \<Rightarrow> state \<Rightarrow> state \<Rightarrow> bool" where
  "show_step os fd m wb b v xs w w' \<longleftrightarrow>
     show_ready os fd m wb b v w' \<and> evolves {wb, b, v} w w' \<and> shows3 fd w w' xs"

lemma shows3_trans:
  assumes "evolves X w w'" and "evolves X w' w''" and "shows3 fd w w' xs" and "shows3 fd w' w'' ys"
  shows "shows3 fd w w'' (xs @ ys)"
  using assms(3,4) unfolding shows3_def evolves_trans(2) [OF assms(1,2)] run3_append
  by (auto split: prod.splits) (metis snd_conv)

lemma show_step_trans:
  assumes "show_step os fd m wb b v xs w w'" and "show_step os fd m wb b v ys w' w''"
  shows "show_step os fd m wb b v (xs @ ys) w w''"
  using assms evolves_trans(1) shows3_trans unfolding show_step_def by metis

text \<open>The bytes of a reply to \<open>c\<close>.\<close>

definition is_reply :: "os \<Rightarrow> u8 \<Rightarrow> bytes \<Rightarrow> bool" where
  "is_reply os c bs \<longleftrightarrow> (\<exists>h. bs = reply_value c (length bs) (os_rx os h))"

lemma show_read:
  assumes r: "show_ready os fd m wb b v w"
    and p: "p = b \<and> n \<le> 4 \<or> p = v \<and> n = 1" and c: "0 < n" "dummy_cmd c \<longrightarrow> n = 3 \<or> n = 4"
  shows "\<exists>bs w'. regmap_raw_read m (ucast c) (Ptr p 0) n w = Some (0, w') \<and>
    load w' (Ptr p 0) n = Some bs \<and> length bs = n \<and> is_reply os c bs \<and>
    show_step os fd m wb b v [Cmd c] w w'"
proof -
  obtain vs where vs: "mem w p = Some vs" "n \<le> length vs" "length vs = (if p = b then 4 else 1)"
    using r p by (auto simp: show_ready_def)
  have "bus3_ready os fd m wb w" "p < nblk w" "p \<noteq> wb" using r p by (auto simp: show_ready_def)
  from reg_read_ok [OF this(1) vs(1,2) this(2,3) c] obtain h w' where
    w': "regmap_raw_read m (ucast c) (Ptr p 0) n w = Some (0, w')"
    "mem w' p = Some (reply_value c n (os_rx os h) @ drop n vs)" "bus3_ready os fd m wb w'"
    "evolves {wb, p} w w'" "shows3 fd w w' [Cmd c]" by blast
  have ev: "evolves {wb, b, v} w w'" using p by (intro evolves_mono [OF w'(4)]) auto
  have keep: "mem w' q = mem w q" if "q < nblk w" "q \<noteq> wb" "q \<noteq> p" for q
    using that by (intro evolves_mem [OF w'(4)]) auto
  have "map_option length (mem w' q) = map_option length (mem w q)" if "q = b \<or> q = v" for q
    using keep [of q] that r vs w'(2) by (cases "q = p") (auto simp: show_ready_def)
  then have "show_ready os fd m wb b v w'"
    using r w'(3) evolves_nblk [OF ev] by (simp add: show_ready_def)
  moreover have "is_reply os c (reply_value c n (os_rx os h))" by (auto simp: is_reply_def)
  ultimately show ?thesis
    using w'(1,2,5) ev by (intro exI [of _ "reply_value c n (os_rx os h)"] exI [of _ w'])
      (simp add: show_step_def)
qed

fun run_sections ::
  "(bytes \<Rightarrow> string) \<Rightarrow> regmap \<Rightarrow> nat \<Rightarrow> nat \<Rightarrow> dbi_section list \<Rightarrow> state \<Rightarrow> (string \<times> state) option" where
  "run_sections phN m b v [] w = Some ([], w)"
| "run_sections phN m b v ((c, desc, n, body) # ss) w = do {
     (t, w) \<leftarrow> debugfs_section phN m (ucast c) desc (Ptr (if n = 1 then v else b) 0) n body w;
     (ts, w) \<leftarrow> run_sections phN m b v ss w;
     Some (t @ ts, w) }"

lemma run_sections_ok:
  assumes "show_ready os fd m wb b v w"
    and "\<forall>(c, desc, n, body) \<in> set ss. 0 < n \<and> n \<le> 4 \<and> (dummy_cmd c \<longrightarrow> n = 3 \<or> n = 4)"
  shows "\<exists>rs w'. run_sections phN m b v ss w = Some (sections_text phN ss rs, w') \<and>
    map length rs = map section_len ss \<and> list_all2 (is_reply os) (map fst ss) rs \<and>
    show_ready os fd m wb b v w' \<and> evolves {wb, b, v} w w' \<and> shows3 fd w w' (map (Cmd \<circ> fst) ss)"
  using assms
proof (induction ss arbitrary: w)
  case Nil
  then show ?case by (intro exI [of _ "[]"]) (simp add: shows3_def)
next
  case (Cons s ss)
  obtain c desc n body where s: "s = (c, desc, n, body)" by (cases s)
  define p where "p = (if n = 1 then v else b)"
  have pn: "p = b \<and> n \<le> 4 \<or> p = v \<and> n = 1" "0 < n" "dummy_cmd c \<longrightarrow> n = 3 \<or> n = 4"
    using Cons.prems(2) by (simp_all add: s p_def)
  from show_read [OF Cons.prems(1) pn] obtain bs w1 where w1: "regmap_raw_read m (ucast c) (Ptr p 0) n w = Some (0, w1)"
    "load w1 (Ptr p 0) n = Some bs" "length bs = n" "is_reply os c bs"
    "show_step os fd m wb b v [Cmd c] w w1"
    by blast
  have "show_ready os fd m wb b v w1" using w1(5) by (simp add: show_step_def)
  moreover have "\<forall>(c, desc, n, body) \<in> set ss. 0 < n \<and> n \<le> 4 \<and> (dummy_cmd c \<longrightarrow> n = 3 \<or> n = 4)"
    using Cons.prems(2) by simp
  ultimately obtain rs w' where
    w': "run_sections phN m b v ss w1 = Some (sections_text phN ss rs, w')"
    "map length rs = map section_len ss" "list_all2 (is_reply os) (map fst ss) rs"
    "show_ready os fd m wb b v w'" "evolves {wb, b, v} w1 w'" "shows3 fd w1 w' (map (Cmd \<circ> fst) ss)"
    using Cons.IH by blast
  have "debugfs_section phN m (ucast c) desc (Ptr p 0) n body w =
      Some (section_text phN (c, desc, n, body) bs, w1)"
    using w1(1,2) by (simp add: debugfs_section_def mipi_dbi_debugfs_readreg_def del: load.simps)
  then have "run_sections phN m b v (s # ss) w = Some (sections_text phN (s # ss) (bs # rs), w')"
    using w'(1) by (simp add: s p_def split: if_splits)
  moreover have ev: "evolves {wb, b, v} w w1" "shows3 fd w w1 [Cmd c]"
    using w1(5) by (simp_all add: show_step_def)
  then have "shows3 fd w w' ([Cmd c] @ map (Cmd \<circ> fst) ss)" "evolves {wb, b, v} w w'"
    using shows3_trans [OF ev(1) w'(5) ev(2) w'(6)] evolves_trans(1) [OF ev(1) w'(5)] by blast+
  ultimately show ?case
    using w'(2-4) w1(3,4) by (intro exI [of _ "bs # rs"] exI [of _ w']) (simp add: s section_len_def comp_def)
qed

text \<open>The whole file.\<close>

definition show_cmds :: "item list" where
  "show_cmds = map Cmd [0x0A, 0x04, 0x09, 0x0A, 0x0B, 0x0C, 0x0D, 0x0E, 0x0F]"

definition reg_lens :: "nat list" where
  "reg_lens = [3, 4, 1, 1, 1, 1, 1, 1]"

definition reg_cmds :: "u8 list" where
  "reg_cmds = [0x04, 0x09, 0x0A, 0x0B, 0x0C, 0x0D, 0x0E, 0x0F]"

lemma debugfs_sections_simps:
  "map section_len (debugfs_sections genmask) = reg_lens"
  "map fst (debugfs_sections genmask) = reg_cmds"
  "[Cmd 0x0A] @ map (Cmd \<circ> fst) (debugfs_sections genmask) = show_cmds"
  by (simp_all add: debugfs_sections_def section_len_def reg_lens_def reg_cmds_def show_cmds_def)

text \<open>The function in terms of the sections.\<close>

lemma show_sections:
  assumes "regmap_raw_read m MIPI_DCS_GET_POWER_MODE (Ptr (nblk w) 0) 1
      (w\<lparr>mem := (mem w)(nblk w \<mapsto> map (os_junk os (trace w)) [0..<4], Suc (nblk w) \<mapsto> [os_junk os (trace w) 4]),
         nblk := Suc (Suc (nblk w))\<rparr>) = Some (0, w1)"
    and "run_sections phN m (nblk w) (Suc (nblk w)) (debugfs_sections genmask) w1 = Some (t, w2)"
  shows "mipi_dbi_debugfs_show os genmask phN m w =
    Some ((0, t), w2\<lparr>mem := (mem w2)(Suc (nblk w) := None, nblk w := None)\<rparr>)"
  using assms
  by (auto simp: mipi_dbi_debugfs_show_def new_block_def debugfs_sections_def Option.bind_eq_Some_conv)

lemma debugfs_show_ok:
  assumes r: "bus3_ready os fd m wb w"
  shows "\<exists>rs w'. mipi_dbi_debugfs_show os genmask phN m w = Some ((0, debugfs_text genmask phN rs), w') \<and>
    map length rs = reg_lens \<and> list_all2 (is_reply os) reg_cmds rs \<and> panel_step os fd m wb show_cmds w w'"
proof -
  let ?b = "nblk w" and ?v = "Suc (nblk w)"
  let ?w0 = "w\<lparr>mem := (mem w)(?b \<mapsto> map (os_junk os (trace w)) [0..<4], ?v \<mapsto> [os_junk os (trace w) 4]),
    nblk := Suc (Suc (nblk w))\<rparr>"
  have wb: "wb < ?b" using r by (simp add: bus3_ready_def rm_buf_def)
  have "inv3 os fd ?w0"
    using r by (auto simp: bus3_ready_def inv3_def spi_ready_def intro: less_SucI)
  then have r0: "show_ready os fd m wb ?b ?v ?w0"
    using r wb by (auto simp: show_ready_def bus3_ready_def rm_buf_def)
  have e0: "evolves {wb, ?b, ?v} w ?w0" "new_evs w ?w0 = []"
    by (auto simp: evolves_def new_evs_def same_dev_def)
  have "\<not> dummy_cmd 0x0A" by (simp add: dummy_cmd_def)
  then obtain w1 where w1: "regmap_raw_read m (ucast (0x0A :: u8)) (Ptr ?b 0) 1 ?w0 = Some (0, w1)"
    "show_step os fd m wb ?b ?v [Cmd 0x0A] ?w0 w1"
    using show_read [OF r0, of ?b 1 "0x0A"] by auto
  have r1: "show_ready os fd m wb ?b ?v w1" using w1(2) by (simp add: show_step_def)
  have "\<forall>(c, desc, n, body) \<in> set (debugfs_sections genmask). 0 < n \<and> n \<le> 4 \<and> (dummy_cmd c \<longrightarrow> n = 3 \<or> n = 4)"
    by (simp add: debugfs_sections_def dummy_cmd_def)
  from run_sections_ok [OF r1 this, of phN] obtain rs w2 where
    w2: "run_sections phN m ?b ?v (debugfs_sections genmask) w1 = Some (debugfs_text genmask phN rs, w2)"
    "map length rs = reg_lens" "list_all2 (is_reply os) reg_cmds rs"
    and st: "show_step os fd m wb ?b ?v (map (Cmd \<circ> fst) (debugfs_sections genmask)) w1 w2"
    by (auto simp: debugfs_sections_simps debugfs_text_def show_step_def)
  from show_step_trans [OF w1(2) st] have st: "show_step os fd m wb ?b ?v show_cmds ?w0 w2"
    by (simp only: debugfs_sections_simps)
  let ?w3 = "w2\<lparr>mem := (mem w2)(?v := None, ?b := None)\<rparr>"
  have ev: "evolves {wb, ?b, ?v} ?w0 w2" "shows3 fd ?w0 w2 show_cmds" "show_ready os fd m wb ?b ?v w2"
    using st by (simp_all add: show_step_def)
  note t = evolves_trans [OF e0(1) ev(1)]
  have e3: "evolves {wb, ?b, ?v} w2 ?w3" "new_evs w2 ?w3 = []"
    by (auto simp: evolves_def new_evs_def same_dev_def)
  note t2 = evolves_trans [OF t(1) e3(1)]
  have "evolves ({wb} \<union> {?b, ?v}) w ?w3" using t2(1) by (simp add: insert_commute)
  then have "evolves {wb} w ?w3" by (rule evolves_fresh_drop) auto
  moreover have "shows3 fd w ?w3 show_cmds"
    using ev(2) unfolding shows3_def t2(2) t(2) e0(2) e3(2) by simp
  moreover have "bus3_ready os fd m wb ?w3"
    using ev(3) wb by (simp add: show_ready_def bus3_ready_def rm_buf_def inv3_def spi_ready_def)
  ultimately have "panel_step os fd m wb show_cmds w ?w3" by (simp add: panel_step_def)
  moreover have "mipi_dbi_debugfs_show os genmask phN m w = Some ((0, debugfs_text genmask phN rs), ?w3)"
    using w1(1) w2(1) by (intro show_sections) simp_all
  ultimately show ?thesis using w2(2,3) by blast
qed

text \<open>A bus that cannot read.\<close>

lemma debugfs_show_write_only:
  assumes "regmap_raw_read m MIPI_DCS_GET_POWER_MODE (Ptr (nblk w) 0) 1
      (w\<lparr>mem := (mem w)(nblk w \<mapsto> map (os_junk os (trace w)) [0..<4], Suc (nblk w) \<mapsto> [os_junk os (trace w) 4]),
         nblk := Suc (Suc (nblk w))\<rparr>) = Some (ret, w1)"
    and "ret = - EACCES \<or> ret = - ENOTSUPP"
  shows "mipi_dbi_debugfs_show os genmask phN m w = Some ((0, ''Controller is write-only'' @ NL),
    w1\<lparr>mem := (mem w1)(Suc (nblk w) := None, nblk w := None)\<rparr>)"
  using assms by (auto simp: mipi_dbi_debugfs_show_def new_block_def)

text \<open>
  C40. The debugfs file of a panel on option 3: the function returns 0 and asks the display the
  power mode and then the eight registers, in this order; the text is that of eight replies of
  the display, and it determines every byte of them. \<open>GENMASK\<close> and \<open>%*phN\<close> are assumed to do
  what the kernel documents: bits \<open>low\<close> to \<open>high\<close> set, and two hexadecimal digits for a byte.
\<close>

theorem debugfs_file:
  assumes "bus3_ready os fd m wb w" and "genmask_ok genmask"
    and "\<forall>bs. length (phN bs) = 2 * length bs"
  shows "(\<exists>rs w'. mipi_dbi_debugfs_show os genmask phN m w = Some ((0, debugfs_text genmask phN rs), w') \<and>
      map length rs = reg_lens \<and> list_all2 (is_reply os) reg_cmds rs \<and>
      panel_step os fd m wb show_cmds w w') \<and>
    inj_on (debugfs_text genmask phN) {rs. map length rs = reg_lens}"
  using debugfs_show_ok [OF assms(1)] debugfs_text_inj [OF assms(2)] assms(3)
  by (simp add: reg_lens_def)

definition genmask0 :: "nat \<Rightarrow> nat \<Rightarrow> u32" where
  "genmask0 high low = mask (Suc high) AND NOT (mask low)"

lemma genmask0_ok: "genmask_ok genmask0"
  by (auto simp: genmask_ok_def genmask0_def bit_and_iff bit_not_iff bit_mask_iff)

definition phN0 :: "bytes \<Rightarrow> string" where
  "phN0 bs = concat (map (\<lambda>b. hex_string 2 (unat b)) bs)"

lemma phN0_ok: "length (phN0 bs) = 2 * length bs"
  by (induction bs) (simp_all add: phN0_def)

theorem debugfs_file_witness:
  "\<exists>m fd wb w w' rs. mi0283qt_probe os2 REGMAP_ENDIAN_DEFAULT init_state = Some ((0, Some m), w) \<and>
    mipi_dbi_debugfs_show os2 genmask0 phN0 m w = Some ((0, debugfs_text genmask0 phN0 rs), w') \<and>
    panel_step os2 fd m wb show_cmds w w' \<and>
    (debugfs_text genmask0 phN0 rs = debugfs_text genmask0 phN0 [[1, 2, 3], [4, 5, 6, 7], [8], [9], [10], [11], [12], [13]] \<longrightarrow>
      rs = [[1, 2, 3], [4, 5, 6, 7], [8], [9], [10], [11], [12], [13]])"
proof -
  obtain m wb fd w where p: "mi0283qt_probe os2 REGMAP_ENDIAN_DEFAULT init_state = Some ((0, Some m), w)"
    "probed os2 fd m wb w" using panel2 by blast
  have r: "bus3_ready os2 fd m wb w" using p(2) by (simp add: probed_def)
  have "\<forall>bs. length (phN0 bs) = 2 * length bs" using phN0_ok by blast
  note t = debugfs_file [OF r genmask0_ok this]
  from t obtain rs w' where w': "mipi_dbi_debugfs_show os2 genmask0 phN0 m w = Some ((0, debugfs_text genmask0 phN0 rs), w')"
    "map length rs = reg_lens" "panel_step os2 fd m wb show_cmds w w'" by blast
  moreover have "map length [[1, 2, 3], [4, 5, 6, 7], [8], [9], [10], [11], [12], [13 :: u8]] = reg_lens"
    by (simp add: reg_lens_def)
  with t w'(2) have "debugfs_text genmask0 phN0 rs = debugfs_text genmask0 phN0 [[1, 2, 3], [4, 5, 6, 7], [8], [9], [10], [11], [12], [13]] \<longrightarrow>
      rs = [[1, 2, 3], [4, 5, 6, 7], [8], [9], [10], [11], [12], [13]]"
    by (auto dest: inj_onD)
  with w' p(1) show ?thesis by blast
qed

end
