(* ===== verification/Xrgb.thy ===== *)
theory Xrgb
  imports Flush
begin

text \<open>
  Flushing a framebuffer in XRGB8888 on interface option 3: the pixels of the rectangle are
  converted into a buffer of the driver and sent from there.
\<close>

section \<open>A pixel command from a buffer of the driver\<close>

lemma raw_write_pixels:
  assumes r: "bus3_ready os fd m wb w" and sup: "tinydrm_spi_bpw_supported (spi w) 16"
    and q: "priv (Ptr d i) w" "d \<noteq> wb" "load w (Ptr d i) n = Some ps" and n: "1 < n"
  shows "\<exists>w'. regmap_raw_write os m 0x2C (Ptr d i) n w = Some (0, w') \<and>
    panel_step os fd m wb (Cmd 0x2C # map Dat ps) w w'"
proof -
  have "\<exists>w'. mipi_dbi_spi3_gather_write os (Ptr wb 0) 1 (Ptr d i) n w1 = Some (0, w') \<and> inv3 os fd w' \<and>
      evolves {} w1 w' \<and> shows3 fd w1 w' (Cmd 0x2C # map Dat ps)"
    if i1: "inv3 os fd w1" and p1: "priv (Ptr wb 0) w1" "load w1 (Ptr wb 0) 1 = Some [0x2C]"
      and ev: "evolves {wb} w w1" for w1
  proof -
    have "priv (Ptr d i) w1" using priv_evolves [OF q(1) ev] .
    moreover have "load w1 (Ptr d i) n = Some ps"
      using q(2) by (intro load_evolves [OF q(3) ev q(1)]) simp
    moreover have "tinydrm_spi_bpw_supported (spi w1) 16"
      using sup same_devD(1) [OF evolves_same_dev [OF ev]] by simp
    ultimately show ?thesis
      using spi3_sends [OF i1 p1(1) _ p1(2)] by (auto simp: wp_iff shows3_def)
  qed
  then show ?thesis
    using raw_write_gather [OF r n, of "Ptr d i" "0x2C"] q(2) by simp
qed

section \<open>Steps that use a buffer of their own\<close>

lemma panel_b3_step:
  "bus3_ready os fd m wb w \<Longrightarrow> panel_step os fd m wb xs w w' \<Longrightarrow> b3.step os fd m wb {} xs w w'"
  using bus3_ready_b3 by (simp add: panel_step_def b3.step_def b3.says_def shows3_def)

lemma b3_step_bus3:
  assumes "bus3_ready os fd m wb w" and "b3.step os fd m wb X xs w w'"
  shows "bus3_ready os fd m wb w'"
proof -
  have "same_dev w w'" using assms(2) by (auto simp: b3.step_def dest: evolves_same_dev)
  note same_devD [OF this]
  then show ?thesis
    using assms by (simp add: bus3_ready_def b3.step_def b3.ready_def)
qed

section \<open>The rectangle\<close>

text \<open>An XRGB8888 framebuffer without padding, with its bytes mapped.\<close>

definition xrgb_fb :: "utinydrm_fb \<Rightarrow> state \<Rightarrow> bool" where
  "xrgb_fb fb w \<longleftrightarrow>
     fb \<in> set (fbs w) \<and> fb_format fb = DRM_FORMAT_XRGB8888 \<and>
     unat (fb_width fb) * unat (fb_height fb) * 2 \<le> 153600 \<and>
     (\<exists>b bs. fb_map fb = Ptr b 0 \<and> mem w b = Some bs \<and>
       length bs = unat (fb_width fb) * unat (fb_height fb) * 4)"

text \<open>The source bytes that are sent, as the code addresses them, and what they become.\<close>

definition clip_start :: "clip_rect \<Rightarrow> nat" where
  "clip_start c = unat (y1 c) * (unat (x2 c) - unat (x1 c))"

definition clip_area :: "clip_rect \<Rightarrow> nat" where
  "clip_area c = (unat (x2 c) - unat (x1 c)) * (unat (y2 c) - unat (y1 c))"

definition xrgb_bytes :: "clip_rect \<Rightarrow> bytes \<Rightarrow> bytes" where
  "xrgb_bytes c bs = line565 (take (4 * clip_area c) (drop (4 * clip_start c) bs))"

lemma clip_area_fits:
  assumes c: "clip_in W H c" and s: "unat W * unat H * 2 \<le> 153600"
  shows "unat (clip_width c * clip_height c) = clip_area c"
    and "unat (clip_width c * clip_height c * 2) = clip_area c * 2"
    and "unat (ucast (y1 c) * clip_width c * 4) = clip_start c * 4"
    and "clip_start c + clip_area c \<le> unat W * unat H" and "0 < clip_area c"
proof -
  let ?w = "unat (x2 c) - unat (x1 c)" and ?h = "unat (y2 c) - unat (y1 c)"
  note d = clip_dims [OF c]
  have y: "unat (y1 c) + ?h = unat (y2 c)" using d(4) by simp
  have "clip_start c + clip_area c = ?w * (unat (y1 c) + ?h)"
    unfolding clip_start_def clip_area_def add_mult_distrib2 by (simp only: mult.commute)
  then have "clip_start c + clip_area c = ?w * unat (y2 c)" unfolding y .
  moreover have "?w * unat (y2 c) \<le> unat W * unat H"
    using d(3,5,6) by (intro mult_le_mono) simp_all
  ultimately show f: "clip_start c + clip_area c \<le> unat W * unat H" by simp
  have le: "clip_area c \<le> 76800" "clip_start c \<le> 76800" using f s by linarith+
  show "0 < clip_area c" using d(3,4) by (simp add: clip_area_def)
  show a: "unat (clip_width c * clip_height c) = clip_area c"
    using unat_u32_mult [of "clip_width c" "clip_height c" 153600] le d(1,2) by (simp add: clip_area_def)
  show "unat (clip_width c * clip_height c * 2) = clip_area c * 2"
    using unat_u32_mult [of "clip_width c * clip_height c" 2 153600] le a by simp
  have "unat (ucast (y1 c) * clip_width c) = clip_start c"
    using unat_u32_mult [of "ucast (y1 c)" "clip_width c" 153600] le d(1) by (simp add: clip_start_def)
  then show "unat (ucast (y1 c) * clip_width c * 4) = clip_start c * 4"
    using unat_u32_mult [of "ucast (y1 c) * clip_width c" 4 307200] le by simp
qed

lemma flush_xrgb_ok:
  assumes r: "bus3_ready os fd m wb w" and f: "xrgb_fb fb w"
    and sup: "tinydrm_spi_bpw_supported (spi w) 16"
    and c: "clip_in (fb_width fb) (fb_height fb) c"
    and b: "fb_map fb = Ptr b 0" "mem w b = Some bs"
  shows "\<exists>w'. tinydrm_regmap_flush_rgb565 os m 0x2C fb (fb_map fb) c w = Some (0, w') \<and>
    panel_step os fd m wb (Cmd 0x2C # map Dat (xrgb_bytes c bs)) w w'"
proof -
  have size: "unat (fb_width fb) * unat (fb_height fb) * 2 \<le> 153600"
    "length bs = unat (fb_width fb) * unat (fb_height fb) * 4" using f b by (auto simp: xrgb_fb_def)
  note a = clip_area_fits [OF c size(1)]
  let ?k = "clip_area c" and ?d = "nblk w"
  let ?src = "take (4 * ?k) (drop (4 * clip_start c) bs)"
  have i: "inv3 os fd w" and wb: "wb < ?d" using r by (simp_all add: bus3_ready_def rm_buf_def)
  have good: "os_good os" and nd: "\<not> dma_blk ?d w" using i by (auto simp: inv3_def spi_ready_def)
  have "fb \<in> set (fbs w)" using f by (simp add: xrgb_fb_def)
  then have "dma_blk b w" using b(1) unfolding dma_blk_def by (metis blk_of.simps(2))
  then have bd: "b < ?d" using i by (simp add: inv3_def)
  let ?w1 = "allocated (?k * 2) (replicate (?k * 2) 0) w"
  let ?w2 = "?w1\<lparr>mem := (mem ?w1)(?d \<mapsto> xrgb_bytes c bs)\<rparr>"
  have len: "length (xrgb_bytes c bs) = ?k * 2" using a(4) size(2) by (simp add: xrgb_bytes_def)
  have src: "load ?w1 (Ptr b (4 * clip_start c)) (4 * ?k) = Some ?src"
    using b bd a(4) size(2) by simp
  have cv: "tinydrm_xrgb8888_to_rgb565 (Ptr b (4 * clip_start c)) (Ptr ?d 0) ?k ?w1 = Some ((), ?w2)"
    using xrgb_loop_ok [OF src, of ?d "replicate (?k * 2) 0" 0] bd by (simp add: xrgb_bytes_def)
  have s1: "b3.step os fd m wb {?d} [] w ?w1"
    using b3.step_mono [OF b3.step_quiet [OF bus3_ready_b3 [OF r] evolves_allocated [of "{}"]]]
    by (simp add: quiet_ev_def)
  have s2: "b3.step os fd m wb {?d} [] ?w1 ?w2"
    using wb by (intro b3.step_quiet [OF b3.step_ready [OF s1]] evolves_mem_upd) simp_all
  note s12 = b3.step_trans [OF s1 s2]
  have r2: "bus3_ready os fd m wb ?w2" by (rule b3_step_bus3 [OF r s12])
  have "priv (Ptr ?d 0) ?w2" using nd by (simp add: priv_def)
  moreover have "load ?w2 (Ptr ?d 0) (?k * 2) = Some (xrgb_bytes c bs)" using len by simp
  moreover have "tinydrm_spi_bpw_supported (spi ?w2) 16" using sup by (simp add: allocated_def)
  ultimately obtain w3 where w3: "regmap_raw_write os m 0x2C (Ptr ?d 0) (?k * 2) ?w2 = Some (0, w3)"
    "panel_step os fd m wb (Cmd 0x2C # map Dat (xrgb_bytes c bs)) ?w2 w3"
    using raw_write_pixels [OF r2, of ?d 0 "?k * 2"] a(5) wb by auto
  note s3 = b3.step_mono [OF panel_b3_step [OF r2 w3(2)], of "{?d}"]
  have "mem w3 ?d = Some (xrgb_bytes c bs)"
    using w3(2) wb evolves_mem [of "{wb}" ?w2 w3 ?d] by (simp add: panel_step_def)
  then have fr: "kfree (Ptr ?d 0) w3 = Some ((), freed ?d w3)" by (intro kfree_ok) simp
  have s4: "b3.step os fd m wb {?d} [] w3 (freed ?d w3)"
    using bus3_ready_b3 [OF panel_step_ready [OF w3(2)]] wb
    by (intro b3.step_quiet evolves_freed) (simp_all add: quiet_ev_def)
  have "b3.step os fd m wb ({} \<union> {?d}) (Cmd 0x2C # map Dat (xrgb_bytes c bs)) w (freed ?d w3)"
    using b3.step_trans [OF b3.step_trans [OF s12 s3] s4] by simp
  then have "b3.step os fd m wb {} (Cmd 0x2C # map Dat (xrgb_bytes c bs)) w (freed ?d w3)"
    by (rule b3.step_fresh) simp
  then have "panel_step os fd m wb (Cmd 0x2C # map Dat (xrgb_bytes c bs)) w (freed ?d w3)"
    by (rule b3_panel_step [OF r])
  moreover have "tinydrm_regmap_flush_rgb565 os m 0x2C fb (fb_map fb) c w = Some (0, freed ?d w3)"
    using f b(1) a(1-3) kzalloc_ok [OF good, of "?k * 2" w] cv w3(1) fr
    by (simp add: tinydrm_regmap_flush_rgb565_def xrgb_fb_def Let_def mult.commute)
  ultimately show ?thesis by blast
qed

lemma fb_dirty_xrgb:
  assumes r: "bus3_ready os fd m wb w" and pr: "prepared w" and f: "xrgb_fb fb w"
    and sup: "tinydrm_spi_bpw_supported (spi w) 16"
    and mc: "tinydrm_merge_clips (if enabled w then Some clips else None)
               (if enabled w then n else 0) ann (fb_width fb) (fb_height fb) = Some c"
    and c: "clip_in (fb_width fb) (fb_height fb) c"
    and b: "fb_map fb = Ptr b 0" "mem w b = Some bs"
  shows "\<exists>w'. mipi_dbi_fb_dirty os m fb ann color clips n w = Some (0, w'\<lparr>enabled := True\<rparr>) \<and>
    panel_step os fd m wb (window_items c @ Cmd 0x2C # map Dat (xrgb_bytes c bs)) w w' \<and>
    mem w' b = Some bs"
proof -
  have "dma_blk b w" using f b(1) unfolding dma_blk_def xrgb_fb_def by (metis blk_of.simps(2))
  then have bd: "b < nblk w" "b \<noteq> wb" using r by (auto simp: bus3_ready_def inv3_def rm_buf_def)
  have kept: "mem w' b = Some bs" if "panel_step os fd m wb xs w w'" for xs w'
    using that b(2) bd evolves_mem [of "{wb}" w w' b] by (simp add: panel_step_def)
  have fl: "\<exists>xs w3. xs = Cmd 0x2C # map Dat (xrgb_bytes c bs) \<and>
      tinydrm_regmap_flush_rgb565 os m 0x2C fb (fb_map fb) c w2 = Some (0, w3) \<and>
      panel_step os fd m wb xs w2 w3"
    if t: "panel_step os fd m wb (window_items c) w w2" for w2
  proof -
    note dev = same_devD [OF panel_step_dev [OF t]]
    have f2: "xrgb_fb fb w2" using f b kept [OF t] dev(3) by (simp add: xrgb_fb_def)
    have s2: "tinydrm_spi_bpw_supported (spi w2) 16" using sup dev(1) by simp
    from flush_xrgb_ok [OF panel_step_ready [OF t] f2 s2 c b(1) kept [OF t]] show ?thesis by blast
  qed
  obtain xs w' where w': "xs = Cmd 0x2C # map Dat (xrgb_bytes c bs)"
    "mipi_dbi_fb_dirty os m fb ann color clips n w = Some (0, if (0::int) = 0 then w'\<lparr>enabled := True\<rparr> else w')"
    "panel_step os fd m wb (window_items c @ xs) w w'"
    using fb_dirty_flush [where P = "\<lambda>xs. xs = Cmd 0x2C # map Dat (xrgb_bytes c bs)", OF r pr mc fl] by blast
  show ?thesis using w' kept [OF w'(3)] by (intro exI [of _ w']) simp
qed

text \<open>The bytes sent, pixel by pixel.\<close>

lemma xrgb_bytes_pixels:
  assumes f: "xrgb_fb fb w" and b: "fb_map fb = Ptr b 0" "mem w b = Some bs"
    and c: "clip_in (fb_width fb) (fb_height fb) c"
  shows "xrgb_bytes c bs = concat (map (\<lambda>k. let p = 4 * (clip_start c + k) in
      le16 (rgb565 (bs ! (p + 2)) (bs ! (p + 1)) (bs ! p))) [0..<clip_area c])"
proof -
  have size: "unat (fb_width fb) * unat (fb_height fb) * 2 \<le> 153600"
    "length bs = unat (fb_width fb) * unat (fb_height fb) * 4" using f b by (auto simp: xrgb_fb_def)
  let ?src = "take (4 * clip_area c) (drop (4 * clip_start c) bs)"
  have le: "4 * clip_start c + 4 * clip_area c \<le> length bs"
    using clip_area_fits(4) [OF c size(1)] size(2) by linarith
  then have l: "length ?src = 4 * clip_area c" by simp
  have n: "?src ! (4 * k + j) = bs ! (4 * (clip_start c + k) + j)" if "k < clip_area c" "j < 4" for k j
    using that le by (simp add: add.assoc)
  have n0: "?src ! (4 * k) = bs ! (4 * (clip_start c + k))" if "k < clip_area c" for k
    using n [OF that, of 0] by simp
  have px: "le16 (rgb565 (?src ! (4 * k + 2)) (?src ! (4 * k + 1)) (?src ! (4 * k))) =
      (let p = 4 * (clip_start c + k) in le16 (rgb565 (bs ! (p + 2)) (bs ! (p + 1)) (bs ! p)))"
    if "k \<in> set [0..<clip_area c]" for k
  proof -
    have k: "k < clip_area c" using that by simp
    then show ?thesis unfolding Let_def by (subst n [OF k], simp)+ (simp only: n0 [OF k])
  qed
  show ?thesis
    unfolding xrgb_bytes_def line565_map [OF l] using px by (intro arg_cong [where f = concat] map_cong refl)
qed

end
