(* ===== verification/Service.thy ===== *)
theory Service
  imports Session Xrgb
begin

text \<open>
  The service the program gives: on a probed panel, with calls that succeed and events as the
  udrm driver makes them, every event is handled, whatever was handled before, and the state stays
  one in which the next can be. It follows that the main loop never gets stuck, and that it ends
  when the device hangs up.
\<close>

section \<open>States in which every event can be handled\<close>

text \<open>A framebuffer of a size the panel can show, mapped completely when its pixels are read.\<close>

definition fb_size_ok :: "u32 \<Rightarrow> u32 \<Rightarrow> bool" where
  "fb_size_ok W H \<longleftrightarrow> 0 < W \<and> unat W < 2 ^ 16 \<and> 0 < H \<and> unat H < 2 ^ 16 \<and>
     unat W * unat H * 2 \<le> 153600"

definition fb_served :: "utinydrm_fb \<Rightarrow> state \<Rightarrow> bool" where
  "fb_served u w \<longleftrightarrow>
     fb_size_ok (fb_width u) (fb_height u) \<and> u \<in> set (fbs w) \<and> (\<exists>b. fb_map u = Ptr b 0) \<and>
     (fb_format u = DRM_FORMAT_RGB565 \<longrightarrow>
       fb_map_size u = int (unat (fb_width u) * unat (fb_height u) * 2)) \<and>
     (fb_format u = DRM_FORMAT_XRGB8888 \<longrightarrow>
       (\<exists>b bs. fb_map u = Ptr b 0 \<and> mem w b = Some bs \<and>
         length bs = unat (fb_width u) * unat (fb_height u) * 4))"

definition service :: "os \<Rightarrow> int \<Rightarrow> regmap \<Rightarrow> nat \<Rightarrow> state \<Rightarrow> bool" where
  "service os fd m wb w \<longleftrightarrow>
     session os fd m wb w \<and> (\<forall>u\<in>set (fbs w). fb_served u w) \<and> distinct (map fb_map (fbs w))"

lemma service_session: "service os fd m wb w \<Longrightarrow> session os fd m wb w"
  by (simp add: service_def)

lemma service_bus3: "service os fd m wb w \<Longrightarrow> bus3_ready os fd m wb w"
  by (simp add: service_def session_def)

lemma service_good: "service os fd m wb w \<Longrightarrow> os_good os"
  using service_bus3 by (auto simp: bus3_ready_def inv3_def spi_ready_def)

lemma service_upd [simp]:
  "service os fd m wb (w\<lparr>prepared := p\<rparr>) = service os fd m wb w"
  "service os fd m wb (w\<lparr>enabled := p\<rparr>) = service os fd m wb w"
  "service os fd m wb (w\<lparr>plane_fb := q\<rparr>) = service os fd m wb w"
  by (simp_all add: service_def fb_served_def)

text \<open>The blocks of framebuffers are none of the blocks a step of the panel writes.\<close>

lemma service_fb_blk:
  assumes "service os fd m wb w" and "u \<in> set (fbs w)" and "fb_map u = Ptr b i"
  shows "b < nblk w" and "b \<noteq> wb" and "dma_blk b w"
proof -
  show d: "dma_blk b w" using assms(2,3) unfolding dma_blk_def by (metis blk_of.simps(2))
  show "b < nblk w" "b \<noteq> wb"
    using d service_bus3 [OF assms(1)] by (auto simp: bus3_ready_def inv3_def rm_buf_def)
qed

lemma service_panel_step:
  assumes s: "service os fd m wb w" and p: "panel_step os fd m wb xs w w'"
  shows "service os fd m wb w'"
proof -
  have ev: "evolves {wb} w w'" using p by (simp add: panel_step_def)
  have f: "fbs w' = fbs w" using same_devD(3) [OF panel_step_dev [OF p]] .
  have "mem w' b = mem w b" if "u \<in> set (fbs w)" "fb_map u = Ptr b i" for u b i
    using service_fb_blk [OF s that] by (intro evolves_mem [OF ev]) simp_all
  then have "fb_served u w'" if "u \<in> set (fbs w)" for u
    using s that f unfolding service_def fb_served_def by metis
  then show ?thesis
    using s f session_step [OF _ p] by (simp add: service_def)
qed

lemma service_log: "service os fd m wb w \<Longrightarrow> list_all other_ev es \<Longrightarrow> service os fd m wb (log_evs es w)"
  using service_panel_step panel_step_log [OF service_bus3] run3_other by metis

section \<open>Turning the pipe on and off\<close>

lemma enable_runs:
  assumes s: "service os fd m wb w"
  shows "\<exists>w'. utinydrm_event os m UDRM_EVENT_PIPE_ENABLE w = Some (0, w') \<and> service os fd m wb w' \<and>
    prepared w'"
proof (cases "prepared w")
  case True
  then show ?thesis
    using s by (intro exI [of _ w]) (simp add: utinydrm_pipe_enable_def mi0283qt_enable_def)
next
  case False
  obtain w' xs where w': "mi0283qt_enable os m w = Some ((), w'\<lparr>prepared := True\<rparr>)"
    "panel_step os fd m wb xs w w'"
    using mi0283qt_enable_ok [OF service_bus3 [OF s] False] by blast
  then show ?thesis
    using service_panel_step [OF s w'(2)] service_session [OF s]
    by (intro exI [of _ "w'\<lparr>prepared := True\<rparr>"]) (simp add: utinydrm_pipe_enable_def session_def)
qed

lemma disable_runs:
  assumes s: "service os fd m wb w"
  shows "\<exists>w'. utinydrm_event os m UDRM_EVENT_PIPE_DISABLE w = Some (0, w') \<and> service os fd m wb w'"
proof -
  obtain d where d: "backlight (mipi w) = Some d" and pf: "pipe_funcs w"
    using s by (auto simp: service_def session_def)
  obtain es w' xs where w': "mipi_dbi_pipe_disable os m w = Some ((), w'\<lparr>prepared := False\<rparr>)"
    "\<forall>l. run3 fd l es = (l, [])" "panel_step os fd m wb xs ((log_evs es w)\<lparr>enabled := False\<rparr>) w'"
    using pipe_disable_steps [OF service_bus3 [OF s] d] by blast
  have "service os fd m wb (log_evs es w)"
    using w'(2) service_panel_step [OF s panel_step_log [OF service_bus3 [OF s]]] by blast
  then have "service os fd m wb ((log_evs es w)\<lparr>enabled := False\<rparr>)" by simp
  from service_panel_step [OF this w'(3)] show ?thesis
    using w'(1) pf by (intro exI [of _ "w'\<lparr>prepared := False\<rparr>"]) (simp add: utinydrm_pipe_disable_def)
qed

section \<open>Framebuffers\<close>

text \<open>The framebuffers the kernel announces: of a size the panel can show, without padding.\<close>

definition decent_fb :: "fb_cmd \<Rightarrow> bool" where
  "decent_fb i \<longleftrightarrow>
     fb_size_ok (info_width i) (info_height i) \<and>
     (drm_mode_legacy_fb_format (info_bpp i) (info_depth i) = DRM_FORMAT_RGB565 \<longrightarrow>
       info_pitch i = info_width i * 2) \<and>
     (drm_mode_legacy_fb_format (info_bpp i) (info_depth i) = DRM_FORMAT_XRGB8888 \<longrightarrow>
       info_pitch i = info_width i * 4)"

lemma panel_fb_decent: "panel_fb i \<Longrightarrow> decent_fb i"
  by (simp add: panel_fb_def decent_fb_def fb_size_ok_def drm_mode_legacy_fb_format_def)

lemma sint_of_small:
  assumes "unat (a :: u32) < 2 ^ 31"
  shows "sint a = int (unat a)"
proof -
  have small: "sint (word_of_int k :: u32) = k" if "0 \<le> k" "k < 2 ^ 31" for k
    using that by (simp add: int_word_sint)
  have "int (unat a) < 2 ^ 31" using assms by (metis of_nat_less_iff of_nat_numeral of_nat_power)
  then have "sint (word_of_int (int (unat a)) :: u32) = int (unat a)" by (intro small) simp_all
  moreover have "(word_of_int (int (unat a)) :: u32) = a" by simp
  ultimately show ?thesis by (simp only:)
qed

lemma fb_bytes:
  assumes "fb_size_ok W H" and "k = 2 \<or> k = 4"
  shows "unat (H * (W * of_nat k)) = unat W * unat H * k"
    and "sint (H * (W * of_nat k)) = int (unat W * unat H * k)"
proof -
  have "unat W * unat H * 2 \<le> 153600" using assms(1) by (simp only: fb_size_ok_def)
  then have le: "unat W * unat H \<le> 76800" by linarith
  have a: "unat (W * H) = unat W * unat H" using unat_u32_mult [OF le] by simp
  have ok: "unat (of_nat k :: u32) = k" using assms(2) by auto
  have k: "unat W * unat H * k \<le> 307200"
    using assms(2) le by (elim disjE; simp only:; linarith)
  then have u: "unat (W * H * of_nat k) = unat W * unat H * k"
    using unat_u32_mult [of "W * H" "of_nat k" 307200] a ok by simp
  show "unat (H * (W * of_nat k)) = unat W * unat H * k"
    using u by (simp only: mult.commute mult.left_commute)
  have "unat (W * H * of_nat k) < 2 ^ 31" unfolding u using k by simp
  then have "sint (W * H * of_nat k) = int (unat (W * H * of_nat k))"
    by (intro sint_of_small) simp
  then show "sint (H * (W * of_nat k)) = int (unat W * unat H * k)"
    using u by (simp only: mult.commute mult.left_commute)
qed

lemma made_fb_served:
  assumes d: "decent_fb i" and u: "u = made_fb id1 i f (Ptr b 0) True" "u \<in> set (fbs w)"
    and m: "mem w b = Some bs" "length bs = unat (info_height i * info_pitch i)"
  shows "fb_served u w"
proof -
  have sz: "fb_size_ok (info_width i) (info_height i)" using d by (simp add: decent_fb_def)
  have "fb_map_size u = int (unat (fb_width u) * unat (fb_height u) * 2)"
    if "fb_format u = DRM_FORMAT_RGB565"
    using that d fb_bytes(2) [OF sz, of 2] by (simp add: u(1) made_fb_def decent_fb_def)
  moreover have "length bs = unat (fb_width u) * unat (fb_height u) * 4"
    if "fb_format u = DRM_FORMAT_XRGB8888"
    using that d m(2) fb_bytes(1) [OF sz, of 4] by (simp add: u(1) made_fb_def decent_fb_def)
  ultimately show ?thesis
    using sz u(2) m(1) by (simp add: fb_served_def u(1) made_fb_def)
qed

lemma create_runs:
  assumes s: "service os fd m wb w" and d: "\<And>h. decent_fb (os_fb os h)"
  shows "\<exists>w' h f b. utinydrm_event os m (UDRM_EVENT_FB_CREATE id1) w = Some (0, w') \<and>
    service os fd m wb w' \<and> prepared w' = prepared w \<and>
    fbs w' = made_fb id1 (os_fb os h) f (Ptr b 0) True # fbs w"
proof -
  have ff: "udev_fb_funcs w" using s by (simp add: service_def session_def)
  obtain h f b w1 bs where w1: "utinydrm_fb_create os id1 w =
      Some (0, w1\<lparr>fbs := made_fb id1 (os_fb os h) f (Ptr b 0) (udev_fb_funcs w) # fbs w\<rparr>)"
    "evolves {} w w1" "nblk w \<le> b" "b < nblk w1" "mspi w1 = mspi w" "tx_buf w1 = tx_buf w"
    "mem w1 b = Some bs" "length bs = unat (info_height (os_fb os h) * info_pitch (os_fb os h))"
    using fb_create_ok [OF service_good [OF s], of id1 w] by blast
  let ?u = "made_fb id1 (os_fb os h) f (Ptr b 0) True"
  let ?w = "w1\<lparr>fbs := ?u # fbs w\<rparr>"
  note dev = same_devD [OF evolves_same_dev [OF w1(2)]]
  have map: "fb_map ?u = Ptr b 0" by (simp add: made_fb_def)
  have "session os fd m wb ?w"
    using s bus3_ready_new_fb [OF service_bus3 [OF s] w1(2,5,6,3,4) map] dev
    by (simp add: service_def session_def)
  moreover have "fb_served ?u ?w"
    using w1(7,8) by (intro made_fb_served [OF d refl]) simp_all
  moreover have "fb_served v ?w" if v: "v \<in> set (fbs w)" for v
  proof -
    have "mem w1 c = mem w c" if "fb_map v = Ptr c 0" for c
      using service_fb_blk(1) [OF s v that] by (intro evolves_mem [OF w1(2)]) simp_all
    moreover have "fb_served v w" using s v by (simp add: service_def)
    ultimately show ?thesis by (auto simp: fb_served_def)
  qed
  moreover have "Ptr b 0 \<notin> fb_map ` set (fbs w)"
  proof
    assume "Ptr b 0 \<in> fb_map ` set (fbs w)"
    then obtain v where v: "v \<in> set (fbs w)" "fb_map v = Ptr b 0" by auto
    from service_fb_blk(1) [OF s v] w1(3) show False by simp
  qed
  ultimately have "service os fd m wb ?w" using s map by (simp add: service_def)
  then show ?thesis using w1(1) ff dev
    by (intro exI [of _ ?w] exI [of _ h] exI [of _ f] exI [of _ b]) simp
qed

text \<open>Destroying: the block goes, the other framebuffers are in other blocks.\<close>

lemma fb_unlink_result:
  assumes "fb_unlink id1 pre us = Some (u, vs)"
  shows "u \<in> set us \<and> (\<exists>ys zs. us = ys @ u # zs \<and> vs = butlast (pre @ ys) @ zs)"
  using assms
proof (induction us arbitrary: pre)
  case (Cons x us)
  show ?case
  proof (cases "fb_id x = id1")
    case True
    then show ?thesis using Cons.prems by (auto intro: exI [of _ "[]"])
  next
    case False
    then obtain ys zs where "u \<in> set us" "us = ys @ u # zs" "vs = butlast ((pre @ [x]) @ ys) @ zs"
      using Cons by fastforce
    then show ?thesis by (intro conjI exI [of _ "x # ys"] exI [of _ zs]) auto
  qed
qed simp

lemma bus3_ready_drop_fb:
  assumes r: "bus3_ready os fd m wb w" and us: "set us \<subseteq> set (fbs w)" and b: "b \<noteq> wb"
  shows "bus3_ready os fd m wb (log_evs es (w\<lparr>fbs := us, mem := (mem w)(b := None)\<rparr>))"
proof -
  let ?w = "log_evs es (w\<lparr>fbs := us, mem := (mem w)(b := None)\<rparr>)"
  have d: "dma_blk c w" if "dma_blk c ?w" for c using that us by (auto simp: dma_blk_def)
  have "inv3 os fd ?w" using r d by (auto simp: bus3_ready_def inv3_def spi_ready_def)
  moreover have "rm_buf m wb ?w" using r d b by (auto simp: bus3_ready_def rm_buf_def)
  ultimately show ?thesis using r by (simp add: bus3_ready_def)
qed

lemma destroy_runs:
  assumes s: "service os fd m wb w"
  shows "\<exists>r w'. utinydrm_event os m (UDRM_EVENT_FB_DESTROY id1) w = Some (r, w') \<and> service os fd m wb w'"
proof (cases "fb_unlink id1 [] (fbs w)")
  case None
  then show ?thesis using s by (simp add: utinydrm_fb_destroy_def)
next
  case (Some x)
  obtain u us where x: "x = (u, us)" by (cases x)
  obtain ys zs where u: "u \<in> set (fbs w)" "fbs w = ys @ u # zs" "us = butlast ys @ zs"
    using fb_unlink_result [of id1 "[]" "fbs w" u us] Some x by auto
  obtain b where b: "fb_map u = Ptr b 0" using s u(1) by (auto simp: service_def fb_served_def)
  let ?e = "Ev_munmap (Ptr b 0) (fb_map_size u)"
  let ?w = "log_evs [?e] (w\<lparr>fbs := us, mem := (mem w)(b := None)\<rparr>)"
  have sub: "set us \<subseteq> set (fbs w)" using u in_set_butlastD by auto
  have "distinct (map fb_map (ys @ u # zs))" using s u(2) by (simp add: service_def)
  then have ds: "distinct (map fb_map ys @ map fb_map zs)" "Ptr b 0 \<notin> fb_map ` (set ys \<union> set zs)"
    using b by auto
  then have di: "distinct (map fb_map us)"
    unfolding u(3) map_append map_butlast distinct_append disjoint_iff
    by (metis distinct_butlast in_set_butlastD)
  have nb: "Ptr b 0 \<notin> fb_map ` set us"
    using ds(2) unfolding u(3) by (auto dest: in_set_butlastD)
  have ss: "syscall os ?e (w\<lparr>fbs := us\<rparr>) = Some (os_ret os (trace w @ [?e]), log_evs [?e] (w\<lparr>fbs := us\<rparr>))"
    "os_ret os (trace w @ [?e]) \<noteq> - 1"
    using syscall_nonneg [OF service_good [OF s], of ?e "w\<lparr>fbs := us\<rparr>"] by (simp_all add: ret_ok_def)
  have "utinydrm_fb_destroy os id1 w = Some (0, ?w)"
    using Some x b ss by (simp add: utinydrm_fb_destroy_def log_evs_def)
  moreover have "session os fd m wb ?w"
    using s bus3_ready_drop_fb [OF service_bus3 [OF s] sub service_fb_blk(2) [OF s u(1) b]]
    by (simp add: service_def session_def)
  moreover have "fb_served v ?w" if v: "v \<in> set us" for v
  proof -
    have "fb_map v \<noteq> Ptr b 0" using nb v by (metis image_eqI)
    moreover have "fb_served v w" using s sub v by (auto simp: service_def)
    ultimately show ?thesis using v by (auto simp: fb_served_def)
  qed
  ultimately show ?thesis using di by (intro exI [of _ 0] exI [of _ ?w]) (simp add: service_def)
qed

section \<open>Dirty events\<close>

lemma served_rgb565:
  "fb_served u w \<Longrightarrow> fb_format u = DRM_FORMAT_RGB565 \<Longrightarrow> chunk_size (mspi w) = 153600 \<Longrightarrow> rgb565_fb u w"
  by (auto simp: fb_served_def rgb565_fb_def fb_size_ok_def)

lemma served_xrgb: "fb_served u w \<Longrightarrow> fb_format u = DRM_FORMAT_XRGB8888 \<Longrightarrow> xrgb_fb u w"
  by (auto simp: fb_served_def xrgb_fb_def fb_size_ok_def)

text \<open>The flush of any framebuffer: the formats that are not supported give an error.\<close>

lemma flush_runs:
  assumes s: "service os fd m wb w" and u: "u \<in> set (fbs w)"
    and c: "clip_in (fb_width u) (fb_height u) c"
  shows "\<exists>xs w'. tinydrm_regmap_flush_rgb565 os m 0x2C u (fb_map u) c w =
      Some (if fb_format u = DRM_FORMAT_RGB565 \<or> fb_format u = DRM_FORMAT_XRGB8888 then 0 else - EINVAL, w') \<and>
    panel_step os fd m wb xs w w'"
proof -
  have r: "bus3_ready os fd m wb w" and sv: "fb_served u w" and cs: "chunk_size (mspi w) = 153600"
    and sup: "tinydrm_spi_bpw_supported (spi w) 16" and b: "0 \<le> udev_buf_fd w"
    using s u by (simp_all add: service_def session_def)
  consider (rgb) "fb_format u = DRM_FORMAT_RGB565" | (xrgb) "fb_format u = DRM_FORMAT_XRGB8888"
    | (other) "fb_format u \<noteq> DRM_FORMAT_RGB565" "fb_format u \<noteq> DRM_FORMAT_XRGB8888" by blast
  then show ?thesis
  proof cases
    case rgb
    from flush_rgb565_ok [OF r served_rgb565 [OF sv rgb cs] b sup c] show ?thesis using rgb by auto
  next
    case xrgb
    obtain a bs where "fb_map u = Ptr a 0" "mem w a = Some bs" using sv xrgb by (auto simp: fb_served_def)
    from flush_xrgb_ok [OF r served_xrgb [OF sv xrgb] sup c this] show ?thesis using xrgb by auto
  next
    case other
    then have "tinydrm_regmap_flush_rgb565 os m 0x2C u (fb_map u) c w = Some (- EINVAL, w)"
      by (simp add: tinydrm_regmap_flush_rgb565_def Let_def split: pixel_format.split)
    then show ?thesis using other panel_step_log [OF r, of "[]"] by auto
  qed
qed

text \<open>The clips of a dirty event: in the event buffer, and in pairs with the annotate flag.\<close>

fun event_ok :: "udrm_event \<Rightarrow> bool" where
  "event_ok (UDRM_EVENT_FB_DIRTY i ann color n clips) \<longleftrightarrow> n \<le> length clips \<and> (ann \<longrightarrow> even n)"
| "event_ok e \<longleftrightarrow> True"

lemma merge_clips_runs:
  assumes "n \<le> length clips" and "ann \<longrightarrow> even n" and "fb_size_ok W H"
  shows "\<exists>c. tinydrm_merge_clips (if e then Some clips else None) (if e then n else 0) ann W H = Some c \<and>
    clip_in W H c"
proof -
  have "\<exists>c. tinydrm_merge_clips (if e then Some clips else None) (if e then n else 0) ann W H = Some c"
  proof (cases "e \<and> 0 < n")
    case True
    then show ?thesis using merge_clips_selected [of n clips ann W H] assms(1,2) by simp
  next
    case False
    then show ?thesis by (auto simp: tinydrm_merge_clips_def)
  qed
  then show ?thesis using merge_clips_in assms(3) by (auto simp: fb_size_ok_def)
qed

lemma dirty_runs:
  assumes s: "service os fd m wb w" and e: "event_ok (UDRM_EVENT_FB_DIRTY i ann color n clips)"
  shows "\<exists>w'. utinydrm_event os m (UDRM_EVENT_FB_DIRTY i ann color n clips) w = Some (0, w') \<and>
    service os fd m wb w'"
proof (cases "find (\<lambda>u. fb_id u = i) (fbs w)")
  case None
  then show ?thesis using s by (simp add: utinydrm_fb_dirty_def)
next
  case (Some u)
  then have u: "u \<in> set (fbs w)" by (auto simp: find_Some_iff)
  let ?w = "w\<lparr>plane_fb := Some (fb_id u)\<rparr>"
  have s1: "service os fd m wb ?w" using s by simp
  show ?thesis
  proof (cases "fb_dirty_set u \<and> prepared w")
    case False
    then have "utinydrm_fb_dirty os m i ann color n clips w = Some (0, ?w)"
      using Some by (auto simp: utinydrm_fb_dirty_def mipi_dbi_fb_dirty_def tinydrm_check_dirty_def Let_def)
    then show ?thesis using s1 by simp
  next
    case True
    have sz: "fb_size_ok (fb_width u) (fb_height u)" using s u by (simp add: service_def fb_served_def)
    obtain c where c: "tinydrm_merge_clips (if enabled ?w then Some clips else None)
        (if enabled ?w then n else 0) ann (fb_width u) (fb_height u) = Some c"
      "clip_in (fb_width u) (fb_height u) c"
      using merge_clips_runs [OF _ _ sz, of n clips ann "enabled ?w"] e by auto
    have fl: "\<exists>xs w3. True \<and> tinydrm_regmap_flush_rgb565 os m 0x2C u (fb_map u) c w2 =
        Some (if fb_format u = DRM_FORMAT_RGB565 \<or> fb_format u = DRM_FORMAT_XRGB8888 then 0 else - EINVAL, w3) \<and>
        panel_step os fd m wb xs w2 w3"
      if t: "panel_step os fd m wb (window_items c) ?w w2" for w2
      using flush_runs [OF service_panel_step [OF s1 t] _ c(2)] u same_devD(3) [OF panel_step_dev [OF t]] by simp
    have p: "prepared ?w" using True by simp
    from fb_dirty_flush [where P = "\<lambda>_. True", OF service_bus3 [OF s1] p c(1) fl]
    obtain r w' ys where w': "mipi_dbi_fb_dirty os m u ann color clips n ?w =
        Some (r, if r = 0 then w'\<lparr>enabled := True\<rparr> else w')" "panel_step os fd m wb ys ?w w'"
      by blast
    let ?v = "if r = 0 then w'\<lparr>enabled := True\<rparr> else w'"
    have "utinydrm_fb_dirty os m i ann color n clips w = Some (0, ?v)"
      unfolding utinydrm_fb_dirty_def Some option.case Let_def using True w'(1)
      by (simp only: if_True bind.bind_lunit case_prod_conv simp_thms)
    moreover have "service os fd m wb ?v" using service_panel_step [OF s1 w'(2)] by simp
    ultimately show ?thesis by (intro exI [of _ ?v]) simp
  qed
qed

section \<open>Progress\<close>

lemma event_runs:
  assumes "service os fd m wb w" and "event_ok e" and "\<And>h. decent_fb (os_fb os h)"
  shows "\<exists>r w'. utinydrm_event os m e w = Some (r, w') \<and> service os fd m wb w'"
proof (cases e)
  case UDRM_EVENT_PIPE_ENABLE
  then show ?thesis using enable_runs [OF assms(1)] by blast
next
  case UDRM_EVENT_PIPE_DISABLE
  then show ?thesis using disable_runs [OF assms(1)] by blast
next
  case (UDRM_EVENT_FB_CREATE i)
  then show ?thesis using create_runs [OF assms(1,3)] by blast
next
  case (UDRM_EVENT_FB_DESTROY i)
  then show ?thesis using destroy_runs [OF assms(1)] by blast
next
  case UDRM_EVENT_FB_DIRTY
  then show ?thesis using dirty_runs [OF assms(1)] assms(2) by blast
qed (use assms(1) in simp)

lemma round_runs:
  assumes s: "service os fd m wb w" and m: "driver_map os m"
    and e: "\<And>h. event_ok (os_event os h)" and d: "\<And>h. decent_fb (os_fb os h)"
  shows "\<exists>w'. main_round os m w = Some ((None, os_hangup os (trace w')), w') \<and> service os fd m wb w'"
proof -
  have "service os fd m wb (log_ev (Ev_read (udev_fd w)) w)"
    using s by (rule service_log) (simp add: other_ev_def)
  from event_runs [OF this e d] obtain r w2 where
    w2: "utinydrm_event os m (os_event os (trace w @ [Ev_read (udev_fd w)])) (log_ev (Ev_read (udev_fd w)) w) =
      Some (r, w2)" "service os fd m wb w2" by blast
  from main_round_runs [OF service_good [OF s] m w2(1)] service_log [OF w2(2)]
  show ?thesis by blast
qed

lemma reach_service:
  assumes "loop_reach os m w w'" and "service os fd m wb w" and "driver_map os m"
    and "\<And>h. event_ok (os_event os h)" and "\<And>h. decent_fb (os_fb os h)"
  shows "service os fd m wb w'"
  using assms
proof (induction rule: loop_reach.induct)
  case (more w w' w'')
  have "service os fd m wb w'" using more by blast
  from round_runs [OF this more.prems(2-4)] more.hyps(2) show ?case
    by (auto simp: loop_step_iff)
qed simp

section \<open>The loop comes to its end\<close>

text \<open>The number of times the device has been polled: once in every round.\<close>

fun is_poll :: "sysev \<Rightarrow> bool" where
  "is_poll (Ev_poll fd) \<longleftrightarrow> True"
| "is_poll e \<longleftrightarrow> False"

definition polls :: "sysev list \<Rightarrow> nat" where
  "polls h = length (filter is_poll h)"

lemma round_polls: "round_trace w w' \<Longrightarrow> polls (trace w) < polls (trace w')"
  by (auto simp: round_trace_def polls_def)

lemma rounds_happen:
  assumes "service os fd m wb w" and m: "driver_map os m"
    and e: "\<And>h. event_ok (os_event os h)" and d: "\<And>h. decent_fb (os_fb os h)"
    and hang: "\<And>h. N \<le> polls h \<Longrightarrow> os_hangup os h"
  shows "\<exists>n w'. rounds os m n w w'"
  using assms(1)
proof (induction "N - polls (trace w)" arbitrary: w rule: less_induct)
  case less
  obtain w1 where w1: "main_round os m w = Some ((None, os_hangup os (trace w1)), w1)"
    "service os fd m wb w1"
    using round_runs [OF less.prems m e d] by blast
  have p: "polls (trace w) < polls (trace w1)"
    using main_round_ok [OF m w1(1)] round_polls by blast
  show ?case
  proof (cases "os_hangup os (trace w1)")
    case True
    then have "main_round os m w = Some ((None, True), w1)" using w1(1) by simp
    then show ?thesis using rounds.last by blast
  next
    case False
    then have "N - polls (trace w1) < N - polls (trace w)" using hang p by (meson diff_less_mono2 not_le order_less_trans)
    then obtain n w2 where "rounds os m n w1 w2" using less.hyps [OF _ w1(2)] by blast
    moreover have "main_round os m w = Some ((None, False), w1)" using w1(1) False by simp
    ultimately show ?thesis using rounds.next_round by blast
  qed
qed

lemma probed_service:
  assumes p: "probed os fd m wb w" and d: "\<And>h. 0 \<le> snd (os_dev os h)"
  shows "service os fd m wb w" and "driver_map os m"
proof -
  have "fbs w = []" using p by (simp add: probed_def)
  with probed_session [OF p d] show "service os fd m wb w" by (simp add: service_def)
  show "driver_map os m" using p by (auto simp: probed_def driver_map_def)
qed

end
