(* ===== verification/Service_Props.thy ===== *)
theory Service_Props
  imports Service Samples
begin

text \<open>Properties C26 to C28: flushing an XRGB8888 framebuffer, and the service as a whole.\<close>

section \<open>Pixels of four bytes\<close>

text \<open>
  C26. Flushing a framebuffer in XRGB8888: the display is given the window and then one pixel of
  16 bits, low byte first, for each of as many source pixels as the rectangle has, counted from
  the one at row \<open>y1\<close> of lines as wide as the rectangle; the source is not changed, and a dark
  display is switched on.
\<close>

theorem flush_xrgb8888:
  assumes "bus3_ready os fd m wb w" and "prepared w" and "xrgb_fb fb w"
    and "tinydrm_spi_bpw_supported (spi w) 16"
    and "0 < fb_width fb" "unat (fb_width fb) < 2 ^ 16" "0 < fb_height fb" "unat (fb_height fb) < 2 ^ 16"
    and "tinydrm_merge_clips (if enabled w then Some clips else None) (if enabled w then n else 0)
           ann (fb_width fb) (fb_height fb) = Some c"
    and "fb_map fb = Ptr b 0" and "mem w b = Some bs"
  shows "\<exists>w'. mipi_dbi_fb_dirty os m fb ann color clips n w = Some (0, w') \<and> enabled w' \<and>
    bus3_ready os fd m wb w' \<and> mem w' b = Some bs \<and>
    saw fd w w'
      ([Cmd 0x2A] @ map Dat (window_params (x1 c) (x2 c)) @
       [Cmd 0x2B] @ map Dat (window_params (y1 c) (y2 c)) @
       [Cmd 0x2C] @ map Dat (concat (map (\<lambda>k. let p = 4 * (clip_start c + k) in
           le16 (rgb565 (bs ! (p + 2)) (bs ! (p + 1)) (bs ! p))) [0..<clip_area c])))"
proof -
  have ci: "clip_in (fb_width fb) (fb_height fb) c" using merge_clips_in [OF assms(9,5-8)] .
  obtain w' where w': "mipi_dbi_fb_dirty os m fb ann color clips n w = Some (0, w'\<lparr>enabled := True\<rparr>)"
    "panel_step os fd m wb (window_items c @ Cmd 0x2C # map Dat (xrgb_bytes c bs)) w w'" "mem w' b = Some bs"
    using fb_dirty_xrgb [OF assms(1-4,9) ci assms(10,11)] by blast
  from panel_step_saw [OF w'(2)] show ?thesis
    using w' panel_step_ready [OF w'(2)] xrgb_bytes_pixels [OF assms(3,10,11) ci]
    by (intro exI [of _ "w'\<lparr>enabled := True\<rparr>"]) (simp add: window_items_def)
qed

text \<open>A system that announces framebuffers in XRGB8888, and a panel with one of them.\<close>

definition os5 :: os where
  "os5 = os1\<lparr>os_fb := \<lambda>h. \<lparr>info_width = 320, info_height = 240, info_pitch = 1280, info_bpp = 32,
     info_depth = 24, info_handle = 1\<rparr>\<rparr>"

lemma panel_xrgb:
  "\<exists>m wb fd w u us. service os5 fd m wb w \<and> prepared w \<and> fbs w = u # us \<and> xrgb_fb u w \<and>
    fb_width u = 320 \<and> fb_height u = 240"
proof -
  have good: "os_good os5" "gpio_fds_distinct os5" "\<And>h. 0 \<le> snd (os_dev os5 h)"
    using os1_good os1_gpio os1_dev by (simp_all add: os_good_def gpio_fds_distinct_def os5_def)
  have d: "decent_fb (os_fb os5 h)" for h
    by (simp add: os5_def decent_fb_def fb_size_ok_def drm_mode_legacy_fb_format_def)
  obtain m wb fd w0 where p: "probed os5 fd m wb w0"
    using mi0283qt_probe_ok [OF good(1,2) init_unprobed] by blast
  obtain w1 where w1: "service os5 fd m wb w1" "prepared w1"
    using enable_runs [OF probed_service(1) [OF p good(3)]] by blast
  obtain w2 h f b where w2: "service os5 fd m wb w2" "prepared w2"
    "fbs w2 = made_fb 1 (os_fb os5 h) f (Ptr b 0) True # fbs w1"
    using create_runs [OF w1(1) d, of 1] w1(2) by blast
  let ?u = "made_fb 1 (os_fb os5 h) f (Ptr b 0) True"
  have f: "fb_format ?u = DRM_FORMAT_XRGB8888" "fb_width ?u = 320" "fb_height ?u = 240"
    by (simp_all add: made_fb_def os5_def drm_mode_legacy_fb_format_def)
  have "fb_served ?u w2" using w2(1,3) by (simp add: service_def)
  from served_xrgb [OF this f(1)] f(2,3) w2 show ?thesis by blast
qed

theorem flush_xrgb8888_witness:
  "\<exists>m w w' u b bs fd. mipi_dbi_fb_dirty os5 m u False 0 [] 0 w = Some (0, w') \<and> enabled w' \<and>
    mem w b = Some bs \<and> saw fd w w'
      ([Cmd 0x2A] @ map Dat [0, 0, 1, 63] @ [Cmd 0x2B] @ map Dat [0, 0, 0, 239] @
       [Cmd 0x2C] @ map Dat (concat (map (\<lambda>k. let p = 4 * (0 + k) in
           le16 (rgb565 (bs ! (p + 2)) (bs ! (p + 1)) (bs ! p))) [0..<76800])))"
proof -
  obtain m wb fd w u us where w: "service os5 fd m wb w" "prepared w" "fbs w = u # us" "xrgb_fb u w"
    "fb_width u = 320" "fb_height u = 240" using panel_xrgb by blast
  obtain b bs where b: "fb_map u = Ptr b 0" "mem w b = Some bs" using w(4) by (auto simp: xrgb_fb_def)
  have sup: "tinydrm_spi_bpw_supported (spi w) 16" using w(1) by (simp add: service_def session_def)
  have sz: "0 < fb_width u" "unat (fb_width u) < 2 ^ 16" "0 < fb_height u" "unat (fb_height u) < 2 ^ 16"
    using w(5,6) by simp_all
  have mc: "tinydrm_merge_clips (if enabled w then Some [] else None) (if enabled w then 0 else 0) False
      (fb_width u) (fb_height u) = Some (full_clip 320 240)"
    using w(5,6) by (simp add: tinydrm_merge_clips_def)
  have f: "clip_start (full_clip 320 240) = 0" "clip_area (full_clip 320 240) = 76800"
    "x1 (full_clip 320 240) = 0" "x2 (full_clip 320 240) = 320" "y1 (full_clip 320 240) = 0"
    "y2 (full_clip 320 240) = 240"
    by (simp_all add: full_clip_def clip_start_def clip_area_def)
  have wp: "window_params 0 320 = [0, 0, 1, 63]" "window_params 0 240 = [0, 0, 0, 239]"
    by (simp_all add: window_params_def)
  from flush_xrgb8888 [OF service_bus3 [OF w(1)] w(2,4) sup sz mc b, of 0] b(2)
  show ?thesis unfolding f wp by blast
qed

section \<open>The service\<close>

text \<open>
  C27. With calls that succeed, framebuffers the panel can show and clips that are in the event,
  the main loop never gets stuck: in every state it reaches after the probe, whatever the events
  were, the next round has a result, and it is one that goes on. In particular no handler
  accesses memory outside an object, and none returns from the loop.
\<close>

theorem never_stuck:
  assumes "os_good os" and "gpio_fds_distinct os" and "\<forall>h. 0 \<le> snd (os_dev os h)"
    and "\<forall>h. decent_fb (os_fb os h)" and "\<forall>h. event_ok (os_event os h)"
    and "mi0283qt_probe os junk init_state = Some ((0, Some m), w0)" and "loop_reach os m w0 w"
  shows "\<exists>w'. main_round os m w = Some ((None, os_hangup os (trace w')), w')"
proof -
  obtain wb fd where p: "probed os fd m wb w0"
    using mi0283qt_probe_ok [OF assms(1,2) init_unprobed, of junk] assms(6) by auto
  note s = probed_service [OF p] 
  have "service os fd m wb w"
    using reach_service [OF assms(7)] s assms(3-5) by blast
  then show ?thesis using round_runs [of os fd m wb w] s(2) assms(3-5) by blast
qed

theorem never_stuck_witness:
  "\<exists>m w0 w1 w2. mi0283qt_probe os1 REGMAP_ENDIAN_DEFAULT init_state = Some ((0, Some m), w0) \<and>
    main_round os1 m w0 = Some ((None, True), w1) \<and> main_round os1 m w1 = Some ((None, True), w2)"
proof -
  obtain m wb fd w0 where p: "mi0283qt_probe os1 REGMAP_ENDIAN_DEFAULT init_state = Some ((0, Some m), w0)"
    using panel1 by blast
  have d: "\<forall>h. 0 \<le> snd (os_dev os1 h)" "\<forall>h. decent_fb (os_fb os1 h)" "\<forall>h. event_ok (os_event os1 h)"
    using os1_dev os1_fb by (simp_all add: panel_fb_decent os1_event)
  obtain w1 where w1: "main_round os1 m w0 = Some ((None, True), w1)"
    using never_stuck [OF os1_good os1_gpio d p loop_reach.start] os1_hangup by auto
  then have "loop_reach os1 m w0 w1"
    by (intro loop_reach.more [OF loop_reach.start] loop_step.round)
  then obtain w2 where "main_round os1 m w1 = Some ((None, True), w2)"
    using never_stuck [OF os1_good os1_gpio d p] os1_hangup by auto
  with p w1 show ?thesis by blast
qed

text \<open>
  C28. Under the same conditions, when the device hangs up by the \<open>N\<close>-th poll, the program comes
  to its end: \<open>main\<close> returns 0, and its last calls close the control and the device descriptor.
\<close>

theorem main_returns:
  assumes "os_good os" and "gpio_fds_distinct os" and "\<forall>h. 0 \<le> snd (os_dev os h)"
    and "\<forall>h. decent_fb (os_fb os h)" and "\<forall>h. event_ok (os_event os h)"
    and "\<forall>h. N \<le> polls h \<longrightarrow> os_hangup os h"
  shows "\<exists>w es. utinydrm_main os junk init_state = Some (0, w) \<and>
    trace w = es @ [Ev_close (udev_control_fd w), Ev_close (udev_fd w)]"
proof -
  obtain bs where k: "kmalloc os 1024 init_state = Some (Ptr (nblk init_state) 0, allocated 1024 bs init_state)"
    using kmalloc_ok [OF assms(1)] by blast
  let ?w = "allocated 1024 bs init_state"
  have u: "unprobed ?w" using init_unprobed by (simp add: unprobed_def allocated_def)
  obtain m wb fd w0 where p: "mi0283qt_probe os junk ?w = Some ((0, Some m), w0)" "probed os fd m wb w0"
    using mi0283qt_probe_ok [OF assms(1,2) u, of junk] by blast
  note s = probed_service [OF p(2)]
  obtain n w1 where "rounds os m n w0 w1"
    using rounds_happen [of os fd m wb w0 N] s assms(3-6) by blast
  from rounds_end [OF this] obtain w2 where
    w2: "tinydrm_unregister os w1 = Some ((), w2)" "main_loop os m False w0 = Some (0, w2)" by blast
  have "utinydrm_main os junk init_state = Some (0, w2)"
    using k p(1) w2(2) by (simp add: utinydrm_main_def)
  moreover from w2(1) have "trace w2 = trace w1 @ [Ev_close (udev_control_fd w2), Ev_close (udev_fd w2)]"
    by (auto simp: tinydrm_unregister_def syscall_eq bind_eq_Some_conv)
  ultimately show ?thesis by blast
qed

text \<open>Three rounds: the pipe is enabled, a framebuffer is made, and it is flushed.\<close>

definition os4 :: os where
  "os4 = os1\<lparr>os_hangup := \<lambda>h. 3 \<le> polls h,
     os_event := \<lambda>h. (if polls h = 0 then UDRM_EVENT_PIPE_ENABLE
                      else if polls h = 1 then UDRM_EVENT_FB_CREATE 7
                      else UDRM_EVENT_FB_DIRTY 7 False 0 0 [])\<rparr>"

theorem main_returns_witness:
  "\<exists>w es. utinydrm_main os4 REGMAP_ENDIAN_DEFAULT init_state = Some (0, w) \<and>
    trace w = es @ [Ev_close (udev_control_fd w), Ev_close (udev_fd w)]"
proof -
  have g: "os_good os4" "gpio_fds_distinct os4"
    using os1_good os1_gpio by (simp_all add: os_good_def gpio_fds_distinct_def os4_def)
  have d: "\<forall>h. 0 \<le> snd (os_dev os4 h)" "\<forall>h. decent_fb (os_fb os4 h)" "\<forall>h. event_ok (os_event os4 h)"
    "\<forall>h. 3 \<le> polls h \<longrightarrow> os_hangup os4 h"
    using os1_dev os1_fb by (simp_all add: os4_def panel_fb_decent)
  from main_returns [OF g d] show ?thesis .
qed

end
