(* ===== verification/List_Iter.thy ===== *)
theory List_Iter
  imports Linux_List
begin

text \<open>
  The iteration macros of \<open>include/linux/list.h\<close>. A loop is a function of its body; the
  \<open>_safe\<close> loops, whose body may take the entry out of the list, are shown to visit every entry
  once whatever the body does with it, and to keep exactly the entries it leaves.
\<close>

section \<open>Entries\<close>

text \<open>
  A structure with a \<open>struct list_head\<close> at the offset \<open>off\<close> stands at the address of the node less
  \<open>off\<close> (\<open>container_of\<close>); for the head, which has no structure, that address means nothing and
  can be negative.
\<close>

definition list_entry :: "int \<Rightarrow> nat \<Rightarrow> int" where
  "list_entry off p = int p - off"

text \<open>\<open>&pos->member\<close>\<close>

definition entry_member :: "int \<Rightarrow> int \<Rightarrow> nat" where
  "entry_member off pos = nat (pos + off)"

lemma entry_member_entry [simp]: "entry_member off (list_entry off p) = p"
  by (simp add: entry_member_def list_entry_def)

lemma list_entry_eq [simp]: "list_entry off p = list_entry off q \<longleftrightarrow> p = q"
  by (simp add: list_entry_def)

definition list_first_entry :: "int \<Rightarrow> nat \<Rightarrow> list_heap \<Rightarrow> int option" where
  "list_first_entry off l h = do { n \<leftarrow> lnext h l; Some (list_entry off n) }"

definition list_last_entry :: "int \<Rightarrow> nat \<Rightarrow> list_heap \<Rightarrow> int option" where
  "list_last_entry off l h = do { p \<leftarrow> lprev h l; Some (list_entry off p) }"

text \<open>The null pointer is the inner \<open>None\<close>.\<close>

definition list_first_entry_or_null :: "int \<Rightarrow> nat \<Rightarrow> list_heap \<Rightarrow> int option option" where
  "list_first_entry_or_null off l h = do {
     pos \<leftarrow> lnext h l;
     Some (if pos \<noteq> l then Some (list_entry off pos) else None) }"

definition list_next_entry :: "int \<Rightarrow> int \<Rightarrow> list_heap \<Rightarrow> int option" where
  "list_next_entry off pos h = do { n \<leftarrow> lnext h (entry_member off pos); Some (list_entry off n) }"

definition list_prev_entry :: "int \<Rightarrow> int \<Rightarrow> list_heap \<Rightarrow> int option" where
  "list_prev_entry off pos h = do { p \<leftarrow> lprev h (entry_member off pos); Some (list_entry off p) }"

definition list_prepare_entry :: "int \<Rightarrow> int option \<Rightarrow> nat \<Rightarrow> int" where
  "list_prepare_entry off pos l = (case pos of Some e \<Rightarrow> e | None \<Rightarrow> list_entry off l)"

section \<open>Loops that change nothing\<close>

text \<open>The entries visited, with the function \<open>adv\<close> that goes to the next one.\<close>

partial_function (option) entry_loop ::
  "(int \<Rightarrow> list_heap \<Rightarrow> int option) \<Rightarrow> int \<Rightarrow> int \<Rightarrow> nat \<Rightarrow> list_heap \<Rightarrow> int list option" where
  "entry_loop adv off pos l h =
     (if entry_member off pos = l then Some []
      else do { q \<leftarrow> adv pos h; es \<leftarrow> entry_loop adv off q l h; Some (pos # es) })"

definition list_for_each_entry :: "int \<Rightarrow> nat \<Rightarrow> list_heap \<Rightarrow> int list option" where
  "list_for_each_entry off l h = do {
     pos \<leftarrow> list_first_entry off l h;
     entry_loop (list_next_entry off) off pos l h }"

definition list_for_each_entry_reverse :: "int \<Rightarrow> nat \<Rightarrow> list_heap \<Rightarrow> int list option" where
  "list_for_each_entry_reverse off l h = do {
     pos \<leftarrow> list_last_entry off l h;
     entry_loop (list_prev_entry off) off pos l h }"

definition list_for_each_entry_continue :: "int \<Rightarrow> int \<Rightarrow> nat \<Rightarrow> list_heap \<Rightarrow> int list option" where
  "list_for_each_entry_continue off pos l h = do {
     pos \<leftarrow> list_next_entry off pos h;
     entry_loop (list_next_entry off) off pos l h }"

definition list_for_each_entry_continue_reverse :: "int \<Rightarrow> int \<Rightarrow> nat \<Rightarrow> list_heap \<Rightarrow> int list option" where
  "list_for_each_entry_continue_reverse off pos l h = do {
     pos \<leftarrow> list_prev_entry off pos h;
     entry_loop (list_prev_entry off) off pos l h }"

definition list_for_each_entry_from :: "int \<Rightarrow> int \<Rightarrow> nat \<Rightarrow> list_heap \<Rightarrow> int list option" where
  "list_for_each_entry_from off pos l h = entry_loop (list_next_entry off) off pos l h"

section \<open>Loops whose body may remove the entry\<close>

text \<open>
  The next entry \<open>n\<close> is found before the body runs: \<open>pos = n, n = n->next\<close> after it. \<open>step\<close> is
  \<open>lnext\<close> or \<open>lprev\<close>.
\<close>

partial_function (option) node_safe_loop ::
  "(list_heap \<Rightarrow> nat \<Rightarrow> nat option) \<Rightarrow> (nat \<Rightarrow> list_heap \<Rightarrow> list_heap option) \<Rightarrow>
     nat \<Rightarrow> nat \<Rightarrow> nat \<Rightarrow> list_heap \<Rightarrow> list_heap option" where
  "node_safe_loop step body pos n l h =
     (if pos = l then Some h
      else do { h \<leftarrow> body pos h; m \<leftarrow> step h n; node_safe_loop step body n m l h })"

definition list_for_each_safe ::
  "(nat \<Rightarrow> list_heap \<Rightarrow> list_heap option) \<Rightarrow> nat \<Rightarrow> list_heap \<Rightarrow> list_heap option" where
  "list_for_each_safe body l h = do {
     pos \<leftarrow> lnext h l;
     n \<leftarrow> lnext h pos;
     node_safe_loop lnext body pos n l h }"

definition list_for_each_prev_safe ::
  "(nat \<Rightarrow> list_heap \<Rightarrow> list_heap option) \<Rightarrow> nat \<Rightarrow> list_heap \<Rightarrow> list_heap option" where
  "list_for_each_prev_safe body l h = do {
     pos \<leftarrow> lprev h l;
     n \<leftarrow> lprev h pos;
     node_safe_loop lprev body pos n l h }"

partial_function (option) entry_safe_loop ::
  "(int \<Rightarrow> list_heap \<Rightarrow> int option) \<Rightarrow> int \<Rightarrow> (int \<Rightarrow> list_heap \<Rightarrow> list_heap option) \<Rightarrow>
     int \<Rightarrow> int \<Rightarrow> nat \<Rightarrow> list_heap \<Rightarrow> list_heap option" where
  "entry_safe_loop adv off body pos n l h =
     (if entry_member off pos = l then Some h
      else do { h \<leftarrow> body pos h; m \<leftarrow> adv n h; entry_safe_loop adv off body n m l h })"

definition list_for_each_entry_safe ::
  "int \<Rightarrow> (int \<Rightarrow> list_heap \<Rightarrow> list_heap option) \<Rightarrow> nat \<Rightarrow> list_heap \<Rightarrow> list_heap option" where
  "list_for_each_entry_safe off body l h = do {
     pos \<leftarrow> list_first_entry off l h;
     n \<leftarrow> list_next_entry off pos h;
     entry_safe_loop (list_next_entry off) off body pos n l h }"

definition list_for_each_entry_safe_continue ::
  "int \<Rightarrow> (int \<Rightarrow> list_heap \<Rightarrow> list_heap option) \<Rightarrow> int \<Rightarrow> nat \<Rightarrow> list_heap \<Rightarrow> list_heap option" where
  "list_for_each_entry_safe_continue off body pos l h = do {
     pos \<leftarrow> list_next_entry off pos h;
     n \<leftarrow> list_next_entry off pos h;
     entry_safe_loop (list_next_entry off) off body pos n l h }"

definition list_for_each_entry_safe_from ::
  "int \<Rightarrow> (int \<Rightarrow> list_heap \<Rightarrow> list_heap option) \<Rightarrow> int \<Rightarrow> nat \<Rightarrow> list_heap \<Rightarrow> list_heap option" where
  "list_for_each_entry_safe_from off body pos l h = do {
     n \<leftarrow> list_next_entry off pos h;
     entry_safe_loop (list_next_entry off) off body pos n l h }"

definition list_for_each_entry_safe_reverse ::
  "int \<Rightarrow> (int \<Rightarrow> list_heap \<Rightarrow> list_heap option) \<Rightarrow> nat \<Rightarrow> list_heap \<Rightarrow> list_heap option" where
  "list_for_each_entry_safe_reverse off body l h = do {
     pos \<leftarrow> list_last_entry off l h;
     n \<leftarrow> list_prev_entry off pos h;
     entry_safe_loop (list_prev_entry off) off body pos n l h }"

definition list_safe_reset_next :: "int \<Rightarrow> int \<Rightarrow> list_heap \<Rightarrow> int option" where
  "list_safe_reset_next off pos h = list_next_entry off pos h"

section \<open>What the loops visit\<close>

lemma list_prev_ok: "is_list h l (ys @ e # zs) \<Longrightarrow> lprev h e = Some (last (l # ys))"
proof -
  assume l: "is_list h l (ys @ e # zs)"
  obtain A p where p: "l # ys = A @ [p]" by (cases "l # ys" rule: rev_cases) auto
  have "l # (ys @ e # zs) @ [l] = (l # ys) @ e # (zs @ [l])" by simp
  then have "path h ((A @ [p]) @ e # zs @ [l])" using l unfolding is_list_def p by metis
  then have "path h (A @ [p, e])" using path_append [of h "A @ [p]" e "zs @ [l]"] by simp
  then show ?thesis unfolding p by (simp add: path_snoc edge_def)
qed

lemma head_notin: "is_list h l xs \<Longrightarrow> p \<in> set xs \<Longrightarrow> p \<noteq> l"
  by (auto simp: is_list_def)

lemma list_next_entry_ok:
  "is_list h l (ys @ e # zs) \<Longrightarrow> list_next_entry off (list_entry off e) h = Some (list_entry off (hd (zs @ [l])))"
  by (simp add: list_next_entry_def list_next_ok)

lemma list_prev_entry_ok:
  "is_list h l (ys @ e # zs) \<Longrightarrow> list_prev_entry off (list_entry off e) h = Some (list_entry off (last (l # ys)))"
  by (simp add: list_prev_entry_def list_prev_ok del: last.simps)

lemma entry_loop_next:
  "is_list h l (ys @ zs) \<Longrightarrow>
   entry_loop (list_next_entry off) off (list_entry off (hd (zs @ [l]))) l h = Some (map (list_entry off) zs)"
proof (induction zs arbitrary: ys)
  case Nil
  show ?case by (subst entry_loop.simps) simp
next
  case (Cons p zs)
  then show ?case
    using Cons.IH [of "ys @ [p]"] list_next_entry_ok [OF Cons.prems] head_notin [OF Cons.prems]
    by (subst entry_loop.simps) simp
qed

lemma entry_loop_prev:
  "is_list h l (ys @ zs) \<Longrightarrow>
   entry_loop (list_prev_entry off) off (list_entry off (last (l # ys))) l h =
     Some (map (list_entry off) (rev ys))"
proof (induction ys arbitrary: zs rule: rev_induct)
  case Nil
  show ?case by (subst entry_loop.simps) simp
next
  case (snoc p ys)
  have l: "is_list h l (ys @ p # zs)" using snoc.prems by simp
  have e: "last (l # ys @ [p]) = p" by simp
  show ?case
    using snoc.IH [OF l] list_prev_entry_ok [OF l] head_notin [OF l]
    unfolding e by (subst entry_loop.simps) (simp del: last.simps)
qed

lemma list_first_entry_ok: "is_list h l xs \<Longrightarrow> list_first_entry off l h = Some (list_entry off (hd (xs @ [l])))"
  by (simp add: list_first_entry_def is_list_ends)

lemma list_last_entry_ok: "is_list h l xs \<Longrightarrow> list_last_entry off l h = Some (list_entry off (last (l # xs)))"
  by (simp add: list_last_entry_def is_list_ends del: last.simps)

lemma list_first_entry_or_null_ok:
  "is_list h l xs \<Longrightarrow>
   list_first_entry_or_null off l h = Some (if xs = [] then None else Some (list_entry off (hd xs)))"
  using head_notin [of h l xs "hd xs"] by (auto simp: list_first_entry_or_null_def is_list_ends hd_append)

lemma list_for_each_entry_ok:
  "is_list h l xs \<Longrightarrow> list_for_each_entry off l h = Some (map (list_entry off) xs)"
  using entry_loop_next [of h l "[]" xs] by (simp add: list_for_each_entry_def list_first_entry_ok)

lemma list_for_each_entry_reverse_ok:
  "is_list h l xs \<Longrightarrow> list_for_each_entry_reverse off l h = Some (map (list_entry off) (rev xs))"
  using entry_loop_prev [of h l xs "[]"]
  by (simp add: list_for_each_entry_reverse_def list_last_entry_ok del: last.simps)

text \<open>From an entry on, with the entry or after it, and the same starting before the first one.\<close>

lemma list_for_each_entry_from_ok:
  "is_list h l (ys @ e # zs) \<Longrightarrow>
   list_for_each_entry_from off (list_entry off e) l h = Some (map (list_entry off) (e # zs))"
  using entry_loop_next [of h l ys "e # zs" off] by (simp add: list_for_each_entry_from_def)

lemma list_for_each_entry_continue_ok:
  assumes "is_list h l (ys @ e # zs)"
  shows "list_for_each_entry_continue off (list_entry off e) l h = Some (map (list_entry off) zs)"
  using entry_loop_next [of h l "ys @ [e]" zs off] assms
  by (simp add: list_for_each_entry_continue_def list_next_entry_ok)

lemma list_for_each_entry_continue_reverse_ok:
  assumes "is_list h l (ys @ e # zs)"
  shows "list_for_each_entry_continue_reverse off (list_entry off e) l h = Some (map (list_entry off) (rev ys))"
  using entry_loop_prev [OF assms, of off]
  by (simp add: list_for_each_entry_continue_reverse_def list_prev_entry_ok [OF assms] del: last.simps)

lemma list_prepare_entry_ok:
  assumes "is_list h l xs"
  shows "list_for_each_entry_continue off (list_prepare_entry off None l) l h = Some (map (list_entry off) xs)"
  using entry_loop_next [of h l "[]" xs off] assms
  by (simp add: list_for_each_entry_continue_def list_prepare_entry_def list_next_entry_def is_list_ends)

section \<open>Taking entries out\<close>

text \<open>
  A body that leaves the entries that are not in \<open>P\<close> alone and takes the others out of the list;
  \<open>taken h rs\<close> is what it establishes for those taken so far, in the order in which they were,
  and \<open>own\<close> the nodes it uses besides them.
\<close>

locale removal =
  fixes l :: nat and P :: "nat \<Rightarrow> bool" and body :: "nat \<Rightarrow> list_heap \<Rightarrow> list_heap option"
    and taken :: "list_heap \<Rightarrow> nat list \<Rightarrow> bool" and own :: "nat set"
  assumes body_ok: "is_list h l (ys @ p # zs) \<Longrightarrow> taken h rs \<Longrightarrow>
    set (l # ys @ p # zs) \<inter> (own \<union> set rs) = {} \<Longrightarrow>
    \<exists>h'. body p h = Some h' \<and> is_list h' l (ys @ (if P p then zs else p # zs)) \<and>
      taken h' (if P p then rs @ [p] else rs)"
begin

lemma forward:
  assumes "is_list h l (ys @ p # zs)" and "taken h rs" and "set (l # ys @ p # zs) \<inter> (own \<union> set rs) = {}"
  shows "\<exists>h'. node_safe_loop lnext body p (hd (zs @ [l])) l h = Some h' \<and>
    is_list h' l (ys @ filter (\<lambda>p. \<not> P p) (p # zs)) \<and> taken h' (rs @ filter P (p # zs))"
  using assms
proof (induction zs arbitrary: ys p h rs)
  case Nil
  have pl: "p \<noteq> l" using head_notin [OF Nil.prems(1)] by simp
  obtain h1 where h1: "body p h = Some h1" "is_list h1 l (ys @ (if P p then [] else [p]))"
    "taken h1 (if P p then rs @ [p] else rs)"
    using body_ok [OF Nil.prems] by blast
  obtain m where "lnext h1 l = Some m" using is_list_ends(1) [OF h1(2)] by blast
  then show ?case
    using h1 pl by (subst node_safe_loop.simps) (simp add: node_safe_loop.simps [of _ _ l] split: if_splits)
next
  case (Cons q zs)
  have pl: "p \<noteq> l" using head_notin [OF Cons.prems(1)] by simp
  obtain h1 where h1: "body p h = Some h1" "is_list h1 l (ys @ (if P p then q # zs else p # q # zs))"
    "taken h1 (if P p then rs @ [p] else rs)"
    using body_ok [OF Cons.prems] by blast
  let ?ys = "ys @ (if P p then [] else [p])" and ?rs = "if P p then rs @ [p] else rs"
  have l: "is_list h1 l (?ys @ q # zs)" using h1(2) by (cases "P p") simp_all
  have d: "set (l # ?ys @ q # zs) \<inter> (own \<union> set ?rs) = {}"
    using Cons.prems(1,3) by (auto simp: is_list_def)
  obtain h2 where h2: "node_safe_loop lnext body q (hd (zs @ [l])) l h1 = Some h2"
    "is_list h2 l (?ys @ filter (\<lambda>p. \<not> P p) (q # zs))" "taken h2 (?rs @ filter P (q # zs))"
    using Cons.IH [OF l h1(3) d] by blast
  have "node_safe_loop lnext body p q l h = Some h2"
    using h1(1) h2(1) pl list_next_ok [OF l] by (subst node_safe_loop.simps) simp
  then show ?case using h2(2,3) by (cases "P p") simp_all
qed

lemma backward:
  assumes "is_list h l (ys @ p # zs)" and "taken h rs" and "set (l # ys @ p # zs) \<inter> (own \<union> set rs) = {}"
  shows "\<exists>h'. node_safe_loop lprev body p (last (l # ys)) l h = Some h' \<and>
    is_list h' l (filter (\<lambda>p. \<not> P p) (ys @ [p]) @ zs) \<and> taken h' (rs @ rev (filter P (ys @ [p])))"
  using assms
proof (induction ys arbitrary: zs p h rs rule: rev_induct)
  case Nil
  have pl: "p \<noteq> l" using head_notin [OF Nil.prems(1)] by simp
  obtain h1 where h1: "body p h = Some h1" "is_list h1 l ([] @ (if P p then zs else p # zs))"
    "taken h1 (if P p then rs @ [p] else rs)"
    using body_ok [OF Nil.prems] by blast
  obtain m where "lprev h1 l = Some m" using is_list_ends(2) [OF h1(2)] by blast
  then show ?case
    using h1 pl by (subst node_safe_loop.simps) (simp add: node_safe_loop.simps [of _ _ l] split: if_splits)
next
  case (snoc q ys)
  have pl: "p \<noteq> l" using head_notin [OF snoc.prems(1)] by simp
  obtain h1 where h1: "body p h = Some h1" "is_list h1 l ((ys @ [q]) @ (if P p then zs else p # zs))"
    "taken h1 (if P p then rs @ [p] else rs)"
    using body_ok [OF snoc.prems] by blast
  let ?zs = "if P p then zs else p # zs" and ?rs = "if P p then rs @ [p] else rs"
  have l: "is_list h1 l (ys @ q # ?zs)" using h1(2) by simp
  have d: "set (l # ys @ q # ?zs) \<inter> (own \<union> set ?rs) = {}"
    using snoc.prems(1,3) by (auto simp: is_list_def)
  obtain h2 where h2: "node_safe_loop lprev body q (last (l # ys)) l h1 = Some h2"
    "is_list h2 l (filter (\<lambda>p. \<not> P p) (ys @ [q]) @ ?zs)" "taken h2 (?rs @ rev (filter P (ys @ [q])))"
    using snoc.IH [OF l h1(3) d] by blast
  have "node_safe_loop lprev body p q l h = Some h2"
    using h1(1) h2(1) pl list_prev_ok [OF l] by (subst node_safe_loop.simps) (simp del: last.simps)
  then show ?case using h2(2,3) by (cases "P p"; cases "P q") simp_all
qed

lemma safe_ok:
  assumes "is_list h l xs" and "taken h rs" and "set (l # xs) \<inter> (own \<union> set rs) = {}"
  shows "\<exists>h'. list_for_each_safe body l h = Some h' \<and> is_list h' l (filter (\<lambda>p. \<not> P p) xs) \<and>
    taken h' (rs @ filter P xs)"
proof (cases xs)
  case Nil
  then show ?thesis
    using assms is_list_ends [OF assms(1)] by (simp add: list_for_each_safe_def node_safe_loop.simps)
next
  case (Cons p zs)
  have l: "is_list h l ([] @ p # zs)" using assms(1) Cons by simp
  then have "lnext h l = Some p" "lnext h p = Some (hd (zs @ [l]))"
    using is_list_ends(1) [OF assms(1)] list_next_ok [OF l] Cons by simp_all
  then show ?thesis
    using forward [OF l assms(2)] assms(3) Cons by (simp add: list_for_each_safe_def)
qed

lemma prev_safe_ok:
  assumes "is_list h l xs" and "taken h rs" and "set (l # xs) \<inter> (own \<union> set rs) = {}"
  shows "\<exists>h'. list_for_each_prev_safe body l h = Some h' \<and> is_list h' l (filter (\<lambda>p. \<not> P p) xs) \<and>
    taken h' (rs @ rev (filter P xs))"
proof (cases xs rule: rev_cases)
  case Nil
  then show ?thesis
    using assms is_list_ends [OF assms(1)] by (simp add: list_for_each_prev_safe_def node_safe_loop.simps)
next
  case (snoc ys p)
  have l: "is_list h l (ys @ p # [])" using assms(1) snoc by simp
  then have "lprev h l = Some p" "lprev h p = Some (last (l # ys))"
    using is_list_ends(2) [OF assms(1)] list_prev_ok [OF l] snoc by (simp_all del: last.simps) simp
  then show ?thesis
    using backward [OF l assms(2)] assms(3) snoc by (simp add: list_for_each_prev_safe_def del: last.simps)
qed

end

text \<open>The loops over entries do what those over nodes do, for the same body.\<close>

lemma entry_safe_loop_node:
  assumes body: "\<And>p. eb (list_entry off p) = body p"
    and adv: "\<And>p h. adv (list_entry off p) h = map_option (list_entry off) (step h p)"
    and r: "node_safe_loop step body p n l h = Some h'"
  shows "entry_safe_loop adv off eb (list_entry off p) (list_entry off n) l h = Some h'"
proof -
  have "st = step \<longrightarrow> b = body \<longrightarrow>
      entry_safe_loop adv off eb (list_entry off p) (list_entry off n) l h = Some h'"
    if "node_safe_loop st b p n l h = Some h'" for st b p n l h h'
  proof (rule node_safe_loop.raw_induct [where P = "\<lambda>st b p n l h y. st = step \<longrightarrow> b = body \<longrightarrow>
      entry_safe_loop adv off eb (list_entry off p) (list_entry off n) l h = Some y", OF _ that], goal_cases)
    case (1 loop st b pos n l h y)
    show ?case
    proof (intro impI)
      assume e: "st = step" "b = body"
      show "entry_safe_loop adv off eb (list_entry off pos) (list_entry off n) l h = Some y"
      proof (cases "pos = l")
        case True
        then show ?thesis using 1(2) by (subst entry_safe_loop.simps) simp
      next
        case False
        then obtain h1 m where m: "body pos h = Some h1" "step h1 n = Some m" "loop st b n m l h1 = Some y"
          using 1(2) e by (auto simp: bind_eq_Some_conv)
        show ?thesis
          using False m(1,2) 1(1) [OF m(3)] e body adv by (subst entry_safe_loop.simps) simp
      qed
    qed
  qed
  with r show ?thesis by blast
qed

lemma list_next_entry_step: "list_next_entry off (list_entry off p) h = map_option (list_entry off) (lnext h p)"
  by (cases "lnext h p") (simp_all add: list_next_entry_def)

lemma list_prev_entry_step: "list_prev_entry off (list_entry off p) h = map_option (list_entry off) (lprev h p)"
  by (cases "lprev h p") (simp_all add: list_prev_entry_def)

lemmas entry_safe_next = entry_safe_loop_node [where step = lnext and adv = "list_next_entry off" and off = off
    for off, OF _ list_next_entry_step]
lemmas entry_safe_prev = entry_safe_loop_node [where step = lprev and adv = "list_prev_entry off" and off = off
    for off, OF _ list_prev_entry_step]

lemma list_for_each_entry_safe_node:
  assumes "\<And>p. eb (list_entry off p) = body p" and "list_for_each_safe body l h = Some h'"
  shows "list_for_each_entry_safe off eb l h = Some h'"
  using assms(2) entry_safe_next [of eb off body, OF assms(1)]
  by (auto simp: list_for_each_safe_def list_for_each_entry_safe_def list_first_entry_def
      list_next_entry_step bind_eq_Some_conv)

lemma list_for_each_entry_safe_reverse_node:
  assumes "\<And>p. eb (list_entry off p) = body p" and "list_for_each_prev_safe body l h = Some h'"
  shows "list_for_each_entry_safe_reverse off eb l h = Some h'"
  using assms(2) entry_safe_prev [of eb off body, OF assms(1)]
  by (auto simp: list_for_each_prev_safe_def list_for_each_entry_safe_reverse_def list_last_entry_def
      list_prev_entry_step bind_eq_Some_conv)

context removal begin

lemma from_ok:
  assumes "is_list h l (ys @ p # zs)" and "taken h rs" and "set (l # ys @ p # zs) \<inter> (own \<union> set rs) = {}"
    and "\<And>p. eb (list_entry off p) = body p"
  shows "\<exists>h'. list_for_each_entry_safe_from off eb (list_entry off p) l h = Some h' \<and>
    is_list h' l (ys @ filter (\<lambda>p. \<not> P p) (p # zs)) \<and> taken h' (rs @ filter P (p # zs))"
proof -
  obtain h' where "node_safe_loop lnext body p (hd (zs @ [l])) l h = Some h'"
    "is_list h' l (ys @ filter (\<lambda>p. \<not> P p) (p # zs))" "taken h' (rs @ filter P (p # zs))"
    using forward [OF assms(1-3)] by blast
  then show ?thesis
    using entry_safe_next [of eb off body, OF assms(4)] list_next_entry_ok [OF assms(1), of off]
    by (intro exI [of _ h']) (simp add: list_for_each_entry_safe_from_def)
qed

text \<open>Going on after \<open>e\<close> visits the entries behind it.\<close>

lemma continue_ok:
  assumes "is_list h l (ys @ e # p # zs)" and "taken h rs" and "set (l # ys @ e # p # zs) \<inter> (own \<union> set rs) = {}"
    and "\<And>p. eb (list_entry off p) = body p"
  shows "\<exists>h'. list_for_each_entry_safe_continue off eb (list_entry off e) l h = Some h' \<and>
    is_list h' l (ys @ e # filter (\<lambda>p. \<not> P p) (p # zs)) \<and> taken h' (rs @ filter P (p # zs))"
proof -
  have l: "is_list h l ((ys @ [e]) @ p # zs)" using assms(1) by simp
  from from_ok [OF l assms(2) _ assms(4)] assms(3) show ?thesis
    using list_next_entry_ok [OF assms(1), of off]
    by (simp add: list_for_each_entry_safe_from_def list_for_each_entry_safe_continue_def)
qed

end

section \<open>Bodies\<close>

text \<open>Moving the entries to the end of the list at \<open>k\<close>.\<close>

interpretation mv: removal l P "\<lambda>p h. if P p then list_move_tail p k h else Some h" "\<lambda>h rs. is_list h k rs" "{k}"
  for l P k
proof
  fix h ys p zs rs
  assume a: "is_list h l (ys @ p # zs)" "is_list h k rs" "set (l # ys @ p # zs) \<inter> ({k} \<union> set rs) = {}"
  then have "set (l # ys @ p # zs) \<inter> set (k # rs) = {}" by auto
  from list_move_other_ok(2) [OF a(1,2) this]
  show "\<exists>h'. (if P p then list_move_tail p k h else Some h) = Some h' \<and>
      is_list h' l (ys @ (if P p then zs else p # zs)) \<and> is_list h' k (if P p then rs @ [p] else rs)"
    using a(1,2) by auto
qed

text \<open>Deleting them: their nodes are poisoned, or lists of their own.\<close>

definition poisoned :: "list_heap \<Rightarrow> nat \<Rightarrow> bool" where
  "poisoned h r \<longleftrightarrow> lnext h r = Some LIST_POISON1 \<and> lprev h r = Some LIST_POISON2"

lemma only_at_poisoned: "only_at S h h' \<Longrightarrow> poisoned h r \<Longrightarrow> r \<notin> S \<Longrightarrow> poisoned h' r"
  by (simp add: only_at_def poisoned_def)

interpretation dl: removal l P "\<lambda>p h. if P p then list_del p h else Some h" "\<lambda>h rs. \<forall>r\<in>set rs. poisoned h r" "{}"
  for l P
proof
  fix h ys p zs rs
  assume a: "is_list h l (ys @ p # zs)" "\<forall>r\<in>set rs. poisoned h r" "set (l # ys @ p # zs) \<inter> ({} \<union> set rs) = {}"
  obtain h' where h': "list_del p h = Some h'" "is_list h' l (ys @ zs)" "only_at (set (l # ys @ p # zs)) h h'"
    "lnext h' p = Some LIST_POISON1" "lprev h' p = Some LIST_POISON2"
    using list_del_ok [OF a(1)] by blast
  have "poisoned h' r" if "r \<in> set rs" for r
    using a(2,3) that by (intro only_at_poisoned [OF h'(3)]) auto
  then show "\<exists>h'. (if P p then list_del p h else Some h) = Some h' \<and>
      is_list h' l (ys @ (if P p then zs else p # zs)) \<and> (\<forall>r\<in>set (if P p then rs @ [p] else rs). poisoned h' r)"
    using a(1,2) h' by (auto simp: poisoned_def)
qed

interpretation di: removal l P "\<lambda>p h. if P p then list_del_init p h else Some h" "\<lambda>h rs. \<forall>r\<in>set rs. is_list h r []" "{}"
  for l P
proof
  fix h ys p zs rs
  assume a: "is_list h l (ys @ p # zs)" "\<forall>r\<in>set rs. is_list h r []" "set (l # ys @ p # zs) \<inter> ({} \<union> set rs) = {}"
  obtain h' where h': "list_del_init p h = Some h'" "is_list h' l (ys @ zs)" "is_list h' p []"
    "only_at (set (l # ys @ p # zs)) h h'"
    using list_del_init_ok [OF a(1)] by blast
  have "is_list h' r []" if "r \<in> set rs" for r
    using a(2,3) that by (intro is_list_frame [OF _ h'(4)]) auto
  then show "\<exists>h'. (if P p then list_del_init p h else Some h) = Some h' \<and>
      is_list h' l (ys @ (if P p then zs else p # zs)) \<and> (\<forall>r\<in>set (if P p then rs @ [p] else rs). is_list h' r [])"
    using a(1,2) h' by auto
qed

section \<open>Splitting a list\<close>

text \<open>
  C24. The loop \<open>list_for_each_entry_safe\<close>, with a body that moves the entries it selects to the end
  of a second list, splits the list: it returns, the first list keeps exactly the entries that were
  not selected and the second one has the others behind its own, both in order, whatever was
  selected and wherever the node is in the structure; the loop over the second list then visits them.
\<close>

theorem list_split_by_move:
  assumes "is_list h l xs" and "is_list h k ys" and "set (l # xs) \<inter> set (k # ys) = {}"
  shows "\<exists>h'. list_for_each_entry_safe off
      (\<lambda>pos h. if Q pos then list_move_tail (entry_member off pos) k h else Some h) l h = Some h' \<and>
    list_for_each_entry off l h' = Some (map (list_entry off) (filter (\<lambda>p. \<not> Q (list_entry off p)) xs)) \<and>
    list_for_each_entry off k h' = Some (map (list_entry off) (ys @ filter (\<lambda>p. Q (list_entry off p)) xs)) \<and>
    list_for_each_entry_reverse off k h' =
      Some (map (list_entry off) (rev (ys @ filter (\<lambda>p. Q (list_entry off p)) xs)))"
proof -
  let ?P = "\<lambda>p. Q (list_entry off p)"
  have "set (l # xs) \<inter> ({k} \<union> set ys) = {}" using assms(3) by auto
  from mv.safe_ok [OF assms(1,2) this, of ?P] obtain h' where
    h': "list_for_each_safe (\<lambda>p h. if ?P p then list_move_tail p k h else Some h) l h = Some h'"
      "is_list h' l (filter (\<lambda>p. \<not> ?P p) xs)" "is_list h' k (ys @ filter ?P xs)" by blast
  have "list_for_each_entry_safe off
      (\<lambda>pos h. if Q pos then list_move_tail (entry_member off pos) k h else Some h) l h = Some h'"
    by (rule list_for_each_entry_safe_node [OF _ h'(1)]) (simp cong: if_cong)
  with list_for_each_entry_ok [OF h'(2)] list_for_each_entry_ok [OF h'(3)]
    list_for_each_entry_reverse_ok [OF h'(3)] show ?thesis by blast
qed

text \<open>Four nodes at the offset 4 of structures at 96, 196, 296 and 396.\<close>

definition ring4 :: list_heap where
  "ring4 = \<lparr>lnext = [1 \<mapsto> 100, 100 \<mapsto> 200, 200 \<mapsto> 300, 300 \<mapsto> 400, 400 \<mapsto> 1, 2 \<mapsto> 2],
            lprev = [100 \<mapsto> 1, 200 \<mapsto> 100, 300 \<mapsto> 200, 400 \<mapsto> 300, 1 \<mapsto> 400, 2 \<mapsto> 2]\<rparr>"

theorem list_split_by_move_witness:
  "\<exists>h'. list_for_each_entry_safe 4
      (\<lambda>pos h. if pos = 196 \<or> pos = 396 then list_move_tail (entry_member 4 pos) 2 h else Some h) 1 ring4 = Some h' \<and>
    list_for_each_entry 4 1 h' = Some [96, 296] \<and> list_for_each_entry 4 2 h' = Some [196, 396] \<and>
    list_for_each_entry_reverse 4 2 h' = Some [396, 196]"
proof -
  have "is_list ring4 1 [100, 200, 300, 400]" "is_list ring4 2 []"
    "set [1 :: nat, 100, 200, 300, 400] \<inter> set [2] = {}"
    by (simp_all add: is_list_def edge_def ring4_def)
  from list_split_by_move [OF this, of 4 "\<lambda>pos. pos = 196 \<or> pos = 396"] show ?thesis
    by (simp add: list_entry_def)
qed

end
