(* ===== verification/Spi_Debug.thy ===== *)
theory Spi_Debug
  imports Hexdump Spi
begin

text \<open>
  \<open>_tinydrm_dbg_spi_message\<close> of \<open>tinydrm-regmap.c\<close>: the log of an SPI message before it is sent. The text
  that \<open>%p\<close> gives is left to the C library: it is the parameter \<open>pfmt\<close>. The lemmas show that a
  message whose buffers are in memory is printed completely, one line per buffer.
\<close>

section \<open>The messages\<close>

text \<open>What a pointer points to, up to the end of its object.\<close>

fun bytes_at :: "state \<Rightarrow> ptr \<Rightarrow> bytes" where
  "bytes_at w Null = []"
| "bytes_at w (Ptr b i) = (case mem w b of None \<Rightarrow> [] | Some bs \<Rightarrow> drop i bs)"

text \<open>
  One pass of the loop: the text and the array \<open>linebuf\<close>, which is not initialised. \<open>can_dma\<close> is a
  pointer to a function.
\<close>

definition dbg_transfer ::
  "(ptr \<Rightarrow> string) \<Rightarrow> (spi_transfer \<Rightarrow> bool) option \<Rightarrow> state \<Rightarrow> int \<Rightarrow> spi_transfer \<Rightarrow> string \<Rightarrow>
     (string \<times> string) option" where
  "dbg_transfer pfmt can_dma w i tmp linebuf = do {
     let bpw = unat (tr_bits_per_word tmp);
     let dots = (if 16 < tr_len tmp then '' ...'' else []);
     (tx, linebuf) \<leftarrow> (if tr_tx_buf tmp \<noteq> Null
       then do {
         let dma = (case can_dma of Some f \<Rightarrow> f tmp | None \<Rightarrow> False);
         linebuf \<leftarrow> tinydrm_hexdump 96 (bytes_at w (tr_tx_buf tmp)) (tr_len tmp) bpw 16 linebuf;
         Some (''    tr['' @ int_string i @ '']: bpw='' @ dec_string bpw @
           '', dma='' @ dec_string (if dma then 1 else 0) @ '', len='' @ dec_string (tr_len tmp) @
           '', tx_buf('' @ pfmt (tr_tx_buf tmp) @ '')=['' @ c_string linebuf @ dots @ '']'' @ [CHR 0x0A], linebuf) }
       else Some ([], linebuf));
     (rx, linebuf) \<leftarrow> (if tr_rx_buf tmp \<noteq> Null
       then do {
         linebuf \<leftarrow> tinydrm_hexdump 96 (bytes_at w (tr_rx_buf tmp)) (tr_len tmp) bpw 16 linebuf;
         Some (''    tr['' @ int_string i @ '']: bpw='' @ dec_string bpw @
           '',        len='' @ dec_string (tr_len tmp) @
           '', rx_buf('' @ pfmt (tr_rx_buf tmp) @ '')=['' @ c_string linebuf @ dots @ '']'' @ [CHR 0x0A], linebuf) }
       else Some ([], linebuf));
     Some (tx @ rx, linebuf) }"

fun dbg_loop ::
  "(ptr \<Rightarrow> string) \<Rightarrow> (spi_transfer \<Rightarrow> bool) option \<Rightarrow> state \<Rightarrow> int \<Rightarrow> spi_transfer list \<Rightarrow> string \<Rightarrow>
     string option" where
  "dbg_loop pfmt can_dma w i [] linebuf = Some []"
| "dbg_loop pfmt can_dma w i (tmp # ts) linebuf = do {
     (s, linebuf) \<leftarrow> dbg_transfer pfmt can_dma w i tmp linebuf;
     t \<leftarrow> dbg_loop pfmt can_dma w (i + 1) ts linebuf;
     Some (s @ t) }"

text \<open>The text printed for a message, with \<open>junk\<close> in the array at first.\<close>

definition raw_tinydrm_dbg_spi_message ::
  "(ptr \<Rightarrow> string) \<Rightarrow> (spi_transfer \<Rightarrow> bool) option \<Rightarrow> spi_transfer list \<Rightarrow> string \<Rightarrow> state \<Rightarrow> string option" where
  "raw_tinydrm_dbg_spi_message pfmt can_dma m junk w = dbg_loop pfmt can_dma w 0 m junk"

text \<open>The inline function of \<open>tinydrm-regmap.h\<close>; \<open>drm_ut_core\<close> is the value of \<open>DRM_UT_CORE\<close>.\<close>

definition tinydrm_dbg_spi_message ::
  "u32 \<Rightarrow> u32 \<Rightarrow> (ptr \<Rightarrow> string) \<Rightarrow> (spi_transfer \<Rightarrow> bool) option \<Rightarrow> spi_transfer list \<Rightarrow> string \<Rightarrow> state \<Rightarrow>
     string option" where
  "tinydrm_dbg_spi_message drm_debug drm_ut_core pfmt can_dma m junk w =
     (if drm_debug AND drm_ut_core \<noteq> 0 then raw_tinydrm_dbg_spi_message pfmt can_dma m junk w else Some [])"

section \<open>What is printed\<close>

lemma load_bytes_at: "load w p n = Some bs \<Longrightarrow> n \<le> length (bytes_at w p)"
  by (cases p) (auto split: option.splits if_splits)

lemma put_chars_length: "put_chars i cs b = Some b' \<Longrightarrow> length b' = length b"
  by (induction i cs b rule: put_chars.induct) (auto simp: put_char_def bind_eq_Some_conv split: if_splits)

lemma snprintf_length: "snprintf i n s b = Some (r, b') \<Longrightarrow> length b' = length b"
  by (auto simp: snprintf_def bind_eq_Some_conv split: if_splits dest: put_chars_length)

lemma hexdump16_length: "hexdump16 n vs j lx b = Some b' \<Longrightarrow> length b' = length b"
proof (induction vs arbitrary: j lx b)
  case (Cons v vs)
  then obtain ret b1 where s: "snprintf lx (n - lx) ((if j then '' '' else []) @ hex_string 4 v) b = Some (ret, b1)"
    by (auto simp: bind_eq_Some_conv)
  show ?case
    using Cons.prems Cons.IH [of True "lx + ret" b1] snprintf_length [OF s] s
    by (cases "n - lx \<le> ret") (auto simp: bind_eq_Some_conv simp del: hex_string.simps dest: snprintf_length)
qed simp

text \<open>The buffers of a transfer: in memory, with a word size that can be printed.\<close>

definition printable :: "state \<Rightarrow> spi_transfer \<Rightarrow> ptr \<Rightarrow> bool" where
  "printable w t p \<longleftrightarrow>
     (tr_bits_per_word t = 8 \<and> 0 < tr_len t \<or> tr_bits_per_word t = 16 \<and> 1 < tr_len t) \<and>
     load w p (tr_len t) \<noteq> None"

lemma hexdump_printable:
  assumes "printable w t p" and "length b = 96"
  shows "\<exists>b'. tinydrm_hexdump 96 (bytes_at w p) (tr_len t) (unat (tr_bits_per_word t)) 16 b = Some b' \<and>
    c_string b' = debug_text (bytes_at w p) (tr_len t) (unat (tr_bits_per_word t)) \<and> length b' = 96"
proof -
  let ?bpw = "unat (tr_bits_per_word t)" and ?p = "bytes_at w p"
  have a: "?bpw = 8 \<and> 0 < tr_len t \<or> ?bpw = 16 \<and> 1 < tr_len t" "tr_len t \<le> length ?p"
    using assms(1) load_bytes_at by (auto simp: printable_def)
  obtain b' where b': "tinydrm_hexdump 96 ?p (tr_len t) ?bpw 16 b = Some b'"
    "c_string b' = debug_text ?p (tr_len t) ?bpw"
    using tinydrm_hexdump_text [OF a assms(2)] by blast
  have "length b' = length b"
  proof (cases "?bpw = 16")
    case True
    then show ?thesis using b'(1) hexdump16_length by (auto simp: tinydrm_hexdump_def Let_def split: if_splits)
  next
    case False
    then have "\<exists>r. hex_dump_to_buffer ?p (tr_len t) 16 1 96 False b = Some (r, b')"
      using a(1) b'(1) by (auto simp: tinydrm_hexdump_def bind_eq_Some_conv)
    then show ?thesis
      using hex_dump_safe [of 96 b "tr_len t" ?p 16 1 False] a(2) assms(2) by (auto simp: inside_def)
  qed
  with b' assms(2) show ?thesis by simp
qed

text \<open>The lines of one transfer.\<close>

definition dbg_text :: "(ptr \<Rightarrow> string) \<Rightarrow> (spi_transfer \<Rightarrow> bool) option \<Rightarrow> state \<Rightarrow> nat \<Rightarrow> spi_transfer \<Rightarrow> string" where
  "dbg_text pfmt can_dma w i t =
     (let n = unat (tr_bits_per_word t);
          pre = ''    tr['' @ dec_string i @ '']: bpw='' @ dec_string n;
          txt = (\<lambda>p. pfmt p @ '')=['' @ debug_text (bytes_at w p) (tr_len t) n @
            (if 16 < tr_len t then '' ...'' else []) @ '']'' @ [CHR 0x0A])
      in (if tr_tx_buf t = Null then []
          else pre @ '', dma='' @ dec_string (if can_dma \<noteq> None \<and> the can_dma t then 1 else 0) @
            '', len='' @ dec_string (tr_len t) @ '', tx_buf('' @ txt (tr_tx_buf t)) @
         (if tr_rx_buf t = Null then []
          else pre @ '',        len='' @ dec_string (tr_len t) @ '', rx_buf('' @ txt (tr_rx_buf t)))"

definition transfer_printable :: "state \<Rightarrow> spi_transfer \<Rightarrow> bool" where
  "transfer_printable w t \<longleftrightarrow>
     (tr_tx_buf t \<noteq> Null \<longrightarrow> printable w t (tr_tx_buf t)) \<and> (tr_rx_buf t \<noteq> Null \<longrightarrow> printable w t (tr_rx_buf t))"

lemma int_string_nat: "int_string (int i) = dec_string i"
  by (simp add: int_string_def)

lemma dbg_transfer_text:
  assumes "transfer_printable w t" and "length b = 96"
  shows "\<exists>b'. dbg_transfer pfmt can_dma w (int i) t b = Some (dbg_text pfmt can_dma w i t, b') \<and> length b' = 96"
proof -
  have dma: "(case can_dma of Some f \<Rightarrow> f t | None \<Rightarrow> False) = (can_dma \<noteq> None \<and> the can_dma t)"
    by (cases can_dma) simp_all
  obtain b1 where b1: "length b1 = 96" "tr_tx_buf t = Null \<Longrightarrow> b1 = b"
    "tr_tx_buf t \<noteq> Null \<Longrightarrow> tinydrm_hexdump 96 (bytes_at w (tr_tx_buf t)) (tr_len t) (unat (tr_bits_per_word t)) 16 b = Some b1"
    "tr_tx_buf t \<noteq> Null \<Longrightarrow> c_string b1 = debug_text (bytes_at w (tr_tx_buf t)) (tr_len t) (unat (tr_bits_per_word t))"
    using hexdump_printable [of w t "tr_tx_buf t" b] assms
    by (cases "tr_tx_buf t = Null") (auto simp: transfer_printable_def)
  obtain b2 where b2: "length b2 = 96" "tr_rx_buf t = Null \<Longrightarrow> b2 = b1"
    "tr_rx_buf t \<noteq> Null \<Longrightarrow> tinydrm_hexdump 96 (bytes_at w (tr_rx_buf t)) (tr_len t) (unat (tr_bits_per_word t)) 16 b1 = Some b2"
    "tr_rx_buf t \<noteq> Null \<Longrightarrow> c_string b2 = debug_text (bytes_at w (tr_rx_buf t)) (tr_len t) (unat (tr_bits_per_word t))"
    using hexdump_printable [of w t "tr_rx_buf t" b1] b1(1) assms(1)
    by (cases "tr_rx_buf t = Null") (auto simp: transfer_printable_def)
  have "dbg_transfer pfmt can_dma w (int i) t b = Some (dbg_text pfmt can_dma w i t, b2)"
    unfolding dbg_transfer_def dbg_text_def Let_def dma int_string_nat
    using b1(2-4) b2(2-4)
    by (cases "tr_tx_buf t = Null"; cases "tr_rx_buf t = Null") simp_all
  with b2(1) show ?thesis by blast
qed

lemma dbg_loop_text:
  "\<forall>t\<in>set m. transfer_printable w t \<Longrightarrow> length b = 96 \<Longrightarrow>
   dbg_loop pfmt can_dma w (int i) m b =
     Some (concat (map (\<lambda>j. dbg_text pfmt can_dma w (i + j) (m ! j)) [0..<length m]))"
proof (induction m arbitrary: i b)
  case (Cons t m)
  have up: "[0..<length (t # m)] = 0 # map Suc [0..<length m]"
    by (simp add: upt_conv_Cons map_Suc_upt del: upt_Suc)
  obtain b1 where b1: "dbg_transfer pfmt can_dma w (int i) t b = Some (dbg_text pfmt can_dma w i t, b1)"
    "length b1 = 96"
    using dbg_transfer_text Cons.prems by force
  have suc: "int i + 1 = int (Suc i)" by simp
  show ?case
    using b1 Cons.IH [OF _ b1(2), of "Suc i"] Cons.prems(1)
    unfolding up by (simp add: comp_def suc del: of_nat_Suc)
qed simp

text \<open>A message with buffers in memory is printed completely, transfer by transfer.\<close>

lemma dbg_spi_message_text:
  assumes "\<forall>t\<in>set m. transfer_printable w t" and "length junk = 96"
  shows "raw_tinydrm_dbg_spi_message pfmt can_dma m junk w =
    Some (concat (map (\<lambda>j. dbg_text pfmt can_dma w j (m ! j)) [0..<length m]))"
  using dbg_loop_text [OF assms, of pfmt can_dma 0] by (simp add: raw_tinydrm_dbg_spi_message_def)

end
