(* ===== verification/Buf_Test.thy ===== *)
theory Buf_Test
  imports Event_Loop Text
begin

text \<open>
  The two functions of \<open>utinydrm.c\<close> that measure the DMA memory; nothing calls them. The time a call
  of \<open>clock_gettime\<close> gives is an argument. The lemmas show when they stay in their buffers, what
  the copy does, and that the time printed is wrong when a second ends in between.
\<close>

section \<open>The functions\<close>

text \<open>\<open>struct timespec\<close> is the pair of its seconds and its nanoseconds.\<close>

definition clock_only_nsec :: "int \<times> int \<Rightarrow> u64" where
  "clock_only_nsec ts = of_int (snd ts)"

text \<open>\<open>320 * 240 * 2\<close>\<close>

abbreviation test_len :: nat where "test_len \<equiv> 153600"

text \<open>\<open>*val = map[i]\<close> for \<open>n\<close> bytes, with \<open>v\<close> in \<open>*val\<close> before.\<close>

fun read_loop :: "ptr \<Rightarrow> nat \<Rightarrow> u8 \<Rightarrow> state \<Rightarrow> u8 option" where
  "read_loop p 0 v w = Some v"
| "read_loop p (Suc n) v w = do { bs \<leftarrow> load w p 1; read_loop (padd p 1) n (hd bs) w }"

text \<open>The result is the text printed and the content of \<open>val123\<close> after the loop.\<close>

definition utinydrm_buf_test_read ::
  "int \<times> int \<Rightarrow> int \<times> int \<Rightarrow> u8 \<Rightarrow> utinydrm_fb \<Rightarrow> state \<Rightarrow> (string \<times> u8) option" where
  "utinydrm_buf_test_read ts1 ts2 val123 ufb w = do {
     let start = clock_only_nsec ts1;
     v \<leftarrow> read_loop (fb_map ufb) test_len val123 w;
     let stop = clock_only_nsec ts2;
     let ms = dec_string (unat ((stop - start) div 1000000));
     Some (''utinydrm_buf_test_read: '' @ replicate (3 - length ms) (CHR '' '') @ ms @ ''ms'' @ [CHR 0x0A], v) }"

text \<open>\<open>dst[i] = src[i]\<close> for \<open>n\<close> bytes.\<close>

fun copy_loop :: "ptr \<Rightarrow> ptr \<Rightarrow> nat \<Rightarrow> state \<Rightarrow> (unit \<times> state) option" where
  "copy_loop dst src 0 w = Some ((), w)"
| "copy_loop dst src (Suc n) w = do {
     b \<leftarrow> load w src 1;
     (_, w) \<leftarrow> store dst b w;
     copy_loop (padd dst 1) (padd src 1) n w }"

definition utinydrm_buf_test_write :: "utinydrm_fb \<Rightarrow> state \<Rightarrow> (unit \<times> state) option" where
  "utinydrm_buf_test_write ufb w =
     (case tx_buf w of
        PNull \<Rightarrow> Some ((), w)
      | PErr e \<Rightarrow> None
      | PObj t \<Rightarrow> copy_loop (dm_map t) (fb_map ufb) test_len w)"

section \<open>Lemmas\<close>

lemma load_first_byte:
  assumes "load w (Ptr b i) (Suc n) = Some bs"
  shows "\<exists>c cs. bs = c # cs \<and> load w (Ptr b i) 1 = Some [c] \<and> load w (Ptr b (i + 1)) n = Some cs"
proof -
  obtain c cs where bs: "bs = c # cs" using load_0_len [OF assms] by (cases bs) auto
  have "load w (Ptr b i) (1 + n) = Some bs" using assms by simp
  from load_Some_append [OF this] bs show ?thesis by simp
qed

lemma read_loop_ok: "load w (Ptr b i) n = Some bs \<Longrightarrow> read_loop (Ptr b i) n v w = Some (last (v # bs))"
proof (induction n arbitrary: i v bs)
  case (Suc n)
  obtain c cs where bs: "bs = c # cs" "load w (Ptr b i) 1 = Some [c]" "load w (Ptr b (i + 1)) n = Some cs"
    using load_first_byte [OF Suc.prems] by blast
  then show ?case using Suc.IH [OF bs(3), of c] by (simp del: load.simps)
qed (auto split: option.splits if_splits)

text \<open>The copy is that of the whole range at once when the two objects are different.\<close>

lemma copy_loop_ok:
  assumes "load w (Ptr s i) n = Some bs" and "mem w d = Some ds" and "j + n \<le> length ds" and "s \<noteq> d"
  shows "copy_loop (Ptr d j) (Ptr s i) n w =
    Some ((), w\<lparr>mem := (mem w)(d \<mapsto> take j ds @ bs @ drop (j + n) ds)\<rparr>)"
  using assms
proof (induction n arbitrary: i j bs ds w)
  case 0
  then show ?case by (cases bs) (auto simp: fun_upd_idem split: option.splits if_splits)
next
  case (Suc n)
  obtain c cs where bs: "bs = c # cs" and ld: "load w (Ptr s i) 1 = Some [c]" "load w (Ptr s (i + 1)) n = Some cs"
    using load_first_byte [OF Suc.prems(1)] by blast
  let ?ds = "take j ds @ [c] @ drop (j + 1) ds"
  let ?w = "w\<lparr>mem := (mem w)(d \<mapsto> ?ds)\<rparr>"
  have st: "store (Ptr d j) [c] w = Some ((), ?w)" using Suc.prems(2,3) by simp
  have ih: "load ?w (Ptr s (i + 1)) n = Some cs" using ld(2) Suc.prems(4) by simp
  have "copy_loop (Ptr d (j + 1)) (Ptr s (i + 1)) n ?w =
      Some ((), ?w\<lparr>mem := (mem ?w)(d \<mapsto> take (j + 1) ?ds @ cs @ drop (j + 1 + n) ?ds)\<rparr>)"
    using Suc.prems(3,4) by (intro Suc.IH [OF ih]) simp_all
  moreover have "take (j + 1) ?ds @ cs @ drop (j + 1 + n) ?ds = take j ds @ bs @ drop (j + Suc n) ds"
    using Suc.prems(3) bs by (simp add: add.commute)
  moreover have "?w\<lparr>mem := (mem ?w)(d \<mapsto> xs)\<rparr> = w\<lparr>mem := (mem w)(d \<mapsto> xs)\<rparr>" for xs by simp
  ultimately have "copy_loop (Ptr d (j + 1)) (Ptr s (i + 1)) n ?w =
      Some ((), w\<lparr>mem := (mem w)(d \<mapsto> take j ds @ bs @ drop (j + Suc n) ds)\<rparr>)" by (simp only:)
  then show ?case using ld(1) st bs by (simp add: fun_upd_def del: load.simps store.simps)
qed

lemma buf_test_write_ok:
  assumes "tx_buf w = PObj t" and "dm_map t = Ptr d 0" and "fb_map ufb = Ptr s 0" and "s \<noteq> d"
    and "load w (Ptr s 0) test_len = Some bs" and "mem w d = Some ds" and "test_len \<le> length ds"
  shows "utinydrm_buf_test_write ufb w =
    Some ((), w\<lparr>mem := (mem w)(d \<mapsto> bs @ drop test_len ds)\<rparr>)"
  using copy_loop_ok [OF assms(5,6) _ assms(4), of 0] assms(1-3,7)
  by (simp add: utinydrm_buf_test_write_def del: load.simps)

text \<open>The last byte read stays in \<open>val123\<close>.\<close>

lemma buf_test_read_val:
  assumes "fb_map ufb = Ptr s i" and "load w (Ptr s i) test_len = Some bs"
  shows "\<exists>txt. utinydrm_buf_test_read ts1 ts2 v ufb w = Some (txt, last bs)"
proof -
  have "bs \<noteq> []" using load_0_len [OF assms(2)] by auto
  then show ?thesis
    using read_loop_ok [OF assms(2), of v] assms(1) by (simp add: utinydrm_buf_test_read_def Let_def)
qed

text \<open>
  The seconds are not used: when one ends during the loop the difference wraps around, and the time
  is printed as more than 18446744072708 milliseconds.
\<close>

lemma clock_wraps:
  assumes "0 \<le> n2" and "n2 < n1" and "n1 < 10 ^ 9"
  shows "18446744072708 < unat ((clock_only_nsec (s2, n2) - clock_only_nsec (s1, n1)) div 1000000)"
proof -
  have "uint (of_int n2 - of_int n1 :: u64) = (n2 - n1) mod 2 ^ 64"
    by (simp add: uint_word_of_int flip: of_int_diff)
  also have "\<dots> = (n2 - n1 + 2 ^ 64) mod 2 ^ 64" by simp
  also have "\<dots> = n2 - n1 + 2 ^ 64" using assms by (intro mod_pos_pos_trivial) simp_all
  finally have "uint (clock_only_nsec (s2, n2) - clock_only_nsec (s1, n1)) = n2 - n1 + 2 ^ 64"
    by (simp add: clock_only_nsec_def)
  then have "18446744072708 < uint ((clock_only_nsec (s2, n2) - clock_only_nsec (s1, n1)) div 1000000)"
    using assms by (simp add: uint_div)
  then show ?thesis unfolding unat_eq_nat_uint by linarith
qed

end
