(* ===== verification/Pins.thy ===== *)
theory Pins
  imports Session
begin

text \<open>
  Everything that happens at the pins of the panel: besides the bytes on the bus, which \<open>saw\<close>
  observes, the other GPIO lines that are driven (reset, backlight) and the delays, all in one
  sequence. The commands and the question for the power mode drive no line but D/C and do not
  wait; with this the sequences of the panel are known completely.
\<close>

section \<open>What happens at the pins\<close>

text \<open>\<open>Line fd s\<close>: the text \<open>s\<close> is written to the line behind \<open>fd\<close>; \<open>Wait us\<close>: a delay.\<close>

datatype pin_item = Bus item | Line int string | Wait nat

text \<open>As \<open>run3\<close>, with \<open>fd\<close> the descriptor of the D/C line and \<open>l\<close> its level.\<close>

fun pins :: "int \<Rightarrow> bool \<Rightarrow> sysev list \<Rightarrow> pin_item list" where
  "pins fd l [] = []"
| "pins fd l (Ev_write g s # es) = (if g = fd then pins fd (s \<noteq> ''0'') es else Line g s # pins fd l es)"
| "pins fd l (Ev_usleep t # es) = Wait t # pins fd l es"
| "pins fd l (Ev_spi g utr bss # es) =
     map Bus (concat (map (\<lambda>(x, bs). xfer_items l x bs) (zip utr bss))) @ pins fd l es"
| "pins fd l (e # es) = pins fd l es"

definition did :: "int \<Rightarrow> state \<Rightarrow> state \<Rightarrow> pin_item list \<Rightarrow> bool" where
  "did fd w w' ps \<longleftrightarrow> (\<exists>es. trace w' = trace w @ es \<and> (\<forall>l. pins fd l es = ps))"

lemma pins_append: "pins fd l (es @ fs) = pins fd l es @ pins fd (fst (run3 fd l es)) fs"
  by (induction fd l es rule: pins.induct) (auto split: prod.splits)

lemma did_trans:
  assumes "did fd w w' ps" and "did fd w' w'' qs"
  shows "did fd w w'' (ps @ qs)"
proof -
  obtain es fs where "trace w' = trace w @ es" "\<And>l. pins fd l es = ps"
    "trace w'' = trace w' @ fs" "\<And>l. pins fd l fs = qs"
    using assms unfolding did_def by blast
  then show ?thesis unfolding did_def by (intro exI [of _ "es @ fs"]) (simp add: pins_append)
qed

lemma did_log: "(\<And>l. pins fd l es = ps) \<Longrightarrow> did fd w (log_evs es w) ps"
  unfolding did_def by (intro exI [of _ es]) simp

lemma did_flags [simp]:
  "did fd w (w'\<lparr>prepared := p\<rparr>) ps = did fd w w' ps" "did fd w (w'\<lparr>enabled := e\<rparr>) ps = did fd w w' ps"
  "did fd (w\<lparr>enabled := e\<rparr>) w' ps = did fd w w' ps"
  by (simp_all add: did_def)

text \<open>The items of the bus are what the display receives.\<close>

fun bus_items :: "pin_item list \<Rightarrow> item list" where
  "bus_items [] = []"
| "bus_items (Bus x # ps) = x # bus_items ps"
| "bus_items (p # ps) = bus_items ps"

lemma bus_items_append [simp]: "bus_items (ps @ qs) = bus_items ps @ bus_items qs"
  by (induction ps rule: bus_items.induct) simp_all

lemma bus_items_Bus [simp]: "bus_items (map Bus xs) = xs"
  by (induction xs) simp_all

lemma bus_items_pins: "bus_items (pins fd l es) = snd (run3 fd l es)"
  by (induction fd l es rule: pins.induct) (auto split: prod.splits)

lemma did_saw: "did fd w w' ps \<Longrightarrow> saw fd w w' (bus_items ps)"
  unfolding did_def saw_def using bus_items_pins by metis

section \<open>Operations that only use the bus\<close>

definition bus_ev :: "int \<Rightarrow> sysev \<Rightarrow> bool" where
  "bus_ev g e = (case e of Ev_write h s \<Rightarrow> h = g | Ev_usleep t \<Rightarrow> False | _ \<Rightarrow> True)"

definition bus_only :: "int \<Rightarrow> state \<Rightarrow> state \<Rightarrow> bool" where
  "bus_only g w w' \<longleftrightarrow> (\<exists>d. ms_dc (mspi w') = Some d \<and> gpio_fd d = g) \<and>
     (\<exists>es. trace w' = trace w @ es \<and> list_all (bus_ev g) es)"

lemma bus_only_refl: "ms_dc (mspi w) = Some d \<Longrightarrow> gpio_fd d = g \<Longrightarrow> bus_only g w w"
  by (simp add: bus_only_def)

lemma bus_only_self: "bus_only g w0 w \<Longrightarrow> bus_only g w w"
  by (simp add: bus_only_def)

lemma bus_only_trans: "bus_only g w w' \<Longrightarrow> bus_only g w' w'' \<Longrightarrow> bus_only g w w''"
  unfolding bus_only_def by (metis append.assoc list_all_append)

named_theorems bus_ops \<open>operations that only use the bus\<close>

lemma bus_only_upds [bus_ops]:
  "bus_only g w0 w \<Longrightarrow> bus_only g w0 (w\<lparr>errno := e\<rparr>)" "bus_only g w0 w \<Longrightarrow> bus_only g w0 (w\<lparr>mem := m\<rparr>)"
  "bus_only g w0 w \<Longrightarrow> bus_only g w0 (w\<lparr>nblk := n\<rparr>)" "bus_only g w0 w \<Longrightarrow> bus_only g w0 (w\<lparr>tx_buf := t\<rparr>)"
  "bus_only g w0 w \<Longrightarrow> bus_only g w0 (w\<lparr>mspi := (mspi w)\<lparr>ms_tx_buf := p\<rparr>\<rparr>)"
  by (auto simp: bus_only_def)

lemma bus_only_log: "bus_ev g e \<Longrightarrow> bus_only g w0 w \<Longrightarrow> bus_only g w0 (log_ev e w)"
  by (auto simp: bus_only_def)

lemma bus_ev_simps [bus_ops]:
  "bus_ev g (Ev_open f)" "bus_ev g (Ev_close h)" "bus_ev g (Ev_spi h u b)" "bus_ev g (Ev_alloc n)" "bus_ev g (Ev_free k)"
  "bus_ev g (Ev_create_dumb h x y z)" "bus_ev g (Ev_prime_to_fd h i q)" "bus_ev g (Ev_mmap h n q)"
  by (simp_all add: bus_ev_def)

lemma bus_store [bus_ops]: "bus_only g w0 w \<Longrightarrow> keeps (bus_only g) w0 (store p bs w)"
  by (cases p) (auto simp: keeps_def intro: bus_only_upds split: option.splits)

lemma bus_memcpy [bus_ops]: "bus_only g w0 w \<Longrightarrow> keeps (bus_only g) w0 (memcpy p q n w)"
  unfolding memcpy_def by (rule frame_intros bus_ops | assumption)+

lemma bus_blocks [bus_ops]:
  "bus_only g w0 w \<Longrightarrow> keeps (bus_only g) w0 (new_block bs w)"
  "bus_only g w0 w \<Longrightarrow> keeps (bus_only g) w0 (drop_block p w)"
  "bus_only g w0 w \<Longrightarrow> keeps (bus_only g) w0 (kfree p w)"
  "bus_only g w0 w \<Longrightarrow> keeps (bus_only g) w0 (kmalloc os n w)"
  "bus_only g w0 w \<Longrightarrow> keeps (bus_only g) w0 (kzalloc os n w)"
  by (cases p; auto simp: keeps_def new_block_def kmalloc_def kzalloc_def alloc_def Let_def
      intro!: bus_only_upds bus_only_log bus_ev_simps)+

lemma bus_syscall [bus_ops]: "bus_ev g e \<Longrightarrow> bus_only g w0 w \<Longrightarrow> keeps (bus_only g) w0 (syscall os e w)"
  by (auto simp: keeps_def syscall_def Let_def intro!: bus_only_upds bus_only_log)

lemma bus_store_rx [bus_ops]: "bus_only g w0 w \<Longrightarrow> keeps (bus_only g) w0 (store_rx f xs w)"
proof (induction xs arbitrary: f w)
  case (Cons x xs)
  show ?case unfolding store_rx.simps by (rule frame_intros bus_ops Cons | assumption)+
qed (simp add: keeps_def)

lemma bus_spi_ioctl [bus_ops]: "bus_only g w0 w \<Longrightarrow> keeps (bus_only g) w0 (spi_ioctl os h utr w)"
  unfolding spi_ioctl_def by (rule frame_intros bus_ops | assumption)+

lemma bus_message [bus_ops]: "bus_only g w0 w \<Longrightarrow> keeps (bus_only g) w0 (spi_ioc_message os utr w)"
  unfolding spi_ioc_message_def by (rule frame_intros bus_ops | assumption)+

lemma bus_send [bus_ops]: "bus_only g w0 w \<Longrightarrow> keeps (bus_only g) w0 (spi_sync_send os u rest w)"
  unfolding spi_sync_send_def by (rule frame_intros bus_ops | assumption)+

lemma bus_buf_loop [bus_ops]: "bus_only g w0 w \<Longrightarrow> keeps (bus_only g) w0 (spi_buf_loop os h sp off len w)"
proof (induction len arbitrary: off w rule: less_induct)
  case (less len)
  show ?case
  proof (cases "len = 0")
    case True
    then show ?thesis using less.prems by (simp add: spi_buf_loop.simps keeps_Some)
  next
    case False
    then have "len - kmin len spi_buf_max_chunk < len" by simp
    note ih = less.IH [OF this]
    show ?thesis
      by (subst spi_buf_loop.simps) (rule frame_intros bus_ops ih less.prems | assumption | hypsubst)+
  qed
qed

lemma bus_sync [bus_ops]: "bus_only g w0 w \<Longrightarrow> keeps (bus_only g) w0 (spi_sync os m w)"
  unfolding spi_sync_def spi_buf_transfer_def by (rule frame_intros bus_ops | assumption)+

lemma bus_set_dc [bus_ops]:
  assumes "bus_only g w0 w"
  shows "keeps (bus_only g) w0 (set_dc os v w)"
proof -
  obtain d where d: "ms_dc (mspi w) = Some d" "gpio_fd d = g" using assms by (auto simp: bus_only_def)
  have b: "bus_ev g (Ev_write g s)" for s by (simp add: bus_ev_def)
  show ?thesis
    unfolding set_dc_def gpiod_set_value_cansleep_def d option.case
    by (rule frame_intros bus_ops b assms | assumption | hypsubst)+
qed

lemma bus_swab_loop [bus_ops]: "bus_only g w0 w \<Longrightarrow> keeps (bus_only g) w0 (swab_loop dst src k w)"
proof (induction k arbitrary: dst src w)
  case (Suc k)
  show ?case unfolding swab_loop.simps by (rule frame_intros bus_ops Suc | assumption)+
qed (simp add: keeps_def)

lemma bus_loop_result:
  assumes "spi_transfer_loop os swap sb mc h tr buf len w = Some (r, w')" and "bus_only g w w"
  shows "bus_only g w w'"
proof -
  let ?P = "\<lambda>o1 swap sb mc h tr buf len w x. o1 = os \<longrightarrow> bus_only g w w \<longrightarrow> bus_only g w (snd x)"
  have "?P os swap sb mc h tr buf len w (r, w')"
  proof (rule spi_transfer_loop.raw_induct [where P = ?P, OF _ assms(1)], goal_cases)
    case (1 loop o1 swap sb mc h tr buf len w x)
    have ih: "keeps (bus_only g) w0 (loop os swap sb mc h tr buf len w)" if "bus_only g w0 w"
      for w0 swap sb mc h tr buf len w
      using 1(1) that by (intro keepsI) (metis bus_only_self bus_only_trans snd_conv)
    obtain r w' where x: "x = (r, w')" by (cases x)
    show ?case
      unfolding x snd_conv
      by (rule impI, rule impI, rule keepsD [OF _ 1(2) [unfolded x]], hypsubst)
        (rule frame_intros bus_ops ih | assumption | hypsubst)+
  qed
  then show ?thesis using assms(2) by simp
qed

lemma bus_transfer_loop [bus_ops]:
  "bus_only g w0 w \<Longrightarrow> keeps (bus_only g) w0 (spi_transfer_loop os swap sb mc h tr buf len w)"
  by (intro keepsI) (metis bus_loop_result bus_only_self bus_only_trans)

lemma bus_transfer [bus_ops]:
  "bus_only g w0 w \<Longrightarrow> keeps (bus_only g) w0 (tinydrm_spi_transfer os sp h bpw buf len sb mc w)"
  unfolding tinydrm_spi_transfer_def by (rule frame_intros bus_ops | assumption | hypsubst)+

lemma bus_get_tx_buf [bus_ops]: "bus_only g w0 w \<Longrightarrow> keeps (bus_only g) w0 (utinydrm_get_tx_buf os len w)"
  unfolding utinydrm_get_tx_buf_def utinydrm_create_dmabuf_def bo_create_dumb_def sys_mmap_def
  by (rule frame_intros bus_ops | assumption | hypsubst)+

lemma bus_gather [bus_ops]: "bus_only g w0 w \<Longrightarrow> keeps (bus_only g) w0 (mipi_dbi_spi3_gather_write os p n q k w)"
  unfolding mipi_dbi_spi3_gather_write_def by (rule frame_intros bus_ops | assumption | hypsubst)+

lemma bus_write3 [bus_ops]: "bus_only g w0 w \<Longrightarrow> keeps (bus_only g) w0 (mipi_dbi_spi3_write os p n w)"
  unfolding mipi_dbi_spi3_write_def by (rule frame_intros bus_ops | assumption | hypsubst)+

lemma bus_read3 [bus_ops]: "bus_only g w0 w \<Longrightarrow> keeps (bus_only g) w0 (mipi_dbi_spi3_read os p n q k w)"
  unfolding mipi_dbi_spi3_read_def by (rule frame_intros bus_ops | assumption | hypsubst)+

lemma bus_flag_mask_loop [bus_ops]: "bus_only g w0 w \<Longrightarrow> keeps (bus_only g) w0 (flag_mask_loop p fm i k w)"
proof (induction k arbitrary: i w)
  case (Suc k)
  show ?case unfolding flag_mask_loop.simps by (rule frame_intros bus_ops Suc | assumption)+
qed (simp add: keeps_def)

lemma bus_format [bus_ops]:
  "bus_only g w0 w \<Longrightarrow> keeps (bus_only g) w0 (call_format (Some regmap_format_8) p v s w)"
  unfolding call_format_def regmap_format_8_def option.case by (rule bus_ops)

lemma bus_flag_mask [bus_ops]:
  "bus_only g w0 w \<Longrightarrow> keeps (bus_only g) w0 (regmap_set_work_buf_flag_mask m k fm w)"
  unfolding regmap_set_work_buf_flag_mask_def by (rule frame_intros bus_ops | assumption)+

section \<open>The panel\<close>

lemma ready_bus_only: "bus3_ready os fd m wb w \<Longrightarrow> bus_only fd w w"
  by (auto simp: bus3_ready_def inv3_def intro: bus_only_refl)

lemma ready_bus:
  "bus3_ready os fd m wb w \<Longrightarrow> bus m = Some (mipi_dbi_regmap_bus3 os)"
  "bus3_ready os fd m wb w \<Longrightarrow> format_reg m = Some regmap_format_8"
  by (simp_all add: bus3_ready_def rm_shape_def)

lemma ready_write:
  assumes "bus3_ready os fd m wb w" and "bus_only g w0 v"
  shows "keeps (bus_only g) w0 (mipi_dbi_write os m cmd ps v)"
  unfolding mipi_dbi_write_def mipi_dbi_write_buf_def regmap_raw_write_def regmap_raw_write_work_def
    call_write_def ready_bus [OF assms(1)] mipi_dbi_regmap_bus3_def regmap_bus.simps option.case
  by (rule frame_intros bus_ops assms(2) | assumption | hypsubst)+

lemma ready_display_is_on:
  assumes "bus3_ready os fd m wb w" and "bus_only g w0 v"
  shows "keeps (bus_only g) w0 (mipi_dbi_display_is_on os m v)"
  unfolding mipi_dbi_display_is_on_def regmap_raw_read_def regmap_raw_read_bus_def
    ready_bus [OF assms(1)] mipi_dbi_regmap_bus3_def regmap_bus.simps option.case
  by (rule frame_intros bus_ops assms(2) | assumption | hypsubst)+

lemma pins_bus_only: "list_all (bus_ev fd) es \<Longrightarrow> pins fd l es = map Bus (snd (run3 fd l es))"
  by (induction fd l es rule: pins.induct) (auto simp: bus_ev_def split: prod.splits)

text \<open>A step of the panel that only uses the bus does at the pins what the display receives.\<close>

lemma did_bus:
  assumes "panel_step os fd m wb xs w w'" and "bus_only fd w w'"
  shows "did fd w w' (map Bus xs)"
proof -
  obtain es where es: "trace w' = trace w @ es" "list_all (bus_ev fd) es"
    using assms(2) by (auto simp: bus_only_def)
  then have "\<forall>l. snd (run3 fd l es) = xs"
    using assms(1) by (auto simp: panel_step_def shows3_def new_evs_def)
  then show ?thesis using es unfolding did_def by (metis pins_bus_only)
qed

text \<open>A step that leaves the panel set up, with what happens at the pins.\<close>

definition pin_step :: "os \<Rightarrow> int \<Rightarrow> regmap \<Rightarrow> nat \<Rightarrow> pin_item list \<Rightarrow> state \<Rightarrow> state \<Rightarrow> bool" where
  "pin_step os fd m wb ps w w' \<longleftrightarrow> bus3_ready os fd m wb w' \<and> same_dev w w' \<and> did fd w w' ps"

lemma pin_stepI: "panel_step os fd m wb xs w w' \<Longrightarrow> did fd w w' ps \<Longrightarrow> pin_step os fd m wb ps w w'"
  by (simp add: pin_step_def panel_step_ready panel_step_dev)

lemma pin_step_ready: "pin_step os fd m wb ps w w' \<Longrightarrow> bus3_ready os fd m wb w'"
  by (simp add: pin_step_def)

lemma pin_step_trans:
  "pin_step os fd m wb ps w w' \<Longrightarrow> pin_step os fd m wb qs w' w'' \<Longrightarrow> pin_step os fd m wb (ps @ qs) w w''"
  unfolding pin_step_def using did_trans same_dev_trans by blast

lemma pin_cmd:
  assumes "bus3_ready os fd m wb w" and "plain_cmd c"
  obtains w' where "mipi_dbi_write os m (ucast c) ps w = Some (0, w')"
    "pin_step os fd m wb (map Bus (Cmd c # map Dat ps)) w w'"
proof -
  obtain w' where w': "mipi_dbi_write os m (ucast c) ps w = Some (0, w')"
    "panel_step os fd m wb (Cmd c # map Dat ps) w w'"
    using panel_cmd [OF assms] by (auto elim!: wpE)
  have "bus_only fd w w'" using keepsD [OF ready_write [OF assms(1) ready_bus_only [OF assms(1)]] w'(1)] .
  with that w' did_bus pin_stepI show thesis by blast
qed

lemma pin_cmds:
  assumes "bus3_ready os fd m wb w" and "\<forall>(c, ps) \<in> set cs. plain_cmd (ucast c) \<and> c = ucast (ucast c :: u8)"
  shows "\<exists>w'. write_all os m cs w = Some ((), w') \<and> pin_step os fd m wb (map Bus (cmd_items cs)) w w'"
  using assms
proof (induction cs arbitrary: w)
  case Nil
  then show ?case by (simp add: pin_step_def did_def exI [of _ "[]"])
next
  case (Cons x cs)
  obtain c ps where x: "x = (c, ps)" by (cases x)
  have c: "plain_cmd (ucast c)" "ucast (ucast c :: u8) = c" using Cons.prems(2) x by auto
  obtain w1 where w1: "mipi_dbi_write os m c ps w = Some (0, w1)"
    "pin_step os fd m wb (map Bus (Cmd (ucast c) # map Dat ps)) w w1"
    using pin_cmd [OF Cons.prems(1) c(1)] unfolding c(2) by metis
  obtain w2 where w2: "write_all os m cs w1 = Some ((), w2)" "pin_step os fd m wb (map Bus (cmd_items cs)) w1 w2"
    using Cons.IH [OF pin_step_ready [OF w1(2)]] Cons.prems(2) by auto
  show ?case using w1(1) w2(1) pin_step_trans [OF w1(2) w2(2)] x by auto
qed

lemma pin_display_is_on:
  assumes "bus3_ready os fd m wb w"
  obtains h w' where "mipi_dbi_display_is_on os m w = Some (power_mode_on (os_rx os h 0), w')"
    "pin_step os fd m wb [Bus (Cmd 0x0A)] w w'"
proof -
  obtain h w' where w': "mipi_dbi_display_is_on os m w = Some (power_mode_on (os_rx os h 0), w')"
    "panel_step os fd m wb [Cmd 0x0A] w w'"
    using display_is_on_ok [OF assms] by blast
  have "bus_only fd w w'"
    using keepsD [OF ready_display_is_on [OF assms ready_bus_only [OF assms]] w'(1)] .
  with that w' did_bus [OF w'(2)] pin_stepI show thesis by force
qed

lemma pin_sleep:
  assumes "bus3_ready os fd m wb w"
  obtains w' where "msleep n w = Some ((), w')" "pin_step os fd m wb [Wait (n * 1000)] w w'"
proof -
  let ?e = "Ev_usleep (n * 1000)"
  have "msleep n w = Some ((), log_ev ?e w)" by (simp add: msleep_def usleep_def)
  moreover have "panel_step os fd m wb [] w (log_ev ?e w)" using panel_step_log [OF assms, of "[?e]"] by simp
  moreover have "did fd w (log_ev ?e w) [Wait (n * 1000)]" by (rule did_log) simp
  ultimately show thesis using that pin_stepI by blast
qed

text \<open>The pulse on the reset line.\<close>

definition reset_pulse :: "gpio_desc option \<Rightarrow> pin_item list" where
  "reset_pulse r = (case r of None \<Rightarrow> []
     | Some d \<Rightarrow> [Line (gpio_fd d) ''0'', Wait 20000, Line (gpio_fd d) ''1'', Wait 120000])"

lemma pin_hw_reset:
  assumes "bus3_ready os fd m wb w"
  obtains w' where "mipi_dbi_hw_reset os w = Some ((), w')"
    "pin_step os fd m wb (reset_pulse (reset_gpio (mipi w))) w w'"
proof (cases "reset_gpio (mipi w)")
  case None
  then show ?thesis
    using that assms by (simp add: mipi_dbi_hw_reset_def reset_pulse_def pin_step_def did_def exI [of _ "[]"])
next
  case (Some d)
  let ?es = "[Ev_write (gpio_fd d) ''0'', Ev_usleep 20000, Ev_write (gpio_fd d) ''1'', Ev_usleep 120000]"
  have "os_good os" "gpio_fd d \<noteq> fd" using assms Some by (simp_all add: bus3_ready_def inv3_def spi_ready_def)
  then have "mipi_dbi_hw_reset os w = Some ((), log_evs ?es w)" "panel_step os fd m wb [] w (log_evs ?es w)"
    "did fd w (log_evs ?es w) (reset_pulse (reset_gpio (mipi w)))"
    using Some panel_step_log [OF assms, of ?es]
    by (simp_all add: mipi_dbi_hw_reset_def gpiod_set_value_ok msleep_def usleep_def reset_pulse_def did_log)
  then show ?thesis using that pin_stepI by blast
qed

text \<open>Turning the panel on, when the display says that it is off.\<close>

definition panel_on_pins :: "gpio_desc option \<Rightarrow> u32 \<Rightarrow> pin_item list" where
  "panel_on_pins r rot = [Bus (Cmd 0x0A)] @ reset_pulse r @ [Bus (Cmd 0x01), Wait 20000] @
     map Bus (cmd_items (mi0283qt_setup_cmds rot)) @ [Wait 100000, Bus (Cmd 0x29), Wait 100000]"

lemma enable_pins_on:
  assumes "bus3_ready os fd m wb w" and "\<not> prepared w" and "\<And>h. power_mode_on (os_rx os h 0)"
  shows "\<exists>w'. mi0283qt_enable os m w = Some ((), w'\<lparr>prepared := True\<rparr>) \<and> did fd w w' [Bus (Cmd 0x0A)]"
proof -
  obtain h w1 where "mipi_dbi_display_is_on os m w = Some (power_mode_on (os_rx os h 0), w1)"
    "pin_step os fd m wb [Bus (Cmd 0x0A)] w w1"
    by (rule pin_display_is_on [OF assms(1)])
  then show ?thesis using assms(2,3) by (intro exI [of _ w1]) (simp add: mi0283qt_enable_def pin_step_def)
qed

lemma enable_pins_off:
  assumes "bus3_ready os fd m wb w" and "\<not> prepared w" and "\<And>h. \<not> power_mode_on (os_rx os h 0)"
  shows "\<exists>w'. mi0283qt_enable os m w = Some ((), w'\<lparr>prepared := True\<rparr>) \<and>
    did fd w w' (panel_on_pins (reset_gpio (mipi w)) (rotation (mipi w)))"
proof -
  obtain h w1 where w1: "mipi_dbi_display_is_on os m w = Some (power_mode_on (os_rx os h 0), w1)"
    "pin_step os fd m wb [Bus (Cmd 0x0A)] w w1"
    by (rule pin_display_is_on [OF assms(1)])
  obtain w2 where w2: "mipi_dbi_hw_reset os w1 = Some ((), w2)"
    "pin_step os fd m wb (reset_pulse (reset_gpio (mipi w1))) w1 w2"
    by (rule pin_hw_reset [OF pin_step_ready [OF w1(2)]])
  have pl: "plain_cmd 1" "plain_cmd 0x29" by (simp_all add: plain_cmd_def)
  obtain w3 where w3: "mipi_dbi_write os m 1 [] w2 = Some (0, w3)" "pin_step os fd m wb [Bus (Cmd 1)] w2 w3"
    using pin_cmd [OF pin_step_ready [OF w2(2)] pl(1), of "[]"] by auto
  obtain w4 where w4: "msleep 20 w3 = Some ((), w4)" "pin_step os fd m wb [Wait (20 * 1000)] w3 w4"
    by (rule pin_sleep [OF pin_step_ready [OF w3(2)]])
  let ?cs = "mi0283qt_setup_cmds (rotation (mipi w4))"
  obtain w5 where w5: "write_all os m ?cs w4 = Some ((), w5)" "pin_step os fd m wb (map Bus (cmd_items ?cs)) w4 w5"
    using pin_cmds [OF pin_step_ready [OF w4(2)] setup_cmds_plain] by blast
  obtain w6 where w6: "msleep 100 w5 = Some ((), w6)" "pin_step os fd m wb [Wait (100 * 1000)] w5 w6"
    by (rule pin_sleep [OF pin_step_ready [OF w5(2)]])
  obtain w7 where w7: "mipi_dbi_write os m 0x29 [] w6 = Some (0, w7)" "pin_step os fd m wb [Bus (Cmd 0x29)] w6 w7"
    using pin_cmd [OF pin_step_ready [OF w6(2)] pl(2), of "[]"] by auto
  obtain w8 where w8: "msleep 100 w7 = Some ((), w8)" "pin_step os fd m wb [Wait (100 * 1000)] w7 w8"
    by (rule pin_sleep [OF pin_step_ready [OF w7(2)]])
  note t4 = pin_step_trans [OF pin_step_trans [OF pin_step_trans [OF w1(2) w2(2)] w3(2)] w4(2)]
  note t8 = pin_step_trans [OF pin_step_trans [OF pin_step_trans [OF pin_step_trans [OF t4 w5(2)] w6(2)] w7(2)] w8(2)]
  have "mipi w1 = mipi w" "mipi w4 = mipi w"
    using w1(2) t4 same_devD(2) unfolding pin_step_def by blast+
  then have "did fd w w8 (panel_on_pins (reset_gpio (mipi w)) (rotation (mipi w)))"
    using t8 by (simp add: pin_step_def panel_on_pins_def)
  moreover have "mi0283qt_enable os m w = Some ((), w8\<lparr>prepared := True\<rparr>)"
    using assms(2,3) w1(1) w2(1) w3(1) w4(1) w5(1) w6(1) w7(1) w8(1) by (simp add: mi0283qt_enable_def)
  ultimately show ?thesis by blast
qed

text \<open>Turning the pipe off.\<close>

lemma pipe_off_pins:
  assumes r: "bus3_ready os fd m wb w" and bl: "backlight (mipi w) = Some d"
  shows "\<exists>w'. mipi_dbi_pipe_disable os m w = Some ((), w') \<and> bus3_ready os fd m wb w' \<and>
    \<not> enabled w' \<and> \<not> prepared w' \<and>
    did fd w w' ((if enabled w then [Line (gpio_fd d) ''0''] else []) @
      (if prepared w then [Bus (Cmd 0x28), Bus (Cmd 0x10)] else []))"
proof -
  let ?es = "if enabled w then [Ev_write (gpio_fd d) ''0''] else []"
  let ?w1 = "(log_evs ?es w)\<lparr>enabled := False\<rparr>"
  have good: "os_good os" "gpio_fd d \<noteq> fd" using r bl by (simp_all add: bus3_ready_def inv3_def spi_ready_def)
  have off: "(if enabled w then (if backlight (mipi w) \<noteq> None
        then tinydrm_disable_backlight os (backlight (mipi w)) w
        else if \<not> regulator (mipi w) then mipi_dbi_blank os m w else Some ((), w))
      else Some ((), w)) = Some ((), log_evs ?es w)"
    using bl good(1) by (simp add: tinydrm_disable_backlight_def gpiod_set_value_ok)
  have d1: "did fd w ?w1 (if enabled w then [Line (gpio_fd d) ''0''] else [])"
    using good(2) by (simp add: did_log)
  have "panel_step os fd m wb [] w (log_evs ?es w)" by (rule panel_step_log [OF r]) (simp add: good(2))
  then have r1: "bus3_ready os fd m wb ?w1" using panel_step_ready by force
  show ?thesis
  proof (cases "prepared w")
    case False
    have "mipi_dbi_pipe_disable os m w = Some ((), ?w1\<lparr>prepared := False\<rparr>)"
      using off False unfolding mipi_dbi_pipe_disable_def by (simp add: prepared_same)
    then show ?thesis using r1 d1 False by (intro exI [of _ "?w1\<lparr>prepared := False\<rparr>"]) simp
  next
    case True
    have pl: "plain_cmd 0x28" "plain_cmd 0x10" by (simp_all add: plain_cmd_def)
    obtain w2 where w2: "mipi_dbi_write os m 0x28 [] ?w1 = Some (0, w2)" "pin_step os fd m wb [Bus (Cmd 0x28)] ?w1 w2"
      using pin_cmd [OF r1 pl(1), of "[]"] by auto
    obtain w3 where w3: "mipi_dbi_write os m 0x10 [] w2 = Some (0, w3)" "pin_step os fd m wb [Bus (Cmd 0x10)] w2 w3"
      using pin_cmd [OF pin_step_ready [OF w2(2)] pl(2), of "[]"] by auto
    note t = pin_step_trans [OF w2(2) w3(2)]
    have "mipi_dbi_pipe_disable os m w = Some ((), w3\<lparr>prepared := False\<rparr>)"
      using off True bl w2(1) w3(1) unfolding mipi_dbi_pipe_disable_def by simp
    moreover have "did fd w w3 ((if enabled w then [Line (gpio_fd d) ''0''] else []) @ [Bus (Cmd 0x28)] @ [Bus (Cmd 0x10)])"
      by (rule did_trans [OF d1]) (use t in \<open>simp add: pin_step_def\<close>)
    moreover have "\<not> enabled w3" using t same_devD(5) by (fastforce simp: pin_step_def)
    ultimately show ?thesis
      using pin_step_ready [OF t] True by (intro exI [of _ "w3\<lparr>prepared := False\<rparr>"]) simp
  qed
qed

text \<open>The bytes of the set-up commands of a panel that is not rotated.\<close>

definition panel_bytes :: "item list" where
  "panel_bytes = [
    Cmd 0x28, Cmd 0xcf, Dat 0x00, Dat 0x83, Dat 0x30, Cmd 0xed, Dat 0x64, Dat 0x03, Dat 0x12,
    Dat 0x81, Cmd 0xe8, Dat 0x85, Dat 0x01, Dat 0x79, Cmd 0xcb, Dat 0x39, Dat 0x2c, Dat 0x00,
    Dat 0x34, Dat 0x02, Cmd 0xf7, Dat 0x20, Cmd 0xea, Dat 0x00, Dat 0x00, Cmd 0xc0, Dat 0x26,
    Cmd 0xc1, Dat 0x11, Cmd 0xc5, Dat 0x35, Dat 0x3e, Cmd 0xc7, Dat 0xbe, Cmd 0x3A, Dat 0x55,
    Cmd 0x36, Dat 0xE8, Cmd 0xb1, Dat 0x00, Dat 0x1b, Cmd 0xf2, Dat 0x08, Cmd 0x26, Dat 0x01,
    Cmd 0xe0, Dat 0x1f, Dat 0x1a, Dat 0x18, Dat 0x0a, Dat 0x0f, Dat 0x06, Dat 0x45, Dat 0x87,
    Dat 0x32, Dat 0x0a, Dat 0x07, Dat 0x02, Dat 0x07, Dat 0x05, Dat 0x00, Cmd 0xe1, Dat 0x00,
    Dat 0x25, Dat 0x27, Dat 0x05, Dat 0x10, Dat 0x09, Dat 0x3a, Dat 0x78, Dat 0x4d, Dat 0x05,
    Dat 0x18, Dat 0x0d, Dat 0x38, Dat 0x3a, Dat 0x1f, Cmd 0xb7, Dat 0x07, Cmd 0xb6, Dat 0x0a,
    Dat 0x82, Dat 0x27, Dat 0x00, Cmd 0x11]"

lemma setup_items_0: "cmd_items (mi0283qt_setup_cmds 0) = panel_bytes"
proof -
  have "mi0283qt_addr_mode 0 = 0xE8" by code_simp
  then show ?thesis by (simp add: mi0283qt_setup_cmds_def panel_bytes_def)
qed

end
