(* ===== verification/Safe.thy ===== *)
theory Safe
  imports Service_Props
begin

text \<open>
  Absence of undefined outcomes for every operating system, failing calls included. Which accesses
  to memory are defined depends on the lengths of the blocks only, so the theory follows the
  lengths: \<open>held w p n\<close> says that \<open>n\<close> bytes at \<open>p\<close> can be read and written, and
  \<open>steady w w'\<close> that a call keeps the lengths of all blocks it has not made itself, the SPI device,
  and the list of framebuffers. The lemmas
  show, operation by operation, that the code has a result and is steady (\<open>runs\<close>).
\<close>

section \<open>Lengths of blocks\<close>

definition blk_len :: "state \<Rightarrow> nat \<Rightarrow> nat option" where
  "blk_len w b = map_option length (mem w b)"

fun held :: "state \<Rightarrow> ptr \<Rightarrow> nat \<Rightarrow> bool" where
  "held w Null n \<longleftrightarrow> n = 0"
| "held w (Ptr b i) n \<longleftrightarrow> b < nblk w \<and> (case blk_len w b of None \<Rightarrow> False | Some k \<Rightarrow> i + n \<le> k)"

definition no_err :: "state \<Rightarrow> bool" where
  "no_err w \<longleftrightarrow> (\<forall>e. tx_buf w \<noteq> PErr e)"

definition steady :: "state \<Rightarrow> state \<Rightarrow> bool" where
  "steady w w' \<longleftrightarrow> nblk w \<le> nblk w' \<and> (\<forall>b < nblk w. blk_len w' b = blk_len w b) \<and>
     spi w' = spi w \<and> fbs w' = fbs w \<and>
     (mspi w')\<lparr>ms_tx_buf := Null\<rparr> = (mspi w)\<lparr>ms_tx_buf := Null\<rparr> \<and> (no_err w \<longrightarrow> no_err w')"

text \<open>\<open>runs w0 m\<close>: the code \<open>m\<close> has a result, and the state it leaves is steady from \<open>w0\<close>.\<close>

definition runs :: "state \<Rightarrow> ('a \<times> state) option \<Rightarrow> bool" where
  "runs w0 m \<longleftrightarrow> wp m (\<lambda>r w. steady w0 w)"

named_theorems runs_intros \<open>rules that follow the structure of an operation that runs\<close>

lemma steady_refl [simp]: "steady w w"
  by (simp add: steady_def)

lemma steady_trans: "steady w w' \<Longrightarrow> steady w' w'' \<Longrightarrow> steady w w''"
  unfolding steady_def by (metis order_less_le_trans order_trans)

lemma steady_dev:
  assumes "steady w w'"
  shows "spi w' = spi w" "fbs w' = fbs w" "ms_dc (mspi w') = ms_dc (mspi w)"
    "chunk_size (mspi w') = chunk_size (mspi w)"
proof -
  have "(mspi w')\<lparr>ms_tx_buf := Null\<rparr> = (mspi w)\<lparr>ms_tx_buf := Null\<rparr>"
    using assms by (simp add: steady_def)
  then show "ms_dc (mspi w') = ms_dc (mspi w)" "chunk_size (mspi w') = chunk_size (mspi w)"
    by (cases "mspi w"; cases "mspi w'"; simp)+
qed (use assms in \<open>simp_all add: steady_def\<close>)

lemma steady_no_err: "steady w w' \<Longrightarrow> no_err w \<Longrightarrow> no_err w'"
  by (simp add: steady_def)

lemma steady_nblk: "steady w w' \<Longrightarrow> nblk w \<le> nblk w'"
  by (simp add: steady_def)

lemma held_steady: "held w p n \<Longrightarrow> steady w w' \<Longrightarrow> held w' p n"
  by (cases p) (auto simp: steady_def)

lemma held_split: "held w p (k + n) \<Longrightarrow> held w p k \<and> held w (padd p k) n"
  by (cases p) (auto split: option.splits)

lemma held_le: "held w p k \<Longrightarrow> n \<le> k \<Longrightarrow> held w p n"
  by (cases p) (auto split: option.splits)

lemma held_drop: "held w p n \<Longrightarrow> k \<le> n \<Longrightarrow> held w (padd p k) (n - k)"
  using held_split [of w p k "n - k"] by simp

lemma blk_len_simps [simp]:
  "blk_len (log_evs es w) = blk_len w" "blk_len (w\<lparr>errno := e\<rparr>) = blk_len w"
  "blk_len (w\<lparr>tx_buf := t\<rparr>) = blk_len w" "blk_len (w\<lparr>mspi := x\<rparr>) = blk_len w"
  "blk_len (w\<lparr>nblk := k\<rparr>) = blk_len w" "blk_len (w\<lparr>trace := h\<rparr>) = blk_len w"
  "blk_len (w\<lparr>prepared := y\<rparr>) = blk_len w" "blk_len (w\<lparr>enabled := y\<rparr>) = blk_len w"
  "blk_len (w\<lparr>plane_fb := z\<rparr>) = blk_len w" "blk_len (w\<lparr>fbs := us\<rparr>) = blk_len w"
  "blk_len (w\<lparr>mem := mm\<rparr>) b = map_option length (mm b)"
  by (simp_all add: blk_len_def fun_eq_iff)

lemma no_err_simps [simp]:
  "no_err (log_evs es w) = no_err w" "no_err (w\<lparr>errno := e\<rparr>) = no_err w"
  "no_err (w\<lparr>mem := mm\<rparr>) = no_err w" "no_err (w\<lparr>mspi := x\<rparr>) = no_err w"
  "no_err (w\<lparr>nblk := k\<rparr>) = no_err w" "no_err (w\<lparr>trace := h\<rparr>) = no_err w"
  "no_err (w\<lparr>prepared := y\<rparr>) = no_err w" "no_err (w\<lparr>enabled := y\<rparr>) = no_err w"
  "no_err (w\<lparr>plane_fb := z\<rparr>) = no_err w" "no_err (w\<lparr>fbs := us\<rparr>) = no_err w"
  by (simp_all add: no_err_def)

section \<open>Rules\<close>

lemma runs_Some [runs_intros]: "steady w0 w \<Longrightarrow> runs w0 (Some (r, w))"
  by (simp add: runs_def)

lemma runs_from: "steady w0 w \<Longrightarrow> runs w m \<Longrightarrow> runs w0 m"
  unfolding runs_def by (erule wp_weaken) (rule steady_trans)

lemma runsE:
  assumes "runs w0 m"
  obtains r w where "m = Some (r, w)" and "steady w0 w"
  using assms by (auto simp: runs_def elim: wpE)

lemma runs_bind [runs_intros]:
  "runs w0 m \<Longrightarrow> (\<And>r w. steady w0 w \<Longrightarrow> runs w0 (f (r, w))) \<Longrightarrow> runs w0 (m \<bind> f)"
  by (auto elim!: runsE)

text \<open>A step from a state in the middle, whose own blocks it keeps.\<close>

lemma runs_step:
  "steady w0 w1 \<Longrightarrow> runs w1 m \<Longrightarrow> (\<And>r w. steady w0 w \<Longrightarrow> steady w1 w \<Longrightarrow> runs w0 (f (r, w))) \<Longrightarrow>
   runs w0 (m \<bind> f)"
  using steady_trans by (auto elim!: runsE)

lemma runs_if [runs_intros]:
  "(b \<Longrightarrow> runs w0 m) \<Longrightarrow> (\<not> b \<Longrightarrow> runs w0 n) \<Longrightarrow> runs w0 (if b then m else n)"
  by simp

lemma runs_Let [runs_intros]: "(\<And>x. x = v \<Longrightarrow> runs w0 (f x)) \<Longrightarrow> runs w0 (Let v f)"
  by simp

lemma runs_pair [runs_intros]: "runs w0 (f a b) \<Longrightarrow> runs w0 (case (a, b) of (x, y) \<Rightarrow> f x y)"
  by simp

lemma runs_prod [runs_intros]:
  "(\<And>a b. p = (a, b) \<Longrightarrow> runs w0 (f a b)) \<Longrightarrow> runs w0 (case p of (x, y) \<Rightarrow> f x y)"
  by (cases p) simp

lemma runs_load:
  assumes "held w p n" and "\<And>bs. load w p n = Some bs \<Longrightarrow> length bs = n \<Longrightarrow> runs w0 (f bs)"
  shows "runs w0 (load w p n \<bind> f)"
proof -
  obtain bs where bs: "load w p n = Some bs"
    using assms(1) by (cases p) (auto simp: blk_len_def split: option.splits)
  with assms(2) load_0_len [OF bs] show ?thesis by simp
qed

section \<open>The machine\<close>

lemma steady_upds [runs_intros]:
  "steady w0 w \<Longrightarrow> steady w0 (log_evs es w)" "steady w0 w \<Longrightarrow> steady w0 (w\<lparr>errno := e\<rparr>)"
  "steady w0 w \<Longrightarrow> steady w0 (w\<lparr>mspi := (mspi w)\<lparr>ms_tx_buf := p\<rparr>\<rparr>)"
  "steady w0 w \<Longrightarrow> steady w0 (w\<lparr>prepared := y\<rparr>)" "steady w0 w \<Longrightarrow> steady w0 (w\<lparr>enabled := y\<rparr>)"
  "steady w0 w \<Longrightarrow> steady w0 (w\<lparr>plane_fb := z\<rparr>)"
  by (simp_all add: steady_def)

lemma runs_syscall [runs_intros]: "steady w0 w \<Longrightarrow> runs w0 (syscall os e w)"
  by (simp add: syscall_def Let_def runs_Some steady_upds)

lemma runs_usleep [runs_intros]: "steady w0 w \<Longrightarrow> runs w0 (usleep n w)" "steady w0 w \<Longrightarrow> runs w0 (msleep n w)"
  by (simp_all add: usleep_def msleep_def runs_Some steady_upds)

lemma runs_store:
  assumes "held w p (length bs)" and "steady w0 w"
  shows "runs w0 (store p bs w)"
proof (rule runs_from [OF assms(2)], cases p)
  case (Ptr b i)
  then obtain old where old: "mem w b = Some old" "i + length bs \<le> length old"
    using assms(1) by (auto simp: blk_len_def split: option.splits)
  let ?w = "w\<lparr>mem := (mem w)(b \<mapsto> take i old @ bs @ drop (i + length bs) old)\<rparr>"
  have "blk_len ?w c = blk_len w c" for c using old by (simp add: blk_len_def)
  then have "steady w ?w" by (simp add: steady_def)
  then show "runs w (store p bs w)" using Ptr old by (simp add: runs_Some)
qed (use assms(1) in \<open>simp add: runs_Some\<close>)

lemma runs_memcpy:
  assumes "held w p n" and "held w q n" and "steady w0 w"
  shows "runs w0 (memcpy p q n w)"
  unfolding memcpy_def using assms by (intro runs_load runs_store) auto

lemma steady_new: "steady w (w\<lparr>mem := (mem w)(nblk w \<mapsto> bs), nblk := Suc (nblk w)\<rparr>)"
  by (simp add: steady_def blk_len_def)

text \<open>A new block is held, and not one of those before.\<close>

lemma runs_alloc:
  assumes "steady w0 w" and "\<And>h. length (content h) = n"
    and "\<And>w1. steady w0 w1 \<Longrightarrow> runs w0 (f (Null, w1))"
    and "\<And>w1 b. steady w0 w1 \<Longrightarrow> steady w w1 \<Longrightarrow> held w1 (Ptr b 0) n \<Longrightarrow> nblk w \<le> b \<Longrightarrow> runs w0 (f (Ptr b 0, w1))"
  shows "runs w0 (alloc os n content w \<bind> f)"
proof (cases "os_alloc os (trace w @ [Ev_alloc n])")
  case False
  have "steady w0 ((log_ev (Ev_alloc n) w)\<lparr>errno := ENOMEM\<rparr>)" using assms(1) by (intro steady_upds)
  from assms(3) [OF this] False show ?thesis by (simp add: alloc_def Let_def)
next
  case True
  let ?w = "log_ev (Ev_alloc n) w"
  let ?w1 = "?w\<lparr>mem := (mem ?w)(nblk ?w \<mapsto> content (trace ?w)), nblk := Suc (nblk ?w)\<rparr>"
  have "steady w ?w" by (intro steady_upds steady_refl)
  then have s: "steady w ?w1" using steady_new steady_trans by blast
  have "held ?w1 (Ptr (nblk w) 0) n" using assms(2) by (simp add: blk_len_def)
  from assms(4) [OF steady_trans [OF assms(1) s] s this] True show ?thesis
    by (simp add: alloc_def Let_def new_block_def)
qed

lemma runs_kzalloc:
  assumes "steady w0 w" and "\<And>w1. steady w0 w1 \<Longrightarrow> runs w0 (f w1)"
    and "\<And>w1 b. steady w0 w1 \<Longrightarrow> held w1 (Ptr b 0) n \<Longrightarrow> nblk w \<le> b \<Longrightarrow> runs w0 (g (Ptr b 0) w1)"
  shows "runs w0 (kzalloc os n w \<bind> (\<lambda>(p, w). if p = Null then f w else g p w))"
  unfolding kzalloc_def by (rule runs_alloc [OF assms(1)]) (simp_all add: assms)

lemma runs_kmalloc:
  assumes "steady w0 w" and "\<And>w1. steady w0 w1 \<Longrightarrow> runs w0 (f w1)"
    and "\<And>w1 b. steady w0 w1 \<Longrightarrow> held w1 (Ptr b 0) n \<Longrightarrow> nblk w \<le> b \<Longrightarrow> runs w0 (g (Ptr b 0) w1)"
  shows "runs w0 (kmalloc os n w \<bind> (\<lambda>(p, w). if p = Null then f w else g p w))"
  unfolding kmalloc_def by (rule runs_alloc [OF assms(1)]) (simp_all add: assms)

lemma runs_kmalloc_plain: "steady w0 w \<Longrightarrow> runs w0 (kmalloc os n w)"
  using runs_alloc [of w0 w "\<lambda>h. map (os_junk os h) [0..<n]" n Some os] by (simp add: kmalloc_def runs_Some)

lemma runs_new_block:
  assumes "steady w0 w"
    and "\<And>w1 b. steady w0 w1 \<Longrightarrow> steady w w1 \<Longrightarrow> held w1 (Ptr b 0) (length bs) \<Longrightarrow> nblk w \<le> b \<Longrightarrow> runs w0 (f (Ptr b 0, w1))"
  shows "runs w0 (new_block bs w \<bind> f)"
  using assms(2) [OF steady_trans [OF assms(1) steady_new] steady_new, of bs "nblk w"]
  by (simp add: new_block_def blk_len_def)

lemma steady_drop: "steady w0 w \<Longrightarrow> nblk w0 \<le> b \<Longrightarrow> steady w0 (w\<lparr>mem := (mem w)(b := None)\<rparr>)"
  by (auto simp: steady_def blk_len_def)

lemma runs_drop_block: "steady w0 w \<Longrightarrow> nblk w0 \<le> b \<Longrightarrow> runs w0 (drop_block (Ptr b i) w)"
  by (simp add: runs_Some steady_drop)

lemma runs_kfree:
  assumes "steady w0 w" and "held w (Ptr b 0) n" and "nblk w0 \<le> b"
  shows "runs w0 (kfree (Ptr b 0) w)"
proof -
  have "mem w b \<noteq> None" using assms(2) by (auto simp: blk_len_def split: option.splits)
  then show ?thesis using steady_drop [OF assms(1,3)] by (simp add: runs_Some steady_upds)
qed

lemma runs_kfree_Null [runs_intros]: "steady w0 w \<Longrightarrow> runs w0 (kfree Null w)"
  by (simp add: runs_Some)

section \<open>The SPI core\<close>

text \<open>A device whose messages can be sent.\<close>

definition sendable :: "state \<Rightarrow> bool" where
  "sendable w \<longleftrightarrow> drvdata (spi w) \<and> no_err w \<and> tinydrm_spi_bpw_supported (spi w) 16 \<and>
     0 < chunk_size (mspi w) \<and> ms_dc (mspi w) \<noteq> None"

lemma sendable_steady:
  assumes "sendable w" and "steady w w'"
  shows "sendable w'"
  using assms(1) steady_dev [OF assms(2)] steady_no_err [OF assms(2)]
  by (simp add: sendable_def)

text \<open>The user buffers of the transfers of a message are held.\<close>

definition ioc_held :: "state \<Rightarrow> ioc_xfer \<Rightarrow> bool" where
  "ioc_held w x \<longleftrightarrow> (ioc_tx_buf x = Null \<or> held w (ioc_tx_buf x) (ioc_len x)) \<and>
     (ioc_rx_buf x = Null \<or> held w (ioc_rx_buf x) (ioc_len x))"

lemma ioc_held_steady: "ioc_held w x \<Longrightarrow> steady w w' \<Longrightarrow> ioc_held w' x"
  unfolding ioc_held_def using held_steady by blast

lemma held_load: "held w p n \<Longrightarrow> \<exists>bs. load w p n = Some bs"
  by (cases p) (auto simp: blk_len_def split: option.splits)

lemma payloads_held: "\<forall>x \<in> set utr. ioc_held w x \<Longrightarrow> \<exists>bss. payloads w utr = Some bss"
  by (induction utr) (auto simp: ioc_held_def dest!: held_load)

lemma runs_store_rx: "steady w0 w \<Longrightarrow> \<forall>x \<in> set utr. ioc_held w x \<Longrightarrow> runs w0 (store_rx f utr w)"
proof (induction utr arbitrary: f w)
  case (Cons x utr)
  show ?case
  proof (cases "ioc_rx_buf x = Null")
    case True
    then show ?thesis using Cons by simp
  next
    case False
    then have h: "held w (ioc_rx_buf x) (length (map f [0..<ioc_len x]))"
      using Cons.prems by (simp add: ioc_held_def)
    obtain w1 where w1: "store (ioc_rx_buf x) (map f [0..<ioc_len x]) w = Some ((), w1)" "steady w w1"
      using runs_store [OF h steady_refl] by (auto elim: runsE)
    have "\<forall>y \<in> set utr. ioc_held w1 y" using Cons.prems(2) w1(2) ioc_held_steady by auto
    with Cons.IH [OF steady_trans [OF Cons.prems(1) w1(2)]] w1(1) False show ?thesis by simp
  qed
qed (simp add: runs_Some)

lemma runs_spi_ioctl:
  assumes "steady w0 w" and "\<forall>x \<in> set utr. ioc_held w x"
  shows "runs w0 (spi_ioctl os fd utr w)"
proof -
  obtain bss where p: "payloads w utr = Some bss" using payloads_held [OF assms(2)] by blast
  obtain r w1 where w1: "syscall os (Ev_spi fd utr bss) w = Some (r, w1)" "steady w w1"
    using runs_syscall [OF steady_refl] by (rule runsE)
  have s: "steady w0 w1" using steady_trans [OF assms(1) w1(2)] .
  have h: "\<forall>x \<in> set utr. ioc_held w1 x" using assms(2) ioc_held_steady [OF _ w1(2)] by blast
  have "runs w0 (if 1 \<le> r then store_rx (os_rx os (trace w1)) utr w1 else Some ((), w1))"
    using s h by (simp add: runs_store_rx runs_Some)
  then show ?thesis using p w1(1) unfolding spi_ioctl_def by (auto elim!: runsE intro: runs_Some)
qed

lemma runs_spi_ioc_message:
  assumes "steady w0 w" and "\<forall>x \<in> set utr. ioc_held w x"
  shows "runs w0 (spi_ioc_message os utr w)"
  unfolding spi_ioc_message_def
  by (rule runs_step [OF assms(1) runs_syscall [OF steady_refl]])
    (rule runs_intros runs_spi_ioctl | assumption | use assms(2) ioc_held_steady in blast)+

lemma runs_spi_sync_send:
  assumes "steady w0 w" and "ioc_held w u" and "\<And>t ts. rest = t # ts \<Longrightarrow> ioc_held w (spi_ioc_second t)"
  shows "runs w0 (spi_sync_send os u rest w)"
proof -
  define u' where "u' = (if ioc_speed_hz u = 0 then u\<lparr>ioc_speed_hz := max_speed_hz (spi w)\<rparr> else u)"
  let ?utr = "case rest of [] \<Rightarrow> [u'] | tr2 # _ \<Rightarrow> [u', spi_ioc_second tr2]"
  have "ioc_held w u'" using assms(2) by (simp add: u'_def ioc_held_def)
  then have h: "\<forall>x \<in> set ?utr. ioc_held w x" using assms(3) by (cases rest) simp_all
  show ?thesis
    unfolding spi_sync_send_def u'_def [symmetric] Let_def
    by (rule runs_step [OF assms(1) runs_syscall [OF steady_refl]])
      (rule runs_intros runs_spi_ioctl | assumption | use h ioc_held_steady in blast)+
qed

lemma runs_spi_buf_loop: "steady w0 w \<Longrightarrow> runs w0 (spi_buf_loop os fd speed off len w)"
proof (induction len arbitrary: off w rule: less_induct)
  case (less len)
  show ?case
  proof (cases "len = 0")
    case True
    then show ?thesis using less.prems by (simp add: spi_buf_loop.simps runs_Some)
  next
    case False
    then have "len - kmin len spi_buf_max_chunk < len" by simp
    note ih = less.IH [OF this]
    have h: "ioc_held w (buf_xfer fd speed off k)" for k by (simp add: ioc_held_def buf_xfer_def)
    show ?thesis
      using False
      by (subst spi_buf_loop.simps)
        (rule runs_intros runs_spi_ioc_message ih less.prems | assumption | hypsubst | (simp add: h; fail))+
  qed
qed

text \<open>
  A message whose first transfer has a held buffer, and whose second, if there is one, a held
  receive buffer.
\<close>

definition msg_held :: "state \<Rightarrow> spi_transfer list \<Rightarrow> bool" where
  "msg_held w m \<longleftrightarrow> (\<exists>t ts. m = t # ts \<and> held w (tr_tx_buf t) (tr_len t) \<and>
     (\<forall>t2 us. ts = t2 # us \<longrightarrow> held w (tr_rx_buf t2) (tr_len t2)))"

lemma runs_spi_sync:
  assumes "steady w0 w" and "sendable w" and "msg_held w m"
  shows "runs w0 (spi_sync os m w)"
proof -
  obtain t ts where m: "m = t # ts" "held w (tr_tx_buf t) (tr_len t)"
    "\<And>t2 us. ts = t2 # us \<Longrightarrow> held w (tr_rx_buf t2) (tr_len t2)"
    using assms(3) by (auto simp: msg_held_def)
  have h2: "ioc_held w (spi_ioc_second t2)" if "ts = t2 # us" for t2 us
    using m(3) [OF that] by (simp add: ioc_held_def spi_ioc_second_def)
  have dev: "drvdata (spi w)" "no_err w" using assms(2) by (simp_all add: sendable_def)
  have send: "runs w0 (do { (ret, w) \<leftarrow> spi_sync_send os u ts w; Some ((ret, m), w) })"
    if "ioc_tx_buf u = Null \<or> u = spi_ioc_first t" "ioc_rx_buf u = Null" for u
  proof -
    have "ioc_held w u" using that m(2) by (auto simp: ioc_held_def spi_ioc_first_def)
    then show ?thesis
      using h2 by (auto intro!: runs_intros runs_spi_sync_send assms(1))
  qed
  have rx: "ioc_rx_buf (spi_ioc_first t) = Null" by (simp add: spi_ioc_first_def)
  show ?thesis
  proof (cases "find (\<lambda>u. ptr_in (tr_tx_buf t) (fb_map u) (fb_map_size u)) (fbs w)")
    case (Some u)
    have "runs w0 (spi_buf_transfer os tr (udev_buf_fd w) w)" for tr
      unfolding spi_buf_transfer_def using assms(1) by (rule runs_spi_buf_loop)
    then show ?thesis
      using Some m(1) dev send [of "(spi_ioc_first t)\<lparr>ioc_tx_buf := Null, ioc_tx_dma_fd := fb_buf_fd u,
          ioc_dma_offset := ptr_diff (tr_tx_buf t) (fb_map u)\<rparr>"] rx
      by (auto simp: spi_sync_def Let_def intro!: runs_intros)
  next
    case None
    show ?thesis
    proof (cases "tx_buf w")
      case PNull
      then show ?thesis using None m(1) dev send [of "spi_ioc_first t"] rx by (simp add: spi_sync_def)
    next
      case (PErr e)
      then show ?thesis using dev by (simp add: no_err_def)
    next
      case (PObj d)
      then show ?thesis
        using None m(1) dev send [of "spi_ioc_first t"] rx
          send [of "(spi_ioc_first t)\<lparr>ioc_tx_buf := Null, ioc_tx_dma_fd := dm_fd d,
            ioc_dma_offset := ptr_diff (tr_tx_buf t) (dm_map d)\<rparr>"]
        by (simp add: spi_sync_def)
    qed
  qed
qed

text \<open>The loop over the chunks of a held buffer, without byte swapping.\<close>

lemma runs_spi_transfer_loop:
  assumes "steady w0 w" and "sendable w" and "held w buf len" and "0 < mc"
  shows "runs w0 (spi_transfer_loop os False sb mc None tr buf len w)"
  using assms
proof (induction len arbitrary: tr buf w rule: less_induct)
  case (less len)
  note pr = less.prems
  show ?case
  proof (cases "len = 0")
    case True
    then show ?thesis using pr(1) by (simp add: spi_transfer_loop.simps runs_Some)
  next
    case False
    let ?c = "min len mc"
    let ?tr = "tr\<lparr>tr_tx_buf := buf, tr_len := ?c\<rparr>"
    have lt: "len - ?c < len" using False pr(4) by simp
    have h: "held w buf ?c" "held w (padd buf ?c) (len - ?c)"
      using pr(3) held_le held_drop by simp_all
    have "msg_held w [?tr]" using h(1) by (simp add: msg_held_def)
    from runs_spi_sync [OF steady_refl pr(2) this] obtain r w1
      where w1: "spi_sync os [?tr] w = Some (r, w1)" "steady w w1" by (rule runsE)
    obtain ret m where r: "r = (ret, m)" by (cases r)
    have s: "steady w0 w1" using steady_trans [OF pr(1) w1(2)] .
    have "runs w0 (spi_transfer_loop os False sb mc None (last m) (padd buf ?c) (len - ?c) w1)"
      using less.IH [OF lt s sendable_steady [OF pr(2) w1(2)] held_steady [OF h(2) w1(2)] pr(4)] .
    then show ?thesis
      using False w1(1) s r by (subst spi_transfer_loop.simps) (simp add: runs_Some Let_def)
  qed
qed

lemma runs_tinydrm_spi_transfer:
  assumes "steady w0 w" and "sendable w" and "held w buf len" and "0 < mc"
  shows "runs w0 (tinydrm_spi_transfer os speed None bpw buf len sb mc w)"
proof -
  have "\<not> (bpw = 16 \<and> \<not> tinydrm_spi_bpw_supported (spi w) 16)" using assms(2) by (simp add: sendable_def)
  then show ?thesis
    using runs_spi_transfer_loop [OF assms] assms(1)
    by (auto simp: tinydrm_spi_transfer_def Let_def runs_Some)
qed

lemma runs_gpiod_set_value [runs_intros]: "steady w0 w \<Longrightarrow> runs w0 (gpiod_set_value_cansleep os d v w)"
  unfolding gpiod_set_value_cansleep_def by (rule runs_intros | assumption)+

lemma runs_set_dc: "steady w0 w \<Longrightarrow> sendable w \<Longrightarrow> runs w0 (set_dc os v w)"
  by (auto simp: set_dc_def sendable_def intro: runs_gpiod_set_value)

section \<open>The DMA buffer\<close>

text \<open>
  The one thing that may not fail: making the global DMA buffer. Its two structures are
  allocated, and the three calls that make, export and map it succeed.
\<close>

definition dma_works :: "os \<Rightarrow> bool" where
  "dma_works os \<longleftrightarrow> (\<forall>h. os_alloc os (h @ [Ev_alloc 16]) \<and> os_alloc os (h @ [Ev_alloc 24])) \<and>
     (\<forall>h fd x y z. os_ret os (h @ [Ev_create_dumb fd x y z]) = 0) \<and>
     (\<forall>h fd x. os_ret os (h @ [Ev_prime_to_fd fd x 2]) \<noteq> - 1) \<and>
     (\<forall>h fd n. os_ret os (h @ [Ev_mmap fd n 3]) \<noteq> - 1)"

lemma syscall_any: "\<exists>w'. syscall os e w = Some (os_ret os (trace w @ [e]), w') \<and> steady w w'"
  by (auto simp: syscall_def Let_def intro!: steady_upds)

lemma kzalloc_dma:
  assumes "dma_works os" and "n = 16 \<or> n = 24"
  shows "\<exists>b w'. kzalloc os n w = Some (Ptr b 0, w') \<and> steady w w' \<and> trace w' = trace w @ [Ev_alloc n]"
proof -
  have a: "os_alloc os (trace w @ [Ev_alloc n])" using assms by (auto simp: dma_works_def)
  have "runs w (kzalloc os n w)" 
    using a by (auto simp: kzalloc_def alloc_def Let_def new_block_def runs_def
        intro: steady_trans [OF steady_upds(1) [OF steady_refl, of w "[Ev_alloc n]"]] steady_new [where w = "log_ev (Ev_alloc n) w", simplified])
  with a show ?thesis
    by (auto simp: kzalloc_def alloc_def Let_def new_block_def runs_def)
qed

lemma sys_mmap_steady:
  assumes "os_ret os (trace w @ [Ev_mmap fd n pr]) \<noteq> - 1"
  shows "\<exists>b w'. sys_mmap os fd n pr w = Some (Ptr b 0, w') \<and> steady w w'"
proof -
  obtain w1 where w1: "syscall os (Ev_mmap fd n pr) w = Some (os_ret os (trace w @ [Ev_mmap fd n pr]), w1)"
    "steady w w1" using syscall_any by blast
  from w1 assms steady_trans [OF w1(2) steady_new] show ?thesis
    by (simp add: sys_mmap_def new_block_def)
qed

lemma create_dmabuf_works:
  assumes "dma_works os"
  shows "\<exists>d w'. utinydrm_create_dmabuf os fd x y z w = Some (PObj d, w') \<and> steady w w'"
proof -
  obtain p w1 where w1: "kzalloc os 16 w = Some (Ptr p 0, w1)" "steady w w1"
    using kzalloc_dma [OF assms] by blast
  obtain q w2 where w2: "kzalloc os 24 w1 = Some (Ptr q 0, w2)" "steady w1 w2"
    using kzalloc_dma [OF assms] by blast
  obtain w3 where w3: "syscall os (Ev_create_dumb fd x y z) w2 = Some (0, w3)" "steady w2 w3"
    using syscall_any [of os "Ev_create_dumb fd x y z" w2] assms by (auto simp: dma_works_def)
  obtain hd1 pt n where od: "os_dumb os (trace w3) = (hd1, pt, n)" by (cases "os_dumb os (trace w3)")
  obtain r4 w4 where w4: "syscall os (Ev_prime_to_fd fd hd1 2) w3 = Some (r4, w4)" "r4 \<noteq> - 1" "steady w3 w4"
    using syscall_any [of os "Ev_prime_to_fd fd hd1 2" w3] assms by (auto simp: dma_works_def)
  let ?fd = "os_prime_fd os (trace w4)"
  obtain b w5 where w5: "sys_mmap os ?fd n 3 w4 = Some (Ptr b 0, w5)" "steady w4 w5"
    using sys_mmap_steady [of os w4 ?fd n 3] assms by (auto simp: dma_works_def)
  have "utinydrm_create_dmabuf os fd x y z w = Some (PObj \<lparr>dm_fd = ?fd, dm_map = Ptr b 0, dm_map_size = n\<rparr>, w5)"
    using w1(1) w2(1) w3(1) od w4(1,2) w5(1)
    by (simp add: utinydrm_create_dmabuf_def bo_create_dumb_def Let_def)
  moreover have "steady w w5" using w1 w2 w3 w4 w5 steady_trans by blast
  ultimately show ?thesis by blast
qed

lemma runs_get_tx_buf:
  assumes "dma_works os" and "steady w0 w"
  shows "runs w0 (utinydrm_get_tx_buf os len w)"
proof -
  obtain d w1 where w1: "utinydrm_create_dmabuf os (udev_control_fd w) 320 240 16 w = Some (PObj d, w1)"
    "steady w w1" using create_dmabuf_works [OF assms(1)] by blast
  have "steady w1 (w1\<lparr>tx_buf := PObj d\<rparr>)" by (simp add: steady_def no_err_def)
  then have "steady w0 (w1\<lparr>tx_buf := PObj d\<rparr>)" using assms(2) w1(2) steady_trans by blast
  with w1(1) assms(2) show ?thesis by (simp add: utinydrm_get_tx_buf_def runs_Some)
qed

section \<open>Interface option 3\<close>

lemma sendable_mspi [simp]: "sendable (w\<lparr>mspi := (mspi w)\<lparr>ms_tx_buf := p\<rparr>\<rparr>) = sendable w"
  by (simp add: sendable_def)

lemma sendable_chunk: "sendable w \<Longrightarrow> 0 < unat (chunk_size (mspi w))"
  by (simp add: sendable_def unat_gt_0 word_gt_0)

lemma runs_spi3_gather_write:
  assumes "dma_works os" and "steady w0 w" and "sendable w" and "held w p 1" and "held w q n"
  shows "runs w0 (mipi_dbi_spi3_gather_write os p 1 q n w)"
proof -
  have "runs w (spi3_prep os w)"
    unfolding spi3_prep_def
    by (rule runs_intros runs_get_tx_buf [OF assms(1)] steady_refl | assumption)+
  then obtain w1 where w1: "spi3_prep os w = Some ((), w1)" "steady w w1" by (auto elim: runsE)
  have h1: "held w1 p 1" "held w1 q n" "sendable w1"
    using assms(3-5) w1(2) held_steady sendable_steady by blast+
  have send: "runs w1 (tinydrm_spi_transfer os 0 None bpw r k (ms_tx_buf (mspi w')) (unat (chunk_size (mspi w'))) w')"
    if "steady w1 w'" "held w1 r k" for w' bpw r k
    using that runs_tinydrm_spi_transfer [OF that(1) _ _ sendable_chunk] held_steady
      sendable_steady [OF h1(3)] by blast
  have dc: "runs w1 (set_dc os v w')" if "steady w1 w'" for w' v
    using that runs_set_dc sendable_steady [OF h1(3)] by blast
  have eq: "mipi_dbi_spi3_gather_write os p 1 q n w = (if ms_tx_buf (mspi w1) = Null then Some (- ENOMEM, w1) else do {
          r \<leftarrow> load w1 p 1;
          let val_width = reg_val_width (hd r) (ram_reg (mspi w1));
          (_, w) \<leftarrow> set_dc os 0 w1;
          (ret, w) \<leftarrow> tinydrm_spi_transfer os 0 None 8 p 1 (ms_tx_buf (mspi w))
                       (unat (chunk_size (mspi w))) w;
          if ret \<noteq> 0 then Some (ret, w)
          else if q \<noteq> Null \<and> n \<noteq> 0
          then do {
            (_, w) \<leftarrow> set_dc os 1 w;
            tinydrm_spi_transfer os 0 None (of_nat val_width) q n (ms_tx_buf (mspi w))
              (unat (chunk_size (mspi w))) w }
          else Some (ret, w) })"
    using w1(1) unfolding mipi_dbi_spi3_gather_write_def spi3_prep_def by simp
  show ?thesis
    unfolding eq
    by (rule runs_from [OF steady_trans [OF assms(2) w1(2)]])
      (rule runs_intros runs_load [OF h1(1)] dc send h1(1,2) steady_refl | assumption)+
qed

lemma runs_spi3_write:
  assumes "dma_works os" and "steady w0 w" and "sendable w" and "held w p (Suc n)"
  shows "runs w0 (mipi_dbi_spi3_write os p (Suc n) w)"
proof -
  have "held w p 1 \<and> held w (padd p 1) n" using assms(4) held_split [of w p 1 n] by simp
  then show ?thesis
    using runs_spi3_gather_write [OF assms(1-3), of p "padd p 1" n]
    by (simp add: mipi_dbi_spi3_write_def size_pred_def)
qed

lemma runs_spi3_read:
  assumes "steady w0 w" and "sendable w" and "held w p 1" and "held w q n"
  shows "runs w0 (mipi_dbi_spi3_read os p 1 q n w)"
proof (rule runs_from [OF assms(1)])
  let ?rd = "\<lambda>dummy rx_len speed_hz buf w. do {
         (_, w) \<leftarrow> set_dc os 0 w;
         let m = spi_message_init_with_transfers
                   [zero_transfer\<lparr>tr_speed_hz := speed_hz, tr_tx_buf := p, tr_len := 1\<rparr>,
                    zero_transfer\<lparr>tr_speed_hz := speed_hz, tr_len := rx_len, tr_rx_buf := buf\<rparr>];
         ((ret, m), w) \<leftarrow> spi_sync os m w;
         bs \<leftarrow> load w buf rx_len;
         (_, w) \<leftarrow> store q (if dummy then shift_reply bs else bs) w;
         (_, w) \<leftarrow> kfree buf w;
         Some (ret, w) }"
  have rd: "runs w (?rd dummy (if dummy then n + 1 else n) sp (Ptr b 0) w1)"
    if w1: "steady w w1" "held w1 (Ptr b 0) (if dummy then n + 1 else n)" "nblk w \<le> b"
    for dummy sp b w1
  proof -
    let ?k = "if dummy then n + 1 else n"
    have len: "length (shift_reply bs) = n" if "length bs = n + 1" for bs
      using that by (induction bs arbitrary: n rule: shift_reply.induct) auto
    have s: "sendable w'" "held w' p 1" "held w' q n" if "steady w w'" for w'
      using that assms(2-4) sendable_steady held_steady by blast+
    let ?m = "[zero_transfer\<lparr>tr_speed_hz := sp, tr_tx_buf := p, tr_len := 1\<rparr>,
       zero_transfer\<lparr>tr_speed_hz := sp, tr_len := ?k, tr_rx_buf := Ptr b 0\<rparr>]"
    obtain w2 where w2: "set_dc os 0 w1 = Some ((), w2)" "steady w1 w2"
      using runs_set_dc [OF steady_refl s(1) [OF w1(1)], of os 0] by (auto elim: runsE)
    note t2 = steady_trans [OF w1(1) w2(2)]
    have h2: "held w2 (Ptr b 0) ?k" using w1(2) w2(2) by (rule held_steady)
    have "msg_held w2 ?m" using h2 s(2) [OF t2] by (simp add: msg_held_def)
    from runs_spi_sync [OF steady_refl s(1) [OF t2] this] obtain r w3
      where w3: "spi_sync os ?m w2 = Some (r, w3)" "steady w2 w3" by (rule runsE)
    note t3 = steady_trans [OF t2 w3(2)]
    have h3: "held w3 (Ptr b 0) ?k" using h2 w3(2) by (rule held_steady)
    then obtain bs where bs: "load w3 (Ptr b 0) ?k = Some bs" using held_load by blast
    let ?bs = "if dummy then shift_reply bs else bs"
    have "length ?bs = n" using load_0_len [OF bs] len by simp
    then have "held w3 q (length ?bs)" using s(3) [OF t3] by simp
    from runs_store [OF this steady_refl] obtain w4
      where w4: "store q ?bs w3 = Some ((), w4)" "steady w3 w4" by (auto elim: runsE)
    note t4 = steady_trans [OF t3 w4(2)]
    have "runs w (kfree (Ptr b 0) w4)" using runs_kfree [OF t4 held_steady [OF h3 w4(2)] w1(3)] .
    then show ?thesis
      using w2(1) w3(1) bs w4(1)
      by (cases r) (auto simp: spi_message_init_with_transfers_def elim!: runsE intro: runs_Some
          simp del: kfree.simps store.simps load.simps)
  qed
  show "runs w (mipi_dbi_spi3_read os p 1 q n w)"
    unfolding mipi_dbi_spi3_read_def
    by (hypsubst | rule runs_load [OF assms(3)] runs_kmalloc [OF steady_refl] rd runs_intros steady_refl
        | assumption)+
qed

end
