(* ===== verification/Safe_Panel.thy ===== *)
theory Safe_Panel
  imports Safe
begin

text \<open>
  Absence of undefined outcomes, continued: the register map over any bus whose functions run
  (locale \<open>safe_bus\<close>), the commands, the flush of a framebuffer, and turning the panel on and off.
  The locale is interpreted on interface option 3.
\<close>

section \<open>Framebuffers\<close>

text \<open>A framebuffer of a size the panel can show, mapped with all the pixels that are read.\<close>

definition fb_sound :: "nat \<Rightarrow> utinydrm_fb \<Rightarrow> state \<Rightarrow> bool" where
  "fb_sound wb u w \<longleftrightarrow>
     fb_size_ok (fb_width u) (fb_height u) \<and>
     (\<exists>c. fb_map u = Ptr c 0 \<and> c \<noteq> wb \<and> held w (Ptr c 0) 0 \<and>
       (fb_format u = DRM_FORMAT_RGB565 \<longrightarrow> held w (Ptr c 0) (unat (fb_width u) * unat (fb_height u) * 2)) \<and>
       (fb_format u = DRM_FORMAT_XRGB8888 \<longrightarrow> held w (Ptr c 0) (unat (fb_width u) * unat (fb_height u) * 4)))"

lemma fb_sound_steady: "fb_sound wb u w \<Longrightarrow> steady w w' \<Longrightarrow> fb_sound wb u w'"
  unfolding fb_sound_def using held_steady by blast

text \<open>The pixels of a rectangle are in the framebuffer.\<close>

lemma clip_start_565:
  assumes c: "clip_in W H c" and s: "unat W * unat H * 2 \<le> 153600"
  shows "unat (ucast (y1 c) * clip_width c * 2) = clip_start c * 2"
proof -
  have "clip_start c \<le> 76800" using clip_area_fits(4) [OF c s] s by linarith
  moreover from this have "unat (ucast (y1 c) * clip_width c) = clip_start c"
    using unat_u32_mult [of "ucast (y1 c)" "clip_width c" 153600] clip_dims(1) [OF c]
    by (simp add: clip_start_def)
  ultimately show ?thesis
    using unat_u32_mult [of "ucast (y1 c) * clip_width c" 2 307200] by simp
qed

lemma clip_held:
  assumes c: "clip_in W H c" and s: "unat W * unat H * 2 \<le> 153600"
    and h: "held w (Ptr b 0) (unat W * unat H * k)"
  shows "held w (Ptr b (clip_start c * k)) (clip_area c * k)"
proof -
  have "(clip_start c + clip_area c) * k \<le> unat W * unat H * k"
    using clip_area_fits(4) [OF c s] by (rule mult_le_mono1)
  then have "clip_start c * k + clip_area c * k \<le> unat W * unat H * k" by (simp only: add_mult_distrib)
  from held_split [OF held_le [OF h this]] show ?thesis by simp
qed

lemma runs_xrgb: "steady w0 w \<Longrightarrow> held w src (4 * n) \<Longrightarrow> held w dst (2 * n) \<Longrightarrow>
    runs w0 (tinydrm_xrgb8888_to_rgb565 src dst n w)"
proof (induction n arbitrary: src dst w)
  case (Suc n)
  have h: "held w src 4" "held w (padd src 4) (4 * n)" "held w dst 2" "held w (padd dst 2) (2 * n)"
    using held_split [of w src 4 "4 * n"] held_split [of w dst 2 "2 * n"] Suc.prems(2,3) by simp_all
  obtain bs where bs: "load w src 4 = Some bs" using held_load [OF h(1)] by blast
  have "held w dst (length (le16 (xrgb_pixel (get_unaligned_le32 bs))))" using h(3) by simp
  from runs_store [OF this steady_refl] obtain w1
    where w1: "store dst (le16 (xrgb_pixel (get_unaligned_le32 bs))) w = Some ((), w1)" "steady w w1"
    by (auto elim: runsE)
  have "runs w0 (tinydrm_xrgb8888_to_rgb565 (padd src 4) (padd dst 2) n w1)"
    using Suc.IH [OF steady_trans [OF Suc.prems(1) w1(2)] held_steady [OF h(2) w1(2)] held_steady [OF h(4) w1(2)]] .
  then show ?case using bs w1(1) by simp
qed (simp add: runs_Some)

section \<open>The contract of a bus\<close>

locale safe_reader =
  fixes os :: os
    and b :: regmap_bus
    and rd :: bus_gather_fn
    and ok :: "state \<Rightarrow> bool"
  assumes rd_fn: "bus_read b = Some rd"
    and ok_steady: "ok w \<Longrightarrow> steady w w' \<Longrightarrow> ok w'"
    and rd_runs: "steady w0 w \<Longrightarrow> ok w \<Longrightarrow> held w p 1 \<Longrightarrow> held w q n \<Longrightarrow> runs w0 (rd p 1 q n w)"
begin

text \<open>The map can be used: it is the one of the driver, with its work buffer.\<close>

definition usable :: "regmap \<Rightarrow> nat \<Rightarrow> state \<Rightarrow> bool" where
  "usable m wb w \<longleftrightarrow> m = dbi_regmap b (Ptr wb 0) \<and> ok w \<and> held w (Ptr wb 0) 2"

lemma usable_steady: "usable m wb w \<Longrightarrow> steady w w' \<Longrightarrow> usable m wb w'"
  unfolding usable_def using ok_steady held_steady by blast

lemma usable_held: "usable m wb w \<Longrightarrow> n \<le> 2 \<Longrightarrow> held w (Ptr wb 0) n"
  unfolding usable_def using held_le by blast

lemma usable_wv: "usable m wb w \<Longrightarrow> held w (Ptr wb 1) 1"
  unfolding usable_def using held_split [of w "Ptr wb 0" 1 1] by (auto simp: numeral_2_eq_2)

lemma format_runs:
  assumes "steady w0 w" and "usable m wb w"
  shows "runs w0 (regmap_format_8 (Ptr wb 0) reg s w)"
  unfolding regmap_format_8_def using assms usable_held [OF assms(2), of 1]
  by (intro runs_store) simp_all

lemma raw_read_runs:
  assumes s: "steady w0 w" and u: "usable m wb w" and h: "held w q n"
  shows "runs w0 (regmap_raw_read m reg q n w)"
proof -
  have m: "m = dbi_regmap b (Ptr wb 0)" using u by (simp add: usable_def)
  obtain w1 where w1: "regmap_format_8 (Ptr wb 0) reg 0 w = Some ((), w1)" "steady w w1"
    using format_runs [OF steady_refl u, of reg 0] by (auto elim: runsE)
  have u1: "usable m wb w1" using usable_steady [OF u w1(2)] .
  have "runs w0 (rd (Ptr wb 0) 1 q n w1)"
    using rd_runs [OF steady_trans [OF s w1(2)] _ usable_held [OF u1] held_steady [OF h w1(2)]] u1
    by (simp add: usable_def)
  then have "runs w0 (regmap_raw_read_bus m reg q n w)"
    unfolding m using rd_fn w1(1)
    by (simp add: regmap_raw_read_bus_def dbi_regmap_def call_format_def regmap_set_work_buf_flag_mask_def)
  then show ?thesis
    unfolding regmap_raw_read_def Let_def using s rd_fn
    by (simp add: m dbi_regmap_def runs_Some)
qed

lemma display_is_on_runs:
  assumes s: "steady w0 w" and u: "usable m wb w"
  shows "runs w0 (mipi_dbi_display_is_on os m w)"
proof (rule runs_from [OF s])
  show "runs w (mipi_dbi_display_is_on os m w)"
    unfolding mipi_dbi_display_is_on_def
  proof (rule runs_new_block [OF steady_refl])
    fix w1 c assume c: "steady w w1" "steady w w1"
      "held w1 (Ptr c 0) (length [os_junk os (trace w) 0])" "nblk w \<le> c"
    then have h: "held w1 (Ptr c 0) 1" by simp
    obtain r w2 where w2: "regmap_raw_read m 0x0A (Ptr c 0) 1 w1 = Some (r, w2)" "steady w1 w2"
      using raw_read_runs [OF steady_refl usable_steady [OF u c(1)] h] by (rule runsE)
    obtain v where v: "load w2 (Ptr c 0) 1 = Some v"
      using held_load [OF held_steady [OF h w2(2)]] by blast
    have "runs w (drop_block (Ptr c 0) w2)" using runs_drop_block [OF steady_trans [OF c(1) w2(2)] c(4)] .
    then show "runs w (case (Ptr c 0, w1) of (val, w) \<Rightarrow> do {
       (ret, w) \<leftarrow> regmap_raw_read m MIPI_DCS_GET_POWER_MODE val 1 w;
       v \<leftarrow> load w val 1;
       (_, w) \<leftarrow> drop_block val w;
       Some (ret = 0 \<and> hd v AND NOT DCS_POWER_MODE_RESERVED_MASK = DCS_POWER_MODE_ON, w) })"
      using w2(1) v by (auto elim!: runsE intro: runs_Some simp del: load.simps)
  qed
qed

end

text \<open>A bus that can be written as well.\<close>

locale safe_bus = safe_reader +
  fixes wr :: bus_write_fn
    and ga :: bus_gather_fn
  assumes fns: "bus_write b = Some wr" "bus_gather_write b = Some ga"
    and wr_runs: "steady w0 w \<Longrightarrow> ok w \<Longrightarrow> held w p (Suc n) \<Longrightarrow> runs w0 (wr p (Suc n) w)"
    and ga_runs: "steady w0 w \<Longrightarrow> ok w \<Longrightarrow> held w p 1 \<Longrightarrow> held w q n \<Longrightarrow> runs w0 (ga p 1 q n w)"
begin

text \<open>Writing the value after the register number in the work buffer, or by a gathered write.\<close>

lemma raw_write_runs:
  assumes s: "steady w0 w" and u: "usable m wb w" and h: "held w q n"
  shows "runs w0 (regmap_raw_write os m reg q n w)"
proof -
  have m: "m = dbi_regmap b (Ptr wb 0)" using u by (simp add: usable_def)
  have us: "usable m wb w'" "held w' q n" if "steady w w'" for w'
    using that u h usable_steady held_steady by blast+
  let ?send = "\<lambda>v w. if v = Ptr wb 1 then wr (Ptr wb 0) (Suc n) w else ga (Ptr wb 0) 1 v n w"
  let ?fall = "\<lambda>v w. do {
       (buf, w) \<leftarrow> kzalloc os (Suc n) w;
       if buf = Null then Some (- ENOMEM, w)
       else do {
         (_, w) \<leftarrow> memcpy buf (Ptr wb 0) 1 w;
         (_, w) \<leftarrow> memcpy (padd buf 1) v n w;
         (ret, w) \<leftarrow> wr buf (Suc n) w;
         (_, w) \<leftarrow> kfree buf w;
         Some (ret, w) } }"
  have send: "runs w (?send v w1)" if w1: "steady w w1" and v: "held w1 v n" for v w1
  proof (cases "v = Ptr wb 1")
    case True
    then have "held w1 (Ptr wb 0) (Suc n)" using v by (auto split: option.splits)
    then show ?thesis using True wr_runs [OF w1] us(1) [OF w1] by (simp add: usable_def)
  next
    case False
    then show ?thesis
      using ga_runs [OF w1 _ usable_held [OF us(1) [OF w1]] v] us(1) [OF w1] by (simp add: usable_def)
  qed
  have fall: "runs w (?fall v w1)" if w1: "steady w w1" and v: "held w1 v n" for v w1
  proof (rule runs_from [OF w1], rule runs_kzalloc [OF steady_refl])
    fix w2 c assume c: "steady w1 w2" "held w2 (Ptr c 0) (Suc n)" "nblk w1 \<le> c"
    have t2: "steady w w2" using steady_trans [OF w1 c(1)] .
    have c1: "held w2 (Ptr c 0) 1" "held w2 (padd (Ptr c 0) 1) n"
      using held_split [of w2 "Ptr c 0" 1 n] c(2) by simp_all
    obtain w3 where w3: "memcpy (Ptr c 0) (Ptr wb 0) 1 w2 = Some ((), w3)" "steady w2 w3"
      using runs_memcpy [OF c1(1) usable_held [OF us(1) [OF t2]] steady_refl] by (auto elim: runsE)
    have v3: "held w3 v n" using v c(1) w3(2) held_steady by blast
    obtain w4 where w4: "memcpy (padd (Ptr c 0) 1) v n w3 = Some ((), w4)" "steady w3 w4"
      using runs_memcpy [OF held_steady [OF c1(2) w3(2)] v3 steady_refl] by (auto elim: runsE)
    have t4: "steady w2 w4" using steady_trans [OF w3(2) w4(2)] .
    have c4: "held w4 (Ptr c 0) (Suc n)" using held_steady [OF c(2) t4] .
    have "ok w4" using us(1) [OF steady_trans [OF t2 t4]] by (simp add: usable_def)
    from wr_runs [OF steady_refl this c4] obtain r w5
      where w5: "wr (Ptr c 0) (Suc n) w4 = Some (r, w5)" "steady w4 w5" by (rule runsE)
    have "runs w1 (kfree (Ptr c 0) w5)"
      using runs_kfree [OF _ held_steady [OF c4 w5(2)] c(3)] steady_trans c(1) t4 w5(2) by blast
    then show "runs w1 (do {
         (_, w) \<leftarrow> memcpy (Ptr c 0) (Ptr wb 0) 1 w2;
         (_, w) \<leftarrow> memcpy (padd (Ptr c 0) 1) v n w;
         (ret, w) \<leftarrow> wr (Ptr c 0) (Suc n) w;
         (_, w) \<leftarrow> kfree (Ptr c 0) w;
         Some (ret, w) })"
      using w3(1) w4(1) w5(1) by (auto elim!: runsE intro: runs_Some simp del: kfree.simps padd.simps)
  qed (rule runs_Some)
  have "runs w (do {
     (_, w) \<leftarrow> regmap_format_8 (Ptr wb 0) reg 0 w;
     (_, w) \<leftarrow> (if q \<noteq> Ptr wb 1 \<and> n = 1 then memcpy (Ptr wb 1) q 1 w else Some ((), w));
     (ret, w) \<leftarrow> ?send (if q \<noteq> Ptr wb 1 \<and> n = 1 then Ptr wb 1 else q) w;
     if ret = - ENOTSUPP then ?fall (if q \<noteq> Ptr wb 1 \<and> n = 1 then Ptr wb 1 else q) w
     else Some (ret, w) })" (is "runs w ?code")
  proof -
    let ?v = "if q \<noteq> Ptr wb 1 \<and> n = 1 then Ptr wb 1 else q"
    have v: "held w' ?v n" if "steady w w'" for w'
      using us [OF that] usable_wv by auto
    have cp: "runs w (if q \<noteq> Ptr wb 1 \<and> n = 1 then memcpy (Ptr wb 1) q 1 w' else Some ((), w'))"
      if "steady w w'" for w'
      using that us [OF that] usable_wv runs_memcpy by (auto intro: runs_Some)
    show ?thesis
      by (rule runs_intros format_runs [OF steady_refl u] cp send fall v | assumption)+
  qed
  moreover have "regmap_raw_write os m reg q n w = ?code"
    unfolding m using fns
    by (simp add: regmap_raw_write_def regmap_can_raw_write_def regmap_raw_write_work_def dbi_regmap_def
        call_format_def call_write_def regmap_set_work_buf_flag_mask_def Let_def cong: if_cong)
  ultimately have "runs w (regmap_raw_write os m reg q n w)" by (simp only:)
  then show ?thesis by (rule runs_from [OF s])
qed

section \<open>Commands\<close>

text \<open>An operation between the allocation of a block and its release.\<close>

lemma body_free:
  assumes "steady w w1" and "held w1 (Ptr c 0) n" and "nblk w \<le> c" and "runs w1 k"
  shows "runs w (do { (r, w) \<leftarrow> k; (_, w) \<leftarrow> kfree (Ptr c 0) w; Some (r, w) })"
proof -
  obtain r w2 where w2: "k = Some (r, w2)" "steady w1 w2" using assms(4) by (rule runsE)
  have "runs w (kfree (Ptr c 0) w2)"
    using runs_kfree [OF steady_trans [OF assms(1) w2(2)] held_steady [OF assms(2) w2(2)] assms(3)] .
  then show ?thesis using w2(1) by (auto elim!: runsE intro: runs_Some simp del: kfree.simps)
qed

lemma write_buf_runs:
  assumes s: "steady w0 w" and u: "usable m wb w" and h: "held w q n"
  shows "runs w0 (mipi_dbi_write_buf os m cmd q n w)"
proof (rule runs_from [OF s])
  have body: "runs w (do {
       (_, w) \<leftarrow> memcpy (Ptr c 0) q n w1;
       (ret, w) \<leftarrow> regmap_raw_write os m cmd (Ptr c 0) n w;
       (_, w) \<leftarrow> kfree (Ptr c 0) w;
       Some (ret, w) })"
    if c: "steady w w1" "held w1 (Ptr c 0) n" "nblk w \<le> c" for c w1
  proof -
    obtain w2 where w2: "memcpy (Ptr c 0) q n w1 = Some ((), w2)" "steady w1 w2"
      using runs_memcpy [OF c(2) held_steady [OF h c(1)] steady_refl] by (auto elim: runsE)
    have t2: "steady w w2" and h2: "held w2 (Ptr c 0) n"
      using steady_trans [OF c(1) w2(2)] held_steady [OF c(2) w2(2)] .
    show ?thesis
      using body_free [OF t2 h2 c(3) raw_write_runs [OF steady_refl usable_steady [OF u t2] h2]] w2(1) by simp
  qed
  show "runs w (mipi_dbi_write_buf os m cmd q n w)"
    unfolding mipi_dbi_write_buf_def
    by (rule runs_kmalloc [OF steady_refl]) (rule runs_Some body | assumption)+
qed

lemma write_runs:
  assumes s: "steady w0 w" and u: "usable m wb w"
  shows "runs w0 (mipi_dbi_write os m cmd ps w)"
proof (rule runs_from [OF s])
  show "runs w (mipi_dbi_write os m cmd ps w)"
    unfolding mipi_dbi_write_def
  proof (rule runs_new_block [OF steady_refl])
    fix w1 c assume c: "steady w w1" "steady w w1" "held w1 (Ptr c 0) (length ps)" "nblk w \<le> c"
    obtain r w2 where w2: "mipi_dbi_write_buf os m cmd (Ptr c 0) (length ps) w1 = Some (r, w2)" "steady w1 w2"
      using write_buf_runs [OF steady_refl usable_steady [OF u c(1)] c(3)] by (rule runsE)
    have "runs w (drop_block (Ptr c 0) w2)" using runs_drop_block [OF steady_trans [OF c(1) w2(2)] c(4)] .
    then show "runs w (case (Ptr c 0, w1) of (d, w) \<Rightarrow> do {
         (ret, w) \<leftarrow> mipi_dbi_write_buf os m cmd d (length ps) w;
         (_, w) \<leftarrow> drop_block d w;
         Some (ret, w) })"
      using w2(1) by (auto elim!: runsE intro: runs_Some)
  qed
qed

lemma write_all_runs: "steady w0 w \<Longrightarrow> usable m wb w \<Longrightarrow> runs w0 (write_all os m cs w)"
proof (induction cs arbitrary: w)
  case (Cons x cs)
  obtain c ps where x: "x = (c, ps)" by (cases x)
  show ?case
    unfolding x write_all.simps
    by (rule runs_step [OF Cons.prems(1) write_runs [OF steady_refl Cons.prems(2)]])
      (use Cons usable_steady in auto)
qed (simp add: runs_Some)

section \<open>Flushing\<close>

lemma flush_runs_any:
  assumes s: "steady w0 w" and u: "usable m wb w" and f: "fb_sound wb fb w"
    and c: "clip_in (fb_width fb) (fb_height fb) c"
  shows "runs w0 (tinydrm_regmap_flush_rgb565 os m reg fb (fb_map fb) c w)"
proof (rule runs_from [OF s])
  obtain d where d: "fb_map fb = Ptr d 0"
    "fb_format fb = DRM_FORMAT_RGB565 \<Longrightarrow> held w (Ptr d 0) (unat (fb_width fb) * unat (fb_height fb) * 2)"
    "fb_format fb = DRM_FORMAT_XRGB8888 \<Longrightarrow> held w (Ptr d 0) (unat (fb_width fb) * unat (fb_height fb) * 4)"
    using f by (auto simp: fb_sound_def)
  have sz: "unat (fb_width fb) * unat (fb_height fb) * 2 \<le> 153600"
    using f by (simp add: fb_sound_def fb_size_ok_def)
  note a = clip_area_fits [OF c sz]
  let ?k = "clip_area c"
  show "runs w (tinydrm_regmap_flush_rgb565 os m reg fb (fb_map fb) c w)"
  proof (cases "fb_format fb")
    case DRM_FORMAT_RGB565
    have "runs w (regmap_raw_write os m reg (Ptr d (clip_start c * 2)) (?k * 2) w)"
      using raw_write_runs [OF steady_refl u clip_held [OF c sz d(2) [OF DRM_FORMAT_RGB565]]] .
    then show ?thesis
      using DRM_FORMAT_RGB565 d(1) a(2) clip_start_565 [OF c sz]
      by (auto simp: tinydrm_regmap_flush_rgb565_def Let_def elim!: runsE intro: runs_Some)
  next
    case DRM_FORMAT_XRGB8888
    let ?src = "Ptr d (clip_start c * 4)"
    have src: "held w ?src (4 * ?k)"
      using clip_held [OF c sz d(3) [OF DRM_FORMAT_XRGB8888]] by (simp only: mult.commute)
    have body: "runs w (do {
           (_, w) \<leftarrow> tinydrm_xrgb8888_to_rgb565 ?src (Ptr b1 0) ?k w1;
           (ret, w) \<leftarrow> regmap_raw_write os m reg (Ptr b1 0) (?k * 2) w;
           (_, w) \<leftarrow> kfree (Ptr b1 0) w;
           Some (ret, w) })"
      if w1: "steady w w1" "held w1 (Ptr b1 0) (?k * 2)" "nblk w \<le> b1" for w1 b1
    proof -
      obtain w2 where w2: "tinydrm_xrgb8888_to_rgb565 ?src (Ptr b1 0) ?k w1 = Some ((), w2)" "steady w1 w2"
        using runs_xrgb [OF steady_refl held_steady [OF src w1(1)], of "Ptr b1 0"] w1(2)
        by (auto simp: mult.commute elim: runsE)
      have t2: "steady w w2" and h2: "held w2 (Ptr b1 0) (?k * 2)"
        using steady_trans [OF w1(1) w2(2)] held_steady [OF w1(2) w2(2)] .
      show ?thesis
        using body_free [OF t2 h2 w1(3) raw_write_runs [OF steady_refl usable_steady [OF u t2] h2]] w2(1) by simp
    qed
    have eq: "tinydrm_regmap_flush_rgb565 os m reg fb (fb_map fb) c w = do {
             (buf, w) \<leftarrow> kzalloc os (?k * 2) w;
             if buf = Null then Some (- ENOMEM, w)
             else do {
               (_, w) \<leftarrow> tinydrm_xrgb8888_to_rgb565 ?src buf ?k w;
               (ret, w) \<leftarrow> regmap_raw_write os m reg buf (?k * 2) w;
               (_, w) \<leftarrow> kfree buf w;
               Some (ret, w) } }"
      using DRM_FORMAT_XRGB8888 d(1) a(1-3)
      by (simp add: tinydrm_regmap_flush_rgb565_def Let_def cong: if_cong)
    show ?thesis
      unfolding eq by (rule runs_kzalloc [OF steady_refl]) (rule runs_Some body | assumption)+
  qed (simp_all add: tinydrm_regmap_flush_rgb565_def Let_def runs_Some)
qed

lemma runs_enable_backlight [runs_intros]:
  "steady w0 w \<Longrightarrow> runs w0 (tinydrm_enable_backlight os bl w)"
  unfolding tinydrm_enable_backlight_def
  by (cases bl) (rule runs_intros | assumption | simp only: option.case)+

lemma runs_disable_backlight [runs_intros]:
  "steady w0 w \<Longrightarrow> runs w0 (tinydrm_disable_backlight os bl w)"
  unfolding tinydrm_disable_backlight_def
  by (cases bl) (rule runs_intros | assumption | simp only: option.case)+

lemma runs_enable_output [runs_intros]: "steady w0 w \<Longrightarrow> runs w0 (mipi_dbi_enable_output os w)"
  unfolding mipi_dbi_enable_output_def by (rule runs_intros | assumption)+

lemma fb_dirty_runs:
  assumes s: "steady w0 w" and u: "usable m wb w" and f: "fb_sound wb fb w"
    and e: "n \<le> length clips" "ann \<longrightarrow> even n"
  shows "runs w0 (mipi_dbi_fb_dirty os m fb ann color clips n w)"
proof (rule runs_from [OF s], cases "prepared w")
  case False
  then have "mipi_dbi_fb_dirty os m fb ann color clips n w = Some (0, w)"
    by (simp add: mipi_dbi_fb_dirty_def tinydrm_check_dirty_def)
  then show "runs w (mipi_dbi_fb_dirty os m fb ann color clips n w)" by (simp add: runs_Some)
next
  case True
  have sz: "fb_size_ok (fb_width fb) (fb_height fb)" using f by (simp add: fb_sound_def)
  obtain c where c: "tinydrm_merge_clips (if enabled w then Some clips else None)
      (if enabled w then n else 0) ann (fb_width fb) (fb_height fb) = Some c"
    "clip_in (fb_width fb) (fb_height fb) c"
    using merge_clips_runs [OF e sz, of "enabled w"] by blast
  obtain r1 w1 where w1: "mipi_dbi_write os m 0x2A (window_params (x1 c) (x2 c)) w = Some (r1, w1)" "steady w w1"
    using write_runs [OF steady_refl u] by (rule runsE)
  obtain r2 w2 where w2: "mipi_dbi_write os m 0x2B (window_params (y1 c) (y2 c)) w1 = Some (r2, w2)" "steady w1 w2"
    using write_runs [OF steady_refl usable_steady [OF u w1(2)]] by (rule runsE)
  note t2 = steady_trans [OF w1(2) w2(2)]
  obtain r3 w3 where w3: "tinydrm_regmap_flush_rgb565 os m 0x2C fb (fb_map fb) c w2 = Some (r3, w3)" "steady w2 w3"
    using flush_runs_any [OF steady_refl usable_steady [OF u t2] fb_sound_steady [OF f t2] c(2)] by (rule runsE)
  note t3 = steady_trans [OF t2 w3(2)]
  have ck: "tinydrm_check_dirty w (Some clips) n =
      (True, if enabled w then Some clips else None, if enabled w then n else 0)"
    using True by (simp add: tinydrm_check_dirty_def)
  have d: "mipi_dbi_fb_dirty os m fb ann color clips n w =
      (if r3 \<noteq> 0 then Some (r3, w3) else if \<not> enabled w3 then mipi_dbi_enable_output os w3 else Some (r3, w3))"
    using ck c(1) w1(1) w2(1) w3(1) by (simp add: mipi_dbi_fb_dirty_def)
  show "runs w (mipi_dbi_fb_dirty os m fb ann color clips n w)"
    unfolding d by (rule runs_intros t3)+
qed

section \<open>Turning the panel on and off\<close>

lemma blank_runs:
  assumes s: "steady w0 w" and u: "usable m wb w"
  shows "runs w0 (mipi_dbi_blank os m w)"
proof (rule runs_from [OF s])
  let ?n = "unat (word_of_int (min_height w * min_width w) * 2 :: u32)"
  show "runs w (mipi_dbi_blank os m w)"
  proof -
    have body: "runs w (do {
       (_, w) \<leftarrow> mipi_dbi_write os m MIPI_DCS_SET_COLUMN_ADDRESS ps w1;
       (_, w) \<leftarrow> mipi_dbi_write os m MIPI_DCS_SET_PAGE_ADDRESS qs w;
       (_, w) \<leftarrow> regmap_raw_write os m MIPI_DCS_WRITE_MEMORY_START (Ptr c 0) n w;
       kfree (Ptr c 0) w })" if c: "steady w w1" "held w1 (Ptr c 0) n" "nblk w \<le> c" for c w1 ps qs n
    proof -
      obtain r2 w2 where w2: "mipi_dbi_write os m 0x2A ps w1 = Some (r2, w2)" "steady w1 w2"
        using write_runs [OF steady_refl usable_steady [OF u c(1)]] by (rule runsE)
      note t2 = steady_trans [OF c(1) w2(2)]
      obtain r3 w3 where w3: "mipi_dbi_write os m 0x2B qs w2 = Some (r3, w3)" "steady w2 w3"
        using write_runs [OF steady_refl usable_steady [OF u t2]] by (rule runsE)
      note t3 = steady_trans [OF t2 w3(2)]
      have h3: "held w3 (Ptr c 0) n" using c(2) w2(2) w3(2) held_steady by blast
      obtain r4 w4 where w4: "regmap_raw_write os m 0x2C (Ptr c 0) n w3 = Some (r4, w4)" "steady w3 w4"
        using raw_write_runs [OF steady_refl usable_steady [OF u t3] h3] by (rule runsE)
      have "runs w (kfree (Ptr c 0) w4)"
        using runs_kfree [OF steady_trans [OF t3 w4(2)] held_steady [OF h3 w4(2)] c(3)] .
      then show ?thesis using w2(1) w3(1) w4(1) by (simp del: kfree.simps)
    qed
    show ?thesis
      unfolding mipi_dbi_blank_def Let_def
      by (rule runs_kzalloc [OF steady_refl]) (rule runs_Some body | assumption)+
  qed
qed

lemma pipe_disable_runs:
  assumes s: "steady w0 w" and u: "usable m wb w"
  shows "runs w0 (mipi_dbi_pipe_disable os m w)"
proof (rule runs_from [OF s])
  have w: "runs w (mipi_dbi_write os m cmd ps w')" if "steady w w'" for w' cmd ps
    using that write_runs usable_steady [OF u] by blast
  show "runs w (mipi_dbi_pipe_disable os m w)"
    unfolding mipi_dbi_pipe_disable_def
    by (rule runs_intros blank_runs [OF steady_refl u] w steady_refl | assumption | hypsubst
        | (simp add: steady_upds; fail))+
qed

lemma hw_reset_runs: "steady w0 w \<Longrightarrow> runs w0 (mipi_dbi_hw_reset os w)"
  unfolding mipi_dbi_hw_reset_def
  by (cases "reset_gpio (mipi w)") (rule runs_intros | assumption | simp only: option.case)+

lemma panel_enable_runs:
  assumes s: "steady w0 w" and u: "usable m wb w"
  shows "runs w0 (mi0283qt_enable os m w)"
proof (rule runs_from [OF s])
  have w: "runs w (mipi_dbi_write os m cmd ps w')" "runs w (write_all os m cs w')"
    if "steady w w'" for w' cmd ps cs
    using that write_runs write_all_runs usable_steady [OF u] by blast+
  show "runs w (mi0283qt_enable os m w)"
    unfolding mi0283qt_enable_def
    by (rule w hw_reset_runs display_is_on_runs [OF steady_refl u] runs_intros steady_refl | assumption)+
qed

end

section \<open>Interface option 3\<close>

interpretation sr3: safe_reader os "mipi_dbi_regmap_bus3 os" "mipi_dbi_spi3_read os" sendable
  for os
proof (unfold_locales, unfold mipi_dbi_regmap_bus3_def regmap_bus.simps)
qed (blast intro: sendable_steady runs_spi3_read)+

interpretation sb3: safe_bus os "mipi_dbi_regmap_bus3 os" "mipi_dbi_spi3_read os"
    "\<lambda>w. dma_works os \<and> sendable w" "mipi_dbi_spi3_write os" "mipi_dbi_spi3_gather_write os"
  for os
proof (unfold_locales, unfold mipi_dbi_regmap_bus3_def regmap_bus.simps)
qed (blast intro: sendable_steady runs_spi3_write runs_spi3_gather_write runs_spi3_read)+

end
