(* ===== verification/Safe_Loop.thy ===== *)
theory Safe_Loop
  imports Safe_Panel Wire_Props
begin

text \<open>
  Absence of undefined outcomes, concluded: the events, the rounds of the main loop and the probe
  function, on any operating system on which the DMA buffer can be made. Every other call may
  fail. What happens when the DMA buffer cannot be made.
\<close>

section \<open>Well-formed states\<close>

text \<open>
  The register map is the one of interface option 3 with its work buffer alive, messages can be
  sent, and the framebuffers are mapped, each in a block of its own.
\<close>

definition sane :: "os \<Rightarrow> regmap \<Rightarrow> nat \<Rightarrow> state \<Rightarrow> bool" where
  "sane os m wb w \<longleftrightarrow>
     m = dbi_regmap (mipi_dbi_regmap_bus3 os) (Ptr wb 0) \<and> held w (Ptr wb 0) 2 \<and> sendable w \<and>
     (\<forall>u\<in>set (fbs w). fb_sound wb u w) \<and> distinct (map fb_map (fbs w))"

lemma sane_steady: "sane os m wb w \<Longrightarrow> steady w w' \<Longrightarrow> sane os m wb w'"
  unfolding sane_def using held_steady sendable_steady fb_sound_steady steady_dev(2) by metis

lemma sane_usable: "dma_works os \<Longrightarrow> sane os m wb w \<Longrightarrow> sb3.usable os m wb w"
  unfolding sb3.usable_def sane_def by blast

lemma sane_driver: "sane os m wb w \<Longrightarrow> driver_map os m"
  by (simp add: sane_def driver_map_def dbi_regmap_driver)

section \<open>Events\<close>

lemma dirty_sane:
  assumes d: "dma_works os" and s: "sane os m wb w" and e: "n \<le> length clips" "ann \<longrightarrow> even n"
  shows "runs w (utinydrm_fb_dirty os m i ann color n clips w)"
proof (cases "find (\<lambda>u. fb_id u = i) (fbs w)")
  case None
  then show ?thesis by (simp add: utinydrm_fb_dirty_def runs_Some)
next
  case (Some u)
  then have u: "u \<in> set (fbs w)" by (auto simp: find_Some_iff)
  let ?w = "w\<lparr>plane_fb := Some (fb_id u)\<rparr>"
  have t: "steady w ?w" by (simp add: steady_upds)
  have f: "fb_sound wb u ?w" using s u fb_sound_steady [OF _ t] by (simp add: sane_def)
  have us: "sb3.usable os m wb ?w" using sane_usable [OF d sane_steady [OF s t]] .
  have "runs w (mipi_dbi_fb_dirty os m u ann color clips n ?w)"
    using sb3.fb_dirty_runs [OF t us f e] .
  then show ?thesis
    unfolding utinydrm_fb_dirty_def Some option.case Let_def
    by (intro runs_intros t) assumption+
qed

lemma unmap_sane:
  assumes s: "sane os m wb w" and u: "fbs w = ys @ u # zs" "us = butlast ys @ zs" "fb_map u = Ptr b 0"
    and w': "w' = w\<lparr>fbs := us\<rparr> \<or> w' = w\<lparr>fbs := us, mem := (mem w)(b := None)\<rparr>"
  shows "sane os m wb w'"
proof -
  have sub: "set us \<subseteq> set (fbs w)" using u in_set_butlastD by auto
  have "distinct (map fb_map (ys @ u # zs))" using s u(1) by (simp add: sane_def)
  then have ds: "distinct (map fb_map ys @ map fb_map zs)" "Ptr b 0 \<notin> fb_map ` (set ys \<union> set zs)"
    using u(3) by auto
  then have di: "distinct (map fb_map us)"
    unfolding u(2) map_append map_butlast distinct_append disjoint_iff
    by (metis distinct_butlast in_set_butlastD)
  have nb: "Ptr b 0 \<notin> fb_map ` set us" using ds(2) unfolding u(2) by (auto dest: in_set_butlastD)
  have bw: "b \<noteq> wb" using s u(1,3) by (auto simp: sane_def fb_sound_def)
  have h: "held w' (Ptr c 0) n" if "held w (Ptr c 0) n" "c \<noteq> b" for c n using w' that by (auto simp: blk_len_def)
  have "fb_sound wb v w'" if v: "v \<in> set us" for v
  proof -
    obtain c where c: "fb_map v = Ptr c 0" using s sub v by (auto simp: sane_def fb_sound_def)
    then have "c \<noteq> b" using nb v by (metis image_eqI)
    moreover have "fb_sound wb v w" using s sub v by (auto simp: sane_def)
    ultimately show ?thesis using h c by (auto simp: fb_sound_def simp del: held.simps)
  qed
  moreover have "held w' (Ptr wb 0) 2" using s h bw by (auto simp: sane_def simp del: held.simps)
  ultimately show ?thesis using s w' di by (auto simp: sane_def sendable_def no_err_def simp del: held.simps)
qed

lemma destroy_sane:
  assumes s: "sane os m wb w"
  shows "wp (utinydrm_fb_destroy os i w) (\<lambda>r w'. sane os m wb w')"
proof (cases "fb_unlink i [] (fbs w)")
  case None
  then show ?thesis using s by (simp add: utinydrm_fb_destroy_def)
next
  case (Some x)
  obtain u us where x: "x = (u, us)" by (cases x)
  obtain ys zs where u: "u \<in> set (fbs w)" "fbs w = ys @ u # zs" "us = butlast ys @ zs"
    using fb_unlink_result [of i "[]" "fbs w" u us] Some x by auto
  obtain b where b: "fb_map u = Ptr b 0" using s u(1) by (auto simp: sane_def fb_sound_def)
  note un = unmap_sane [OF s u(2,3) b]
  let ?e = "Ev_munmap (Ptr b 0) (fb_map_size u)"
  obtain r w1 where w1: "syscall os ?e (w\<lparr>fbs := us\<rparr>) = Some (r, w1)" "steady (w\<lparr>fbs := us\<rparr>) w1"
    using runs_syscall [OF steady_refl] by (rule runsE)
  have "sane os m wb w1" using sane_steady [OF un w1(2)] by simp
  moreover have "sane os m wb (w1\<lparr>mem := (mem w1)(b := None)\<rparr>)"
  proof -
    have "w1\<lparr>mem := (mem w1)(b := None)\<rparr> = (log_ev ?e (w\<lparr>fbs := us, mem := (mem w)(b := None)\<rparr>))\<lparr>errno := errno w1\<rparr>"
      using w1(1) by (auto simp: syscall_def Let_def log_evs_def)
    then show ?thesis
      by (simp only:) (rule sane_steady [OF un], rule disjI2, rule refl, intro steady_upds steady_refl)
  qed
  ultimately show ?thesis using Some x b w1(1) by (simp add: utinydrm_fb_destroy_def)
qed

text \<open>A new framebuffer is mapped in a new block.\<close>

lemma runs_sys_mmap:
  "wp (sys_mmap os fd n pr w) (\<lambda>p w'. steady w w' \<and> (p = Null \<or> (\<exists>b. p = Ptr b 0 \<and> nblk w \<le> b \<and> held w' p n)))"
proof -
  obtain w1 where w1: "syscall os (Ev_mmap fd n pr) w = Some (os_ret os (trace w @ [Ev_mmap fd n pr]), w1)"
    "steady w w1" using syscall_any by blast
  let ?w = "w1\<lparr>mem := (mem w1)(nblk w1 \<mapsto> map (os_map os (trace w1)) [0..<n]), nblk := Suc (nblk w1)\<rparr>"
  have "steady w ?w" using steady_trans [OF w1(2) steady_new] .
  then show ?thesis
    using w1 steady_nblk [OF w1(2)] by (auto simp: sys_mmap_def new_block_def blk_len_def)
qed

lemma fb_create_any:
  "wp (utinydrm_fb_create os i w) (\<lambda>r w'. steady w w' \<or> (\<exists>w1 h f b y. steady w w1 \<and>
     w' = w1\<lparr>fbs := made_fb i (os_fb os h) f (Ptr b 0) y # fbs w\<rparr> \<and> nblk w \<le> b \<and>
     held w1 (Ptr b 0) (unat (info_height (os_fb os h) * info_pitch (os_fb os h)))))"
proof (cases "os_alloc os (trace w @ [Ev_alloc 144])")
  case False
  then show ?thesis by (simp add: utinydrm_fb_create_def kzalloc_def alloc_def Let_def steady_upds)
next
  case True
  let ?w1 = "allocated 144 (replicate 144 0) w"
  have k: "kzalloc os 144 w = Some (Ptr (nblk w) 0, ?w1)"
    using True by (simp add: kzalloc_def alloc_def allocated_def Let_def new_block_def)
  have s1: "steady w ?w1"
    using steady_trans [OF steady_upds(1) [OF steady_refl] steady_new, of w "[Ev_alloc 144]" "replicate 144 0"]
    by (simp add: allocated_def)
  have h1: "held ?w1 (Ptr (nblk w) 0) 144" by (simp add: blk_len_def)
  let ?g = "Ev_getfb (udev_control_fd ?w1) i"
  obtain r2 w2 where w2: "syscall os ?g ?w1 = Some (r2, w2)" "steady ?w1 w2"
    using runs_syscall [OF steady_refl] by (rule runsE)
  let ?i = "os_fb os (trace w2)"
  let ?p = "Ev_prime_to_fd (udev_control_fd w2) (info_handle ?i) 0"
  obtain r3 w3 where w3: "syscall os ?p w2 = Some (r3, w3)" "steady w2 w3"
    using runs_syscall [OF steady_refl] by (rule runsE)
  let ?n = "unat (info_height ?i * info_pitch ?i)" and ?f = "os_prime_fd os (trace w3)"
  obtain p w4 where w4: "sys_mmap os ?f ?n 1 w3 = Some (p, w4)" "steady w3 w4"
    "p = Null \<or> (\<exists>b. p = Ptr b 0 \<and> nblk w3 \<le> b \<and> held w4 p ?n)"
    using runs_sys_mmap [of os ?f ?n 1 w3] by (auto elim: wpE)
  note t2 = steady_trans [OF s1 w2(2)]
  note t3 = steady_trans [OF t2 w3(2)]
  note t4 = steady_trans [OF t3 w4(2)]
  have fr: "\<exists>w''. kfree (Ptr (nblk w) 0) w' = Some ((), w'') \<and> steady w w''" if "steady w w'" "steady ?w1 w'" for w'
    using runs_kfree [OF that(1) held_steady [OF h1 that(2)]] by (auto elim: runsE simp del: kfree.simps)
  obtain v2 v3 v4 where v: "kfree (Ptr (nblk w) 0) w2 = Some ((), v2)" "steady w v2"
    "kfree (Ptr (nblk w) 0) w3 = Some ((), v3)" "steady w v3"
    "kfree (Ptr (nblk w) 0) w4 = Some ((), v4)" "steady w v4"
    using fr [OF t2 w2(2)] fr [OF t3 steady_trans [OF w2(2) w3(2)]]
      fr [OF t4 steady_trans [OF steady_trans [OF w2(2) w3(2)] w4(2)]] by blast
  consider "r2 = - 1" | "r2 \<noteq> - 1" "r3 = - 1" | "r2 \<noteq> - 1" "r3 \<noteq> - 1" "p = Null"
    | b where "r2 \<noteq> - 1" "r3 \<noteq> - 1" "p = Ptr b 0" "nblk w3 \<le> b" "held w4 (Ptr b 0) ?n"
    using w4(3) by blast
  then show ?thesis
  proof cases
    case 4
    have "utinydrm_fb_create os i w =
        Some (0, w4\<lparr>fbs := made_fb i ?i ?f (Ptr b 0) (udev_fb_funcs w4) # fbs w4\<rparr>)"
      using k w2(1) w3(1) w4(1) 4 by (simp add: utinydrm_fb_create_def made_fb_def Let_def)
    moreover have "fbs w4 = fbs w" using steady_dev(2) [OF t4] .
    moreover have "nblk w \<le> b" using 4(4) steady_nblk [OF t3] by simp
    ultimately show ?thesis
      using t4 4(5) unfolding wp_iff by (intro exI conjI disjI2) (assumption | simp only:)+
  qed (use k w2(1) w3(1) w4(1) v in \<open>simp_all add: utinydrm_fb_create_def Let_def del: kfree.simps\<close>)
qed

lemma create_sane:
  assumes s: "sane os m wb w" and d: "\<And>h. decent_fb (os_fb os h)"
  shows "wp (utinydrm_fb_create os i w) (\<lambda>r w'. sane os m wb w')"
proof (rule wp_weaken [OF fb_create_any], erule disjE, rule sane_steady [OF s], assumption, elim exE conjE)
  fix w' w1 h f b y
  let ?i = "os_fb os h" and ?u = "made_fb i (os_fb os h) f (Ptr b 0) y"
  assume t: "steady w w1" and w': "w' = w1\<lparr>fbs := ?u # fbs w\<rparr>" and b: "nblk w \<le> b"
    and h: "held w1 (Ptr b 0) (unat (info_height ?i * info_pitch ?i))"
  have s1: "sane os m wb w1" using sane_steady [OF s t] .
  have wb: "b \<noteq> wb" using s b by (auto simp: sane_def)
  have sz: "fb_size_ok (info_width ?i) (info_height ?i)" using d by (simp add: decent_fb_def)
  have held: "held w' p n = held w1 p n" for p n using w' by (cases p) simp_all
  have "held w1 (Ptr b 0) (unat (info_width ?i) * unat (info_height ?i) * 2)"
    if "drm_mode_legacy_fb_format (info_bpp ?i) (info_depth ?i) = DRM_FORMAT_RGB565"
    using that d [of h] h fb_bytes(1) [OF sz, of 2] by (simp add: decent_fb_def del: held.simps)
  moreover have "held w1 (Ptr b 0) (unat (info_width ?i) * unat (info_height ?i) * 4)"
    if "drm_mode_legacy_fb_format (info_bpp ?i) (info_depth ?i) = DRM_FORMAT_XRGB8888"
    using that d [of h] h fb_bytes(1) [OF sz, of 4] by (simp add: decent_fb_def del: held.simps)
  ultimately have "fb_sound wb ?u w'"
    using sz wb h held_le [OF h] unfolding fb_sound_def held by (simp add: made_fb_def del: held.simps)
  moreover have "fb_sound wb v w'" if "v \<in> set (fbs w)" for v
    using that s1 steady_dev(2) [OF t] unfolding sane_def fb_sound_def held by simp
  moreover have "Ptr b 0 \<notin> fb_map ` set (fbs w)"
  proof
    assume "Ptr b 0 \<in> fb_map ` set (fbs w)"
    then obtain v where "v \<in> set (fbs w)" "fb_map v = Ptr b 0" by auto
    then have "held w (Ptr b 0) 0" using s by (auto simp: sane_def fb_sound_def)
    then show False using b by simp
  qed
  ultimately show "sane os m wb w'"
    using s1 w' steady_dev(2) [OF t] unfolding sane_def held
    by (auto simp: made_fb_def sendable_def simp del: held.simps)
qed

section \<open>Progress\<close>

lemma event_sane:
  assumes d: "dma_works os" and s: "sane os m wb w" and e: "event_ok e" and f: "\<And>h. decent_fb (os_fb os h)"
  shows "wp (utinydrm_event os m e w) (\<lambda>r w'. sane os m wb w')"
proof -
  have r: "wp k (\<lambda>r w'. sane os m wb w')" if "runs w k" for k :: "(int \<times> state) option"
    using that sane_steady [OF s] unfolding runs_def by (rule wp_weaken)
  note us = sane_usable [OF d s]
  show ?thesis
  proof (cases e)
    case UDRM_EVENT_PIPE_ENABLE
    have "runs w (utinydrm_pipe_enable os m w)"
      unfolding utinydrm_pipe_enable_def
      by (rule runs_intros sb3.panel_enable_runs [OF steady_refl us] steady_refl | assumption)+
    then show ?thesis using r UDRM_EVENT_PIPE_ENABLE by simp
  next
    case UDRM_EVENT_PIPE_DISABLE
    have "runs w (utinydrm_pipe_disable os m w)"
      unfolding utinydrm_pipe_disable_def
      by (rule runs_intros sb3.pipe_disable_runs [OF steady_refl us] steady_refl | assumption)+
    then show ?thesis using r UDRM_EVENT_PIPE_DISABLE by simp
  next
    case (UDRM_EVENT_FB_DIRTY i ann color n clips)
    then show ?thesis using r [OF dirty_sane [OF d s]] e by simp
  qed (use s create_sane [OF s f] destroy_sane [OF s] in simp_all)
qed

lemma round_sane:
  assumes d: "dma_works os" and s: "sane os m wb w" and e: "\<And>h. event_ok (os_event os h)"
    and f: "\<And>h. decent_fb (os_fb os h)"
  shows "wp (main_round os m w) (\<lambda>r w'. sane os m wb w')"
proof -
  have un: "\<exists>w2. tinydrm_unregister os w' = Some ((), w2) \<and> sane os m wb w2" if "sane os m wb w'" for w'
  proof -
    have "runs w' (tinydrm_unregister os w')"
      unfolding tinydrm_unregister_def by (rule runs_intros steady_refl | assumption)+
    then show ?thesis using sane_steady [OF that] by (auto elim: runsE)
  qed
  have sy: "\<exists>r w2. syscall os ev w' = Some (r, w2) \<and> sane os m wb w2" if "sane os m wb w'" for ev w'
    using syscall_any [of os ev w'] sane_steady [OF that] by blast
  obtain r1 w1 where w1: "syscall os (Ev_read (udev_fd w)) w = Some (r1, w1)" "sane os m wb w1"
    using sy [OF s] by blast
  obtain er w2 where w2: "utinydrm_event os m (os_event os (trace w1)) w1 = Some (er, w2)" "sane os m wb w2"
    using event_sane [OF d w1(2) e [of "trace w1"] f] by (auto elim: wpE)
  obtain r3 w3 where w3: "syscall os (Ev_reply (udev_fd w2) er) w2 = Some (r3, w3)" "sane os m wb w3"
    using sy [OF w2(2)] by blast
  obtain r4 w4 where w4: "syscall os (Ev_poll (udev_fd w3)) w3 = Some (r4, w4)" "sane os m wb w4"
    using sy [OF w3(2)] by blast
  obtain v1 where v1: "tinydrm_unregister os w1 = Some ((), v1)" "sane os m wb v1" using un [OF w1(2)] by blast
  obtain v3 where v3: "tinydrm_unregister os w3 = Some ((), v3)" "sane os m wb v3" using un [OF w3(2)] by blast
  show ?thesis
    using w1(1) w2(1) w3(1) w4 v1 v3 unfolding main_round_def by simp
qed

lemma reach_sane:
  assumes "loop_reach os m w w'" and "dma_works os" and "sane os m wb w"
    and "\<And>h. event_ok (os_event os h)" and "\<And>h. decent_fb (os_fb os h)"
  shows "sane os m wb w'"
  using assms
proof (induction rule: loop_reach.induct)
  case (more w w' w'')
  have "sane os m wb w'" using more by blast
  from round_sane [OF more.prems(1) this more.prems(3,4)] more.hyps(2) show ?case
    by (auto simp: loop_step_iff)
qed simp

text \<open>The loop ends: by an error, or when the device hangs up.\<close>

lemma main_loop_ends:
  assumes "sane os m wb w" and d: "dma_works os"
    and e: "\<And>h. event_ok (os_event os h)" and f: "\<And>h. decent_fb (os_fb os h)"
    and p: "\<And>h fd. 0 \<le> os_ret os (h @ [Ev_poll fd])"
    and hang: "\<And>h. N \<le> polls h \<Longrightarrow> os_hangup os h"
  shows "\<exists>r w'. main_loop os m False w = Some (r, w') \<and> (r = 0 \<or> r = 1)"
  using assms(1)
proof (induction "N - polls (trace w)" arbitrary: w rule: less_induct)
  case less
  obtain r h w1 where w1: "main_round os m w = Some ((r, h), w1)" "sane os m wb w1"
    using round_sane [OF d less.prems e f] by (auto elim: wpE)
  show ?case
  proof (cases r)
    case (Some x)
    then have "x = 1" using w1(1) by (auto simp: main_round_def bind_eq_Some_conv split: if_splits)
    then show ?thesis using w1(1) Some by (subst main_loop.simps) simp
  next
    case None
    then have r: "main_round os m w = Some ((None, h), w1)" using w1(1) by simp
    have g: "polls (trace w) < polls (trace w1)"
      using main_round_ok [OF sane_driver [OF less.prems] r] round_polls by blast
    have h: "h = os_hangup os (trace w1)"
      using r p p [of "_ @ [_]", simplified] by (auto simp: main_round_def bind_eq_Some_conv syscall_eq split: if_splits)
    show ?thesis
    proof (cases h)
      case True
      obtain w2 where u: "tinydrm_unregister os w1 = Some ((), w2)" using tinydrm_unregister_Some by blast
      have "main_loop os m True w1 = Some (0, w2)" using u by (subst main_loop.simps) simp
      then show ?thesis using r True by (subst main_loop.simps) simp
    next
      case False
      then have "N - polls (trace w1) < N - polls (trace w)"
        using hang [of "trace w1"] h g by (meson diff_less_mono2 not_le order_less_trans)
      from less.hyps [OF this w1(2)] show ?thesis using r False by (subst main_loop.simps) simp
    qed
  qed
qed

section \<open>Probing\<close>

lemma steady_setup [runs_intros]:
  "steady w0 w \<Longrightarrow> steady w0 (w\<lparr>mipi := x\<rparr>)" "steady w0 w \<Longrightarrow> steady w0 (w\<lparr>udev_fb_funcs := y\<rparr>)"
  "steady w0 w \<Longrightarrow> steady w0 (w\<lparr>udev_mode := z, pipe_funcs := y\<rparr>)" "steady w0 w \<Longrightarrow> steady w0 (w\<lparr>udev_fd := n\<rparr>)"
  "steady w0 w \<Longrightarrow> steady w0 (w\<lparr>udev_control_fd := n\<rparr>)" "steady w0 w \<Longrightarrow> steady w0 (w\<lparr>udev_buf_fd := n\<rparr>)"
  by (simp_all add: steady_def no_err_def blk_len_def)

lemma kzalloc_cases:
  obtains w1 where "kzalloc os n w = Some (Null, w1)" "steady w w1"
  | b w1 where "kzalloc os n w = Some (Ptr b 0, w1)" "steady w w1" "held w1 (Ptr b 0) n" "nblk w \<le> b"
proof (cases "os_alloc os (trace w @ [Ev_alloc n])")
  case False
  then show ?thesis using that(1) by (simp add: kzalloc_def alloc_def Let_def steady_upds)
next
  case True
  then have "kzalloc os n w = Some (Ptr (nblk w) 0, allocated n (replicate n 0) w)"
    by (simp add: kzalloc_def alloc_def allocated_def Let_def new_block_def)
  moreover have "steady w (allocated n (replicate n 0) w)"
    using steady_trans [OF steady_upds(1) [OF steady_refl] steady_new, of w "[Ev_alloc n]" "replicate n 0"]
    by (simp add: allocated_def)
  moreover have "held (allocated n (replicate n 0) w) (Ptr (nblk w) 0) n" by (simp add: blk_len_def)
  ultimately show ?thesis using that(2) by blast
qed

lemma runs_file_write_string [runs_intros]: "steady w0 w \<Longrightarrow> runs w0 (file_write_string os f s w)"
  unfolding file_write_string_def by (rule runs_intros | assumption)+

lemma runs_gpio_export [runs_intros]: "steady w0 w \<Longrightarrow> runs w0 (gpio_export os n w)"
  unfolding gpio_export_def by (rule runs_intros | assumption)+

lemma syscall_errno: "errno_set os \<Longrightarrow> syscall os e w = Some (- 1, w') \<Longrightarrow> errno w' \<noteq> 0"
  using errno_setD by (auto simp: syscall_eq)

lemma gpio_get_any:
  assumes "errno_set os"
  shows "wp (devm_gpiod_get_optional os con fl w) (\<lambda>r w'. steady w w' \<and> r \<noteq> PNull \<and> r \<noteq> PErr 0)"
proof -
  have "runs w (devm_gpiod_get_optional os con fl w)"
  proof (cases "gpio_number con")
    case None
    then show ?thesis by (simp add: devm_gpiod_get_optional_def runs_Some)
  next
    case (Some n)
    show ?thesis
      unfolding devm_gpiod_get_optional_def Some option.case
      by (rule runs_kzalloc [OF steady_refl] runs_intros | assumption)+
  qed
  moreover have "returns (\<lambda>(r, w'). r \<noteq> PNull \<and> r \<noteq> PErr 0) (devm_gpiod_get_optional os con fl w)"
    unfolding devm_gpiod_get_optional_def using syscall_errno [OF assms]
    by (cases "gpio_number con") (simp only: option.case, (rule returns_intros returns_Some | simp)+)+
  ultimately show ?thesis by (auto simp: returns_def elim!: runsE)
qed

lemma regmap_init_any:
  "wp (regmap_init os junk (Some b) (Some mipi_dbi_regmap_config) w) (\<lambda>r w'. steady w w' \<and>
     ((\<exists>e. r = PErr e \<and> e \<noteq> 0) \<or> (\<exists>wb. r = PObj (dbi_regmap b (Ptr wb 0)) \<and> held w' (Ptr wb 0) 2)))"
proof (cases rule: kzalloc_cases [of os 96 w])
  case (1 w1)
  then show ?thesis by (simp add: regmap_init_def)
next
  case (2 p w1)
  have o: "ilog2 1 = 0" "is_power_of_2 1" by (simp_all add: ilog2_def fls_def fls_step_def is_power_of_2_def)
  show ?thesis
  proof (cases rule: kzalloc_cases [of os 2 w1])
    case (1 w2)
    have "runs w (kfree (Ptr p 0) w2)"
      using runs_kfree [OF steady_trans [OF 2(2) 1(2)] held_steady [OF 2(3) 1(2)] 2(4)] .
    then obtain w3 where "kfree (Ptr p 0) w2 = Some ((), w3)" "steady w w3" by (auto elim: runsE)
    then show ?thesis
      using 1(1) 2(1) o by (simp add: regmap_init_def div_round_up_def regmap_reg_format_def Let_def del: kfree.simps)
  next
    case q: (2 wb w2)
    have "regmap_init os junk (Some b) (Some mipi_dbi_regmap_config) w = Some (PObj (dbi_regmap b (Ptr wb 0)), w2)"
      using 2(1) q(1) o
      by (simp add: regmap_init_def div_round_up_def regmap_reg_format_def dbi_regmap_def Let_def)
    then show ?thesis using steady_trans [OF 2(2) q(2)] q(3) by (auto simp del: held.simps)
  qed
qed

text \<open>The state before probing: the SPI device of \<open>main\<close>, no framebuffers, no DMA buffer.\<close>

definition fresh_dev :: "state \<Rightarrow> bool" where
  "fresh_dev w \<longleftrightarrow> spi w = main_spi \<and> fbs w = [] \<and> no_err w"

lemma fresh_steady: "fresh_dev w \<Longrightarrow> steady w w' \<Longrightarrow> fresh_dev w'"
  using steady_dev steady_no_err unfolding fresh_dev_def by metis

lemma spi_init_any:
  assumes "fresh_dev w" and "d \<noteq> None"
  shows "wp (mipi_dbi_spi_init os junk d wo w) (\<lambda>r w'. fresh_dev w' \<and> ((\<exists>e. r = PErr e \<and> e \<noteq> 0) \<or>
    (\<exists>wb. r = PObj (dbi_regmap (mipi_dbi_regmap_bus3 os) (Ptr wb 0)) \<and> held w' (Ptr wb 0) 2 \<and>
      ms_dc (mspi w') \<noteq> None \<and> chunk_size (mspi w') = 153600)))"
proof (cases rule: kzalloc_cases [of os 24 w])
  case (1 w1)
  then show ?thesis using fresh_steady [OF assms(1)] by (simp add: mipi_dbi_spi_init_def)
next
  case (2 p w1)
  let ?w = "w1\<lparr>mspi := \<lparr>ram_reg = MIPI_DCS_WRITE_MEMORY_START, ms_dc = d, write_only = wo,
    ms_tx_buf = Null, chunk_size = tinydrm_spi_max_transfer_size 0 (spi w1) 0\<rparr>\<rparr>"
  have "fresh_dev w1" using fresh_steady [OF assms(1) 2(2)] .
  then have f: "fresh_dev ?w" and c: "tinydrm_spi_max_transfer_size 0 (spi w1) 0 = 153600"
    by (simp_all add: fresh_dev_def main_spi_chunk)
  obtain r w2 where w2: "regmap_init os junk (Some (mipi_dbi_regmap_bus3 os)) (Some mipi_dbi_regmap_config) ?w = Some (r, w2)"
    "steady ?w w2" "(\<exists>e. r = PErr e \<and> e \<noteq> 0) \<or> (\<exists>wb. r = PObj (dbi_regmap (mipi_dbi_regmap_bus3 os) (Ptr wb 0)) \<and> held w2 (Ptr wb 0) 2)"
    using regmap_init_any [of os junk "mipi_dbi_regmap_bus3 os" ?w] by (elim wpE conjE)
  have "fresh_dev w2" "ms_dc (mspi w2) \<noteq> None" "chunk_size (mspi w2) = 153600"
    using fresh_steady [OF f w2(2)] steady_dev [OF w2(2)] assms(2) c by simp_all
  moreover have "mipi_dbi_spi_init os junk d wo w = Some (r, w2)"
    using 2(1) w2(1) assms(2) by (simp add: mipi_dbi_spi_init_def Let_def)
  ultimately show ?thesis using w2(3) by (simp del: held.simps)
qed

lemma mipi_dbi_init_any: "steady w0 w \<Longrightarrow> runs w0 (mipi_dbi_init mode rot w)"
  unfolding mipi_dbi_init_def devm_tinydrm_init_def tinydrm_display_pipe_init_def
  by (cases "tinydrm_rotate_mode mode rot") (auto intro!: runs_intros simp: steady_setup)

lemma register_any:
  "wp (devm_tinydrm_register os nm w) (\<lambda>r w'. \<exists>w1. steady w w1 \<and>
     (w' = w1 \<or> (\<exists>n. w' = w1\<lparr>spi := (spi w1)\<lparr>utinydrm := True\<rparr>, udev_buf_fd := n\<rparr>)))"
proof -
  obtain fd v1 where v1: "syscall os (Ev_open ''/dev/udrm'') w = Some (fd, v1)" "steady w v1"
    using runs_syscall [OF steady_refl] by (rule runsE)
  let ?w1 = "v1\<lparr>udev_fd := fd\<rparr>"
  have t1: "steady w ?w1" using v1(2) by (rule steady_setup)
  obtain r v2 where v2: "syscall os (Ev_dev_create fd (udev_mode ?w1) udrm_formats UDRM_BUF_MODE_SWAP_BYTES nm) ?w1 = Some (r, v2)" "steady ?w1 v2"
    using runs_syscall [OF steady_refl] by (rule runsE)
  note t2 = steady_trans [OF t1 v2(2)]
  obtain index bfd where od: "os_dev os (trace v2) = (index, bfd)" by (cases "os_dev os (trace v2)")
  obtain cfd v3 where v3: "syscall os (Ev_open (''/dev/dri/controlD'' @ int_string (index + 64))) v2 = Some (cfd, v3)"
    "steady v2 v3" using runs_syscall [OF steady_refl] by (rule runsE)
  let ?w3 = "v3\<lparr>udev_control_fd := cfd\<rparr>"
  have t3: "steady w ?w3" using steady_trans [OF t2 v3(2)] by (rule steady_setup)
  obtain r4 v4 where v4: "syscall os (Ev_close fd) v2 = Some (r4, v4)" "steady v2 v4"
    using runs_syscall [OF steady_refl] by (rule runsE)
  obtain r5 v5 where v5: "syscall os (Ev_close fd) ?w3 = Some (r5, v5)" "steady ?w3 v5"
    using runs_syscall [OF steady_refl] by (rule runsE)
  have t: "steady w v4" "steady w v5" using steady_trans [OF t2 v4(2)] steady_trans [OF t3 v5(2)] .
  let ?Q = "\<lambda>w'. \<exists>w1. steady w w1 \<and> (w' = w1 \<or> (\<exists>n. w' = w1\<lparr>spi := (spi w1)\<lparr>utinydrm := True\<rparr>, udev_buf_fd := n\<rparr>))"
  have q: "?Q ?w1" "?Q v4" "?Q v5" "?Q (?w3\<lparr>spi := (spi ?w3)\<lparr>utinydrm := True\<rparr>, udev_buf_fd := bfd\<rparr>)"
    using t1 t t3 by blast+
  have "devm_tinydrm_register os nm w =
      (if fd = - 1 then Some (- errno v1, ?w1) else if r = - 1 then Some (- errno v4, v4)
       else if cfd = - 1 then Some (- errno v5, v5)
       else Some (0, ?w3\<lparr>spi := (spi ?w3)\<lparr>utinydrm := True\<rparr>, udev_buf_fd := bfd\<rparr>))"
    using v1(1) v2(1) od v3(1) v4(1) v5(1)
    by (cases "cfd = - 1") (simp_all add: devm_tinydrm_register_def Let_def)
  then show ?thesis by (simp only: wp_if wp_Some q if_cancel)
qed

lemma sane_driver_data:
  assumes f: "fresh_dev w" and m: "m = dbi_regmap (mipi_dbi_regmap_bus3 os) (Ptr wb 0)" "held w (Ptr wb 0) 2"
    and d: "ms_dc (mspi w) \<noteq> None" "chunk_size (mspi w) = 153600"
    and w': "w' = w\<lparr>spi := (spi w)\<lparr>utinydrm := True\<rparr>, udev_buf_fd := n\<rparr> \<or> w' = w"
  shows "sane os m wb (w'\<lparr>spi := (spi w')\<lparr>drvdata := True\<rparr>\<rparr>)"
proof -
  have "held w' (Ptr wb 0) 2" using w' m(2) by (auto simp: blk_len_def)
  then have "held (w'\<lparr>spi := (spi w')\<lparr>drvdata := True\<rparr>\<rparr>) (Ptr wb 0) 2" by (simp add: blk_len_def)
  moreover have "tinydrm_spi_bpw_supported (spi (w'\<lparr>spi := (spi w')\<lparr>drvdata := True\<rparr>\<rparr>)) 16 =
      tinydrm_spi_bpw_supported (spi w) 16"
    using w' by (auto simp: tinydrm_spi_bpw_supported_def)
  then have "sendable (w'\<lparr>spi := (spi w')\<lparr>drvdata := True\<rparr>\<rparr>)"
    using w' f d main_spi_bpw(1)
    by (auto simp: sendable_def fresh_dev_def no_err_def)
  ultimately show ?thesis using w' f m(1) by (auto simp: sane_def fresh_dev_def simp del: held.simps)
qed

lemma probe_sane:
  assumes "fresh_dev w" and err: "errno_set os"
  shows "wp (mi0283qt_probe os junk w) (\<lambda>x w'. fst x = 0 \<longrightarrow> (\<exists>m wb. snd x = Some m \<and> sane os m wb w'))"
proof (cases rule: kzalloc_cases [of os 400 w])
  case (1 w1)
  then show ?thesis by (simp add: mi0283qt_probe_def)
next
  case (2 p w1)
  note gp = gpio_get_any [OF err]
  obtain rst w2 where w2: "devm_gpiod_get_optional os ''reset'' GPIOD_OUT_HIGH w1 = Some (rst, w2)"
    "steady w1 w2" "rst \<noteq> PNull" "rst \<noteq> PErr 0" using gp by (blast elim: wpE)
  obtain d w3 where w3: "devm_gpiod_get_optional os ''dc'' GPIOD_OUT_LOW w2 = Some (d, w3)"
    "steady w2 w3" "d \<noteq> PNull" "d \<noteq> PErr 0" using gp by (blast elim: wpE)
  obtain bl w4 where w4: "tinydrm_of_find_backlight os w3 = Some (bl, w4)"
    "steady w3 w4" "bl \<noteq> PNull" "bl \<noteq> PErr 0"
    using gp unfolding tinydrm_of_find_backlight_def by (blast elim: wpE)
  have t4: "steady w w4" using steady_trans [OF steady_trans [OF steady_trans [OF 2(2) w2(2)] w3(2)] w4(2)] .
  show ?thesis
  proof (cases rst)
    case (PErr e)
    then show ?thesis using 2(1) w2 by (simp add: mi0283qt_probe_def)
  next
    case rst: (PObj x)
    show ?thesis
    proof (cases d)
      case (PErr e)
      then show ?thesis using 2(1) w2(1) rst w3 by (simp add: mi0283qt_probe_def)
    next
      case d: (PObj y)
      show ?thesis
      proof (cases bl)
        case (PErr e)
        then show ?thesis using 2(1) w2(1) rst w3(1) d w4 by (simp add: mi0283qt_probe_def)
      next
        case bl: (PObj z)
        let ?w = "w4\<lparr>mipi := \<lparr>reset_gpio = Some x, rotation = 0, backlight = Some z, enable_delay_ms = 50,
          regulator = False\<rparr>\<rparr>"
        have "fresh_dev ?w"
          using fresh_steady [OF assms(1) steady_setup(1) [OF t4]] .
        then obtain reg w5 where w5: "mipi_dbi_spi_init os junk (Some y) False ?w = Some (reg, w5)" "fresh_dev w5"
          "(\<exists>e. reg = PErr e \<and> e \<noteq> 0) \<or> (\<exists>wb. reg = PObj (dbi_regmap (mipi_dbi_regmap_bus3 os) (Ptr wb 0)) \<and>
            held w5 (Ptr wb 0) 2 \<and> ms_dc (mspi w5) \<noteq> None \<and> chunk_size (mspi w5) = 153600)"
          using spi_init_any [of ?w "Some y" os junk False] by (blast elim: wpE)
        have lead: "mi0283qt_probe os junk w = (case reg of PErr e \<Rightarrow> Some ((e, None), w5) | PNull \<Rightarrow> None
             | PObj reg \<Rightarrow> do {
                 (ret, w) \<leftarrow> mipi_dbi_init mi0283qt_mode 0 w5;
                 if ret \<noteq> 0 then Some ((ret, Some reg), w)
                 else do {
                   (ret, w) \<leftarrow> devm_tinydrm_register os ''mi0283qt'' w;
                   if ret \<noteq> 0 then Some ((ret, Some reg), w)
                   else Some ((0, Some reg), w\<lparr>spi := (spi w)\<lparr>drvdata := True\<rparr>\<rparr>) } })"
          using 2(1) w2(1) w3(1) w4(1) w5(1) rst d bl by (simp add: mi0283qt_probe_def Let_def)
        from w5(3) show ?thesis
        proof (elim disjE exE conjE)
          fix e assume "reg = PErr e" "e \<noteq> 0"
          then show ?thesis by (simp add: lead)
        next
          fix wb assume reg: "reg = PObj (dbi_regmap (mipi_dbi_regmap_bus3 os) (Ptr wb 0))"
            and h: "held w5 (Ptr wb 0) 2" "ms_dc (mspi w5) \<noteq> None" "chunk_size (mspi w5) = 153600"
          obtain r6 w6 where w6: "mipi_dbi_init mi0283qt_mode 0 w5 = Some (r6, w6)" "steady w5 w6"
            using mipi_dbi_init_any [OF steady_refl] by (rule runsE)
          obtain r7 w7 w8 where w7: "devm_tinydrm_register os ''mi0283qt'' w6 = Some (r7, w7)" "steady w6 w8"
            "w7 = w8 \<or> (\<exists>n. w7 = w8\<lparr>spi := (spi w8)\<lparr>utinydrm := True\<rparr>, udev_buf_fd := n\<rparr>)"
            using register_any [of os "''mi0283qt''" w6] by (blast elim: wpE)
          have t: "steady w5 w8" using steady_trans [OF w6(2) w7(2)] .
          have "sane os (dbi_regmap (mipi_dbi_regmap_bus3 os) (Ptr wb 0)) wb (w7\<lparr>spi := (spi w7)\<lparr>drvdata := True\<rparr>\<rparr>)"
            using w7(3) sane_driver_data [OF fresh_steady [OF w5(2) t] refl held_steady [OF h(1) t]]
              steady_dev(3,4) [OF t] h(2,3) by auto
          then show ?thesis using w6(1) w7(1) by (auto simp: lead reg)
        qed
      qed (use w4 in simp)
    qed (use w3 in simp)
  qed (use w2 in simp)
qed

text \<open>When the files of the GPIO lines and of the udrm device can be used, the probe succeeds.\<close>

definition files_work :: "os \<Rightarrow> bool" where
  "files_work os \<longleftrightarrow> (\<forall>h f. f \<noteq> spidev \<longrightarrow> os_ret os (h @ [Ev_open f]) \<noteq> - 1) \<and>
     (\<forall>h fd s. os_ret os (h @ [Ev_write fd s]) \<noteq> - 1) \<and>
     (\<forall>h fd u f b n. os_ret os (h @ [Ev_dev_create fd u f b n]) \<noteq> - 1) \<and>
     (\<forall>h n. n \<noteq> 16 \<longrightarrow> os_alloc os (h @ [Ev_alloc n]))"

lemma files_open:
  assumes "files_work os" and "f \<noteq> spidev"
  obtains fd w' where "syscall os (Ev_open f) w = Some (fd, w')" "fd \<noteq> - 1"
  using syscall_any [of os "Ev_open f" w] assms by (auto simp: files_work_def)

lemma files_write:
  assumes "files_work os"
  obtains r w' where "syscall os (Ev_write fd s) w = Some (r, w')" "r \<noteq> - 1"
  using syscall_any [of os "Ev_write fd s" w] assms by (auto simp: files_work_def)

lemma kzalloc_works:
  assumes "files_work os" and "n \<noteq> 16"
  obtains b w' where "kzalloc os n w = Some (Ptr b 0, w')"
  using assms by (auto simp: files_work_def kzalloc_def alloc_def Let_def new_block_def)

lemma file_write_works:
  assumes "files_work os" and "f \<noteq> spidev"
  shows "\<exists>w'. file_write_string os f s w = Some (0, w')"
proof -
  obtain fd w1 where w1: "syscall os (Ev_open f) w = Some (fd, w1)" "fd \<noteq> - 1"
    using files_open [OF assms] .
  obtain r w2 where w2: "syscall os (Ev_write fd s) w1 = Some (r, w2)" "r \<noteq> - 1"
    using files_write [OF assms(1)] .
  obtain r3 w3 where w3: "syscall os (Ev_close fd) w2 = Some (r3, w3)" using syscall_any by blast
  show ?thesis using w1 w2 w3 by (simp add: file_write_string_def)
qed

lemma gpio_export_works: "files_work os \<Longrightarrow> \<exists>w'. gpio_export os n w = Some (0, w')"
proof -
  assume f: "files_work os"
  obtain r w1 where w1: "syscall os (Ev_access (gpio_dir n @ ''/value'')) w = Some (r, w1)" using syscall_any by blast
  obtain w2 where w2: "file_write_string os ''/sys/class/gpio/export'' (dec_string n) w1 = Some (0, w2)"
    using file_write_works [OF f, of "''/sys/class/gpio/export''"] by auto
  obtain w3 where w3: "file_write_string os (gpio_dir n @ ''/direction'') ''out'' w2 = Some (0, w3)"
    using file_write_works [OF f, of "gpio_dir n @ ''/direction''"] by auto
  show ?thesis using w1 w2 w3 by (simp add: gpio_export_def)
qed

lemma gpio_get_works:
  assumes f: "files_work os" and n: "gpio_number con = Some n"
  shows "\<exists>d w'. devm_gpiod_get_optional os con fl w = Some (PObj d, w')"
proof -
  have a: "(12 :: nat) \<noteq> 16" by simp
  obtain b w1 where w1: "kzalloc os 12 w = Some (Ptr b 0, w1)" using kzalloc_works [OF f a] .
  obtain w2 where w2: "gpio_export os n w1 = Some (0, w2)" using gpio_export_works [OF f] by blast
  obtain fd w3 where w3: "syscall os (Ev_open (gpio_dir n @ ''/value'')) w2 = Some (fd, w3)" "fd \<noteq> - 1"
    using files_open [OF f, of "gpio_dir n @ ''/value''"] by auto
  let ?d = "\<lparr>gpio_fd = fd, gpio_nr = n, gpio_name = con\<rparr>"
  obtain w4 where w4: "gpiod_set_value_cansleep os ?d 1 w3 = Some ((), w4)"
    using runs_gpiod_set_value [OF steady_refl, where os = os and d = ?d and v = 1 and w = w3] by (auto elim: runsE)
  obtain w5 where w5: "gpiod_set_value_cansleep os ?d 0 w3 = Some ((), w5)"
    using runs_gpiod_set_value [OF steady_refl, where os = os and d = ?d and v = 0 and w = w3] by (auto elim: runsE)
  show ?thesis
    using n w1 w2 w3 w4 w5 by (simp add: devm_gpiod_get_optional_def Let_def)
qed

lemma probe_works:
  assumes f: "files_work os"
  shows "\<exists>reg w0. mi0283qt_probe os junk w = Some ((0, reg), w0)"
proof -
  have a: "(400 :: nat) \<noteq> 16" "(24 :: nat) \<noteq> 16" "(96 :: nat) \<noteq> 16" "(2 :: nat) \<noteq> 16" by simp_all
  obtain p w1 where w1: "kzalloc os 400 w = Some (Ptr p 0, w1)" using kzalloc_works [OF f a(1)] .
  have g: "gpio_number ''reset'' = Some 23" "gpio_number ''dc'' = Some 24" "gpio_number ''led'' = Some 18"
    by (simp_all add: gpio_number_def)
  obtain x w2 where w2: "devm_gpiod_get_optional os ''reset'' GPIOD_OUT_HIGH w1 = Some (PObj x, w2)"
    using gpio_get_works [OF f g(1)] by blast
  obtain y w3 where w3: "devm_gpiod_get_optional os ''dc'' GPIOD_OUT_LOW w2 = Some (PObj y, w3)"
    using gpio_get_works [OF f g(2)] by blast
  obtain z w4 where w4: "tinydrm_of_find_backlight os w3 = Some (PObj z, w4)"
    using gpio_get_works [OF f g(3)] unfolding tinydrm_of_find_backlight_def by blast
  let ?w = "w4\<lparr>mipi := \<lparr>reset_gpio = Some x, rotation = 0, backlight = Some z, enable_delay_ms = 50,
    regulator = False\<rparr>\<rparr>"
  obtain q v1 where v1: "kzalloc os 24 ?w = Some (Ptr q 0, v1)" using kzalloc_works [OF f a(2)] .
  let ?v = "v1\<lparr>mspi := \<lparr>ram_reg = MIPI_DCS_WRITE_MEMORY_START, ms_dc = Some y, write_only = False,
    ms_tx_buf = Null, chunk_size = tinydrm_spi_max_transfer_size 0 (spi v1) 0\<rparr>\<rparr>"
  obtain q2 v2 where v2: "kzalloc os 96 ?v = Some (Ptr q2 0, v2)" using kzalloc_works [OF f a(3)] .
  obtain q3 v3 where v3: "kzalloc os 2 v2 = Some (Ptr q3 0, v3)" using kzalloc_works [OF f a(4)] .
  have o: "ilog2 1 = 0" "is_power_of_2 1" by (simp_all add: ilog2_def fls_def fls_step_def is_power_of_2_def)
  let ?m = "dbi_regmap (mipi_dbi_regmap_bus3 os) (Ptr q3 0)"
  have i: "mipi_dbi_spi_init os junk (Some y) False ?w = Some (PObj ?m, v3)"
    using v1 v2 v3 o
    by (simp add: mipi_dbi_spi_init_def regmap_init_def div_round_up_def regmap_reg_format_def dbi_regmap_def Let_def)
  obtain w6 where w6: "mipi_dbi_init mi0283qt_mode 0 v3 = Some (0, w6)"
    by (simp add: mipi_dbi_init_def devm_tinydrm_init_def tinydrm_display_pipe_init_def tinydrm_rotate_mode_def)
  have u: "''/dev/udrm'' \<noteq> spidev" "''/dev/dri/controlD'' @ t \<noteq> spidev" for t by simp_all
  obtain fd u1 where u1: "syscall os (Ev_open ''/dev/udrm'') w6 = Some (fd, u1)" "fd \<noteq> - 1"
    using files_open [OF f u(1)] .
  let ?u = "u1\<lparr>udev_fd := fd\<rparr>"
  obtain r u2 where u2: "syscall os (Ev_dev_create fd (udev_mode ?u) udrm_formats UDRM_BUF_MODE_SWAP_BYTES ''mi0283qt'') ?u = Some (r, u2)" "r \<noteq> - 1"
    using syscall_any [of os "Ev_dev_create fd (udev_mode ?u) udrm_formats UDRM_BUF_MODE_SWAP_BYTES ''mi0283qt''" ?u] f by (auto simp: files_work_def)
  obtain index bfd where od: "os_dev os (trace u2) = (index, bfd)" by (cases "os_dev os (trace u2)")
  obtain cfd u3 where u3: "syscall os (Ev_open (''/dev/dri/controlD'' @ int_string (index + 64))) u2 = Some (cfd, u3)"
    "cfd \<noteq> - 1" using files_open [OF f u(2)] .
  have "\<exists>w7. devm_tinydrm_register os ''mi0283qt'' w6 = Some (0, w7)"
    using u1 u2 od u3 by (simp add: devm_tinydrm_register_def Let_def)
  then show ?thesis using w1 w2 w3 w4 i w6 by (auto simp: mi0283qt_probe_def Let_def)
qed

end
