(* ===== verification/Loop_Exit.thy ===== *)
theory Loop_Exit
  imports Safe_Loop
begin

text \<open>
  How the main loop ends: at the first event that ends it, a poll that succeeds and reports a
  hang-up or a read or reply that fails, with the value that says which of the two it was.
\<close>

section \<open>Events that end the loop\<close>

text \<open>What \<open>main\<close> returns because of the last call of a trace, if that call ends the loop.\<close>

definition loop_exit :: "os \<Rightarrow> sysev list \<Rightarrow> int option" where
  "loop_exit os h =
     (if h = [] then None
      else case last h of
        Ev_poll fd \<Rightarrow> if 0 \<le> os_ret os h \<and> os_hangup os h then Some 0 else None
      | Ev_read fd \<Rightarrow> if os_ret os h = - 1 then Some 1 else None
      | Ev_reply fd r \<Rightarrow> if os_ret os h = - 1 then Some 1 else None
      | _ \<Rightarrow> None)"

text \<open>None of the calls \<open>es\<close>, made after \<open>h\<close>, ends the loop.\<close>

fun goes_on :: "os \<Rightarrow> sysev list \<Rightarrow> sysev list \<Rightarrow> bool" where
  "goes_on os h [] \<longleftrightarrow> True"
| "goes_on os h (e # es) \<longleftrightarrow> loop_exit os (h @ [e]) = None \<and> goes_on os (h @ [e]) es"

lemma goes_on_append [simp]: "goes_on os h (es @ fs) \<longleftrightarrow> goes_on os h es \<and> goes_on os (h @ es) fs"
  by (induction es arbitrary: h) simp_all

lemma loop_exit_simps [simp]:
  "loop_exit os (h @ [Ev_poll fd]) =
    (if 0 \<le> os_ret os (h @ [Ev_poll fd]) \<and> os_hangup os (h @ [Ev_poll fd]) then Some 0 else None)"
  "loop_exit os (h @ [Ev_read fd]) = (if os_ret os (h @ [Ev_read fd]) = - 1 then Some 1 else None)"
  "loop_exit os (h @ [Ev_reply fd r]) = (if os_ret os (h @ [Ev_reply fd r]) = - 1 then Some 1 else None)"
  by (simp_all add: loop_exit_def)

lemma goes_on_calm: "list_all calm_ev es \<Longrightarrow> goes_on os h es"
  by (induction es arbitrary: h) (auto simp: loop_exit_def calm_ev_def split: sysev.splits)

section \<open>One round\<close>

text \<open>The two calls of \<open>tinydrm_unregister\<close>.\<close>

abbreviation closes :: "state \<Rightarrow> sysev list" where
  "closes w \<equiv> [Ev_close (udev_control_fd w), Ev_close (udev_fd w)]"

lemma unregister_trace: "tinydrm_unregister os w = Some ((), w') \<Longrightarrow> trace w' = trace w @ closes w"
  by (auto simp: tinydrm_unregister_def syscall_eq bind_eq_Some_conv)

lemma closes_setup: "same_setup w w' \<Longrightarrow> closes w' = closes w"
  by (simp add: same_setup_def)

text \<open>A round either goes on, decides the hang-up by its poll, or ends because a call failed.\<close>

lemma round_exit:
  assumes m: "driver_map os m" and r: "main_round os m w = Some ((x, hangup), w')"
  shows "\<exists>es e. goes_on os (trace w) es \<and>
    (case x of
       None \<Rightarrow> trace w' = trace w @ es @ [e] \<and> same_setup w w' \<and>
         loop_exit os (trace w @ es @ [e]) = (if hangup then Some 0 else None)
     | Some c \<Rightarrow> trace w' = trace w @ es @ [e] @ closes w \<and> loop_exit os (trace w @ es @ [e]) = Some c)"
proof -
  obtain r1 w1 where a: "syscall os (Ev_read (udev_fd w)) w = Some (r1, w1)" by (simp add: syscall_def Let_def)
  have w1: "trace w1 = trace w @ [Ev_read (udev_fd w)]" "closes w1 = closes w" "same_setup w w1"
    "r1 = os_ret os (trace w @ [Ev_read (udev_fd w)])"
    using a by (auto simp: syscall_eq same_setup_def)
  show ?thesis
  proof (cases "r1 = - 1")
    case True
    obtain w2 where u: "tinydrm_unregister os w1 = Some ((), w2)" using tinydrm_unregister_Some by blast
    have "x = Some 1" "w' = w2" using r a u True by (auto simp: main_round_def)
    then show ?thesis
      using unregister_trace [OF u] w1 True
      by (intro exI [of _ "[]"] exI [of _ "Ev_read (udev_fd w)"]) simp
  next
    case False
    obtain er w2 where b: "utinydrm_event os m (os_event os (trace w1)) w1 = Some (er, w2)"
      using r a False by (auto simp: main_round_def bind_eq_Some_conv)
    have "handler_ok w1 w2" using utinydrm_event_handler [OF m b] .
    then obtain es where es: "trace w2 = trace w1 @ es" "list_all calm_ev es" and s2: "same_setup w1 w2"
      by (auto simp: handler_ok_def calm_trace_def)
    let ?e = "Ev_reply (udev_fd w2) er" and ?es = "Ev_read (udev_fd w) # es"
    obtain r3 w3 where c: "syscall os ?e w2 = Some (r3, w3)" by (simp add: syscall_def Let_def)
    have w3: "trace w3 = trace w @ ?es @ [?e]" "same_setup w w3" "r3 = os_ret os (trace w @ ?es @ [?e])"
      using c es(1) w1 s2 by (auto simp: syscall_eq same_setup_def)
    have g: "goes_on os (trace w) ?es" using goes_on_calm [OF es(2)] w1(4) False by simp
    show ?thesis
    proof (cases "r3 = - 1")
      case True
      obtain w4 where u: "tinydrm_unregister os w3 = Some ((), w4)" using tinydrm_unregister_Some by blast
      have "x = Some 1" "w' = w4" using r a b c u True False by (auto simp: main_round_def)
      moreover have "loop_exit os (trace w @ ?es @ [?e]) = Some 1"
        using loop_exit_simps(3) [of os "trace w @ ?es"] w3(3) True by simp
      ultimately show ?thesis
        using unregister_trace [OF u] w3 g closes_setup [OF w3(2)]
        by (intro exI [of _ ?es] exI [of _ ?e]) simp
    next
      case ok: False
      let ?p = "Ev_poll (udev_fd w3)"
      obtain r4 w4 where d: "syscall os ?p w3 = Some (r4, w4)" by (simp add: syscall_def Let_def)
      have w4: "trace w4 = trace w @ (?es @ [?e]) @ [?p]" "same_setup w w4"
        "r4 = os_ret os (trace w @ (?es @ [?e]) @ [?p])"
        using d w3 by (auto simp: syscall_eq same_setup_def)
      have x: "x = None" "w' = w4" "hangup = (0 \<le> r4 \<and> os_hangup os (trace w4))"
        using r a b c d False ok by (auto simp: main_round_def)
      have "goes_on os (trace w) (?es @ [?e])"
        using g loop_exit_simps(3) [of os "trace w @ ?es"] w3(3) ok by simp
      moreover have "loop_exit os (trace w @ (?es @ [?e]) @ [?p]) = (if hangup then Some 0 else None)"
        using loop_exit_simps(1) [of os "trace w @ ?es @ [?e]"] w4(1,3) x(3) by simp
      ultimately show ?thesis
        using x(1,2) w4(1,2) by (intro exI [of _ "?es @ [?e]"] exI [of _ ?p]) simp
    qed
  qed
qed

section \<open>The whole loop\<close>

text \<open>
  The loop ends when, from some poll on, polling succeeds and reports the hang-up; before that,
  polls may fail.
\<close>

lemma loop_ends_first_exit:
  assumes "sane os m wb w" and d: "dma_works os"
    and e: "\<And>h. event_ok (os_event os h)" and f: "\<And>h. decent_fb (os_fb os h)"
    and hang: "\<And>h fd. N \<le> polls (h @ [Ev_poll fd]) \<Longrightarrow>
      0 \<le> os_ret os (h @ [Ev_poll fd]) \<and> os_hangup os (h @ [Ev_poll fd])"
  shows "\<exists>r w' es e. main_loop os m False w = Some (r, w') \<and> trace w' = trace w @ es @ [e] @ closes w \<and>
    goes_on os (trace w) es \<and> loop_exit os (trace w @ es @ [e]) = Some r"
  using assms(1)
proof (induction "N - polls (trace w)" arbitrary: w rule: less_induct)
  case less
  have dm: "driver_map os m" using sane_driver [OF less.prems] .
  obtain x h w1 where w1: "main_round os m w = Some ((x, h), w1)" "sane os m wb w1"
    using round_sane [OF d less.prems e f] by (auto elim: wpE)
  obtain es e where es: "goes_on os (trace w) es"
    "case x of
       None \<Rightarrow> trace w1 = trace w @ es @ [e] \<and> same_setup w w1 \<and>
         loop_exit os (trace w @ es @ [e]) = (if h then Some 0 else None)
     | Some c \<Rightarrow> trace w1 = trace w @ es @ [e] @ closes w \<and> loop_exit os (trace w @ es @ [e]) = Some c"
    using round_exit [OF dm w1(1)] by blast
  show ?case
  proof (cases x)
    case (Some c)
    then show ?thesis using w1(1) es by (subst main_loop.simps) auto
  next
    case None
    then have r: "main_round os m w = Some ((None, h), w1)" using w1(1) by simp
    have t: "trace w1 = trace w @ es @ [e]" "same_setup w w1"
      "loop_exit os (trace w @ es @ [e]) = (if h then Some 0 else None)"
      using es(2) None by simp_all
    show ?thesis
    proof (cases h)
      case True
      obtain w2 where u: "tinydrm_unregister os w1 = Some ((), w2)" using tinydrm_unregister_Some by blast
      have "main_loop os m True w1 = Some (0, w2)" using u by (subst main_loop.simps) simp
      then have "main_loop os m False w = Some (0, w2)" using r True by (subst main_loop.simps) simp
      then show ?thesis
        using unregister_trace [OF u] closes_setup [OF t(2)] t True es(1) by auto
    next
      case False
      have rt: "round_trace w w1" using main_round_ok [OF dm r] by blast
      then obtain g fd where p: "trace w1 = g @ [Ev_poll fd]" by (auto simp: round_trace_def)
      have "loop_exit os (trace w1) = None" using t(1,3) False by simp
      then have "\<not> N \<le> polls (trace w1)" using hang [of g fd] unfolding p by (auto split: if_splits)
      then have "N - polls (trace w1) < N - polls (trace w)" using round_polls [OF rt] by linarith
      from less.hyps [OF this w1(2)] obtain r' w' es' e' where
        l: "main_loop os m False w1 = Some (r', w')" "trace w' = trace w1 @ es' @ [e'] @ closes w1"
          "goes_on os (trace w1) es'" "loop_exit os (trace w1 @ es' @ [e']) = Some r'"
        by blast
      have "main_loop os m False w = Some (r', w')" using r l(1) False by (subst main_loop.simps) simp
      moreover have "goes_on os (trace w) ((es @ [e]) @ es')" using es(1) t l(3) False by simp
      ultimately show ?thesis
        using l(2,4) t(1) closes_setup [OF t(2)]
        by (intro exI [of _ r'] exI [of _ w'] exI [of _ "(es @ [e]) @ es'"] exI [of _ e']) simp
    qed
  qed
qed

end
