(* ===== verification/Safe_Props.thy ===== *)
theory Safe_Props
  imports Safe_Loop
begin

text \<open>
  Properties of every operating system, failing calls included: the program never accesses memory
  it does not own, it comes to its end when the device hangs up, and the one failure it does not
  survive.
\<close>

section \<open>No undefined outcome\<close>

lemma fresh_init: "fresh_dev init_state"
  by (simp add: fresh_dev_def init_state_def no_err_def)

text \<open>
  C12. Well-formed states and progress, whatever fails: on an operating system that can make the
  DMA buffer, that sets \<open>errno\<close>, and whose framebuffers and clips are sound, the probe function has
  a result; when it is 0 the state is well-formed, and in every state the main loop reaches from it
  the next round has a result and leaves a well-formed state. Opening and writing files, the SPI
  transfers, the mapping of framebuffers and all other allocations may fail in any order.
\<close>

theorem well_formed_never_stuck:
  assumes "dma_works os" and "errno_set os" and "\<forall>h. decent_fb (os_fb os h)"
    and "\<forall>h. event_ok (os_event os h)"
  shows "\<exists>ret reg w0. mi0283qt_probe os junk init_state = Some ((ret, reg), w0) \<and>
    (ret = 0 \<longrightarrow> (\<exists>m wb. reg = Some m \<and> sane os m wb w0 \<and>
      (\<forall>w. loop_reach os m w0 w \<longrightarrow>
        sane os m wb w \<and> (\<exists>r h w'. main_round os m w = Some ((r, h), w') \<and> sane os m wb w'))))"
proof -
  obtain ret reg w0 where p: "mi0283qt_probe os junk init_state = Some ((ret, reg), w0)"
    "ret = 0 \<Longrightarrow> \<exists>m wb. reg = Some m \<and> sane os m wb w0"
    using probe_sane [OF fresh_init assms(2), of junk] by (auto elim!: wpE) blast
  have "\<exists>r h w'. main_round os m w = Some ((r, h), w') \<and> sane os m wb w'" if "sane os m wb w" for m wb w
    using round_sane [OF assms(1) that] assms(3,4) by (auto elim!: wpE)
  moreover have "sane os m wb w" if "sane os m wb w0" "loop_reach os m w0 w" for m wb w
    using reach_sane [OF that(2) assms(1) that(1)] assms(3,4) by blast
  ultimately have "\<forall>w. loop_reach os m w0 w \<longrightarrow>
      sane os m wb w \<and> (\<exists>r h w'. main_round os m w = Some ((r, h), w') \<and> sane os m wb w')"
    if "sane os m wb w0" for m wb using that by blast
  then show ?thesis using p by blast
qed

text \<open>A system on which \<open>spidev\<close> cannot be opened and no framebuffer can be mapped.\<close>

definition os7 :: os where
  "os7 = os1\<lparr>os_ret := \<lambda>h. (case last h of Ev_create_dumb _ _ _ _ \<Rightarrow> 0
     | Ev_open f \<Rightarrow> if f = spidev then - 1 else int (length h)
     | Ev_mmap fd n pr \<Rightarrow> if pr = 1 then - 1 else int (length h)
     | _ \<Rightarrow> int (length h))\<rparr>"

lemma os7_files: "files_work os7"
  by (auto simp: files_work_def os7_def os1_def os0_def)

lemma os7_facts:
  "dma_works os7" "errno_set os7" "\<forall>h. decent_fb (os_fb os7 h)" "\<forall>h. event_ok (os_event os7 h)"
  using os1_fb
  by (auto simp: dma_works_def errno_set_def os7_def os1_def os0_def panel_fb_decent split: sysev.splits)


theorem well_formed_never_stuck_witness:
  "\<exists>m wb w0. mi0283qt_probe os7 REGMAP_ENDIAN_DEFAULT init_state = Some ((0, Some m), w0) \<and> sane os7 m wb w0 \<and>
    (\<exists>r h w'. main_round os7 m w0 = Some ((r, h), w') \<and> sane os7 m wb w')"
proof -
  obtain reg w where p: "mi0283qt_probe os7 REGMAP_ENDIAN_DEFAULT init_state = Some ((0, reg), w)"
    using probe_works [OF os7_files] by blast
  then obtain m wb where m: "reg = Some m" "sane os7 m wb w"
    "\<forall>w1. loop_reach os7 m w w1 \<longrightarrow>
      sane os7 m wb w1 \<and> (\<exists>r h w'. main_round os7 m w1 = Some ((r, h), w') \<and> sane os7 m wb w')"
    using well_formed_never_stuck [OF os7_facts, of REGMAP_ENDIAN_DEFAULT] by auto
  then show ?thesis using p loop_reach.start by blast
qed

section \<open>The end of the program\<close>

text \<open>
  C11. On an operating system that can make the DMA buffer, that sets \<open>errno\<close>, and whose framebuffers
  and clips are sound: when polling the device does not fail and the device hangs up by the \<open>N\<close>-th poll, \<open>main\<close> returns 0 or 1, whatever else fails: it neither loops for ever nor
  accesses memory it does not own.
\<close>

theorem main_always_returns:
  assumes "dma_works os" and "errno_set os" and "\<forall>h. decent_fb (os_fb os h)"
    and "\<forall>h. event_ok (os_event os h)" and "\<forall>h fd. 0 \<le> os_ret os (h @ [Ev_poll fd])"
    and "\<forall>h. N \<le> polls h \<longrightarrow> os_hangup os h"
  shows "\<exists>r w. utinydrm_main os junk init_state = Some (r, w) \<and> (r = 0 \<or> r = 1)"
proof -
  obtain p w1 where k: "kmalloc os 1024 init_state = Some (p, w1)" and t: "steady init_state w1"
    using runs_kmalloc_plain [OF steady_refl] by (rule runsE)
  obtain ret reg w2 where p: "mi0283qt_probe os junk w1 = Some ((ret, reg), w2)"
    "ret = 0 \<Longrightarrow> \<exists>m wb. reg = Some m \<and> sane os m wb w2"
    using probe_sane [OF fresh_steady [OF fresh_init t] assms(2), of junk] by (auto elim!: wpE) blast
  show ?thesis
  proof (cases "p = Null \<or> ret \<noteq> 0")
    case True
    then show ?thesis using k p(1) by (auto simp: utinydrm_main_def)
  next
    case False
    then obtain m wb where m: "reg = Some m" "sane os m wb w2" using p(2) by blast
    obtain r w3 where "main_loop os m False w2 = Some (r, w3)" "r = 0 \<or> r = 1"
      using main_loop_ends [OF m(2) assms(1), of N] assms(3-6) by blast
    then show ?thesis using k p(1) m(1) False by (auto simp: utinydrm_main_def)
  qed
qed

theorem main_always_returns_witness:
  "\<exists>r w. utinydrm_main os7 REGMAP_ENDIAN_DEFAULT init_state = Some (r, w) \<and> (r = 0 \<or> r = 1)"
proof -
  have p: "\<forall>h fd. 0 \<le> os_ret os7 (h @ [Ev_poll fd])" "\<forall>h. 0 \<le> polls h \<longrightarrow> os_hangup os7 h"
    by (simp_all add: os7_def os1_def os0_def)
  show ?thesis by (rule main_always_returns [OF os7_facts p])
qed

section \<open>The failure the program does not survive\<close>

text \<open>The DMA buffer cannot be made: its first structure is not allocated, or the driver refuses.\<close>

definition dma_fails :: "os \<Rightarrow> bool" where
  "dma_fails os \<longleftrightarrow> (\<forall>h. \<not> os_alloc os (h @ [Ev_alloc 16])) \<or>
     (\<forall>h fd x y z. os_ret os (h @ [Ev_create_dumb fd x y z]) \<noteq> 0)"

lemma create_dmabuf_fails:
  assumes "dma_fails os"
  shows "\<exists>w'. utinydrm_create_dmabuf os fd x y z w = Some (PErr (- ENOMEM), w') \<and> steady w w'"
proof (cases rule: kzalloc_cases [of os 16 w])
  case (1 w1)
  then show ?thesis by (simp add: utinydrm_create_dmabuf_def)
next
  case (2 p w1)
  then have "os_alloc os (trace w @ [Ev_alloc 16])"
    by (auto simp: kzalloc_def alloc_def Let_def split: if_splits)
  then have r: "\<forall>h fd x y z. os_ret os (h @ [Ev_create_dumb fd x y z]) \<noteq> 0"
    using assms by (auto simp: dma_fails_def)
  obtain w2 where w2: "bo_create_dumb os fd x y z w1 = Some (None, w2)" "steady w1 w2"
  proof (cases rule: kzalloc_cases [of os 24 w1])
    case (1 v)
    then show ?thesis using that by (simp add: bo_create_dumb_def)
  next
    case q: (2 q v)
    obtain k v2 where v2: "syscall os (Ev_create_dumb fd x y z) v = Some (k, v2)" "k \<noteq> 0" "steady v v2"
      using syscall_any [of os "Ev_create_dumb fd x y z" v] r by auto
    have "runs w1 (kfree (Ptr q 0) v2)"
      using runs_kfree [OF steady_trans [OF q(2) v2(3)] held_steady [OF q(3) v2(3)] q(4)] .
    then obtain v3 where "kfree (Ptr q 0) v2 = Some ((), v3)" "steady w1 v3" by (auto elim: runsE)
    then show ?thesis using that q(1) v2(1,2) by (simp add: bo_create_dumb_def del: kfree.simps)
  qed
  have "runs w (kfree (Ptr p 0) w2)"
    using runs_kfree [OF steady_trans [OF 2(2) w2(2)] held_steady [OF 2(3) w2(2)] 2(4)] .
  then obtain w3 where "kfree (Ptr p 0) w2 = Some ((), w3)" "steady w w3" by (auto elim: runsE)
  then show ?thesis using 2(1) w2(1) by (simp add: utinydrm_create_dmabuf_def del: kfree.simps)
qed

text \<open>
  Reading the display and resetting it leave the buffer pointers and the flags of the device alone.
\<close>

definition same_tx :: "state \<Rightarrow> state \<Rightarrow> bool" where
  "same_tx w w' \<longleftrightarrow> tx_buf w' = tx_buf w \<and> mspi w' = mspi w \<and> spi w' = spi w \<and> fbs w' = fbs w \<and>
     prepared w' = prepared w \<and> pipe_funcs w' = pipe_funcs w"

named_theorems tx_ops \<open>operations that leave the buffer pointers alone\<close>

lemma same_tx_refl [tx_ops]: "same_tx w w"
  by (simp add: same_tx_def)

lemma same_tx_upds [tx_ops]:
  "same_tx w0 w \<Longrightarrow> same_tx w0 (log_evs es w)" "same_tx w0 w \<Longrightarrow> same_tx w0 (w\<lparr>errno := e\<rparr>)"
  "same_tx w0 w \<Longrightarrow> same_tx w0 (w\<lparr>mem := mm\<rparr>)" "same_tx w0 w \<Longrightarrow> same_tx w0 (w\<lparr>nblk := k\<rparr>)"
  by (simp_all add: same_tx_def)

lemma tx_store [tx_ops]: "same_tx w0 w \<Longrightarrow> keeps same_tx w0 (store p bs w)"
  by (cases p) (auto simp: keeps_def intro: same_tx_upds split: option.splits)

lemma tx_blocks [tx_ops]:
  "same_tx w0 w \<Longrightarrow> keeps same_tx w0 (new_block bs w)" "same_tx w0 w \<Longrightarrow> keeps same_tx w0 (drop_block p w)"
  "same_tx w0 w \<Longrightarrow> keeps same_tx w0 (kfree p w)" "same_tx w0 w \<Longrightarrow> keeps same_tx w0 (kmalloc os n w)"
  "same_tx w0 w \<Longrightarrow> keeps same_tx w0 (kzalloc os n w)"
  by (cases p; auto simp: keeps_def new_block_def kmalloc_def kzalloc_def alloc_def Let_def intro: same_tx_upds)+

lemma tx_calls [tx_ops]:
  "same_tx w0 w \<Longrightarrow> keeps same_tx w0 (syscall os e w)" "same_tx w0 w \<Longrightarrow> keeps same_tx w0 (msleep ms w)"
  by (auto simp: keeps_def syscall_def msleep_def usleep_def Let_def intro: same_tx_upds)

lemma tx_store_rx [tx_ops]: "same_tx w0 w \<Longrightarrow> keeps same_tx w0 (store_rx f xs w)"
proof (induction xs arbitrary: f w)
  case (Cons x xs)
  show ?case unfolding store_rx.simps by (rule frame_intros tx_ops Cons | assumption)+
qed (simp add: keeps_def)

lemma tx_spi [tx_ops]:
  "same_tx w0 w \<Longrightarrow> keeps same_tx w0 (spi_ioctl os fd utr w)"
  unfolding spi_ioctl_def by (rule frame_intros tx_ops | assumption)+

lemma tx_message [tx_ops]: "same_tx w0 w \<Longrightarrow> keeps same_tx w0 (spi_ioc_message os utr w)"
  unfolding spi_ioc_message_def by (rule frame_intros tx_ops | assumption)+

lemma tx_send [tx_ops]: "same_tx w0 w \<Longrightarrow> keeps same_tx w0 (spi_sync_send os u rest w)"
  unfolding spi_sync_send_def by (rule frame_intros tx_ops | assumption)+

lemma tx_buf_loop [tx_ops]: "same_tx w0 w \<Longrightarrow> keeps same_tx w0 (spi_buf_loop os bfd sp off len w)"
proof (induction len arbitrary: off w rule: less_induct)
  case (less len)
  show ?case
  proof (cases "len = 0")
    case True
    then show ?thesis using less.prems by (simp add: spi_buf_loop.simps keeps_Some)
  next
    case False
    then have "len - kmin len spi_buf_max_chunk < len" by simp
    note ih = less.IH [OF this]
    show ?thesis
      by (subst spi_buf_loop.simps) (rule frame_intros tx_ops ih less.prems | assumption | hypsubst)+
  qed
qed

lemma tx_sync [tx_ops]: "same_tx w0 w \<Longrightarrow> keeps same_tx w0 (spi_sync os m w)"
  unfolding spi_sync_def spi_buf_transfer_def by (rule frame_intros tx_ops | assumption)+

lemma tx_set_dc [tx_ops]:
  "same_tx w0 w \<Longrightarrow> keeps same_tx w0 (gpiod_set_value_cansleep os d v w)"
  "same_tx w0 w \<Longrightarrow> keeps same_tx w0 (set_dc os v w)"
  unfolding set_dc_def gpiod_set_value_cansleep_def by (rule frame_intros tx_ops | assumption)+

lemma tx_spi3_read [tx_ops]: "same_tx w0 w \<Longrightarrow> keeps same_tx w0 (mipi_dbi_spi3_read os p n q k w)"
  unfolding mipi_dbi_spi3_read_def by (rule frame_intros tx_ops | assumption)+

lemma tx_raw_read [tx_ops]:
  "same_tx w0 w \<Longrightarrow>
   keeps same_tx w0 (regmap_raw_read (dbi_regmap (mipi_dbi_regmap_bus3 os) p) reg q n w)"
  unfolding regmap_raw_read_def regmap_raw_read_bus_def dbi_regmap_def mipi_dbi_regmap_bus3_def
    regmap.simps regmap_bus.simps option.case call_format_def regmap_format_8_def
    regmap_set_work_buf_flag_mask_def
  by (rule frame_intros tx_ops | assumption | simp)+

lemma tx_display_is_on [tx_ops]:
  "same_tx w0 w \<Longrightarrow>
   keeps same_tx w0 (mipi_dbi_display_is_on os (dbi_regmap (mipi_dbi_regmap_bus3 os) p) w)"
  unfolding mipi_dbi_display_is_on_def by (rule frame_intros tx_ops | assumption)+

lemma tx_hw_reset [tx_ops]: "same_tx w0 w \<Longrightarrow> keeps same_tx w0 (mipi_dbi_hw_reset os w)"
  unfolding mipi_dbi_hw_reset_def by (rule frame_intros tx_ops | assumption)+

lemma store_held:
  assumes "held w p (length bs)"
  obtains w' where "store p bs w = Some ((), w')" "steady w w'" "same_tx w w'"
proof -
  obtain w' where w': "store p bs w = Some ((), w')" "steady w w'"
    using runs_store [OF assms steady_refl] by (auto elim: runsE)
  with that keepsD [OF tx_store [OF same_tx_refl] w'(1)] show ?thesis by blast
qed

text \<open>With an error pointer in \<open>tx_buf\<close>, asking the display has no defined outcome.\<close>

lemma display_crashes:
  assumes m: "m = dbi_regmap (mipi_dbi_regmap_bus3 os) (Ptr wb 0)" "held w (Ptr wb 0) 2"
    and d: "ms_dc (mspi w) \<noteq> None" "\<not> write_only (mspi w)" "tx_buf w = PErr e"
    and f: "\<And>u. u \<in> set (fbs w) \<Longrightarrow> \<exists>c. fb_map u = Ptr c 0 \<and> c \<noteq> wb"
    and al: "\<And>h. os_alloc os (h @ [Ev_alloc 1])"
  shows "mipi_dbi_display_is_on os m w = None"
proof -
  let ?v = "Ptr (nblk w) 0"
  let ?w1 = "w\<lparr>mem := (mem w)(nblk w \<mapsto> [os_junk os (trace w) 0]), nblk := Suc (nblk w)\<rparr>"
  have t1: "steady w ?w1" by (rule steady_new)
  have h1: "held ?w1 (Ptr wb 0) (length [0x0A :: u8])" 
    using held_le [OF held_steady [OF m(2) t1], of 1] by (simp del: held.simps)
  obtain w2 where w2: "store (Ptr wb 0) [0x0A] ?w1 = Some ((), w2)" "steady ?w1 w2" "same_tx ?w1 w2"
    by (rule store_held [OF h1])
  have t2: "steady w w2" using steady_trans [OF t1 w2(2)] .
  have "held w2 (Ptr wb 0) 1" using held_le [OF held_steady [OF m(2) t2], of 1] by simp
  then obtain bs where bs: "load w2 (Ptr wb 0) 1 = Some bs" using held_load by blast
  have bs1: "bs = [0x0A]" using load_store_same [OF w2(1)] bs by simp
  obtain w3 b where w3: "kmalloc os 1 w2 = Some (Ptr b 0, w3)"
    using al [of "trace w2"] by (auto simp: kmalloc_def alloc_def Let_def new_block_def)
  have t3: "same_tx w w3"
  proof -
    have "same_tx w ?w1" by (simp add: same_tx_def)
    then have "same_tx w w2" using w2(3) by (simp add: same_tx_def)
    from keepsD [OF tx_blocks(4) [OF this] w3] show ?thesis .
  qed
  have rest: "set_dc os 0 w3 \<bind> (\<lambda>(_, w). spi_sync os (tr # ts) w \<bind> g) = None"
    if "tr_tx_buf tr = Ptr wb 0" for tr ts and g :: "(int \<times> spi_transfer list) \<times> state \<Rightarrow> (int \<times> state) option"
  proof (cases "set_dc os 0 w3")
    case (Some x)
    obtain w4 where x: "x = ((), w4)" by (cases x) simp
    have "same_tx w w4" using keepsD [OF tx_set_dc(2) [OF t3]] Some x by blast
    then have s: "tx_buf w4 = PErr e" "fbs w4 = fbs w" using d(3) by (simp_all add: same_tx_def)
    have "\<not> ptr_in (Ptr wb 0) (fb_map u) n" if "u \<in> set (fbs w)" for u n
      using f [OF that] by auto
    then have "find (\<lambda>u. ptr_in (Ptr wb 0) (fb_map u) (fb_map_size u)) (fbs w4) = None"
      unfolding s(2) by (auto simp: find_None_iff)
    then show ?thesis using Some x s(1) that by (simp add: spi_sync_def)
  qed simp
  have wo: "\<not> write_only (mspi w2)" using d(2) w2(3) by (simp add: same_tx_def)
  have "mipi_dbi_spi3_read os (Ptr wb 0) 1 ?v 1 w2 = None"
    using bs w3 wo unfolding mipi_dbi_spi3_read_def bs1
    by (simp add: spi_message_init_with_transfers_def rest Let_def del: load.simps store.simps kfree.simps)
  then show ?thesis
    using w2(1) unfolding m(1)
    by (simp add: mipi_dbi_display_is_on_def new_block_def regmap_raw_read_def regmap_raw_read_bus_def
        dbi_regmap_def mipi_dbi_regmap_bus3_def call_format_def regmap_format_8_def IS_ALIGNED_def
        regmap_set_work_buf_flag_mask_def Let_def del: store.simps)
qed

lemma tx_create_dmabuf [tx_ops]: "same_tx w0 w \<Longrightarrow> keeps same_tx w0 (utinydrm_create_dmabuf os fd x y z w)"
  unfolding utinydrm_create_dmabuf_def bo_create_dumb_def sys_mmap_def
  by (rule frame_intros tx_ops | assumption)+

text \<open>A command when the DMA buffer cannot be made: an error, and the error pointer stays.\<close>

lemma write_without_dma:
  assumes s: "sane os m wb w" and fl: "dma_fails os" and al: "\<And>h. os_alloc os (h @ [Ev_alloc 0])"
    and u: "utinydrm (spi w)" "chunk_size (mspi w) \<le> 153600" "ms_tx_buf (mspi w) = Null"
  shows "\<exists>w2. mipi_dbi_write os m cmd [] w = Some (- ENOMEM, w2) \<and> same_tx (w\<lparr>tx_buf := PErr (- ENOMEM)\<rparr>) w2 \<and>
    held w2 (Ptr wb 0) 2"
proof -
  have m: "m = dbi_regmap (mipi_dbi_regmap_bus3 os) (Ptr wb 0)" "held w (Ptr wb 0) 2"
    using s by (simp_all add: sane_def del: held.simps)
  let ?d = "nblk w"
  let ?w1 = "w\<lparr>mem := (mem w)(?d \<mapsto> []), nblk := Suc ?d\<rparr>"
  let ?b = "Suc ?d"
  let ?w2 = "(log_ev (Ev_alloc 0) ?w1)\<lparr>mem := (mem ?w1)(?b \<mapsto> []), nblk := Suc ?b\<rparr>"
  have k: "kmalloc os 0 ?w1 = Some (Ptr ?b 0, ?w2)"
    using al by (simp add: kmalloc_def alloc_def Let_def new_block_def)
  have cp: "memcpy (Ptr ?b 0) (Ptr ?d 0) 0 ?w2 = Some ((), ?w2)" by (simp add: memcpy_def fun_upd_idem)
  have t2: "steady w ?w2"
  proof -
    have "steady w (log_ev (Ev_alloc 0) ?w1)" using steady_new by (rule steady_upds)
    from steady_trans [OF this steady_new] show ?thesis by simp
  qed
  have x2: "same_tx w ?w2" by (simp add: same_tx_def)
  have hb: "held ?w2 (Ptr ?b 0) 0" "held ?w2 (Ptr wb 0) (length [ucast cmd :: u8])"
    using held_le [OF held_steady [OF m(2) t2], of 1] by (simp_all add: blk_len_def del: held.simps(2)) simp
  obtain w4 where w4: "store (Ptr wb 0) [ucast cmd] ?w2 = Some ((), w4)" "steady ?w2 w4" "same_tx ?w2 w4"
    by (rule store_held [OF hb(2)])
  have x4: "same_tx w w4" using x2 w4(3) by (simp add: same_tx_def)
  obtain w5 where w5: "utinydrm_create_dmabuf os (udev_control_fd w4) 320 240 16 w4 = Some (PErr (- ENOMEM), w5)" "steady w4 w5"
    using create_dmabuf_fails [OF fl] by blast
  have x5: "same_tx w w5" using keepsD [OF tx_create_dmabuf [OF x4] w5(1)] .
  let ?w6 = "w5\<lparr>tx_buf := PErr (- ENOMEM)\<rparr>"
  have n5: "ms_tx_buf (mspi w5) = Null" using u(3) x5 by (simp add: same_tx_def)
  have m6: "?w6\<lparr>mspi := (mspi ?w6)\<lparr>ms_tx_buf := Null\<rparr>\<rparr> = ?w6"
    using u(3) x5 by (cases w5; cases "mspi w5") (simp add: same_tx_def)
  have g: "mipi_dbi_spi3_gather_write os (Ptr wb 0) 1 (Ptr ?b 0) 0 w4 = Some (- ENOMEM, ?w6)"
    using u x4 w5(1) m6 n5
    by (simp add: mipi_dbi_spi3_gather_write_def utinydrm_get_tx_buf_def same_tx_def not_less)
  have r: "regmap_raw_write os m cmd (Ptr ?b 0) 0 ?w2 = Some (- ENOMEM, ?w6)"
    using w4(1) g unfolding m(1)
    by (simp add: regmap_raw_write_def regmap_can_raw_write_def regmap_raw_write_work_def dbi_regmap_def
        mipi_dbi_regmap_bus3_def call_format_def regmap_format_8_def regmap_set_work_buf_flag_mask_def Let_def
        del: store.simps)
  have t5: "steady ?w2 w5" using steady_trans [OF w4(2) w5(2)] .
  have "blk_len w5 ?b = Some 0" "blk_len w5 wb = blk_len w wb"
    using t5 t2 m(2) by (auto simp: steady_def blk_len_def)
  moreover from this obtain ys where "mem w5 wb = Some ys" "2 \<le> length ys"
    using m(2) by (auto simp: blk_len_def split: option.splits)
  moreover have "wb < ?d" using m(2) by simp
  ultimately show ?thesis
    using k cp r m(2) x5 steady_nblk [OF t5]
    by (auto simp: mipi_dbi_write_def mipi_dbi_write_buf_def new_block_def same_tx_def blk_len_def)
qed

text \<open>
  C36. When the DMA buffer cannot be made, the first event that turns the pipe on is answered with
  success although the panel was not set up; the error pointer that stays in \<open>tx_buf\<close> makes the next
  such event access memory through it, which has no defined outcome.
\<close>

theorem failed_dma_buffer:
  assumes "sane os m wb w" and "dma_fails os" and "\<forall>h. os_alloc os (h @ [Ev_alloc 0]) \<and> os_alloc os (h @ [Ev_alloc 1])"
    and "utinydrm (spi w)" and "chunk_size (mspi w) \<le> 153600" and "ms_tx_buf (mspi w) = Null"
    and "\<not> write_only (mspi w)" and "pipe_funcs w" and "\<not> prepared w"
    and "mipi_dbi_display_is_on os m w = Some (False, w1)"
  shows "\<exists>w2. utinydrm_event os m UDRM_EVENT_PIPE_ENABLE w = Some (0, w2) \<and> \<not> prepared w2 \<and>
    tx_buf w2 = PErr (- ENOMEM) \<and> utinydrm_event os m UDRM_EVENT_PIPE_ENABLE w2 = None"
proof -
  have m: "m = dbi_regmap (mipi_dbi_regmap_bus3 os) (Ptr wb 0)" using assms(1) by (simp add: sane_def)
  have "sr3.usable os m wb w" using assms(1) unfolding sr3.usable_def sane_def by blast
  from sr3.display_is_on_runs [OF steady_refl this] assms(10) have t1: "steady w w1" by (auto elim: runsE)
  have x1: "same_tx w w1" using keepsD [OF tx_display_is_on [OF same_tx_refl]] assms(10) m by blast
  obtain w3 where w3: "mipi_dbi_hw_reset os w1 = Some ((), w3)" "steady w w3"
    using sb3.hw_reset_runs [OF t1, of os] by (auto elim: runsE)
  have x3: "same_tx w w3" using keepsD [OF tx_hw_reset [OF x1] w3(1)] .
  obtain w2 where w2: "mipi_dbi_write os m 0x01 [] w3 = Some (- ENOMEM, w2)"
    "same_tx (w3\<lparr>tx_buf := PErr (- ENOMEM)\<rparr>) w2" "held w2 (Ptr wb 0) 2"
    using write_without_dma [OF sane_steady [OF assms(1) w3(2)] assms(2), of "0x01"] assms(3-6) x3
    by (auto simp: same_tx_def)
  have e1: "utinydrm_event os m UDRM_EVENT_PIPE_ENABLE w = Some (0, w2)"
    using assms(8-10) w3(1) w2(1) by (simp add: utinydrm_pipe_enable_def mi0283qt_enable_def)
  have f: "prepared w2 = prepared w" "pipe_funcs w2 = pipe_funcs w" "tx_buf w2 = PErr (- ENOMEM)"
    "fbs w2 = fbs w" "mspi w2 = mspi w"
    using w2(2) x3 by (simp_all add: same_tx_def)
  have "mipi_dbi_display_is_on os m w2 = None"
    using assms(1,3,7) f w2(3)
    by (intro display_crashes [OF m w2(3)]) (auto simp: sane_def sendable_def fb_sound_def)
  then have "utinydrm_event os m UDRM_EVENT_PIPE_ENABLE w2 = None"
    using f assms(8,9) by (simp add: utinydrm_pipe_enable_def mi0283qt_enable_def)
  then show ?thesis using e1 f assms(9) by blast
qed

text \<open>A system without that allocation, on which \<open>spidev\<close> cannot be opened either.\<close>

definition os8 :: os where
  "os8 = os7\<lparr>os_alloc := \<lambda>h. last h \<noteq> Ev_alloc 16\<rparr>"

definition dev8 :: state where
  "dev8 = init_state\<lparr>spi := main_spi\<lparr>drvdata := True, utinydrm := True\<rparr>,
     mspi := \<lparr>ram_reg = MIPI_DCS_WRITE_MEMORY_START, ms_dc = Some \<lparr>gpio_fd = 5, gpio_nr = 24, gpio_name = ''dc''\<rparr>,
              write_only = False, ms_tx_buf = Null, chunk_size = 153600\<rparr>,
     mem := [0 \<mapsto> [0, 0]], nblk := 1, pipe_funcs := True\<rparr>"

definition map8 :: regmap where
  "map8 = dbi_regmap (mipi_dbi_regmap_bus3 os8) (Ptr 0 0)"

lemma dev8_off: "\<exists>w1. mipi_dbi_display_is_on os8 map8 dev8 = Some (False, w1)"
  by (simp add: mipi_dbi_display_is_on_def new_block_def regmap_raw_read_def regmap_raw_read_bus_def
        dbi_regmap_def mipi_dbi_regmap_bus3_def call_format_def regmap_format_8_def IS_ALIGNED_def
        regmap_set_work_buf_flag_mask_def Let_def mipi_dbi_spi3_read_def kmalloc_def alloc_def os8_def os7_def os1_def os0_def
        dev8_def init_state_def set_dc_def gpiod_set_value_cansleep_def syscall_def spi_message_init_with_transfers_def
        spi_sync_def spi_sync_send_def main_spi_def map8_def)

lemma dev8_facts:
  "sane os8 map8 0 dev8" "dma_fails os8" "\<forall>h. os_alloc os8 (h @ [Ev_alloc 0]) \<and> os_alloc os8 (h @ [Ev_alloc 1])"
  "utinydrm (spi dev8)" "chunk_size (mspi dev8) \<le> 153600" "ms_tx_buf (mspi dev8) = Null"
  "\<not> write_only (mspi dev8)" "pipe_funcs dev8" "\<not> prepared dev8"
  using main_spi_bpw(1)
  by (simp_all add: sane_def map8_def sendable_def no_err_def blk_len_def dma_fails_def os8_def dev8_def
      init_state_def tinydrm_spi_bpw_supported_def)

theorem failed_dma_buffer_witness:
  "\<exists>w2. utinydrm_event os8 map8 UDRM_EVENT_PIPE_ENABLE dev8 = Some (0, w2) \<and> \<not> prepared w2 \<and>
    tx_buf w2 = PErr (- ENOMEM) \<and> utinydrm_event os8 map8 UDRM_EVENT_PIPE_ENABLE w2 = None"
proof -
  obtain w1 where "mipi_dbi_display_is_on os8 map8 dev8 = Some (False, w1)" using dev8_off by blast
  from failed_dma_buffer [OF dev8_facts this] show ?thesis .
qed

end
