(* ===== verification/Mipi_Display.thy ===== *)
theory Mipi_Display
  imports Dcs Debugfs Panel
begin

text \<open>
  The numbers of \<open>include/video/mipi_display.h\<close> and \<open>include/drm/tinydrm/ili9341.h\<close>: every enumeration as a
  datatype with its codes, and the inverse of the codes. The lemmas show that no two members of an
  enumeration have the same number, that the standard commands and the registers of the controller
  are apart, and that the driver sends commands of these two sets only.
\<close>

section \<open>Transaction types of DSI\<close>

text \<open>Processor to peripheral.\<close>

datatype mipi_dsi_type =
    MIPI_DSI_V_SYNC_START | MIPI_DSI_V_SYNC_END | MIPI_DSI_H_SYNC_START | MIPI_DSI_H_SYNC_END
  | MIPI_DSI_COLOR_MODE_OFF | MIPI_DSI_COLOR_MODE_ON | MIPI_DSI_SHUTDOWN_PERIPHERAL
  | MIPI_DSI_TURN_ON_PERIPHERAL | MIPI_DSI_GENERIC_SHORT_WRITE_0_PARAM
  | MIPI_DSI_GENERIC_SHORT_WRITE_1_PARAM | MIPI_DSI_GENERIC_SHORT_WRITE_2_PARAM
  | MIPI_DSI_GENERIC_READ_REQUEST_0_PARAM | MIPI_DSI_GENERIC_READ_REQUEST_1_PARAM
  | MIPI_DSI_GENERIC_READ_REQUEST_2_PARAM | MIPI_DSI_DCS_SHORT_WRITE
  | MIPI_DSI_DCS_SHORT_WRITE_PARAM | MIPI_DSI_DCS_READ | MIPI_DSI_SET_MAXIMUM_RETURN_PACKET_SIZE
  | MIPI_DSI_END_OF_TRANSMISSION | MIPI_DSI_NULL_PACKET | MIPI_DSI_BLANKING_PACKET
  | MIPI_DSI_GENERIC_LONG_WRITE | MIPI_DSI_DCS_LONG_WRITE
  | MIPI_DSI_LOOSELY_PACKED_PIXEL_STREAM_YCBCR20 | MIPI_DSI_PACKED_PIXEL_STREAM_YCBCR24
  | MIPI_DSI_PACKED_PIXEL_STREAM_YCBCR16 | MIPI_DSI_PACKED_PIXEL_STREAM_30
  | MIPI_DSI_PACKED_PIXEL_STREAM_36 | MIPI_DSI_PACKED_PIXEL_STREAM_YCBCR12
  | MIPI_DSI_PACKED_PIXEL_STREAM_16 | MIPI_DSI_PACKED_PIXEL_STREAM_18
  | MIPI_DSI_PIXEL_STREAM_3BYTE_18 | MIPI_DSI_PACKED_PIXEL_STREAM_24

fun dsi_code :: "mipi_dsi_type \<Rightarrow> u8" where
  "dsi_code MIPI_DSI_V_SYNC_START = 0x01"
| "dsi_code MIPI_DSI_V_SYNC_END = 0x11"
| "dsi_code MIPI_DSI_H_SYNC_START = 0x21"
| "dsi_code MIPI_DSI_H_SYNC_END = 0x31"
| "dsi_code MIPI_DSI_COLOR_MODE_OFF = 0x02"
| "dsi_code MIPI_DSI_COLOR_MODE_ON = 0x12"
| "dsi_code MIPI_DSI_SHUTDOWN_PERIPHERAL = 0x22"
| "dsi_code MIPI_DSI_TURN_ON_PERIPHERAL = 0x32"
| "dsi_code MIPI_DSI_GENERIC_SHORT_WRITE_0_PARAM = 0x03"
| "dsi_code MIPI_DSI_GENERIC_SHORT_WRITE_1_PARAM = 0x13"
| "dsi_code MIPI_DSI_GENERIC_SHORT_WRITE_2_PARAM = 0x23"
| "dsi_code MIPI_DSI_GENERIC_READ_REQUEST_0_PARAM = 0x04"
| "dsi_code MIPI_DSI_GENERIC_READ_REQUEST_1_PARAM = 0x14"
| "dsi_code MIPI_DSI_GENERIC_READ_REQUEST_2_PARAM = 0x24"
| "dsi_code MIPI_DSI_DCS_SHORT_WRITE = 0x05"
| "dsi_code MIPI_DSI_DCS_SHORT_WRITE_PARAM = 0x15"
| "dsi_code MIPI_DSI_DCS_READ = 0x06"
| "dsi_code MIPI_DSI_SET_MAXIMUM_RETURN_PACKET_SIZE = 0x37"
| "dsi_code MIPI_DSI_END_OF_TRANSMISSION = 0x08"
| "dsi_code MIPI_DSI_NULL_PACKET = 0x09"
| "dsi_code MIPI_DSI_BLANKING_PACKET = 0x19"
| "dsi_code MIPI_DSI_GENERIC_LONG_WRITE = 0x29"
| "dsi_code MIPI_DSI_DCS_LONG_WRITE = 0x39"
| "dsi_code MIPI_DSI_LOOSELY_PACKED_PIXEL_STREAM_YCBCR20 = 0x0c"
| "dsi_code MIPI_DSI_PACKED_PIXEL_STREAM_YCBCR24 = 0x1c"
| "dsi_code MIPI_DSI_PACKED_PIXEL_STREAM_YCBCR16 = 0x2c"
| "dsi_code MIPI_DSI_PACKED_PIXEL_STREAM_30 = 0x0d"
| "dsi_code MIPI_DSI_PACKED_PIXEL_STREAM_36 = 0x1d"
| "dsi_code MIPI_DSI_PACKED_PIXEL_STREAM_YCBCR12 = 0x3d"
| "dsi_code MIPI_DSI_PACKED_PIXEL_STREAM_16 = 0x0e"
| "dsi_code MIPI_DSI_PACKED_PIXEL_STREAM_18 = 0x1e"
| "dsi_code MIPI_DSI_PIXEL_STREAM_3BYTE_18 = 0x2e"
| "dsi_code MIPI_DSI_PACKED_PIXEL_STREAM_24 = 0x3e"

definition all_dsi :: "mipi_dsi_type list" where
  "all_dsi = [
    MIPI_DSI_V_SYNC_START, MIPI_DSI_V_SYNC_END, MIPI_DSI_H_SYNC_START, MIPI_DSI_H_SYNC_END,
    MIPI_DSI_COLOR_MODE_OFF, MIPI_DSI_COLOR_MODE_ON, MIPI_DSI_SHUTDOWN_PERIPHERAL,
    MIPI_DSI_TURN_ON_PERIPHERAL, MIPI_DSI_GENERIC_SHORT_WRITE_0_PARAM,
    MIPI_DSI_GENERIC_SHORT_WRITE_1_PARAM, MIPI_DSI_GENERIC_SHORT_WRITE_2_PARAM,
    MIPI_DSI_GENERIC_READ_REQUEST_0_PARAM, MIPI_DSI_GENERIC_READ_REQUEST_1_PARAM,
    MIPI_DSI_GENERIC_READ_REQUEST_2_PARAM, MIPI_DSI_DCS_SHORT_WRITE,
    MIPI_DSI_DCS_SHORT_WRITE_PARAM, MIPI_DSI_DCS_READ, MIPI_DSI_SET_MAXIMUM_RETURN_PACKET_SIZE,
    MIPI_DSI_END_OF_TRANSMISSION, MIPI_DSI_NULL_PACKET, MIPI_DSI_BLANKING_PACKET,
    MIPI_DSI_GENERIC_LONG_WRITE, MIPI_DSI_DCS_LONG_WRITE,
    MIPI_DSI_LOOSELY_PACKED_PIXEL_STREAM_YCBCR20, MIPI_DSI_PACKED_PIXEL_STREAM_YCBCR24,
    MIPI_DSI_PACKED_PIXEL_STREAM_YCBCR16, MIPI_DSI_PACKED_PIXEL_STREAM_30,
    MIPI_DSI_PACKED_PIXEL_STREAM_36, MIPI_DSI_PACKED_PIXEL_STREAM_YCBCR12,
    MIPI_DSI_PACKED_PIXEL_STREAM_16, MIPI_DSI_PACKED_PIXEL_STREAM_18,
    MIPI_DSI_PIXEL_STREAM_3BYTE_18, MIPI_DSI_PACKED_PIXEL_STREAM_24]"

definition dsi_of_code :: "u8 \<Rightarrow> mipi_dsi_type option" where
  "dsi_of_code c = find (\<lambda>x. dsi_code x = c) all_dsi"

lemma dsi_of_code_code [simp]: "dsi_of_code (dsi_code x) = Some x"
  by (cases x) (simp_all add: dsi_of_code_def all_dsi_def)

lemma dsi_of_code_Some: "dsi_of_code c = Some x \<longleftrightarrow> c = dsi_code x"
  by (auto simp: dsi_of_code_def find_Some_iff) (metis dsi_of_code_code dsi_of_code_def find_Some_iff)

text \<open>Peripheral to processor.\<close>

datatype mipi_dsi_rx_type =
    MIPI_DSI_RX_ACKNOWLEDGE_AND_ERROR_REPORT | MIPI_DSI_RX_END_OF_TRANSMISSION
  | MIPI_DSI_RX_GENERIC_SHORT_READ_RESPONSE_1BYTE | MIPI_DSI_RX_GENERIC_SHORT_READ_RESPONSE_2BYTE
  | MIPI_DSI_RX_GENERIC_LONG_READ_RESPONSE | MIPI_DSI_RX_DCS_LONG_READ_RESPONSE
  | MIPI_DSI_RX_DCS_SHORT_READ_RESPONSE_1BYTE | MIPI_DSI_RX_DCS_SHORT_READ_RESPONSE_2BYTE

fun dsi_rx_code :: "mipi_dsi_rx_type \<Rightarrow> u8" where
  "dsi_rx_code MIPI_DSI_RX_ACKNOWLEDGE_AND_ERROR_REPORT = 0x02"
| "dsi_rx_code MIPI_DSI_RX_END_OF_TRANSMISSION = 0x08"
| "dsi_rx_code MIPI_DSI_RX_GENERIC_SHORT_READ_RESPONSE_1BYTE = 0x11"
| "dsi_rx_code MIPI_DSI_RX_GENERIC_SHORT_READ_RESPONSE_2BYTE = 0x12"
| "dsi_rx_code MIPI_DSI_RX_GENERIC_LONG_READ_RESPONSE = 0x1a"
| "dsi_rx_code MIPI_DSI_RX_DCS_LONG_READ_RESPONSE = 0x1c"
| "dsi_rx_code MIPI_DSI_RX_DCS_SHORT_READ_RESPONSE_1BYTE = 0x21"
| "dsi_rx_code MIPI_DSI_RX_DCS_SHORT_READ_RESPONSE_2BYTE = 0x22"

definition all_dsi_rx :: "mipi_dsi_rx_type list" where
  "all_dsi_rx = [
    MIPI_DSI_RX_ACKNOWLEDGE_AND_ERROR_REPORT, MIPI_DSI_RX_END_OF_TRANSMISSION,
    MIPI_DSI_RX_GENERIC_SHORT_READ_RESPONSE_1BYTE, MIPI_DSI_RX_GENERIC_SHORT_READ_RESPONSE_2BYTE,
    MIPI_DSI_RX_GENERIC_LONG_READ_RESPONSE, MIPI_DSI_RX_DCS_LONG_READ_RESPONSE,
    MIPI_DSI_RX_DCS_SHORT_READ_RESPONSE_1BYTE, MIPI_DSI_RX_DCS_SHORT_READ_RESPONSE_2BYTE]"

definition dsi_rx_of_code :: "u8 \<Rightarrow> mipi_dsi_rx_type option" where
  "dsi_rx_of_code c = find (\<lambda>x. dsi_rx_code x = c) all_dsi_rx"

lemma dsi_rx_of_code_code [simp]: "dsi_rx_of_code (dsi_rx_code x) = Some x"
  by (cases x) (simp_all add: dsi_rx_of_code_def all_dsi_rx_def)

lemma dsi_rx_of_code_Some: "dsi_rx_of_code c = Some x \<longleftrightarrow> c = dsi_rx_code x"
  by (auto simp: dsi_rx_of_code_def find_Some_iff) (metis dsi_rx_of_code_code dsi_rx_of_code_def find_Some_iff)

section \<open>Commands\<close>

text \<open>The standard commands of the display command set.\<close>

datatype mipi_dcs =
    MIPI_DCS_NOP | MIPI_DCS_SOFT_RESET | MIPI_DCS_GET_DISPLAY_ID | MIPI_DCS_GET_RED_CHANNEL
  | MIPI_DCS_GET_GREEN_CHANNEL | MIPI_DCS_GET_BLUE_CHANNEL | MIPI_DCS_GET_DISPLAY_STATUS
  | MIPI_DCS_GET_POWER_MODE | MIPI_DCS_GET_ADDRESS_MODE | MIPI_DCS_GET_PIXEL_FORMAT
  | MIPI_DCS_GET_DISPLAY_MODE | MIPI_DCS_GET_SIGNAL_MODE | MIPI_DCS_GET_DIAGNOSTIC_RESULT
  | MIPI_DCS_ENTER_SLEEP_MODE | MIPI_DCS_EXIT_SLEEP_MODE | MIPI_DCS_ENTER_PARTIAL_MODE
  | MIPI_DCS_ENTER_NORMAL_MODE | MIPI_DCS_EXIT_INVERT_MODE | MIPI_DCS_ENTER_INVERT_MODE
  | MIPI_DCS_SET_GAMMA_CURVE | MIPI_DCS_SET_DISPLAY_OFF | MIPI_DCS_SET_DISPLAY_ON
  | MIPI_DCS_SET_COLUMN_ADDRESS | MIPI_DCS_SET_PAGE_ADDRESS | MIPI_DCS_WRITE_MEMORY_START
  | MIPI_DCS_WRITE_LUT | MIPI_DCS_READ_MEMORY_START | MIPI_DCS_SET_PARTIAL_AREA
  | MIPI_DCS_SET_SCROLL_AREA | MIPI_DCS_SET_TEAR_OFF | MIPI_DCS_SET_TEAR_ON
  | MIPI_DCS_SET_ADDRESS_MODE | MIPI_DCS_SET_SCROLL_START | MIPI_DCS_EXIT_IDLE_MODE
  | MIPI_DCS_ENTER_IDLE_MODE | MIPI_DCS_SET_PIXEL_FORMAT | MIPI_DCS_WRITE_MEMORY_CONTINUE
  | MIPI_DCS_READ_MEMORY_CONTINUE | MIPI_DCS_SET_TEAR_SCANLINE | MIPI_DCS_GET_SCANLINE
  | MIPI_DCS_SET_DISPLAY_BRIGHTNESS | MIPI_DCS_GET_DISPLAY_BRIGHTNESS
  | MIPI_DCS_WRITE_CONTROL_DISPLAY | MIPI_DCS_GET_CONTROL_DISPLAY | MIPI_DCS_WRITE_POWER_SAVE
  | MIPI_DCS_GET_POWER_SAVE | MIPI_DCS_SET_CABC_MIN_BRIGHTNESS | MIPI_DCS_GET_CABC_MIN_BRIGHTNESS
  | MIPI_DCS_READ_DDB_START | MIPI_DCS_READ_DDB_CONTINUE

fun dcs_code :: "mipi_dcs \<Rightarrow> u32" where
  "dcs_code MIPI_DCS_NOP = 0x00"
| "dcs_code MIPI_DCS_SOFT_RESET = 0x01"
| "dcs_code MIPI_DCS_GET_DISPLAY_ID = 0x04"
| "dcs_code MIPI_DCS_GET_RED_CHANNEL = 0x06"
| "dcs_code MIPI_DCS_GET_GREEN_CHANNEL = 0x07"
| "dcs_code MIPI_DCS_GET_BLUE_CHANNEL = 0x08"
| "dcs_code MIPI_DCS_GET_DISPLAY_STATUS = 0x09"
| "dcs_code MIPI_DCS_GET_POWER_MODE = 0x0A"
| "dcs_code MIPI_DCS_GET_ADDRESS_MODE = 0x0B"
| "dcs_code MIPI_DCS_GET_PIXEL_FORMAT = 0x0C"
| "dcs_code MIPI_DCS_GET_DISPLAY_MODE = 0x0D"
| "dcs_code MIPI_DCS_GET_SIGNAL_MODE = 0x0E"
| "dcs_code MIPI_DCS_GET_DIAGNOSTIC_RESULT = 0x0F"
| "dcs_code MIPI_DCS_ENTER_SLEEP_MODE = 0x10"
| "dcs_code MIPI_DCS_EXIT_SLEEP_MODE = 0x11"
| "dcs_code MIPI_DCS_ENTER_PARTIAL_MODE = 0x12"
| "dcs_code MIPI_DCS_ENTER_NORMAL_MODE = 0x13"
| "dcs_code MIPI_DCS_EXIT_INVERT_MODE = 0x20"
| "dcs_code MIPI_DCS_ENTER_INVERT_MODE = 0x21"
| "dcs_code MIPI_DCS_SET_GAMMA_CURVE = 0x26"
| "dcs_code MIPI_DCS_SET_DISPLAY_OFF = 0x28"
| "dcs_code MIPI_DCS_SET_DISPLAY_ON = 0x29"
| "dcs_code MIPI_DCS_SET_COLUMN_ADDRESS = 0x2A"
| "dcs_code MIPI_DCS_SET_PAGE_ADDRESS = 0x2B"
| "dcs_code MIPI_DCS_WRITE_MEMORY_START = 0x2C"
| "dcs_code MIPI_DCS_WRITE_LUT = 0x2D"
| "dcs_code MIPI_DCS_READ_MEMORY_START = 0x2E"
| "dcs_code MIPI_DCS_SET_PARTIAL_AREA = 0x30"
| "dcs_code MIPI_DCS_SET_SCROLL_AREA = 0x33"
| "dcs_code MIPI_DCS_SET_TEAR_OFF = 0x34"
| "dcs_code MIPI_DCS_SET_TEAR_ON = 0x35"
| "dcs_code MIPI_DCS_SET_ADDRESS_MODE = 0x36"
| "dcs_code MIPI_DCS_SET_SCROLL_START = 0x37"
| "dcs_code MIPI_DCS_EXIT_IDLE_MODE = 0x38"
| "dcs_code MIPI_DCS_ENTER_IDLE_MODE = 0x39"
| "dcs_code MIPI_DCS_SET_PIXEL_FORMAT = 0x3A"
| "dcs_code MIPI_DCS_WRITE_MEMORY_CONTINUE = 0x3C"
| "dcs_code MIPI_DCS_READ_MEMORY_CONTINUE = 0x3E"
| "dcs_code MIPI_DCS_SET_TEAR_SCANLINE = 0x44"
| "dcs_code MIPI_DCS_GET_SCANLINE = 0x45"
| "dcs_code MIPI_DCS_SET_DISPLAY_BRIGHTNESS = 0x51"
| "dcs_code MIPI_DCS_GET_DISPLAY_BRIGHTNESS = 0x52"
| "dcs_code MIPI_DCS_WRITE_CONTROL_DISPLAY = 0x53"
| "dcs_code MIPI_DCS_GET_CONTROL_DISPLAY = 0x54"
| "dcs_code MIPI_DCS_WRITE_POWER_SAVE = 0x55"
| "dcs_code MIPI_DCS_GET_POWER_SAVE = 0x56"
| "dcs_code MIPI_DCS_SET_CABC_MIN_BRIGHTNESS = 0x5E"
| "dcs_code MIPI_DCS_GET_CABC_MIN_BRIGHTNESS = 0x5F"
| "dcs_code MIPI_DCS_READ_DDB_START = 0xA1"
| "dcs_code MIPI_DCS_READ_DDB_CONTINUE = 0xA8"

definition all_dcs :: "mipi_dcs list" where
  "all_dcs = [
    MIPI_DCS_NOP, MIPI_DCS_SOFT_RESET, MIPI_DCS_GET_DISPLAY_ID, MIPI_DCS_GET_RED_CHANNEL,
    MIPI_DCS_GET_GREEN_CHANNEL, MIPI_DCS_GET_BLUE_CHANNEL, MIPI_DCS_GET_DISPLAY_STATUS,
    MIPI_DCS_GET_POWER_MODE, MIPI_DCS_GET_ADDRESS_MODE, MIPI_DCS_GET_PIXEL_FORMAT,
    MIPI_DCS_GET_DISPLAY_MODE, MIPI_DCS_GET_SIGNAL_MODE, MIPI_DCS_GET_DIAGNOSTIC_RESULT,
    MIPI_DCS_ENTER_SLEEP_MODE, MIPI_DCS_EXIT_SLEEP_MODE, MIPI_DCS_ENTER_PARTIAL_MODE,
    MIPI_DCS_ENTER_NORMAL_MODE, MIPI_DCS_EXIT_INVERT_MODE, MIPI_DCS_ENTER_INVERT_MODE,
    MIPI_DCS_SET_GAMMA_CURVE, MIPI_DCS_SET_DISPLAY_OFF, MIPI_DCS_SET_DISPLAY_ON,
    MIPI_DCS_SET_COLUMN_ADDRESS, MIPI_DCS_SET_PAGE_ADDRESS, MIPI_DCS_WRITE_MEMORY_START,
    MIPI_DCS_WRITE_LUT, MIPI_DCS_READ_MEMORY_START, MIPI_DCS_SET_PARTIAL_AREA,
    MIPI_DCS_SET_SCROLL_AREA, MIPI_DCS_SET_TEAR_OFF, MIPI_DCS_SET_TEAR_ON,
    MIPI_DCS_SET_ADDRESS_MODE, MIPI_DCS_SET_SCROLL_START, MIPI_DCS_EXIT_IDLE_MODE,
    MIPI_DCS_ENTER_IDLE_MODE, MIPI_DCS_SET_PIXEL_FORMAT, MIPI_DCS_WRITE_MEMORY_CONTINUE,
    MIPI_DCS_READ_MEMORY_CONTINUE, MIPI_DCS_SET_TEAR_SCANLINE, MIPI_DCS_GET_SCANLINE,
    MIPI_DCS_SET_DISPLAY_BRIGHTNESS, MIPI_DCS_GET_DISPLAY_BRIGHTNESS,
    MIPI_DCS_WRITE_CONTROL_DISPLAY, MIPI_DCS_GET_CONTROL_DISPLAY, MIPI_DCS_WRITE_POWER_SAVE,
    MIPI_DCS_GET_POWER_SAVE, MIPI_DCS_SET_CABC_MIN_BRIGHTNESS, MIPI_DCS_GET_CABC_MIN_BRIGHTNESS,
    MIPI_DCS_READ_DDB_START, MIPI_DCS_READ_DDB_CONTINUE]"

definition dcs_of_code :: "u32 \<Rightarrow> mipi_dcs option" where
  "dcs_of_code c = find (\<lambda>x. dcs_code x = c) all_dcs"

lemma dcs_of_code_code [simp]: "dcs_of_code (dcs_code x) = Some x"
  by (cases x) (simp_all add: dcs_of_code_def all_dcs_def)

lemma dcs_of_code_Some: "dcs_of_code c = Some x \<longleftrightarrow> c = dcs_code x"
  by (auto simp: dcs_of_code_def find_Some_iff) (metis dcs_of_code_code dcs_of_code_def find_Some_iff)

text \<open>The registers of the ILI9341.\<close>

datatype ili9341_register =
    ILI9341_FRMCTR1 | ILI9341_FRMCTR2 | ILI9341_FRMCTR3 | ILI9341_INVTR | ILI9341_PRCTR
  | ILI9341_DISCTRL | ILI9341_ETMOD | ILI9341_PWCTRL1 | ILI9341_PWCTRL2 | ILI9341_VMCTRL1
  | ILI9341_VMCTRL2 | ILI9341_PWCTRLA | ILI9341_PWCTRLB | ILI9341_RDID1 | ILI9341_RDID2
  | ILI9341_RDID3 | ILI9341_RDID4 | ILI9341_PGAMCTRL | ILI9341_NGAMCTRL | ILI9341_DGAMCTRL1
  | ILI9341_DGAMCTRL2 | ILI9341_DTCTRLA | ILI9341_DTCTRLB | ILI9341_PWRSEQ | ILI9341_EN3GAM
  | ILI9341_IFCTRL | ILI9341_PUMPCTRL

fun ili9341_code :: "ili9341_register \<Rightarrow> u32" where
  "ili9341_code ILI9341_FRMCTR1 = 0xb1"
| "ili9341_code ILI9341_FRMCTR2 = 0xb2"
| "ili9341_code ILI9341_FRMCTR3 = 0xb3"
| "ili9341_code ILI9341_INVTR = 0xb4"
| "ili9341_code ILI9341_PRCTR = 0xb5"
| "ili9341_code ILI9341_DISCTRL = 0xb6"
| "ili9341_code ILI9341_ETMOD = 0xb7"
| "ili9341_code ILI9341_PWCTRL1 = 0xc0"
| "ili9341_code ILI9341_PWCTRL2 = 0xc1"
| "ili9341_code ILI9341_VMCTRL1 = 0xc5"
| "ili9341_code ILI9341_VMCTRL2 = 0xc7"
| "ili9341_code ILI9341_PWCTRLA = 0xcb"
| "ili9341_code ILI9341_PWCTRLB = 0xcf"
| "ili9341_code ILI9341_RDID1 = 0xda"
| "ili9341_code ILI9341_RDID2 = 0xdb"
| "ili9341_code ILI9341_RDID3 = 0xdc"
| "ili9341_code ILI9341_RDID4 = 0xd3"
| "ili9341_code ILI9341_PGAMCTRL = 0xe0"
| "ili9341_code ILI9341_NGAMCTRL = 0xe1"
| "ili9341_code ILI9341_DGAMCTRL1 = 0xe2"
| "ili9341_code ILI9341_DGAMCTRL2 = 0xe3"
| "ili9341_code ILI9341_DTCTRLA = 0xe8"
| "ili9341_code ILI9341_DTCTRLB = 0xea"
| "ili9341_code ILI9341_PWRSEQ = 0xed"
| "ili9341_code ILI9341_EN3GAM = 0xf2"
| "ili9341_code ILI9341_IFCTRL = 0xf6"
| "ili9341_code ILI9341_PUMPCTRL = 0xf7"

definition all_ili9341 :: "ili9341_register list" where
  "all_ili9341 = [
    ILI9341_FRMCTR1, ILI9341_FRMCTR2, ILI9341_FRMCTR3, ILI9341_INVTR, ILI9341_PRCTR,
    ILI9341_DISCTRL, ILI9341_ETMOD, ILI9341_PWCTRL1, ILI9341_PWCTRL2, ILI9341_VMCTRL1,
    ILI9341_VMCTRL2, ILI9341_PWCTRLA, ILI9341_PWCTRLB, ILI9341_RDID1, ILI9341_RDID2, ILI9341_RDID3,
    ILI9341_RDID4, ILI9341_PGAMCTRL, ILI9341_NGAMCTRL, ILI9341_DGAMCTRL1, ILI9341_DGAMCTRL2,
    ILI9341_DTCTRLA, ILI9341_DTCTRLB, ILI9341_PWRSEQ, ILI9341_EN3GAM, ILI9341_IFCTRL,
    ILI9341_PUMPCTRL]"

definition ili9341_of_code :: "u32 \<Rightarrow> ili9341_register option" where
  "ili9341_of_code c = find (\<lambda>x. ili9341_code x = c) all_ili9341"

lemma ili9341_of_code_code [simp]: "ili9341_of_code (ili9341_code x) = Some x"
  by (cases x) (simp_all add: ili9341_of_code_def all_ili9341_def)

lemma ili9341_of_code_Some: "ili9341_of_code c = Some x \<longleftrightarrow> c = ili9341_code x"
  by (auto simp: ili9341_of_code_def find_Some_iff) (metis ili9341_of_code_code ili9341_of_code_def find_Some_iff)

definition ILI9341_MADCTL_MH :: u8 where "ILI9341_MADCTL_MH = ucast (BIT 2)"
definition ILI9341_MADCTL_ML :: u8 where "ILI9341_MADCTL_ML = ucast (BIT 4)"

section \<open>Pixel formats\<close>

text \<open>The codes of the pixel formats.\<close>

datatype mipi_dcs_pixel_fmt =
    MIPI_DCS_PIXEL_FMT_24BIT | MIPI_DCS_PIXEL_FMT_18BIT | MIPI_DCS_PIXEL_FMT_16BIT
  | MIPI_DCS_PIXEL_FMT_12BIT | MIPI_DCS_PIXEL_FMT_8BIT | MIPI_DCS_PIXEL_FMT_3BIT

fun pixel_fmt_code :: "mipi_dcs_pixel_fmt \<Rightarrow> u8" where
  "pixel_fmt_code MIPI_DCS_PIXEL_FMT_24BIT = 7"
| "pixel_fmt_code MIPI_DCS_PIXEL_FMT_18BIT = 6"
| "pixel_fmt_code MIPI_DCS_PIXEL_FMT_16BIT = 5"
| "pixel_fmt_code MIPI_DCS_PIXEL_FMT_12BIT = 3"
| "pixel_fmt_code MIPI_DCS_PIXEL_FMT_8BIT = 2"
| "pixel_fmt_code MIPI_DCS_PIXEL_FMT_3BIT = 1"

definition all_pixel_fmt :: "mipi_dcs_pixel_fmt list" where
  "all_pixel_fmt = [
    MIPI_DCS_PIXEL_FMT_24BIT, MIPI_DCS_PIXEL_FMT_18BIT, MIPI_DCS_PIXEL_FMT_16BIT,
    MIPI_DCS_PIXEL_FMT_12BIT, MIPI_DCS_PIXEL_FMT_8BIT, MIPI_DCS_PIXEL_FMT_3BIT]"

definition pixel_fmt_of_code :: "u8 \<Rightarrow> mipi_dcs_pixel_fmt option" where
  "pixel_fmt_of_code c = find (\<lambda>x. pixel_fmt_code x = c) all_pixel_fmt"

lemma pixel_fmt_of_code_code [simp]: "pixel_fmt_of_code (pixel_fmt_code x) = Some x"
  by (cases x) (simp_all add: pixel_fmt_of_code_def all_pixel_fmt_def)

lemma pixel_fmt_of_code_Some: "pixel_fmt_of_code c = Some x \<longleftrightarrow> c = pixel_fmt_code x"
  by (auto simp: pixel_fmt_of_code_def find_Some_iff) (metis pixel_fmt_of_code_code pixel_fmt_of_code_def find_Some_iff)

text \<open>A pixel format the header names is printed by its size, and the two numbers left are reserved.\<close>

fun pixel_fmt_bits :: "mipi_dcs_pixel_fmt \<Rightarrow> nat" where
  "pixel_fmt_bits MIPI_DCS_PIXEL_FMT_24BIT = 24"
| "pixel_fmt_bits MIPI_DCS_PIXEL_FMT_18BIT = 18"
| "pixel_fmt_bits MIPI_DCS_PIXEL_FMT_16BIT = 16"
| "pixel_fmt_bits MIPI_DCS_PIXEL_FMT_12BIT = 12"
| "pixel_fmt_bits MIPI_DCS_PIXEL_FMT_8BIT = 8"
| "pixel_fmt_bits MIPI_DCS_PIXEL_FMT_3BIT = 3"

lemma pixel_format_printed:
  "mipi_pixel_format_str v =
    (case pixel_fmt_of_code v of
       Some f \<Rightarrow> dec_string (pixel_fmt_bits f) @ '' bits/pixel''
     | None \<Rightarrow> if v = 0 \<or> v = 4 then ''Reserved'' else ''Illegal format'')"
proof -
  have d: "dec_string n = (if n < 10 then [digit_char n] else [digit_char (n div 10), digit_char (n mod 10)])"
    if "n < 100" for n
  proof -
    have "n div 10 < 10" using that by simp
    then show ?thesis by (simp add: dec_string.simps [of n] dec_string.simps [of "n div 10"])
  qed
  have c: "digit_char 1 = CHR ''1''" "digit_char 2 = CHR ''2''" "digit_char 3 = CHR ''3''" "digit_char 4 = CHR ''4''"
    "digit_char 6 = CHR ''6''" "digit_char 8 = CHR ''8''"
    by code_simp+
  show ?thesis
    by (simp add: mipi_pixel_format_str_def pixel_fmt_of_code_def all_pixel_fmt_def d c c(1) [unfolded One_nat_def])
qed

section \<open>The commands of the driver\<close>

text \<open>The numbers the rest of the development uses are those of the two headers.\<close>

lemma command_numbers:
  "dcs_code MIPI_DCS_NOP = Dcs.MIPI_DCS_NOP"
  "dcs_code MIPI_DCS_SOFT_RESET = Dcs.MIPI_DCS_SOFT_RESET"
  "dcs_code MIPI_DCS_GET_DISPLAY_ID = Dcs.MIPI_DCS_GET_DISPLAY_ID"
  "dcs_code MIPI_DCS_GET_DISPLAY_STATUS = Dcs.MIPI_DCS_GET_DISPLAY_STATUS"
  "dcs_code MIPI_DCS_GET_POWER_MODE = Dcs.MIPI_DCS_GET_POWER_MODE"
  "dcs_code MIPI_DCS_GET_ADDRESS_MODE = Dcs.MIPI_DCS_GET_ADDRESS_MODE"
  "dcs_code MIPI_DCS_GET_PIXEL_FORMAT = Dcs.MIPI_DCS_GET_PIXEL_FORMAT"
  "dcs_code MIPI_DCS_GET_DISPLAY_MODE = Dcs.MIPI_DCS_GET_DISPLAY_MODE"
  "dcs_code MIPI_DCS_GET_SIGNAL_MODE = Dcs.MIPI_DCS_GET_SIGNAL_MODE"
  "dcs_code MIPI_DCS_GET_DIAGNOSTIC_RESULT = Dcs.MIPI_DCS_GET_DIAGNOSTIC_RESULT"
  "dcs_code MIPI_DCS_ENTER_SLEEP_MODE = Dcs.MIPI_DCS_ENTER_SLEEP_MODE"
  "dcs_code MIPI_DCS_EXIT_SLEEP_MODE = Dcs.MIPI_DCS_EXIT_SLEEP_MODE"
  "dcs_code MIPI_DCS_SET_GAMMA_CURVE = Dcs.MIPI_DCS_SET_GAMMA_CURVE"
  "dcs_code MIPI_DCS_SET_DISPLAY_OFF = Dcs.MIPI_DCS_SET_DISPLAY_OFF"
  "dcs_code MIPI_DCS_SET_DISPLAY_ON = Dcs.MIPI_DCS_SET_DISPLAY_ON"
  "dcs_code MIPI_DCS_SET_COLUMN_ADDRESS = Dcs.MIPI_DCS_SET_COLUMN_ADDRESS"
  "dcs_code MIPI_DCS_SET_PAGE_ADDRESS = Dcs.MIPI_DCS_SET_PAGE_ADDRESS"
  "dcs_code MIPI_DCS_WRITE_MEMORY_START = Dcs.MIPI_DCS_WRITE_MEMORY_START"
  "dcs_code MIPI_DCS_SET_ADDRESS_MODE = Dcs.MIPI_DCS_SET_ADDRESS_MODE"
  "dcs_code MIPI_DCS_SET_PIXEL_FORMAT = Dcs.MIPI_DCS_SET_PIXEL_FORMAT"
  "ili9341_code ILI9341_FRMCTR1 = Dcs.ILI9341_FRMCTR1"
  "ili9341_code ILI9341_DISCTRL = Dcs.ILI9341_DISCTRL"
  "ili9341_code ILI9341_ETMOD = Dcs.ILI9341_ETMOD"
  "ili9341_code ILI9341_PWCTRL1 = Dcs.ILI9341_PWCTRL1"
  "ili9341_code ILI9341_PWCTRL2 = Dcs.ILI9341_PWCTRL2"
  "ili9341_code ILI9341_VMCTRL1 = Dcs.ILI9341_VMCTRL1"
  "ili9341_code ILI9341_VMCTRL2 = Dcs.ILI9341_VMCTRL2"
  "ili9341_code ILI9341_PWCTRLA = Dcs.ILI9341_PWCTRLA"
  "ili9341_code ILI9341_PWCTRLB = Dcs.ILI9341_PWCTRLB"
  "ili9341_code ILI9341_PGAMCTRL = Dcs.ILI9341_PGAMCTRL"
  "ili9341_code ILI9341_NGAMCTRL = Dcs.ILI9341_NGAMCTRL"
  "ili9341_code ILI9341_DTCTRLA = Dcs.ILI9341_DTCTRLA"
  "ili9341_code ILI9341_DTCTRLB = Dcs.ILI9341_DTCTRLB"
  "ili9341_code ILI9341_PWRSEQ = Dcs.ILI9341_PWRSEQ"
  "ili9341_code ILI9341_EN3GAM = Dcs.ILI9341_EN3GAM"
  "ili9341_code ILI9341_PUMPCTRL = Dcs.ILI9341_PUMPCTRL"
  by simp_all

text \<open>A number is never both a standard command and a register of the controller.\<close>

lemma commands_apart: "dcs_code x < ili9341_code r"
proof -
  have "dcs_code x < 0xb1" by (cases x) simp_all
  also have "0xb1 \<le> ili9341_code r" by (cases r) simp_all
  finally show ?thesis .
qed

definition known_command :: "u32 \<Rightarrow> bool" where
  "known_command c \<longleftrightarrow> dcs_of_code c \<noteq> None \<or> ili9341_of_code c \<noteq> None"

lemma known_command_iff: "known_command c \<longleftrightarrow> c \<in> range dcs_code \<or> c \<in> range ili9341_code"
  by (auto simp: known_command_def dcs_of_code_Some ili9341_of_code_Some)

text \<open>The set-up of the panel sends known commands only, and each of them once.\<close>

lemma setup_commands_known:
  "list_all known_command (map fst (mi0283qt_setup_cmds rot)) \<and> distinct (map fst (mi0283qt_setup_cmds rot))"
proof
  show "list_all known_command (map fst (mi0283qt_setup_cmds rot))"
    by (simp add: mi0283qt_setup_cmds_def known_command_def command_numbers [symmetric]
        del: dcs_code.simps ili9341_code.simps)
  show "distinct (map fst (mi0283qt_setup_cmds rot))" by (simp add: mi0283qt_setup_cmds_def)
qed

end
