(* ===== verification/Kernel_Log.thy ===== *)
theory Kernel_Log
  imports Kernel_Shim Text Spi_Debug
begin

text \<open>
  The log of the shim: \<open>printk\<close> and the macros on it of \<open>include/linux/kernel.h\<close>, \<open>drm_printk\<close> and its macros of
  \<open>include/drm/drmP.h\<close>, and the debug hooks of \<open>tinydrm-regmap.h\<close>. A message is the text after \<open>fmt\<close> has been
  expanded; the result is what goes to standard output. The time \<open>clock_gettime\<close> gives is an
  argument, in seconds and nanoseconds. The lemmas show which messages the settings of
  \<open>utinydrm.c\<close> let through: no debug message, and every error and every information.
\<close>

section \<open>\<open>printk\<close>\<close>

definition KERN_EMERG :: int where "KERN_EMERG = 0"
definition KERN_ALERT :: int where "KERN_ALERT = 1"
definition KERN_CRIT :: int where "KERN_CRIT = 2"
definition KERN_ERR :: int where "KERN_ERR = 3"
definition KERN_WARNING :: int where "KERN_WARNING = 4"
definition KERN_NOTICE :: int where "KERN_NOTICE = 5"
definition KERN_INFO :: int where "KERN_INFO = 6"
definition KERN_DEBUG :: int where "KERN_DEBUG = 7"

lemmas kern_levels = KERN_EMERG_def KERN_ALERT_def KERN_CRIT_def KERN_ERR_def KERN_WARNING_def
  KERN_NOTICE_def KERN_INFO_def KERN_DEBUG_def

text \<open>\<open>%0wd\<close> of a number that is not negative.\<close>

definition dec_pad :: "nat \<Rightarrow> nat \<Rightarrow> string" where
  "dec_pad w n = replicate (w - length (dec_string n)) CHR ''0'' @ dec_string n"

definition printk :: "int \<Rightarrow> int \<times> nat \<Rightarrow> int \<Rightarrow> string \<Rightarrow> string" where
  "printk printk_level ts level msg =
     (if level \<le> printk_level
      then ''['' @ int_string (fst ts) @ ''.'' @ dec_pad 9 (snd ts) @ ''] '' @ msg
      else [])"

definition pr_debug :: "int \<Rightarrow> int \<times> nat \<Rightarrow> string \<Rightarrow> string" where
  "pr_debug printk_level ts msg = printk printk_level ts KERN_DEBUG msg"

definition dev_dbg :: "int \<Rightarrow> int \<times> nat \<Rightarrow> string \<Rightarrow> string" where
  "dev_dbg printk_level ts msg = printk printk_level ts KERN_DEBUG msg"

definition dev_err :: "int \<Rightarrow> int \<times> nat \<Rightarrow> string \<Rightarrow> string" where
  "dev_err printk_level ts msg = printk printk_level ts KERN_ERR msg"

definition dev_warn :: "int \<Rightarrow> int \<times> nat \<Rightarrow> string \<Rightarrow> string" where
  "dev_warn printk_level ts msg = printk printk_level ts KERN_WARNING msg"

text \<open>\<open>__print_once\<close> is a static variable of the place of the call: it is passed in and out.\<close>

definition dev_level_once :: "string \<Rightarrow> bool \<Rightarrow> string \<times> bool" where
  "dev_level_once output print_once = (if \<not> print_once then (output, True) else ([], print_once))"

definition dev_err_once :: "int \<Rightarrow> int \<times> nat \<Rightarrow> string \<Rightarrow> bool \<Rightarrow> string \<times> bool" where
  "dev_err_once printk_level ts msg print_once = dev_level_once (dev_err printk_level ts msg) print_once"

definition dev_warn_once :: "int \<Rightarrow> int \<times> nat \<Rightarrow> string \<Rightarrow> bool \<Rightarrow> string \<times> bool" where
  "dev_warn_once printk_level ts msg print_once = dev_level_once (dev_warn printk_level ts msg) print_once"

section \<open>\<open>drm_printk\<close>\<close>

definition DRM_UT_NONE :: u32 where "DRM_UT_NONE = 0x00"
definition DRM_UT_CORE :: u32 where "DRM_UT_CORE = 0x01"
definition DRM_UT_DRIVER :: u32 where "DRM_UT_DRIVER = 0x02"
definition DRM_UT_KMS :: u32 where "DRM_UT_KMS = 0x04"
definition DRM_UT_PRIME :: u32 where "DRM_UT_PRIME = 0x08"
definition DRM_UT_ATOMIC :: u32 where "DRM_UT_ATOMIC = 0x10"
definition DRM_UT_VBL :: u32 where "DRM_UT_VBL = 0x20"

lemmas drm_categories = DRM_UT_NONE_def DRM_UT_CORE_def DRM_UT_DRIVER_def DRM_UT_KMS_def
  DRM_UT_PRIME_def DRM_UT_ATOMIC_def DRM_UT_VBL_def

text \<open>The two global settings, \<open>func\<close> is the name of the function with the call.\<close>

record log_settings =
  drm_debug :: u32
  printk_level :: int

definition drm_printk :: "log_settings \<Rightarrow> int \<times> nat \<Rightarrow> int \<Rightarrow> u32 \<Rightarrow> string \<Rightarrow> string \<Rightarrow> string" where
  "drm_printk s ts level category func msg =
     (if \<not> (category \<noteq> DRM_UT_NONE \<and> \<not> (drm_debug s AND category \<noteq> 0))
      then printk (printk_level s) ts level (''[utinydrm:'' @ func @ ''] '' @ msg)
      else [])"

definition DRM_DEBUG_KMS :: "log_settings \<Rightarrow> int \<times> nat \<Rightarrow> string \<Rightarrow> string \<Rightarrow> string" where
  "DRM_DEBUG_KMS s ts func msg = drm_printk s ts KERN_DEBUG DRM_UT_KMS func msg"

definition DRM_ERROR :: "log_settings \<Rightarrow> int \<times> nat \<Rightarrow> string \<Rightarrow> string \<Rightarrow> string" where
  "DRM_ERROR s ts func msg = drm_printk s ts KERN_ERR DRM_UT_NONE func msg"

definition DRM_INFO :: "log_settings \<Rightarrow> int \<times> nat \<Rightarrow> string \<Rightarrow> string \<Rightarrow> string" where
  "DRM_INFO s ts func msg = drm_printk s ts KERN_INFO DRM_UT_NONE func msg"

definition DRM_DEBUG :: "log_settings \<Rightarrow> int \<times> nat \<Rightarrow> string \<Rightarrow> string \<Rightarrow> string" where
  "DRM_DEBUG s ts func msg = drm_printk s ts KERN_DEBUG DRM_UT_NONE func msg"

definition DRM_DEBUG_DRIVER :: "log_settings \<Rightarrow> int \<times> nat \<Rightarrow> string \<Rightarrow> string \<Rightarrow> string" where
  "DRM_DEBUG_DRIVER s ts func msg = drm_printk s ts KERN_DEBUG DRM_UT_DRIVER func msg"

lemmas drm_log = DRM_DEBUG_KMS_def DRM_ERROR_def DRM_INFO_def DRM_DEBUG_def DRM_DEBUG_DRIVER_def drm_printk_def

text \<open>The debug hooks, as they are when \<open>DEBUG\<close> is defined.\<close>

definition TINYDRM_DEBUG_REG_WRITE ::
  "log_settings \<Rightarrow> bytes \<Rightarrow> nat \<Rightarrow> bytes option \<Rightarrow> nat \<Rightarrow> nat \<Rightarrow> string \<Rightarrow> string option option" where
  "TINYDRM_DEBUG_REG_WRITE s reg reg_len val val_len val_width junk =
     (if drm_debug s AND DRM_UT_CORE \<noteq> 0
      then tinydrm_debug_reg_write reg reg_len val val_len val_width junk else Some None)"

section \<open>The settings of the program\<close>

definition utinydrm_log :: log_settings where
  "utinydrm_log = \<lparr>drm_debug = 0, printk_level = KERN_INFO\<rparr>"

text \<open>Debug messages are silent, the hooks do nothing, errors and information are printed.\<close>

lemma debug_is_silent:
  "DRM_DEBUG_KMS utinydrm_log ts func msg = []" "DRM_DEBUG utinydrm_log ts func msg = []"
  "DRM_DEBUG_DRIVER utinydrm_log ts func msg = []" "pr_debug (printk_level utinydrm_log) ts msg = []"
  "dev_dbg (printk_level utinydrm_log) ts msg = []"
  "TINYDRM_DEBUG_REG_WRITE utinydrm_log reg reg_len val val_len val_width junk = Some None"
  by (simp_all add: drm_log printk_def pr_debug_def dev_dbg_def TINYDRM_DEBUG_REG_WRITE_def
      utinydrm_log_def kern_levels)

lemma errors_are_printed:
  "\<exists>t. DRM_ERROR utinydrm_log ts func msg = t @ ''[utinydrm:'' @ func @ ''] '' @ msg"
  "\<exists>t. DRM_INFO utinydrm_log ts func msg = t @ ''[utinydrm:'' @ func @ ''] '' @ msg"
  "\<exists>t. dev_err (printk_level utinydrm_log) ts msg = t @ msg"
  "\<exists>t. dev_warn (printk_level utinydrm_log) ts msg = t @ msg"
  by (simp_all add: drm_log printk_def dev_err_def dev_warn_def utinydrm_log_def kern_levels)

text \<open>A category switches its own messages on and no others; the level still decides.\<close>

lemma category_bit:
  "drm_debug s = BIT i \<Longrightarrow> i < 32 \<Longrightarrow> k < 32 \<Longrightarrow> KERN_DEBUG \<le> printk_level s \<Longrightarrow>
   drm_printk s ts KERN_DEBUG (BIT k) func msg \<noteq> [] \<longleftrightarrow> i = k"
  by (auto simp: drm_printk_def printk_def BIT_def DRM_UT_NONE_def and_exp_eq_0_iff_not_bit bit_exp_iff)

lemma printk_monotone:
  "printk l ts level msg \<noteq> [] \<Longrightarrow> level' \<le> level \<Longrightarrow> printk l ts level' msg = printk l ts level msg"
  by (simp add: printk_def split: if_splits)

text \<open>However often the place is reached, the message is printed once.\<close>

fun once_calls :: "string list \<Rightarrow> bool \<Rightarrow> string" where
  "once_calls [] f = []"
| "once_calls (t # ts) f = (case dev_level_once t f of (out, f') \<Rightarrow> out @ once_calls ts f')"

lemma once_calls_eq: "once_calls ts f = (if f \<or> ts = [] then [] else hd ts)"
proof -
  have "once_calls ts True = []" for ts by (induction ts) (simp_all add: dev_level_once_def)
  then show ?thesis by (cases ts) (simp_all add: dev_level_once_def)
qed

lemma dec_pad_length: "n < 10 ^ w \<Longrightarrow> 0 < w \<Longrightarrow> length (dec_pad w n) = w"
proof -
  assume n: "n < 10 ^ w" "0 < w"
  have "length (dec_string n) \<le> w" if "n < 10 ^ w" "0 < w" for n w
    using that
  proof (induction n arbitrary: w rule: dec_string.induct)
    case (1 n)
    show ?case
    proof (cases "n < 10")
      case False
      then obtain v where v: "w = Suc v" "0 < v"
        using 1(2,3) by (cases w; cases "w - 1") auto
      then have "n div 10 < 10 ^ v" using 1(2) by (simp add: less_mult_imp_div_less mult.commute)
      then show ?thesis using 1(1) [OF False, of v] v False by (simp add: dec_string.simps [of n])
    qed (use 1(3) in \<open>simp add: dec_string.simps [of n]\<close>)
  qed
  then show ?thesis using n by (simp add: dec_pad_def)
qed

end
