(* ===== verification/Embedding.thy ===== *)
theory Embedding
  imports Kernel_Shim Spi
begin

text \<open>
  How the structures of the driver are embedded in each other. The code finds the outer structure from
  a pointer to a member with \<open>container_of\<close> (\<open>include/linux/kernel.h\<close>); where the members are is left to
  the compiler, so the offsets are the parameter \<open>layout\<close>, with the addresses of the 32-bit machine. The
  lemmas show that every way between the structures comes back to where it started, for every
  layout: this is why the model keeps one device in one record. Also the planes of a framebuffer
  (\<open>include/drm/drmP.h\<close>) and the masks of word sizes (\<open>include/linux/spi/spi.h\<close>).
\<close>

section \<open>\<open>container_of\<close>\<close>

text \<open>
  The offsets of \<open>udev\<close> in \<open>struct drm_device\<close>, of \<open>drm\<close> and \<open>pipe\<close> in \<open>struct tinydrm_device\<close>, of \<open>tinydrm\<close>
  in \<open>struct mipi_dbi\<close> and of \<open>fb\<close> in \<open>struct drm_fb_cma\<close>.
\<close>

record layout =
  udev_off :: u32
  drm_off :: u32
  pipe_off :: u32
  tinydrm_off :: u32
  fb_off :: u32

definition container_of :: "u32 \<Rightarrow> u32 \<Rightarrow> u32" where
  "container_of off p = p - off"

text \<open>The address of a member, \<open>&p->member\<close>.\<close>

definition member_of :: "u32 \<Rightarrow> u32 \<Rightarrow> u32" where
  "member_of off p = p + off"

lemma container_of_member [simp]: "container_of off (member_of off p) = p"
  by (simp add: container_of_def member_of_def)

lemma member_of_container [simp]: "member_of off (container_of off p) = p"
  by (simp add: container_of_def member_of_def)

definition utinydrm_to_drm :: "layout \<Rightarrow> u32 \<Rightarrow> u32" where
  "utinydrm_to_drm l udev = container_of (udev_off l) udev"

definition drm_to_tinydrm :: "layout \<Rightarrow> u32 \<Rightarrow> u32" where
  "drm_to_tinydrm l drm = container_of (drm_off l) drm"

definition pipe_to_tinydrm :: "layout \<Rightarrow> u32 \<Rightarrow> u32" where
  "pipe_to_tinydrm l pipe = container_of (pipe_off l) pipe"

definition mipi_dbi_from_tinydrm :: "layout \<Rightarrow> u32 \<Rightarrow> u32" where
  "mipi_dbi_from_tinydrm l tdev = container_of (tinydrm_off l) tdev"

definition to_fb_cma :: "layout \<Rightarrow> u32 \<Rightarrow> u32" where
  "to_fb_cma l fb = container_of (fb_off l) fb"

lemmas conversions = utinydrm_to_drm_def drm_to_tinydrm_def pipe_to_tinydrm_def
  mipi_dbi_from_tinydrm_def to_fb_cma_def

text \<open>
  From the structure of the event protocol and from the pipe, an event handler gets the panel's own
  structure back, and different panels stay different.
\<close>

lemma panel_from_udev:
  "mipi_dbi_from_tinydrm l (drm_to_tinydrm l (utinydrm_to_drm l
     (member_of (udev_off l) (member_of (drm_off l) (member_of (tinydrm_off l) m))))) = m"
  by (simp add: conversions)

lemma panel_from_pipe:
  "mipi_dbi_from_tinydrm l (pipe_to_tinydrm l (member_of (pipe_off l) (member_of (tinydrm_off l) m))) = m"
  by (simp add: conversions)

lemma conversions_injective:
  "inj (utinydrm_to_drm l)" "inj (drm_to_tinydrm l)" "inj (pipe_to_tinydrm l)"
  "inj (mipi_dbi_from_tinydrm l)" "inj (to_fb_cma l)"
  by (simp_all add: inj_def conversions container_of_def)

section \<open>The planes of a framebuffer\<close>

text \<open>\<open>obj\<close> is the content of the array of four pointers at \<open>to_fb_cma fb\<close>.\<close>

definition drm_fb_cma_get_gem_obj :: "layout \<Rightarrow> (u32 \<Rightarrow> u32 list) \<Rightarrow> u32 \<Rightarrow> u32 \<Rightarrow> u32" where
  "drm_fb_cma_get_gem_obj l obj fb plane =
     (let fb_cma = to_fb_cma l fb
      in if 4 \<le> plane then 0 else obj fb_cma ! unat plane)"

lemma gem_obj_in_array:
  assumes "length (obj (to_fb_cma l fb)) = 4"
  shows "drm_fb_cma_get_gem_obj l obj fb plane \<in> insert 0 (set (obj (to_fb_cma l fb)))"
  using assms by (auto simp: drm_fb_cma_get_gem_obj_def Let_def not_le word_less_nat_alt)

section \<open>Masks of word sizes\<close>

definition SPI_BIT_MASK :: "nat \<Rightarrow> u32" where
  "SPI_BIT_MASK bits = (if bits = 32 then NOT 0 else BIT bits - 1)"

definition SPI_BPW_RANGE_MASK :: "nat \<Rightarrow> nat \<Rightarrow> u32" where
  "SPI_BPW_RANGE_MASK lo hi = SPI_BIT_MASK hi - SPI_BIT_MASK (lo - 1)"

lemma SPI_BIT_MASK_eq: "bits \<le> 32 \<Longrightarrow> SPI_BIT_MASK bits = mask bits"
  by (cases "bits = 32") (simp_all add: SPI_BIT_MASK_def BIT_def mask_eq_decr_exp)

text \<open>The mask of a range has the bit of a word size set exactly when the size is in the range.\<close>

lemma range_mask_bits:
  assumes "1 \<le> lo" and "lo \<le> hi" and "hi \<le> 32" and "1 \<le> b" and "b \<le> 32"
  shows "SPI_BPW_RANGE_MASK lo hi AND SPI_BPW_MASK b \<noteq> 0 \<longleftrightarrow> lo \<le> b \<and> b \<le> hi"
proof -
  have "SPI_BPW_RANGE_MASK lo hi = mask hi - mask (lo - 1)"
    using assms by (simp add: SPI_BPW_RANGE_MASK_def SPI_BIT_MASK_eq)
  also have "\<dots> = mask hi AND NOT (mask (lo - 1))"
    using assms by (intro disjunctive_diff) (auto simp: bit_simps)
  finally show ?thesis
    using assms
    by (auto simp: SPI_BPW_MASK_def BIT_def and_exp_eq_0_iff_not_bit bit_simps)
qed

end
