(* ===== verification/Kernel_Stubs.thy ===== *)
theory Kernel_Stubs
  imports Embedding Event_Loop
begin

text \<open>
  What the headers put in the place of kernel services: the device structure and its driver data, DMA
  masks and device properties (\<open>include/linux/kernel.h\<close>), regulators (\<open>include/linux/regulator/consumer.h\<close>), the
  registration of an SPI device (\<open>include/linux/spi/spi.h\<close>), and the functions of \<open>drmP.h\<close>, \<open>tinydrm.h\<close> and
  \<open>tinydrm-core.c\<close> that do nothing. The handlers have these calls folded in; the lemmas are the facts
  that make this right. Pointers are 32-bit addresses, null is 0.
\<close>

section \<open>Devices\<close>

record device =
  init_name :: string
  driver_data :: u32
  coherent_dma_mask :: u64
  dev_utinydrm :: u32

definition dev_name :: "device \<Rightarrow> string" where
  "dev_name dev = init_name dev"

definition dma_coerce_mask_and_coherent :: "device \<Rightarrow> u64 \<Rightarrow> int \<times> device" where
  "dma_coerce_mask_and_coherent dev m = (0, dev)"

definition dev_get_drvdata :: "device \<Rightarrow> u32" where
  "dev_get_drvdata dev = driver_data dev"

definition dev_set_drvdata :: "device \<Rightarrow> u32 \<Rightarrow> device" where
  "dev_set_drvdata dev p = dev\<lparr>driver_data := p\<rparr>"

definition device_property_read_bool :: "device \<Rightarrow> string \<Rightarrow> bool" where
  "device_property_read_bool dev propname = False"

text \<open>The variable \<open>val\<close> points to is passed in and out.\<close>

definition device_property_read_u32 :: "device \<Rightarrow> string \<Rightarrow> u32 \<Rightarrow> int \<times> u32" where
  "device_property_read_u32 dev propname val = (0, val)"

section \<open>Regulators\<close>

definition devm_regulator_get_optional :: "device \<Rightarrow> string \<Rightarrow> u32" where
  "devm_regulator_get_optional dev reg_id = 0"

definition regulator_enable :: "u32 \<Rightarrow> int" where
  "regulator_enable r = 0"

definition regulator_disable :: "u32 \<Rightarrow> int" where
  "regulator_disable r = 0"

section \<open>SPI devices\<close>

record spi_master =
  master_dev :: device
  master_bits_per_word_mask :: u32
  master_max_dma_len :: u32

record spi_device_struct =
  sd_dev :: device
  sd_master :: u32
  sd_master_instance :: spi_master
  sd_max_speed_hz :: u32
  sd_chip_select :: u8
  sd_bits_per_word :: u8
  sd_mode :: u16

text \<open>\<open>self\<close> is the address of the device, \<open>off\<close> the offset of \<open>master_instance\<close> in it.\<close>

definition spi_add_device :: "u32 \<Rightarrow> u32 \<Rightarrow> spi_device_struct \<Rightarrow> int \<times> spi_device_struct" where
  "spi_add_device self off s = (0, s\<lparr>sd_bits_per_word := 8, sd_master := member_of off self\<rparr>)"

definition spi_set_drvdata :: "spi_device_struct \<Rightarrow> u32 \<Rightarrow> spi_device_struct" where
  "spi_set_drvdata s p = s\<lparr>sd_dev := dev_set_drvdata (sd_dev s) p\<rparr>"

definition spi_get_drvdata :: "spi_device_struct \<Rightarrow> u32" where
  "spi_get_drvdata s = dev_get_drvdata (sd_dev s)"

text \<open>The device on the stack of \<open>main\<close>; what the initialiser does not name is 0.\<close>

definition zero_device :: device where
  "zero_device = \<lparr>init_name = [], driver_data = 0, coherent_dma_mask = 0, dev_utinydrm = 0\<rparr>"

definition spi_stack :: spi_device_struct where
  "spi_stack = \<lparr>sd_dev = zero_device\<lparr>init_name := ''spi0.0''\<rparr>, sd_master = 0,
     sd_master_instance = \<lparr>master_dev = zero_device, master_bits_per_word_mask = SPI_BPW_MASK 8 OR SPI_BPW_MASK 16,
                           master_max_dma_len = 320 * 240 * 2\<rparr>,
     sd_max_speed_hz = 32000000, sd_chip_select = 0, sd_bits_per_word = 0, sd_mode = 0\<rparr>"

text \<open>What the record \<open>spi_device\<close> of the model keeps of such a device.\<close>

definition spi_view :: "spi_device_struct \<Rightarrow> spi_device" where
  "spi_view s = \<lparr>max_speed_hz = sd_max_speed_hz s, max_dma_len = master_max_dma_len (sd_master_instance s),
     bits_per_word_mask = master_bits_per_word_mask (sd_master_instance s),
     drvdata = (spi_get_drvdata s \<noteq> 0), utinydrm = (dev_utinydrm (sd_dev s) \<noteq> 0)\<rparr>"

lemma main_spi_is_view: "spi_view (snd (spi_add_device self off spi_stack)) = main_spi"
  by (simp add: spi_view_def spi_add_device_def spi_stack_def zero_device_def main_spi_def spi_get_drvdata_def
      dev_get_drvdata_def)

lemma view_drvdata:
  "p \<noteq> 0 \<Longrightarrow> spi_view (spi_set_drvdata s p) = (spi_view s)\<lparr>drvdata := True\<rparr>"
  by (simp add: spi_view_def spi_set_drvdata_def spi_get_drvdata_def dev_set_drvdata_def dev_get_drvdata_def)

lemma drvdata_roundtrip: "spi_get_drvdata (spi_set_drvdata s p) = p"
  by (simp add: spi_set_drvdata_def spi_get_drvdata_def dev_set_drvdata_def dev_get_drvdata_def)

text \<open>
  From the driver data \<open>main\<close> gets the device structure the probe function stored, from the event
  structure in it the handlers get the panel again.
\<close>

lemma main_finds_panel:
  assumes "tdev = member_of (tinydrm_off l) m"
  shows "mipi_dbi_from_tinydrm l (drm_to_tinydrm l (utinydrm_to_drm l
     (member_of (udev_off l) (member_of (drm_off l) (spi_get_drvdata (spi_set_drvdata s tdev)))))) = m"
  unfolding drvdata_roundtrip assms by (rule panel_from_udev)

section \<open>Nothing to do\<close>

definition drm_crtc_force_disable_all :: "state \<Rightarrow> (unit \<times> state) option" where
  "drm_crtc_force_disable_all w = Some ((), w)"

definition drm_mode_config_reset :: "state \<Rightarrow> (unit \<times> state) option" where
  "drm_mode_config_reset w = Some ((), w)"

definition schedule_work :: "state \<Rightarrow> (unit \<times> state) option" where
  "schedule_work w = Some ((), w)"

definition tinydrm_lastclose :: "state \<Rightarrow> (unit \<times> state) option" where
  "tinydrm_lastclose w = drm_crtc_force_disable_all w"

definition tinydrm_gem_cma_free_object :: "state \<Rightarrow> (unit \<times> state) option" where
  "tinydrm_gem_cma_free_object w = Some ((), w)"

definition tinydrm_gem_cma_prime_import_sg_table :: "state \<Rightarrow> (u32 \<times> state) option" where
  "tinydrm_gem_cma_prime_import_sg_table w = Some (0, w)"

definition tinydrm_display_pipe_update :: "state \<Rightarrow> (unit \<times> state) option" where
  "tinydrm_display_pipe_update w = Some ((), w)"

definition tinydrm_debugfs_dirty_init :: "state \<Rightarrow> (int \<times> state) option" where
  "tinydrm_debugfs_dirty_init w = Some (0, w)"

definition tinydrm_debugfs_dirty_begin :: "state \<Rightarrow> (unit \<times> state) option" where
  "tinydrm_debugfs_dirty_begin w = Some ((), w)"

definition tinydrm_debugfs_dirty_end :: "nat \<Rightarrow> u32 \<Rightarrow> state \<Rightarrow> (unit \<times> state) option" where
  "tinydrm_debugfs_dirty_end len bits_per_pixel w = Some ((), w)"

lemma shutdown_is_disable: "tinydrm_shutdown w = drm_crtc_force_disable_all w"
  by (simp add: tinydrm_shutdown_def drm_crtc_force_disable_all_def)

text \<open>
  The branches of the probe function that are not in the model are not reached: there is never a
  regulator and never an error from asking for one, the properties keep what the driver initialised.
\<close>

lemma probe_branches:
  "\<not> IS_ERR (devm_regulator_get_optional dev reg_id)" "devm_regulator_get_optional dev reg_id = 0"
  "\<not> device_property_read_bool dev ''write-only''" "snd (device_property_read_u32 dev ''rotation'' 0) = 0"
  "fst (dma_coerce_mask_and_coherent dev m) = 0" "regulator_enable r = 0" "regulator_disable r = 0"
  by (simp_all add: devm_regulator_get_optional_def device_property_read_bool_def device_property_read_u32_def
      dma_coerce_mask_and_coherent_def regulator_enable_def regulator_disable_def IS_ERR_def MAX_ERRNO_def)

end
