(* ===== verification/Spec2Isabelle.thy ===== *)
theory Spec2Isabelle
  imports Limits Descriptors Data_Props Wire_Props Debug_File Service_Props List_Iter Spi_Debug Buf_Test Pins Loop_Exit Safe_Props
    Mipi_Display Kernel_Log Kernel_Stubs
begin

text \<open>
  A verification of \<open>utinydrm\<close>, the user-space port of the tinydrm display driver for the Multi-Inno
  MI0283QT panel (ILI9341 controller, SPI). One process plays the kernel driver: it reads events
  from \<open>/dev/udrm\<close>, runs the tinydrm code on a set of header files that stand in for the kernel,
  and drives the panel through spidev, sysfs GPIOs and DRM ioctls.

  \<^bold>\<open>How the parts interact.\<close> \<open>main\<close> (\<open>utinydrm.c\<close>) probes the panel driver (\<open>mi0283qt.c\<close>), which
  makes the GPIOs, a register map on one of two buses (\<open>mipi-dbi.c\<close>, \<open>regmap.h\<close>) and the device
  (\<open>tinydrm-core.c\<close>). Then each event calls into the panel driver (pipe enable), \<open>mipi-dbi.c\<close>
  (pipe disable, dirty framebuffer) or the framebuffer list. Commands go from \<open>mipi_dbi_write\<close>
  through \<open>regmap_raw_write\<close> to the bus, from there through \<open>tinydrm_spi_transfer\<close> to \<open>spi_sync\<close>
  (\<open>spi.c\<close>), which picks a transport by where the data is: a DMA buffer of the device, of the
  framebuffer, the global \<open>tx_buf\<close>, or a user buffer.

  \<^bold>\<open>Machine.\<close> Theory \<open>Machine\<close> has the one record \<open>state\<close> with everything the program changes: memory
  as blocks of bytes (\<open>None\<close> as the result of a function is an access outside a block, which C
  leaves undefined), the trace of system calls, \<open>errno\<close>, the devices. A pointer is a block and an
  offset. The record \<open>os\<close> is the rest of the world: each field gives the outcome of a call from the
  trace up to it, and nothing is assumed of it except by named hypotheses (\<open>os_good\<close>: calls
  succeed as documented). Integers that the code keeps at 32 bits are words; lengths that are
  \<open>size_t\<close> and only counted down are \<open>nat\<close>; the target is a 32-bit little-endian ARM. Sizes of
  structures handed to the allocator are nominal.

  \<^bold>\<open>Model theories\<close>, each definition named after its C function:
  \<^item> \<open>Kernel_Shim\<close>: \<open>include/linux/kernel.h\<close> (min, max, swab16, cpu_to_be64, unaligned loads, fls, ilog2, ERR_PTR).
  \<^item> \<open>Spi\<close>: \<open>spi.c\<close> and \<open>spi.h\<close>; \<open>Spi_Transfer\<close>, \<open>Tinydrm_Helpers\<close>: \<open>tinydrm-regmap.c\<close> and \<open>tinydrm-helpers.c\<close>.
  \<^item> \<open>Gpio\<close>, \<open>Text\<close>: \<open>gpio/consumer.h\<close>; \<open>Dmabuf\<close>: the DMA buffer of \<open>utinydrm.c\<close>.
  \<^item> \<open>Mipi_Pack\<close>, \<open>Mipi_Bus\<close>, \<open>Mipi_Dbi\<close>: \<open>mipi-dbi.c\<close> (packing of 9-bit words, both buses, flush and pipe).
  \<^item> \<open>Regmap\<close>: \<open>regmap.h\<close>; \<open>Tinydrm_Core\<close>: \<open>tinydrm-core.c\<close>, \<open>drmP.h\<close>; \<open>Dcs\<close>: command numbers.
  \<^item> \<open>Panel\<close>: \<open>mi0283qt.c\<close>; \<open>Event_Loop\<close>: \<open>utinydrm.c\<close>; \<open>Buf_Test\<close>: its two test
    functions, which nothing calls.
  \<^item> \<open>Fb_Heap\<close>: the framebuffer list of \<open>utinydrm.c\<close> once more, as linked structures.
  \<^item> \<open>Linux_List\<close>: \<open>include/linux/list.h\<close> and the message set-up of \<open>spi.h\<close> on it; \<open>Spi\<close> has a message
    as the HOL list that C21 shows it to be. \<open>List_Iter\<close>: the iteration macros; the locale \<open>removal\<close> is what the body
    of a loop that is safe against removal promises, interpreted for moving and both ways of deleting.
  \<^item> \<open>Hexdump\<close>, \<open>Spi_Debug\<close>: the text of the debug messages of \<open>tinydrm-regmap.c\<close> and \<open>drm_get_format_name\<close>; the
    text of \<open>%p\<close> is the parameter \<open>pfmt\<close>.
  \<^item> \<open>Mipi_Display\<close>: the enumerations of \<open>mipi_display.h\<close> and \<open>ili9341.h\<close>; \<open>Kernel_Log\<close>: \<open>printk\<close>, \<open>drm_printk\<close> and
    their macros; \<open>Embedding\<close>: \<open>container_of\<close> and the conversions between the structures; \<open>Kernel_Stubs\<close>: driver data,
    device properties, \<open>regulator/consumer.h\<close> and the functions that do nothing. The handlers have the calls of these
    three theories folded in; the lemmas \<open>debug_is_silent\<close>, \<open>panel_from_udev\<close>, \<open>main_finds_panel\<close>,
    \<open>main_spi_is_view\<close> and \<open>probe_branches\<close> are why that is right.
  \<^item> \<open>Debugfs\<close>: the debugfs file of \<open>mipi-dbi.c\<close> (under \<open>CONFIG_DEBUG_FS\<close>). The kernel's \<open>GENMASK\<close> and
    \<open>%*phN\<close> are not in the repository: they are the parameters \<open>genmask\<close> (documented by \<open>genmask_ok\<close>) and \<open>phN\<close>.

  \<^bold>\<open>Lemma theories.\<close> \<open>Evolve\<close>: what a step leaves alone. \<open>Dbi_Bus\<close>: the locale \<open>dbi_bus\<close> is the interface
  of a bus (its write function, its invariant, how the display reads the trace); the panel
  sequences are proved once inside it. \<open>Spi_Wire\<close>, \<open>Bus3\<close>: what goes over the wire on option 3, and the
  interpretation \<open>b3\<close>; \<open>Bus1\<close>: the same for option 1 with packed words, \<open>b1\<close>. \<open>Panel_Seq\<close>, \<open>Flush\<close>:
  the enable, disable and flush sequences, \<open>Xrgb\<close> the flush of a framebuffer that is converted.
  \<open>Pins\<close>: everything a step does at the pins, the other lines and the delays included (\<open>did\<close>, which refines
  \<open>saw\<close>, what the display receives). \<open>Probe\<close>, \<open>Session\<close>: from start-up to the first frame. \<open>Service\<close>: the states in which every event can be
  handled, and that the loop stays in them. \<open>Debugfs\<close> and \<open>Debug_File\<close>: what the text of the debugfs file tells.
  \<open>Frame\<close>: the locales \<open>frame0\<close>, \<open>frame\<close>, \<open>frame_bus\<close> carry a relation between states from the small steps
  of the program to its operations, for every behaviour of the system. \<open>Calm\<close> interprets them for calls
  that do not touch the event protocol, \<open>Descriptors\<close> for the open file descriptors. \<open>Loop_Inv\<close>: the main
  loop as a step relation, its invariant and its bounded version; \<open>Loop_Exit\<close>: the calls that end it. \<open>Clips\<close>, \<open>Limits\<close>: rectangles and sizes.
  \<open>Safe\<close>, \<open>Safe_Panel\<close>, \<open>Safe_Loop\<close>: that operations have a result and keep the blocks of memory (\<open>runs\<close>),
  whatever calls fail; the locales \<open>safe_reader\<close> and \<open>safe_bus\<close> are what a bus has to promise for it,
  interpreted as \<open>sr3\<close> and \<open>sb3\<close> on option 3, and \<open>sane\<close> is the well-formed state of the main loop.
  \<open>Samples\<close>: concrete environments and states for the witnesses.

  \<^bold>\<open>Properties.\<close> C1 to C10, C25, C38 and C39 are below; C24 is in \<open>List_Iter\<close>, C13 to C23 are in \<open>Data_Props\<close> (rectangles, pixels, packed
  words, lists, hex dumps), C11, C12 and C36 in \<open>Safe_Props\<close> (every operating system, failing calls included:
  progress, the end of the program, the failure it does not survive), C26 to C28 in \<open>Service_Props\<close> (converted framebuffers, the service never gets
  stuck and comes to its end), C29 to C35 and C37 in \<open>Wire_Props\<close> (transfers, errors, replies), C40 in
  \<open>Debug_File\<close> (the debugfs file).

  \<^bold>\<open>Loops.\<close> Loops over lengths are structural or have a measure. \<open>main_loop\<close> and the transfer loops
  whose chunk could be 0 are \<open>partial_function (option)\<close>; that they return is proved with the
  result (the transfers under a chunk of at least one unit, the main loop by C11, C25 and C28;
  \<open>loop_is_bounded_loop\<close>: it has exactly the results of \<open>main_fuel n\<close>, the loop cut off after \<open>n\<close> rounds).

  \<^bold>\<open>Not modelled.\<close> Which messages each function writes to the log (\<open>Kernel_Log\<close> has what becomes of a message,
  \<open>Hexdump\<close> and \<open>Spi_Debug\<close> the text of the debug messages; \<open>drm_debug\<close> is 0 and never set); \<open>mutex_lock\<close>, which is
  empty; the code under \<open>#if 0\<close>; the prototypes and call-back structures of \<open>drm_simple_kms_helper.h\<close>, \<open>drmP.h\<close> and
  \<open>kernel.h\<close>, which have no code. The mode of the events (\<open>udrm.h\<close>) and the fourcc codes are not in the
  repository: events are a datatype, formats symbols. Nor is the kernel's structure of a mode, to which
  \<open>drm_mode_convert_to_umode\<close> copies: its fields are \<open>int\<close>, those of the 320 by 240 mode of the panel fit any width.
\<close>

section \<open>The whole system\<close>

text \<open>
  C1. From the state \<open>main\<close> starts in, with calls that succeed, a display that is off, and a
  framebuffer of the size of the panel: the probe function succeeds, the three events \<open>pipe
  enable\<close>, \<open>framebuffer create\<close> and \<open>framebuffer dirty\<close> are answered with 0, and on the wire
  of the D/C line \<open>fd\<close> the display has received the power mode request, the soft reset, every
  set-up command with its parameters, display on, and then the full window and all its pixels
  from the DMA buffer of the device. The flags are set and nothing else was sent.
\<close>

theorem first_frame:
  assumes "os_good os" and "gpio_fds_distinct os" and "\<forall>h. 0 \<le> snd (os_dev os h)"
    and "\<forall>h. \<not> power_mode_on (os_rx os h 0)" and "\<forall>h. panel_fb (os_fb os h)"
  shows "\<exists>m w1 w2 w3 w4 d.
    mi0283qt_probe os junk init_state = Some ((0, Some m), w1) \<and> ms_dc (mspi w1) = Some d \<and>
    utinydrm_event os m UDRM_EVENT_PIPE_ENABLE w1 = Some (0, w2) \<and>
    utinydrm_event os m (UDRM_EVENT_FB_CREATE i) w2 = Some (0, w3) \<and>
    utinydrm_event os m (UDRM_EVENT_FB_DIRTY i ann color n clips) w3 = Some (0, w4) \<and>
    saw (gpio_fd d) w1 w4
      (panel_on_items 0 @ flush_items (full_clip 320 240) (udev_buf_fd w1)) \<and>
    prepared w4 \<and> enabled w4"
proof -
  obtain m wb fd w1 where p: "mi0283qt_probe os junk init_state = Some ((0, Some m), w1)"
    "probed os fd m wb w1"
    using mi0283qt_probe_ok [OF assms(1,2) init_unprobed] by blast
  have s: "session os fd m wb w1" using probed_session [OF p(2)] assms(3) by blast
  have f: "\<not> prepared w1" "\<not> enabled w1" "rotation (mipi w1) = 0" using p(2) by (simp_all add: probed_def)
  obtain d where d: "ms_dc (mspi w1) = Some d" "gpio_fd d = fd"
    using s by (auto simp: session_def bus3_ready_def inv3_def)
  from assms(4,5) first_frame_ok [OF s f(1,2), of i ann color n clips] show ?thesis
    using p(1) d f(3) by auto
qed

theorem first_frame_witness:
  "\<exists>m w1 w2 w3 w4 d.
    mi0283qt_probe os1 REGMAP_ENDIAN_DEFAULT init_state = Some ((0, Some m), w1) \<and>
    ms_dc (mspi w1) = Some d \<and>
    utinydrm_event os1 m UDRM_EVENT_PIPE_ENABLE w1 = Some (0, w2) \<and>
    utinydrm_event os1 m (UDRM_EVENT_FB_CREATE 7) w2 = Some (0, w3) \<and>
    utinydrm_event os1 m (UDRM_EVENT_FB_DIRTY 7 False 0 0 []) w3 = Some (0, w4) \<and>
    saw (gpio_fd d) w1 w4
      (panel_on_items 0 @ flush_items (full_clip 320 240) (udev_buf_fd w1)) \<and>
    prepared w4 \<and> enabled w4"
  using first_frame [OF os1_good os1_gpio] os1_dev os1_off os1_fb by blast

text \<open>
  C2. The probe function sets up a panel on interface option 3 and registers it: it is 320 by
  240, its chunk size is the largest DMA transfer of the controller, and nothing is shown yet.
\<close>

theorem probe_sets_up:
  assumes "os_good os" and "gpio_fds_distinct os"
  shows "\<exists>m wb d w. mi0283qt_probe os junk init_state = Some ((0, Some m), w) \<and>
    ms_dc (mspi w) = Some d \<and> bus3_ready os (gpio_fd d) m wb w \<and>
    bus m = Some (mipi_dbi_regmap_bus3 os) \<and> pipe_funcs w \<and> udev_fb_funcs w \<and> fbs w = [] \<and>
    um_hdisplay (udev_mode w) = 320 \<and> um_vdisplay (udev_mode w) = 240 \<and>
    chunk_size (mspi w) = 320 * 240 * 2 \<and> \<not> prepared w \<and> \<not> enabled w"
proof -
  obtain m wb fd w where p: "mi0283qt_probe os junk init_state = Some ((0, Some m), w)"
    "probed os fd m wb w"
    using mi0283qt_probe_ok [OF assms init_unprobed] by blast
  then obtain d where "ms_dc (mspi w) = Some d" "gpio_fd d = fd"
    by (auto simp: probed_def bus3_ready_def inv3_def)
  then show ?thesis using p by (auto simp: probed_def on_bus_def)
qed

theorem probe_sets_up_witness:
  "\<exists>m wb d w. mi0283qt_probe os1 REGMAP_ENDIAN_BIG init_state = Some ((0, Some m), w) \<and>
    ms_dc (mspi w) = Some d \<and> bus3_ready os1 (gpio_fd d) m wb w \<and>
    bus m = Some (mipi_dbi_regmap_bus3 os1) \<and> pipe_funcs w \<and> udev_fb_funcs w \<and> fbs w = [] \<and>
    um_hdisplay (udev_mode w) = 320 \<and> um_vdisplay (udev_mode w) = 240 \<and>
    chunk_size (mspi w) = 320 * 240 * 2 \<and> \<not> prepared w \<and> \<not> enabled w"
  by (rule probe_sets_up [OF os1_good os1_gpio])

section \<open>The panel\<close>

text \<open>
  C3. Turning the pipe on when the display is off sends the whole sequence of
  \<open>mi0283qt_enable\<close>, in order and with the parameters unchanged, and marks the panel prepared. At the
  pins this is everything: the question for the power mode, the pulse on the reset line with its
  delays, the soft reset, the set-up commands, display on, and the delays between them.
\<close>

theorem enable_from_off:
  assumes "bus3_ready os fd m wb w" and "\<not> prepared w" and "\<forall>h. \<not> power_mode_on (os_rx os h 0)"
  shows "\<exists>w'. mi0283qt_enable os m w = Some ((), w') \<and> prepared w' \<and>
    saw fd w w' ([Cmd 0x0A, Cmd 0x01] @ cmd_items (mi0283qt_setup_cmds (rotation (mipi w))) @ [Cmd 0x29]) \<and>
    did fd w w' ([Bus (Cmd 0x0A)] @ reset_pulse (reset_gpio (mipi w)) @ [Bus (Cmd 0x01), Wait 20000] @
      map Bus (cmd_items (mi0283qt_setup_cmds (rotation (mipi w)))) @
      [Wait 100000, Bus (Cmd 0x29), Wait 100000])"
proof -
  obtain w' where w': "mi0283qt_enable os m w = Some ((), w'\<lparr>prepared := True\<rparr>)"
    "did fd w w' (panel_on_pins (reset_gpio (mipi w)) (rotation (mipi w)))"
    using enable_pins_off [OF assms(1,2)] assms(3) by blast
  then show ?thesis
    using did_saw [OF w'(2)]
    by (intro exI [of _ "w'\<lparr>prepared := True\<rparr>"]) (simp add: panel_on_pins_def reset_pulse_def split: option.splits)
qed

theorem enable_from_off_witness:
  "\<exists>m wb fd w. probed os1 fd m wb w \<and> (\<exists>w'. mi0283qt_enable os1 m w = Some ((), w') \<and> prepared w' \<and>
    saw fd w w' ([Cmd 0x0A, Cmd 0x01] @ panel_bytes @ [Cmd 0x29]))"
proof -
  obtain m wb fd w where w: "probed os1 fd m wb w" using panel1 by blast
  then have r: "bus3_ready os1 fd m wb w" "\<not> prepared w" "rotation (mipi w) = 0" by (simp_all add: probed_def)
  have "\<forall>h. \<not> power_mode_on (os_rx os1 h 0)" by (simp add: os1_off)
  from enable_from_off [OF r(1,2) this] w show ?thesis unfolding r(3) setup_items_0 by blast
qed

text \<open>
  C4. When the display reports that it is already on (by the bits of the power mode that are
  not reserved), turning the pipe on only asks for the power mode: nothing else happens at the pins,
  the reset line is not driven and there is no delay, so the display is not reset.
\<close>

theorem enable_from_on:
  assumes "bus3_ready os fd m wb w" and "\<not> prepared w" and "\<forall>h. power_mode_on (os_rx os h 0)"
  shows "\<exists>w'. mi0283qt_enable os m w = Some ((), w') \<and> prepared w' \<and> did fd w w' [Bus (Cmd 0x0A)]"
proof -
  obtain w' where w': "mi0283qt_enable os m w = Some ((), w'\<lparr>prepared := True\<rparr>)"
    "did fd w w' [Bus (Cmd 0x0A)]"
    using enable_pins_on [OF assms(1,2)] assms(3) by blast
  then show ?thesis by (intro exI [of _ "w'\<lparr>prepared := True\<rparr>"]) simp
qed

theorem enable_from_on_witness:
  "\<exists>m wb fd w. probed os2 fd m wb w \<and> (\<exists>w'. mi0283qt_enable os2 m w = Some ((), w') \<and> prepared w' \<and>
    did fd w w' [Bus (Cmd 0x0A)])"
  using panel2 enable_from_on os2_on by (metis probed_def)

text \<open>
  C5. A command with parameters on interface option 3: whatever the chunk size and wherever the
  DMA buffer is, the display receives the command byte with the D/C line low and then exactly
  the parameters with the line high, and the bus can be used again.
\<close>

theorem write_option3:
  assumes "bus3_ready os fd m wb w" and "plain_cmd c"
  shows "\<exists>w'. mipi_dbi_write os m (ucast c) ps w = Some (0, w') \<and> bus3_ready os fd m wb w' \<and>
    saw fd w w' (Cmd c # map Dat ps)"
proof -
  obtain w' where "mipi_dbi_write os m (ucast c) ps w = Some (0, w')"
    "panel_step os fd m wb (Cmd c # map Dat ps) w w'"
    using panel_cmd [OF assms] by (auto elim!: wpE)
  then show ?thesis using panel_step_saw panel_step_ready by blast
qed

theorem write_option3_witness:
  "\<exists>m wb fd w. probed os1 fd m wb w \<and> (\<exists>w'. mipi_dbi_write os1 m (ucast (0x3A::u8)) [0x55] w = Some (0, w') \<and>
    bus3_ready os1 fd m wb w' \<and> saw fd w w' [Cmd 0x3A, Dat 0x55])"
proof -
  obtain m wb fd w where w: "probed os1 fd m wb w" using panel1 by blast
  have "bus3_ready os1 fd m wb w" "plain_cmd 0x3A" using w by (simp_all add: probed_def plain_cmd_def)
  from write_option3 [OF this, of "[0x55]"] w show ?thesis by simp blast
qed

text \<open>
  C6. The same on interface option 1 with a controller that has no 9-bit words: the display
  that reads the bits of every transfer nine at a time finds the command, marked as a command,
  then the parameters, marked as data, and otherwise only no-operations. The source sends every
  length up to 3640 bytes, one chunk, as it is.
\<close>

theorem write_option1:
  assumes "inv1e os w" and "rm_shape (mipi_dbi_spi1_write os) (mipi_dbi_spi1_gather_write os) m"
    and "rm_buf m wb w" and "plain_cmd c" and "length ps \<le> 3640"
  shows "\<exists>w' es. mipi_dbi_write os m (ucast c) ps w = Some (0, w') \<and> inv1e os w' \<and>
    trace w' = trace w @ es \<and> snd (run1 () es) = Cmd c # map Dat ps"
proof -
  have "b1.ready os m wb w" using assms(1-3) by (simp add: b1.ready_def)
  then obtain w' where "mipi_dbi_write os m (ucast c) ps w = Some (0, w')"
    "b1.step os m wb {} (Cmd c # map Dat ps) w w'"
    using b1.write_cmd assms(4) fits1_small [OF assms(5)] by (blast elim!: wpE)
  then show ?thesis
    using evolves_trace unfolding b1.step_def b1.says_def b1.ready_def by blast
qed

theorem write_option1_witness:
  "\<exists>m w w' es. mipi_dbi_spi_init os1 REGMAP_ENDIAN_DEFAULT None False dev1 = Some (PObj m, w) \<and>
    mipi_dbi_write os1 m (ucast (0x2A::u8)) [0, 0, 1, 0x3F] w = Some (0, w') \<and>
    trace w' = trace w @ es \<and> snd (run1 () es) = [Cmd 0x2A, Dat 0, Dat 0, Dat 1, Dat 0x3F]"
proof -
  obtain m wb w where w: "mipi_dbi_spi_init os1 REGMAP_ENDIAN_DEFAULT None False dev1 = Some (PObj m, w)"
    "inv1e os1 w" "rm_shape (mipi_dbi_spi1_write os1) (mipi_dbi_spi1_gather_write os1) m" "rm_buf m wb w"
    using map1 by blast
  have "plain_cmd 0x2A" by (simp add: plain_cmd_def)
  from write_option1 [OF w(2-4) this, of "[0, 0, 1, 0x3F]"] w(1) show ?thesis by auto
qed

text \<open>
  C7. Flushing a framebuffer in RGB565: the display is given the window of the merged rectangle
  and then, from the DMA buffer of the device, as many bytes as the rectangle has, in pieces of
  at most 30720 bytes that follow one another. When the display was dark it is switched on last.
\<close>

theorem flush_rectangle:
  assumes "bus3_ready os fd m wb w" and "prepared w" and "rgb565_fb fb w" and "0 \<le> udev_buf_fd w"
    and "tinydrm_spi_bpw_supported (spi w) 16"
    and "0 < fb_width fb" "unat (fb_width fb) < 2 ^ 16" "0 < fb_height fb" "unat (fb_height fb) < 2 ^ 16"
    and "tinydrm_merge_clips (if enabled w then Some clips else None) (if enabled w then n else 0)
           ann (fb_width fb) (fb_height fb) = Some c"
  shows "\<exists>w'. mipi_dbi_fb_dirty os m fb ann color clips n w = Some (0, w') \<and> enabled w' \<and>
    bus3_ready os fd m wb w' \<and>
    saw fd w w'
      ([Cmd 0x2A] @ map Dat (window_params (x1 c) (x2 c)) @
       [Cmd 0x2B] @ map Dat (window_params (y1 c) (y2 c)) @
       [Cmd 0x2C] @ map (\<lambda>(off, k). Pix True (udev_buf_fd w) (of_nat off) k)
         (pieces 0 ((unat (x2 c) - unat (x1 c)) * (unat (y2 c) - unat (y1 c)) * 2)))"
proof -
  have ci: "clip_in (fb_width fb) (fb_height fb) c" using merge_clips_in [OF assms(10,6-9)] .
  obtain w' where w': "mipi_dbi_fb_dirty os m fb ann color clips n w = Some (0, w'\<lparr>enabled := True\<rparr>)"
    "panel_step os fd m wb (flush_items c (udev_buf_fd w)) w w'"
    using fb_dirty_ok [OF assms(1-5,10) ci] by blast
  have "saw fd w w' (flush_items c (udev_buf_fd w))" "bus3_ready os fd m wb w'"
    using panel_step_saw [OF w'(2)] panel_step_ready [OF w'(2)] by blast+
  then show ?thesis
    using w'(1) by (intro exI [of _ "w'\<lparr>enabled := True\<rparr>"])
      (simp add: flush_items_def pix_items_def clip_bytes_def split_def)
qed

theorem flush_rectangle_witness:
  "\<exists>m fd w u w'. enabled w \<and> mipi_dbi_fb_dirty os1 m u False 0 [\<lparr>x1 = 10, y1 = 20, x2 = 30, y2 = 40\<rparr>] 1 w =
      Some (0, w') \<and>
    saw fd w w' ([Cmd 0x2A, Dat 0, Dat 10, Dat 0, Dat 29, Cmd 0x2B, Dat 0, Dat 20, Dat 0, Dat 39,
      Cmd 0x2C] @ map (\<lambda>(off, k). Pix True (udev_buf_fd w) (of_nat off) k) (pieces 0 800))"
proof -
  obtain m wb fd w u us where w: "session os1 fd m wb w" "prepared w" "fbs w = u # us" "rgb565_fb u w"
    "fb_width u = 320" "fb_height u = 240"
    using panel_fb1 by blast
  let ?c = "\<lparr>x1 = 10, y1 = 20, x2 = 30, y2 = 40\<rparr> :: clip_rect" and ?w = "w\<lparr>enabled := True\<rparr>"
  have "\<not> (- 1 :: u16) \<le> 10" "\<not> (- 1 :: u16) \<le> 20"
    by (simp_all add: word_le_nat_alt unsigned_minus_1_eq_mask mask_eq_exp_minus_1)
  then have "tinydrm_merge_clips (Some [?c]) 1 False 320 240 = Some ?c"
    by (simp add: tinydrm_merge_clips_def merge_loop.simps min_def max_def)
  moreover have "session os1 fd m wb ?w" using w(1) by simp
  moreover have "rgb565_fb u ?w" using w(4) by (simp add: rgb565_fb_def)
  ultimately obtain w' where "mipi_dbi_fb_dirty os1 m u False 0 [?c] 1 ?w = Some (0, w')"
    "saw fd ?w w' ([Cmd 0x2A] @ map Dat (window_params 10 30) @ [Cmd 0x2B] @ map Dat (window_params 20 40) @
      [Cmd 0x2C] @ map (\<lambda>(off, k). Pix True (udev_buf_fd ?w) (of_nat off) k) (pieces 0 800))"
    using flush_rectangle [of os1 fd m wb ?w u "[?c]" 1 False ?c 0] w(2,5,6) by (auto simp: session_def)
  then show ?thesis
    by (intro exI [of _ m] exI [of _ fd] exI [of _ ?w] exI [of _ u] exI [of _ w'])
      (simp add: window_params_def)
qed

text \<open>
  C8. Turning the pipe off with a backlight: first, when the display was on, the line of the
  backlight is driven low; then a prepared panel gets display off and sleep mode; nothing else
  happens at the pins, and afterwards both flags are clear.
\<close>

theorem pipe_off:
  assumes "bus3_ready os fd m wb w" and "backlight (mipi w) = Some d"
  shows "\<exists>w'. mipi_dbi_pipe_disable os m w = Some ((), w') \<and> bus3_ready os fd m wb w' \<and>
    \<not> enabled w' \<and> \<not> prepared w' \<and>
    did fd w w' ((if enabled w then [Line (gpio_fd d) ''0''] else []) @
      (if prepared w then [Bus (Cmd 0x28), Bus (Cmd 0x10)] else []))"
  by (rule pipe_off_pins [OF assms])

theorem pipe_off_witness:
  "\<exists>m fd w w' d. prepared w \<and> enabled w \<and> backlight (mipi w) = Some d \<and>
    mipi_dbi_pipe_disable os1 m w = Some ((), w') \<and> \<not> enabled w' \<and> \<not> prepared w' \<and>
    did fd w w' [Line (gpio_fd d) ''0'', Bus (Cmd 0x28), Bus (Cmd 0x10)]"
proof -
  obtain m wb fd v where v: "session os1 fd m wb v" "prepared v" using panel_fb1 by blast
  let ?w = "v\<lparr>enabled := True\<rparr>"
  have f: "prepared ?w" "enabled ?w" using v(2) by simp_all
  obtain d where r: "bus3_ready os1 fd m wb ?w" and d: "backlight (mipi ?w) = Some d"
    using v(1) by (auto simp: session_def)
  from pipe_off [OF r d] have "\<exists>w'. mipi_dbi_pipe_disable os1 m ?w = Some ((), w') \<and>
      \<not> enabled w' \<and> \<not> prepared w' \<and> did fd ?w w' [Line (gpio_fd d) ''0'', Bus (Cmd 0x28), Bus (Cmd 0x10)]"
    unfolding if_P [OF f(1)] if_P [OF f(2)] append.simps by blast
  with f d show ?thesis by blast
qed

section \<open>The main loop\<close>

text \<open>
  C9. Whatever the operating system answers, failures included, and whatever events arrive: in
  every state the main loop reaches after a successful probe, an enabled display is prepared,
  and the descriptors, the controller, the mode and the call-backs are those of the probe.
\<close>

theorem shown_only_when_prepared:
  assumes "mi0283qt_probe os junk init_state = Some ((0, Some m), w0)" and "loop_reach os m w0 w"
  shows "(enabled w \<longrightarrow> prepared w) \<and> same_setup w0 w"
proof -
  have "driver_map os m" "dev_inv w0"
    using probe_any [OF assms(1)] by (simp_all add: dev_inv_def init_state_def)
  then show ?thesis using loop_reach_inv [OF assms(2)] by (simp add: dev_inv_def)
qed

theorem shown_only_when_prepared_witness:
  "\<exists>m w0 w. mi0283qt_probe os1 REGMAP_ENDIAN_DEFAULT init_state = Some ((0, Some m), w0) \<and>
    loop_step os1 m w0 w \<and> (enabled w \<longrightarrow> prepared w) \<and> same_setup w0 w"
proof -
  obtain m wb fd w0 where p: "mi0283qt_probe os1 REGMAP_ENDIAN_DEFAULT init_state = Some ((0, Some m), w0)"
    "probed os1 fd m wb w0"
    using panel1 by blast
  have "driver_map os1 m" "\<not> prepared w0" using probe_any [OF p(1)] p(2) by (simp_all add: probed_def)
  then obtain w where "main_round os1 m w0 = Some ((None, True), w)"
    using round1 [OF probed_session [OF p(2) os1_dev]] by blast
  then have st: "loop_step os1 m w0 w" by (rule loop_step.round)
  then have "loop_reach os1 m w0 w" using loop_reach.start loop_reach.more by blast
  from shown_only_when_prepared [OF p(1) this] p(1) st show ?thesis by blast
qed

text \<open>
  C10. The protocol with the kernel: a round that goes on makes exactly one read of an event, one
  reply and one poll, on the same descriptor and in this order; the handler in between makes no
  such call.
\<close>

theorem round_protocol:
  assumes "driver_map os m" and "main_round os m w = Some ((None, hangup), w')"
  shows "\<exists>es r. trace w' = trace w @ [Ev_read (udev_fd w)] @ es @
      [Ev_reply (udev_fd w) r, Ev_poll (udev_fd w)] \<and>
    (\<forall>e \<in> set es. case e of Ev_read _ \<Rightarrow> False | Ev_reply _ _ \<Rightarrow> False | Ev_poll _ \<Rightarrow> False | _ \<Rightarrow> True)"
  using main_round_ok [OF assms] unfolding round_trace_def list_all_iff calm_ev_def by blast

theorem round_protocol_witness:
  "\<exists>m w w' es r. main_round os1 m w = Some ((None, True), w') \<and>
    trace w' = trace w @ [Ev_read (udev_fd w)] @ es @ [Ev_reply (udev_fd w) r, Ev_poll (udev_fd w)]"
proof -
  obtain m wb fd w where p: "mi0283qt_probe os1 REGMAP_ENDIAN_DEFAULT init_state = Some ((0, Some m), w)"
    "probed os1 fd m wb w"
    using panel1 by blast
  have m: "driver_map os1 m" "\<not> prepared w" using probe_any [OF p(1)] p(2) by (simp_all add: probed_def)
  then obtain w' where w': "main_round os1 m w = Some ((None, True), w')"
    using round1 [OF probed_session [OF p(2) os1_dev]] by blast
  from round_protocol [OF m(1) w'] w' show ?thesis by blast
qed

text \<open>
  C25. How the main loop ends, on every operating system that can make the DMA buffer, sets \<open>errno\<close>,
  and has sound framebuffers and clips: it goes on until the first call that ends it, a poll that
  succeeds and reports a hang-up, or a read of an event or a reply that fails, whatever else fails on
  the way, polls included; then it closes the control and the device descriptor and returns 0 after the
  hang-up and 1 after the failure. It does end when from the \<open>N\<close>-th poll on polling succeeds and
  reports the hang-up.
\<close>

theorem loop_ends_at_first_exit:
  assumes "dma_works os" and "errno_set os" and "\<forall>h. decent_fb (os_fb os h)"
    and "\<forall>h. event_ok (os_event os h)"
    and "\<forall>h fd. N \<le> polls (h @ [Ev_poll fd]) \<longrightarrow>
      0 \<le> os_ret os (h @ [Ev_poll fd]) \<and> os_hangup os (h @ [Ev_poll fd])"
    and "mi0283qt_probe os junk init_state = Some ((0, Some m), w0)"
  shows "\<exists>r w' es e. main_loop os m False w0 = Some (r, w') \<and>
    trace w' = trace w0 @ es @ [e, Ev_close (udev_control_fd w0), Ev_close (udev_fd w0)] \<and>
    goes_on os (trace w0) es \<and> loop_exit os (trace w0 @ es @ [e]) = Some r"
proof -
  obtain wb where s: "sane os m wb w0"
    using probe_sane [OF fresh_init assms(2), of junk] assms(6) by (auto elim!: wpE)
  have e: "event_ok (os_event os h)" and f: "decent_fb (os_fb os h)" for h using assms(3,4) by simp_all
  have hang: "0 \<le> os_ret os (h @ [Ev_poll fd]) \<and> os_hangup os (h @ [Ev_poll fd])"
    if "N \<le> polls (h @ [Ev_poll fd])" for h fd using assms(5) that by blast
  show ?thesis using loop_ends_first_exit [OF s assms(1) e f hang] by simp
qed

text \<open>A system on which the first poll fails, with the flag of the hang-up set all the time.\<close>

definition os9 :: os where
  "os9 = os7\<lparr>os_ret := \<lambda>h. (case last h of
     Ev_poll fd \<Rightarrow> if polls h < 2 then - 1 else 1 | _ \<Rightarrow> os_ret os7 h)\<rparr>"

lemma os9_ret: "(\<forall>fd. e \<noteq> Ev_poll fd) \<Longrightarrow> os_ret os9 (h @ [e]) = os_ret os7 (h @ [e])"
  by (cases e) (simp_all add: os9_def)

lemma os9_same [simp]:
  "os_alloc os9 = os_alloc os7" "os_errno os9 = os_errno os7" "os_fb os9 = os_fb os7" "os_event os9 = os_event os7"
  by (simp_all add: os9_def)

lemma os9_facts:
  "dma_works os9" "errno_set os9" "\<forall>h. decent_fb (os_fb os9 h)" "\<forall>h. event_ok (os_event os9 h)" "files_work os9"
proof -
  show "dma_works os9" using os7_facts(1) by (simp add: dma_works_def os9_ret)
  show "files_work os9" using os7_files by (simp add: files_work_def os9_ret)
  have "os_errno os7 = (\<lambda>_. 5)" by (simp add: os7_def os1_def os0_def)
  then show "errno_set os9" unfolding errno_set_def os9_same by simp
  show "\<forall>h. decent_fb (os_fb os9 h)" "\<forall>h. event_ok (os_event os9 h)"
    unfolding os9_same by (rule os7_facts)+
qed

theorem loop_ends_at_first_exit_witness:
  "\<exists>m w0 r w' es e. mi0283qt_probe os9 REGMAP_ENDIAN_DEFAULT init_state = Some ((0, Some m), w0) \<and>
    main_loop os9 m False w0 = Some (r, w') \<and>
    trace w' = trace w0 @ es @ [e, Ev_close (udev_control_fd w0), Ev_close (udev_fd w0)] \<and>
    goes_on os9 (trace w0) es \<and> loop_exit os9 (trace w0 @ es @ [e]) = Some r"
proof -
  obtain reg w0 where p: "mi0283qt_probe os9 REGMAP_ENDIAN_DEFAULT init_state = Some ((0, reg), w0)"
    using probe_works [OF os9_facts(5)] by blast
  then obtain m where m: "reg = Some m"
    using probe_sane [OF fresh_init os9_facts(2), of REGMAP_ENDIAN_DEFAULT] by (auto elim!: wpE)
  have "\<forall>h fd. 2 \<le> polls (h @ [Ev_poll fd]) \<longrightarrow>
      0 \<le> os_ret os9 (h @ [Ev_poll fd]) \<and> os_hangup os9 (h @ [Ev_poll fd])"
    by (simp add: os9_def os7_def os1_def os0_def)
  from loop_ends_at_first_exit [OF os9_facts(1-4) this p [unfolded m]] p [unfolded m] show ?thesis by metis
qed

text \<open>
  The main loop has a result exactly when some number of rounds is enough for it, and then
  the same one.
\<close>

theorem loop_is_bounded_loop:
  "main_loop os m hangup w = Some x \<longleftrightarrow> (\<exists>n. main_fuel n os m hangup w = Some x)"
  using main_loop_fuel main_fuel_loop by blast

text \<open>
  C38. Descriptors: whatever fails, in every state the main loop reaches the open descriptors are
  those after the probe and, for each buffer the kernel has exported since, one more: every file
  that an event handler opens it closes again.
\<close>

theorem rounds_close_files:
  assumes "mi0283qt_probe os junk init_state = Some ((0, Some m), w0)" and "loop_reach os m w0 w"
  shows "\<exists>M. open_fds os w = open_fds os w0 + M \<and> exported os w = exported os w0 + M"
  using loop_fds [OF assms(2)] probe_any [OF assms(1)] unfolding same_fds_def by blast

theorem rounds_close_files_witness:
  "\<exists>m w0 w M. mi0283qt_probe os1 REGMAP_ENDIAN_DEFAULT init_state = Some ((0, Some m), w0) \<and>
    loop_step os1 m w0 w \<and> open_fds os1 w = open_fds os1 w0 + M \<and> exported os1 w = exported os1 w0 + M"
proof -
  obtain m wb fd w0 where p: "mi0283qt_probe os1 REGMAP_ENDIAN_DEFAULT init_state = Some ((0, Some m), w0)"
    "probed os1 fd m wb w0"
    using panel1 by blast
  have "driver_map os1 m" "\<not> prepared w0" using probe_any [OF p(1)] p(2) by (simp_all add: probed_def)
  then obtain w where "main_round os1 m w0 = Some ((None, True), w)"
    using round1 [OF probed_session [OF p(2) os1_dev]] by blast
  then have st: "loop_step os1 m w0 w" by (rule loop_step.round)
  then have "loop_reach os1 m w0 w" using loop_reach.start loop_reach.more by blast
  from rounds_close_files [OF p(1) this] p(1) st show ?thesis by blast
qed

text \<open>
  C39. The descriptor of a framebuffer's buffer is never closed: after the framebuffer was created
  and destroyed again, it is still open.
\<close>

theorem framebuffer_leaks_descriptor:
  assumes "utinydrm_fb_create os i w = Some (r1, w1)" and "fbs w1 \<noteq> fbs w"
    and "utinydrm_fb_destroy os i w1 = Some (r2, w2)"
  shows "fb_id (hd (fbs w1)) = i \<and> open_fds os w2 = add_mset (fb_buf_fd (hd (fbs w1))) (open_fds os w)"
  using fb_create_fds [OF assms(1,2)] fb_destroy_fds [OF assms(3)] by auto

theorem framebuffer_leaks_descriptor_witness:
  "\<exists>w1 w2. utinydrm_fb_create os1 7 init_state = Some (0, w1) \<and>
    utinydrm_fb_destroy os1 7 w1 = Some (0, w2) \<and>
    open_fds os1 w2 = add_mset (fb_buf_fd (hd (fbs w1))) (open_fds os1 init_state)"
proof -
  obtain h fd b w0 where c: "utinydrm_fb_create os1 7 init_state =
      Some (0, w0\<lparr>fbs := made_fb 7 (os_fb os1 h) fd (Ptr b 0) (udev_fb_funcs init_state) # fbs init_state\<rparr>)"
    using fb_create_ok [OF os1_good, of 7 init_state] by blast
  define w1 where "w1 = w0\<lparr>fbs := made_fb 7 (os_fb os1 h) fd (Ptr b 0) (udev_fb_funcs init_state) # fbs init_state\<rparr>"
  have f: "fbs w1 = [made_fb 7 (os_fb os1 h) fd (Ptr b 0) False]" by (simp add: w1_def init_state_def)
  obtain w2 where d: "utinydrm_fb_destroy os1 7 w1 = Some (0, w2)"
    using fb_destroy_returns [of 7 w1 os1] f by (auto simp: made_fb_def)
  have "fbs w1 \<noteq> fbs init_state" using f by (simp add: init_state_def)
  from framebuffer_leaks_descriptor [OF c [folded w1_def] this d] c [folded w1_def] d
  show ?thesis by (intro exI [of _ w1] exI [of _ w2]) simp
qed

end
